(* ===== verification/OC_Prelude.thy ===== *)
theory OC_Prelude
  imports Main "HOL-Library.Word"
begin

text \<open>
  The prelude of the OpenChime development: the machine integers of the C sources as
  words, byte strings, the big-endian encodings of \<^verbatim>\<open>shared/protocol.c\<close> and the bit-level
  facts about them, and the rule collections the component theories extend.

  A C \<^verbatim>\<open>uint8_t\<close>, \<^verbatim>\<open>uint16_t\<close>, \<^verbatim>\<open>uint32_t\<close>, \<^verbatim>\<open>uint64_t\<close> is an 8, 16, 32 or 64 bit word;
  a \<^verbatim>\<open>size_t\<close> that only ever counts bytes of a buffer is a \<open>nat\<close>; an \<^verbatim>\<open>oc_slice\<close> (pointer
  and length) is the list of bytes it points to.
\<close>

unbundle bit_operations_syntax

type_synonym u8 = "8 word"
type_synonym u16 = "16 word"
type_synonym u32 = "32 word"
type_synonym u64 = "64 word"
type_synonym oc_slice = "u8 list"

named_theorems wire_writes \<open>which bytes a write step appends\<close>
named_theorems wire_reads \<open>a read step on a positioned reader, as a parser of the bytes ahead\<close>
named_theorems wire_views \<open>the parsers of the bytes ahead, inverted\<close>
named_theorems wire_binds \<open>a successful read, inverted: which bytes it consumed\<close>
named_theorems entry_defs \<open>the definitions of list entries\<close>
named_theorems codec_defs \<open>the encoders, decoders and payloads of the message types\<close>

section \<open>Big-endian integers\<close>

text \<open>
  The bytes an integer is written as (the shifts and casts of \<^verbatim>\<open>oc_w_u16\<close>, \<^verbatim>\<open>oc_w_u32\<close>,
  \<^verbatim>\<open>oc_w_u64\<close>) and the integer read back from the bytes at the front of a list (the shifts
  and ors of \<^verbatim>\<open>oc_r_u16\<close>, \<^verbatim>\<open>oc_r_u32\<close>, \<^verbatim>\<open>oc_r_u64\<close>).
\<close>

definition be16 :: "u16 \<Rightarrow> u8 list" where
  "be16 v = [ucast (drop_bit 8 v), ucast v]"

definition be32 :: "u32 \<Rightarrow> u8 list" where
  "be32 v = [ucast (drop_bit 24 v), ucast (drop_bit 16 v), ucast (drop_bit 8 v), ucast v]"

definition be64 :: "u64 \<Rightarrow> u8 list" where
  "be64 v = [ucast (drop_bit 56 v), ucast (drop_bit 48 v), ucast (drop_bit 40 v),
     ucast (drop_bit 32 v), ucast (drop_bit 24 v), ucast (drop_bit 16 v),
     ucast (drop_bit 8 v), ucast v]"

fun rd16 :: "u8 list \<Rightarrow> u16" where
  "rd16 (a # b # _) = push_bit 8 (ucast a) OR ucast b"
| "rd16 _ = 0"

fun rd32 :: "u8 list \<Rightarrow> u32" where
  "rd32 (a # b # c # d # _) =
     push_bit 24 (ucast a) OR push_bit 16 (ucast b) OR push_bit 8 (ucast c) OR ucast d"
| "rd32 _ = 0"

fun rd64 :: "u8 list \<Rightarrow> u64" where
  "rd64 (a # b # c # d # e # f # g # h # _) =
     push_bit 56 (ucast a) OR push_bit 48 (ucast b) OR push_bit 40 (ucast c) OR
     push_bit 32 (ucast d) OR push_bit 24 (ucast e) OR push_bit 16 (ucast f) OR
     push_bit 8 (ucast g) OR ucast h"
| "rd64 _ = 0"

lemma length_be [simp]:
  "length (be16 v) = 2" "length (be32 w) = 4" "length (be64 x) = 8"
  by (simp_all add: be16_def be32_def be64_def)

text \<open>Reassembling a word byte by byte, from the top.\<close>

lemma be_not_Nil [simp]: "be16 v \<noteq> []" "be32 v' \<noteq> []" "be64 v'' \<noteq> []"
  by (simp_all add: be16_def be32_def be64_def)

lemma byte_top:
  fixes v :: "'a::len word"
  assumes "k + 8 = LENGTH('a)"
  shows "push_bit k (ucast (ucast (drop_bit k v) :: u8)) = push_bit k (drop_bit k v)"
  using assms by (intro bit_word_eqI) (auto simp: bit_simps)

lemma byte_step:
  fixes v :: "'a::len word"
  shows "push_bit (k + 8) (drop_bit (k + 8) v) OR push_bit k (ucast (ucast (drop_bit k v) :: u8))
    = push_bit k (drop_bit k v)"
proof (rule bit_word_eqI)
  fix n
  assume "n < LENGTH('a)"
  then show "bit (push_bit (k + 8) (drop_bit (k + 8) v) OR
      push_bit k (ucast (ucast (drop_bit k v) :: u8))) n = bit (push_bit k (drop_bit k v)) n"
    by (cases "k + 8 \<le> n") (auto simp: bit_simps)
qed

lemmas byte_steps =
  byte_step [of 48, simplified] byte_step [of 40, simplified] byte_step [of 32, simplified]
  byte_step [of 24, simplified] byte_step [of 16, simplified] byte_step [of 8, simplified]
  byte_step [of 0, simplified]

lemma rd16_be16 [simp]: "rd16 (be16 v @ xs) = v"
  using byte_top [of 8 v] by (simp add: be16_def byte_steps)

lemma rd32_be32 [simp]: "rd32 (be32 v @ xs) = v"
  using byte_top [of 24 v] by (simp add: be32_def byte_steps flip: or.assoc)

lemma rd64_be64 [simp]: "rd64 (be64 v @ xs) = v"
  using byte_top [of 56 v] by (simp add: be64_def byte_steps flip: or.assoc)

lemma be16_inject [simp]: "be16 v = be16 v' \<longleftrightarrow> v = v'"
  by (metis append_Nil2 rd16_be16)

lemma be32_inject [simp]: "be32 v = be32 v' \<longleftrightarrow> v = v'"
  by (metis append_Nil2 rd32_be32)

lemma be64_inject [simp]: "be64 v = be64 v' \<longleftrightarrow> v = v'"
  by (metis append_Nil2 rd64_be64)

text \<open>Splitting the reassembled word again gives the bytes it was read from.\<close>

lemma less_8_cases:
  "n < (8::nat) \<longleftrightarrow> n = 0 \<or> n = 1 \<or> n = 2 \<or> n = 3 \<or> n = 4 \<or> n = 5 \<or> n = 6 \<or> n = 7"
  by auto

lemma u8_eqI: "(\<And>n. n < 8 \<Longrightarrow> bit a n = bit b n) \<Longrightarrow> a = (b :: u8)"
  by (rule bit_word_eqI) simp

lemma u8_bit_high [simp]: "8 \<le> n \<Longrightarrow> \<not> bit (x :: u8) n"
  using bit_imp_le_length [of x n] by auto

lemma be16_rd16: "be16 (rd16 (a # b # xs)) = [a, b]"
  by (simp add: be16_def, intro conjI; rule u8_eqI; simp only: less_8_cases; elim disjE;
      simp add: bit_simps)

lemma be32_rd32: "be32 (rd32 (a # b # c # d # xs)) = [a, b, c, d]"
  by (simp add: be32_def, intro conjI; rule u8_eqI; simp only: less_8_cases; elim disjE;
      simp add: bit_simps)

lemma be64_rd64: "be64 (rd64 (a # b # c # d # e # f # g # h # xs)) = [a, b, c, d, e, f, g, h]"
  by (simp add: be64_def, intro conjI; rule u8_eqI; simp only: less_8_cases; elim disjE;
      simp add: bit_simps)

lemma be16_rd16_take: "2 \<le> length bs \<Longrightarrow> be16 (rd16 bs) = take 2 bs"
  by (auto simp: be16_rd16 numeral_2_eq_2 Suc_le_length_iff simp del: rd16.simps)

lemma be32_rd32_take: "4 \<le> length bs \<Longrightarrow> be32 (rd32 bs) = take 4 bs"
  by (auto simp: be32_rd32 numeral_eq_Suc Suc_le_length_iff simp del: rd32.simps)

lemma be64_rd64_take: "8 \<le> length bs \<Longrightarrow> be64 (rd64 bs) = take 8 bs"
  by (auto simp: be64_rd64 numeral_eq_Suc Suc_le_length_iff simp del: rd64.simps)

section \<open>Words and lengths\<close>

lemma unat_of_nat8 [simp]: "n \<le> 0xFF \<Longrightarrow> unat (of_nat n :: u8) = n"
  by (simp add: unsigned_of_nat take_bit_nat_eq_self)

lemma unat_of_nat16 [simp]: "n \<le> 0xFFFF \<Longrightarrow> unat (of_nat n :: u16) = n"
  by (simp add: unsigned_of_nat take_bit_nat_eq_self)

lemma unat_of_nat32 [simp]: "n \<le> 0xFFFFFFFF \<Longrightarrow> unat (of_nat n :: u32) = n"
  by (simp add: unsigned_of_nat take_bit_nat_eq_self)

lemma unat_u8_bound [simp]: "unat (n :: u8) \<le> 0xFF"
  using unsigned_less [of n, where 'a = nat] by simp

lemma unat_u16_bound [simp]: "unat (n :: u16) \<le> 0xFFFF"
  using unsigned_less [of n, where 'a = nat] by simp

lemma unat_u32_bound [simp]: "unat (n :: u32) \<le> 0xFFFFFFFF"
  using unsigned_less [of n, where 'a = nat] by simp

lemma list_all_True [simp]: "list_all (\<lambda>_. True) xs"
  by (simp add: list_all_iff)

end
