(* ===== verification/Protocol_Constants.thy ===== *)
theory Protocol_Constants
  imports OC_Prelude
begin

text \<open>
  The numbers of \<^verbatim>\<open>shared/protocol.h\<close>: protocol versions, the message types and the error codes,
  as abbreviations so that a frame's type is its number; the two enumerations as lists in
  the order of the header; and the text the clients show for an error code.
\<close>

section \<open>Versions\<close>

abbreviation OC_PROTOCOL_VERSION :: u16 where "OC_PROTOCOL_VERSION \<equiv> 33"
abbreviation OC_HANDSHAKE_VERSION :: u16 where "OC_HANDSHAKE_VERSION \<equiv> 1"

section \<open>Message types\<close>

abbreviation OC_MSG_HELLO :: u16 where "OC_MSG_HELLO \<equiv> 0x0001"
abbreviation OC_MSG_WELCOME :: u16 where "OC_MSG_WELCOME \<equiv> 0x0002"
abbreviation OC_MSG_REJECT :: u16 where "OC_MSG_REJECT \<equiv> 0x0003"
abbreviation OC_MSG_AUTH :: u16 where "OC_MSG_AUTH \<equiv> 0x0010"
abbreviation OC_MSG_AUTH_OK :: u16 where "OC_MSG_AUTH_OK \<equiv> 0x0011"
abbreviation OC_MSG_AUTH_CHALLENGE :: u16 where "OC_MSG_AUTH_CHALLENGE \<equiv> 0x0012"
abbreviation OC_MSG_LOGOUT :: u16 where "OC_MSG_LOGOUT \<equiv> 0x0013"
abbreviation OC_MSG_WORKSPACE_INFO :: u16 where "OC_MSG_WORKSPACE_INFO \<equiv> 0x0014"
abbreviation OC_MSG_AUTH_BEGIN :: u16 where "OC_MSG_AUTH_BEGIN \<equiv> 0x0015"
abbreviation OC_MSG_AUTH_REDIRECT :: u16 where "OC_MSG_AUTH_REDIRECT \<equiv> 0x0016"
abbreviation OC_MSG_AUTH_CONTINUE :: u16 where "OC_MSG_AUTH_CONTINUE \<equiv> 0x0017"
abbreviation OC_MSG_AUTH_DEVICE_BEGIN :: u16 where "OC_MSG_AUTH_DEVICE_BEGIN \<equiv> 0x0018"
abbreviation OC_MSG_AUTH_DEVICE :: u16 where "OC_MSG_AUTH_DEVICE \<equiv> 0x0019"
abbreviation OC_MSG_AUTH_DEVICE_POLL :: u16 where "OC_MSG_AUTH_DEVICE_POLL \<equiv> 0x001A"
abbreviation OC_MSG_AUTH_DEVICE_TOKEN :: u16 where "OC_MSG_AUTH_DEVICE_TOKEN \<equiv> 0x001B"
abbreviation OC_MSG_WORKSPACE_ADDRESS :: u16 where "OC_MSG_WORKSPACE_ADDRESS \<equiv> 0x001C"
abbreviation OC_MSG_RESET_CREDENTIAL :: u16 where "OC_MSG_RESET_CREDENTIAL \<equiv> 0x001D"
abbreviation OC_MSG_CREDENTIAL_RESET :: u16 where "OC_MSG_CREDENTIAL_RESET \<equiv> 0x001E"
abbreviation OC_MSG_ENABLE_USER :: u16 where "OC_MSG_ENABLE_USER \<equiv> 0x001F"
abbreviation OC_MSG_SEND :: u16 where "OC_MSG_SEND \<equiv> 0x0020"
abbreviation OC_MSG_SEND_ACK :: u16 where "OC_MSG_SEND_ACK \<equiv> 0x0021"
abbreviation OC_MSG_BROADCAST :: u16 where "OC_MSG_BROADCAST \<equiv> 0x0022"
abbreviation OC_MSG_CLIENT_ACK :: u16 where "OC_MSG_CLIENT_ACK \<equiv> 0x0023"
abbreviation OC_MSG_EDIT :: u16 where "OC_MSG_EDIT \<equiv> 0x0024"
abbreviation OC_MSG_DELETE :: u16 where "OC_MSG_DELETE \<equiv> 0x0025"
abbreviation OC_MSG_MSG_EDITED :: u16 where "OC_MSG_MSG_EDITED \<equiv> 0x0026"
abbreviation OC_MSG_MSG_DELETED :: u16 where "OC_MSG_MSG_DELETED \<equiv> 0x0027"
abbreviation OC_MSG_REACT :: u16 where "OC_MSG_REACT \<equiv> 0x0028"
abbreviation OC_MSG_REACTION_UPDATED :: u16 where "OC_MSG_REACTION_UPDATED \<equiv> 0x0029"
abbreviation OC_MSG_LIST_REACTIONS :: u16 where "OC_MSG_LIST_REACTIONS \<equiv> 0x002A"
abbreviation OC_MSG_REACTIONS :: u16 where "OC_MSG_REACTIONS \<equiv> 0x002B"
abbreviation OC_MSG_SEND_REPLY :: u16 where "OC_MSG_SEND_REPLY \<equiv> 0x002C"
abbreviation OC_MSG_THREAD_REPLY :: u16 where "OC_MSG_THREAD_REPLY \<equiv> 0x002D"
abbreviation OC_MSG_LIST_THREAD :: u16 where "OC_MSG_LIST_THREAD \<equiv> 0x002E"
abbreviation OC_MSG_THREAD :: u16 where "OC_MSG_THREAD \<equiv> 0x002F"
abbreviation OC_MSG_THREAD_META :: u16 where "OC_MSG_THREAD_META \<equiv> 0x0032"
abbreviation OC_MSG_READ_CURSOR :: u16 where "OC_MSG_READ_CURSOR \<equiv> 0x0033"
abbreviation OC_MSG_HISTORY_REQUEST :: u16 where "OC_MSG_HISTORY_REQUEST \<equiv> 0x0034"
abbreviation OC_MSG_HISTORY_AROUND :: u16 where "OC_MSG_HISTORY_AROUND \<equiv> 0x006A"
abbreviation OC_MSG_PIN :: u16 where "OC_MSG_PIN \<equiv> 0x0035"
abbreviation OC_MSG_PIN_UPDATED :: u16 where "OC_MSG_PIN_UPDATED \<equiv> 0x0036"
abbreviation OC_MSG_LIST_PINS :: u16 where "OC_MSG_LIST_PINS \<equiv> 0x0037"
abbreviation OC_MSG_PINNED_MSG :: u16 where "OC_MSG_PINNED_MSG \<equiv> 0x0038"
abbreviation OC_MSG_PINS :: u16 where "OC_MSG_PINS \<equiv> 0x0039"
abbreviation OC_MSG_LIST_MEMBERS :: u16 where "OC_MSG_LIST_MEMBERS \<equiv> 0x003A"
abbreviation OC_MSG_MEMBER_ENTRY :: u16 where "OC_MSG_MEMBER_ENTRY \<equiv> 0x003B"
abbreviation OC_MSG_MEMBERS :: u16 where "OC_MSG_MEMBERS \<equiv> 0x003C"
abbreviation OC_MSG_LIST_FILES :: u16 where "OC_MSG_LIST_FILES \<equiv> 0x003D"
abbreviation OC_MSG_FILE_ENTRY :: u16 where "OC_MSG_FILE_ENTRY \<equiv> 0x003E"
abbreviation OC_MSG_FILES :: u16 where "OC_MSG_FILES \<equiv> 0x003F"
abbreviation OC_MSG_CREATE_CHANNEL :: u16 where "OC_MSG_CREATE_CHANNEL \<equiv> 0x0050"
abbreviation OC_MSG_CHANNEL_INFO :: u16 where "OC_MSG_CHANNEL_INFO \<equiv> 0x0051"
abbreviation OC_MSG_LIST_CHANNELS :: u16 where "OC_MSG_LIST_CHANNELS \<equiv> 0x0052"
abbreviation OC_MSG_CHANNEL_LIST :: u16 where "OC_MSG_CHANNEL_LIST \<equiv> 0x0053"
abbreviation OC_MSG_JOIN_CHANNEL :: u16 where "OC_MSG_JOIN_CHANNEL \<equiv> 0x0054"
abbreviation OC_MSG_LEAVE_CHANNEL :: u16 where "OC_MSG_LEAVE_CHANNEL \<equiv> 0x0055"
abbreviation OC_MSG_INVITE_TO_CHANNEL :: u16 where "OC_MSG_INVITE_TO_CHANNEL \<equiv> 0x0056"
abbreviation OC_MSG_REMOVE_FROM_CHANNEL :: u16 where "OC_MSG_REMOVE_FROM_CHANNEL \<equiv> 0x0057"
abbreviation OC_MSG_OPEN_DM :: u16 where "OC_MSG_OPEN_DM \<equiv> 0x0058"
abbreviation OC_MSG_CREATE_WEBHOOK :: u16 where "OC_MSG_CREATE_WEBHOOK \<equiv> 0x0059"
abbreviation OC_MSG_WEBHOOK_INFO :: u16 where "OC_MSG_WEBHOOK_INFO \<equiv> 0x005A"
abbreviation OC_MSG_LIST_WEBHOOKS :: u16 where "OC_MSG_LIST_WEBHOOKS \<equiv> 0x005B"
abbreviation OC_MSG_WEBHOOK_LIST :: u16 where "OC_MSG_WEBHOOK_LIST \<equiv> 0x005C"
abbreviation OC_MSG_DELETE_WEBHOOK :: u16 where "OC_MSG_DELETE_WEBHOOK \<equiv> 0x005D"
abbreviation OC_MSG_WEBHOOK_DELETED :: u16 where "OC_MSG_WEBHOOK_DELETED \<equiv> 0x005E"
abbreviation OC_MSG_UPDATE_CHANNEL :: u16 where "OC_MSG_UPDATE_CHANNEL \<equiv> 0x005F"
abbreviation OC_MSG_SET_NOTIFY_DEFAULT :: u16 where "OC_MSG_SET_NOTIFY_DEFAULT \<equiv> 0x0077"
abbreviation OC_MSG_SET_AVATAR :: u16 where "OC_MSG_SET_AVATAR \<equiv> 0x0078"
abbreviation OC_MSG_OPEN_GROUP_DM :: u16 where "OC_MSG_OPEN_GROUP_DM \<equiv> 0x0079"
abbreviation OC_MSG_ADD_EMOJI :: u16 where "OC_MSG_ADD_EMOJI \<equiv> 0x007A"
abbreviation OC_MSG_DELETE_EMOJI :: u16 where "OC_MSG_DELETE_EMOJI \<equiv> 0x007B"
abbreviation OC_MSG_LIST_EMOJI :: u16 where "OC_MSG_LIST_EMOJI \<equiv> 0x007C"
abbreviation OC_MSG_EMOJI_LIST :: u16 where "OC_MSG_EMOJI_LIST \<equiv> 0x007D"
abbreviation OC_MSG_LIST_SESSIONS :: u16 where "OC_MSG_LIST_SESSIONS \<equiv> 0x0075"
abbreviation OC_MSG_SESSION_LIST :: u16 where "OC_MSG_SESSION_LIST \<equiv> 0x0076"
abbreviation OC_MSG_LIST_FILE_CHANNELS :: u16 where "OC_MSG_LIST_FILE_CHANNELS \<equiv> 0x0073"
abbreviation OC_MSG_FILE_CHANNELS :: u16 where "OC_MSG_FILE_CHANNELS \<equiv> 0x0074"
abbreviation OC_MSG_SET_STATUS :: u16 where "OC_MSG_SET_STATUS \<equiv> 0x006F"
abbreviation OC_MSG_SET_PROFILE :: u16 where "OC_MSG_SET_PROFILE \<equiv> 0x00D8"
abbreviation OC_MSG_PROFILE_INFO :: u16 where "OC_MSG_PROFILE_INFO \<equiv> 0x0072"
abbreviation OC_MSG_SET_MUTE :: u16 where "OC_MSG_SET_MUTE \<equiv> 0x006D"
abbreviation OC_MSG_SET_READ_CURSOR :: u16 where "OC_MSG_SET_READ_CURSOR \<equiv> 0x006E"
abbreviation OC_MSG_SET_WEBHOOK_STATE :: u16 where "OC_MSG_SET_WEBHOOK_STATE \<equiv> 0x006B"
abbreviation OC_MSG_ROTATE_WEBHOOK :: u16 where "OC_MSG_ROTATE_WEBHOOK \<equiv> 0x006C"
abbreviation OC_MSG_SAVE_ITEM :: u16 where "OC_MSG_SAVE_ITEM \<equiv> 0x0062"
abbreviation OC_MSG_SAVED_UPDATED :: u16 where "OC_MSG_SAVED_UPDATED \<equiv> 0x0063"
abbreviation OC_MSG_LIST_SAVED :: u16 where "OC_MSG_LIST_SAVED \<equiv> 0x0064"
abbreviation OC_MSG_SAVED_MSG :: u16 where "OC_MSG_SAVED_MSG \<equiv> 0x0065"
abbreviation OC_MSG_SAVED :: u16 where "OC_MSG_SAVED \<equiv> 0x0066"
abbreviation OC_MSG_LIST_ACTIVITY :: u16 where "OC_MSG_LIST_ACTIVITY \<equiv> 0x0067"
abbreviation OC_MSG_ACTIVITY_ENTRY :: u16 where "OC_MSG_ACTIVITY_ENTRY \<equiv> 0x0068"
abbreviation OC_MSG_ACTIVITY :: u16 where "OC_MSG_ACTIVITY \<equiv> 0x0069"
abbreviation OC_MSG_SET_PRESENCE :: u16 where "OC_MSG_SET_PRESENCE \<equiv> 0x0070"
abbreviation OC_MSG_PRESENCE_UPDATE :: u16 where "OC_MSG_PRESENCE_UPDATE \<equiv> 0x0071"
abbreviation OC_MSG_TYPING :: u16 where "OC_MSG_TYPING \<equiv> 0x007E"
abbreviation OC_MSG_TYPING_UPDATE :: u16 where "OC_MSG_TYPING_UPDATE \<equiv> 0x007F"
abbreviation OC_MSG_UPLOAD_BEGIN :: u16 where "OC_MSG_UPLOAD_BEGIN \<equiv> 0x0080"
abbreviation OC_MSG_UPLOAD_READY :: u16 where "OC_MSG_UPLOAD_READY \<equiv> 0x0081"
abbreviation OC_MSG_UPLOAD_CHUNK :: u16 where "OC_MSG_UPLOAD_CHUNK \<equiv> 0x0082"
abbreviation OC_MSG_UPLOAD_ACK :: u16 where "OC_MSG_UPLOAD_ACK \<equiv> 0x0083"
abbreviation OC_MSG_UPLOAD_END :: u16 where "OC_MSG_UPLOAD_END \<equiv> 0x0084"
abbreviation OC_MSG_UPLOAD_OK :: u16 where "OC_MSG_UPLOAD_OK \<equiv> 0x0085"
abbreviation OC_MSG_DOWNLOAD_BEGIN :: u16 where "OC_MSG_DOWNLOAD_BEGIN \<equiv> 0x0086"
abbreviation OC_MSG_DOWNLOAD_INFO :: u16 where "OC_MSG_DOWNLOAD_INFO \<equiv> 0x0087"
abbreviation OC_MSG_DOWNLOAD_CHUNK :: u16 where "OC_MSG_DOWNLOAD_CHUNK \<equiv> 0x0088"
abbreviation OC_MSG_DOWNLOAD_END :: u16 where "OC_MSG_DOWNLOAD_END \<equiv> 0x0089"
abbreviation OC_MSG_TRANSFER_CANCEL :: u16 where "OC_MSG_TRANSFER_CANCEL \<equiv> 0x008A"
abbreviation OC_MSG_MARK_ALL_READ :: u16 where "OC_MSG_MARK_ALL_READ \<equiv> 0x008B"
abbreviation OC_MSG_GET_CHANNEL_DESCRIPTION :: u16 where "OC_MSG_GET_CHANNEL_DESCRIPTION \<equiv> 0x008C"
abbreviation OC_MSG_CHANNEL_DESCRIPTION :: u16 where "OC_MSG_CHANNEL_DESCRIPTION \<equiv> 0x008D"
abbreviation OC_MSG_REVOKE_SESSION :: u16 where "OC_MSG_REVOKE_SESSION \<equiv> 0x008E"
abbreviation OC_MSG_SET_NOTIFY_PREF :: u16 where "OC_MSG_SET_NOTIFY_PREF \<equiv> 0x0090"
abbreviation OC_MSG_LIST_NOTIFY_PREFS :: u16 where "OC_MSG_LIST_NOTIFY_PREFS \<equiv> 0x0092"
abbreviation OC_MSG_NOTIFY_PREFS :: u16 where "OC_MSG_NOTIFY_PREFS \<equiv> 0x0093"
abbreviation OC_MSG_SET_CLIENT_SETTING :: u16 where "OC_MSG_SET_CLIENT_SETTING \<equiv> 0x0094"
abbreviation OC_MSG_LIST_CLIENT_SETTINGS :: u16 where "OC_MSG_LIST_CLIENT_SETTINGS \<equiv> 0x0095"
abbreviation OC_MSG_CLIENT_SETTINGS :: u16 where "OC_MSG_CLIENT_SETTINGS \<equiv> 0x0096"
abbreviation OC_MSG_STORAGE_STATUS_REQ :: u16 where "OC_MSG_STORAGE_STATUS_REQ \<equiv> 0x0097"
abbreviation OC_MSG_STORAGE_STATUS :: u16 where "OC_MSG_STORAGE_STATUS \<equiv> 0x0098"
abbreviation OC_MSG_AUDIT_QUERY :: u16 where "OC_MSG_AUDIT_QUERY \<equiv> 0x0099"
abbreviation OC_MSG_AUDIT_PAGE :: u16 where "OC_MSG_AUDIT_PAGE \<equiv> 0x009A"
abbreviation OC_MSG_CALL_JOIN :: u16 where "OC_MSG_CALL_JOIN \<equiv> 0x00A0"
abbreviation OC_MSG_CALL_LEAVE :: u16 where "OC_MSG_CALL_LEAVE \<equiv> 0x00A1"
abbreviation OC_MSG_CALL_JOINED :: u16 where "OC_MSG_CALL_JOINED \<equiv> 0x00A2"
abbreviation OC_MSG_CALL_ROSTER :: u16 where "OC_MSG_CALL_ROSTER \<equiv> 0x00A3"
abbreviation OC_MSG_CALL_INVITE :: u16 where "OC_MSG_CALL_INVITE \<equiv> 0x00A4"
abbreviation OC_MSG_CALL_DECLINE :: u16 where "OC_MSG_CALL_DECLINE \<equiv> 0x00A5"
abbreviation OC_MSG_CALL_END :: u16 where "OC_MSG_CALL_END \<equiv> 0x00A6"
abbreviation OC_MSG_CALL_STATE :: u16 where "OC_MSG_CALL_STATE \<equiv> 0x00A7"
abbreviation OC_MSG_CALL_KEY :: u16 where "OC_MSG_CALL_KEY \<equiv> 0x00A8"
abbreviation OC_MSG_CALL_KEY_FOR :: u16 where "OC_MSG_CALL_KEY_FOR \<equiv> 0x00A9"
abbreviation OC_MSG_CALL_SHARE :: u16 where "OC_MSG_CALL_SHARE \<equiv> 0x00AA"
abbreviation OC_MSG_CALL_MEDIA :: u16 where "OC_MSG_CALL_MEDIA \<equiv> 0x00AB"
abbreviation OC_MSG_REGISTER_DEVICE_TOKEN :: u16 where "OC_MSG_REGISTER_DEVICE_TOKEN \<equiv> 0x00B0"
abbreviation OC_MSG_UNREGISTER_DEVICE_TOKEN :: u16 where "OC_MSG_UNREGISTER_DEVICE_TOKEN \<equiv> 0x00B1"
abbreviation OC_MSG_DEVICE_TOKEN_ACK :: u16 where "OC_MSG_DEVICE_TOKEN_ACK \<equiv> 0x00B2"
abbreviation OC_MSG_MENTION_UNRESOLVED :: u16 where "OC_MSG_MENTION_UNRESOLVED \<equiv> 0x00B3"
abbreviation OC_MSG_SET_DRAFT :: u16 where "OC_MSG_SET_DRAFT \<equiv> 0x00C0"
abbreviation OC_MSG_LIST_DRAFTS :: u16 where "OC_MSG_LIST_DRAFTS \<equiv> 0x00C1"
abbreviation OC_MSG_DRAFT :: u16 where "OC_MSG_DRAFT \<equiv> 0x00C2"
abbreviation OC_MSG_DRAFTS :: u16 where "OC_MSG_DRAFTS \<equiv> 0x00C3"
abbreviation OC_MSG_SCHEDULE_MESSAGE :: u16 where "OC_MSG_SCHEDULE_MESSAGE \<equiv> 0x00C4"
abbreviation OC_MSG_LIST_SCHEDULED :: u16 where "OC_MSG_LIST_SCHEDULED \<equiv> 0x00C5"
abbreviation OC_MSG_CANCEL_SCHEDULED :: u16 where "OC_MSG_CANCEL_SCHEDULED \<equiv> 0x00C6"
abbreviation OC_MSG_UPDATE_SCHEDULED :: u16 where "OC_MSG_UPDATE_SCHEDULED \<equiv> 0x00C7"
abbreviation OC_MSG_SCHEDULED :: u16 where "OC_MSG_SCHEDULED \<equiv> 0x00C8"
abbreviation OC_MSG_SCHEDULED_LIST :: u16 where "OC_MSG_SCHEDULED_LIST \<equiv> 0x00C9"
abbreviation OC_MSG_SET_SNOOZE :: u16 where "OC_MSG_SET_SNOOZE \<equiv> 0x00CA"
abbreviation OC_MSG_SNOOZE :: u16 where "OC_MSG_SNOOZE \<equiv> 0x00CB"
abbreviation OC_MSG_SET_SCHEDULE :: u16 where "OC_MSG_SET_SCHEDULE \<equiv> 0x00CC"
abbreviation OC_MSG_SCHEDULE :: u16 where "OC_MSG_SCHEDULE \<equiv> 0x00CD"
abbreviation OC_MSG_SET_KEYWORDS :: u16 where "OC_MSG_SET_KEYWORDS \<equiv> 0x00CE"
abbreviation OC_MSG_SET_PRIORITY :: u16 where "OC_MSG_SET_PRIORITY \<equiv> 0x00CF"
abbreviation OC_MSG_ALERT_PREFS :: u16 where "OC_MSG_ALERT_PREFS \<equiv> 0x00D0"
abbreviation OC_MSG_LIST_THREADS :: u16 where "OC_MSG_LIST_THREADS \<equiv> 0x00D1"
abbreviation OC_MSG_THREAD_SUMMARY :: u16 where "OC_MSG_THREAD_SUMMARY \<equiv> 0x00D2"
abbreviation OC_MSG_THREADS :: u16 where "OC_MSG_THREADS \<equiv> 0x00D3"
abbreviation OC_MSG_SET_THREAD_FOLLOW :: u16 where "OC_MSG_SET_THREAD_FOLLOW \<equiv> 0x00D4"
abbreviation OC_MSG_MARK_THREAD_READ :: u16 where "OC_MSG_MARK_THREAD_READ \<equiv> 0x00D5"
abbreviation OC_MSG_SET_TZ_OFFSET :: u16 where "OC_MSG_SET_TZ_OFFSET \<equiv> 0x00D6"
abbreviation OC_MSG_UNFURL :: u16 where "OC_MSG_UNFURL \<equiv> 0x00D7"
abbreviation OC_MSG_FORWARD :: u16 where "OC_MSG_FORWARD \<equiv> 0x00D9"
abbreviation OC_MSG_ACTION :: u16 where "OC_MSG_ACTION \<equiv> 0x00FC"
abbreviation OC_MSG_ATTACH_MEDIA_SET :: u16 where "OC_MSG_ATTACH_MEDIA_SET \<equiv> 0x00DA"
abbreviation OC_MSG_ATTACH_MEDIA_OK :: u16 where "OC_MSG_ATTACH_MEDIA_OK \<equiv> 0x00DB"
abbreviation OC_MSG_TTS_INFO :: u16 where "OC_MSG_TTS_INFO \<equiv> 0x00DC"
abbreviation OC_MSG_AUDIO_GET :: u16 where "OC_MSG_AUDIO_GET \<equiv> 0x00DD"
abbreviation OC_MSG_AUDIO_INFO :: u16 where "OC_MSG_AUDIO_INFO \<equiv> 0x00DE"
abbreviation OC_MSG_AUDIO_CHUNK :: u16 where "OC_MSG_AUDIO_CHUNK \<equiv> 0x00DF"
abbreviation OC_MSG_AUDIO_END :: u16 where "OC_MSG_AUDIO_END \<equiv> 0x00E0"
abbreviation OC_MSG_CAPABILITIES :: u16 where "OC_MSG_CAPABILITIES \<equiv> 0x00E1"
abbreviation OC_MSG_VOICE_PREVIEW_GET :: u16 where "OC_MSG_VOICE_PREVIEW_GET \<equiv> 0x00E2"
abbreviation OC_MSG_STT_INFO :: u16 where "OC_MSG_STT_INFO \<equiv> 0x00E3"
abbreviation OC_MSG_STT_BEGIN :: u16 where "OC_MSG_STT_BEGIN \<equiv> 0x00E4"
abbreviation OC_MSG_STT_CHUNK :: u16 where "OC_MSG_STT_CHUNK \<equiv> 0x00E5"
abbreviation OC_MSG_STT_END :: u16 where "OC_MSG_STT_END \<equiv> 0x00E6"
abbreviation OC_MSG_STT_TEXT :: u16 where "OC_MSG_STT_TEXT \<equiv> 0x00E7"
abbreviation OC_MSG_LIST_GROUPS :: u16 where "OC_MSG_LIST_GROUPS \<equiv> 0x00E8"
abbreviation OC_MSG_CREATE_GROUP :: u16 where "OC_MSG_CREATE_GROUP \<equiv> 0x00E9"
abbreviation OC_MSG_UPDATE_GROUP :: u16 where "OC_MSG_UPDATE_GROUP \<equiv> 0x00EA"
abbreviation OC_MSG_DELETE_GROUP :: u16 where "OC_MSG_DELETE_GROUP \<equiv> 0x00EB"
abbreviation OC_MSG_GROUP_ADD_MEMBERS :: u16 where "OC_MSG_GROUP_ADD_MEMBERS \<equiv> 0x00EC"
abbreviation OC_MSG_GROUP_REMOVE_MEMBERS :: u16 where "OC_MSG_GROUP_REMOVE_MEMBERS \<equiv> 0x00ED"
abbreviation OC_MSG_GROUP_INFO :: u16 where "OC_MSG_GROUP_INFO \<equiv> 0x00EE"
abbreviation OC_MSG_GROUP_DELETED :: u16 where "OC_MSG_GROUP_DELETED \<equiv> 0x00EF"
abbreviation OC_MSG_GROUPS_END :: u16 where "OC_MSG_GROUPS_END \<equiv> 0x00F0"
abbreviation OC_MSG_CHANNEL_ADD_GROUP :: u16 where "OC_MSG_CHANNEL_ADD_GROUP \<equiv> 0x00F1"
abbreviation OC_MSG_CHANNEL_REMOVE_GROUP :: u16 where "OC_MSG_CHANNEL_REMOVE_GROUP \<equiv> 0x00F2"
abbreviation OC_MSG_CHANNEL_GROUPS :: u16 where "OC_MSG_CHANNEL_GROUPS \<equiv> 0x00F3"
abbreviation OC_MSG_CHANNEL_VIA_GROUP :: u16 where "OC_MSG_CHANNEL_VIA_GROUP \<equiv> 0x00F4"
abbreviation OC_MSG_MENTION_UNRESOLVED_MORE :: u16 where "OC_MSG_MENTION_UNRESOLVED_MORE \<equiv> 0x00F5"
abbreviation OC_MSG_ALERTS_SUMMARY :: u16 where "OC_MSG_ALERTS_SUMMARY \<equiv> 0x00F6"
abbreviation OC_MSG_ALERTS_LIST :: u16 where "OC_MSG_ALERTS_LIST \<equiv> 0x00F7"
abbreviation OC_MSG_ALERTS :: u16 where "OC_MSG_ALERTS \<equiv> 0x00F8"
abbreviation OC_MSG_ALERT_ACK :: u16 where "OC_MSG_ALERT_ACK \<equiv> 0x00F9"
abbreviation OC_MSG_RESTORE :: u16 where "OC_MSG_RESTORE \<equiv> 0x00FA"
abbreviation OC_MSG_MSG_RESTORED :: u16 where "OC_MSG_MSG_RESTORED \<equiv> 0x00FB"
abbreviation OC_MSG_SUMMARIZE :: u16 where "OC_MSG_SUMMARIZE \<equiv> 0x00FD"
abbreviation OC_MSG_SUMMARY :: u16 where "OC_MSG_SUMMARY \<equiv> 0x00FE"
abbreviation OC_MSG_SUMMARY_QUEUED :: u16 where "OC_MSG_SUMMARY_QUEUED \<equiv> 0x0100"
abbreviation OC_MSG_SUMMARY_DETACH :: u16 where "OC_MSG_SUMMARY_DETACH \<equiv> 0x0101"
abbreviation OC_MSG_SUMMARY_CANCEL :: u16 where "OC_MSG_SUMMARY_CANCEL \<equiv> 0x0102"
abbreviation OC_MSG_SUMMARY_READY :: u16 where "OC_MSG_SUMMARY_READY \<equiv> 0x0103"
abbreviation OC_MSG_SUMMARY_OPEN :: u16 where "OC_MSG_SUMMARY_OPEN \<equiv> 0x0104"
abbreviation OC_MSG_SUMMARY_DISMISS :: u16 where "OC_MSG_SUMMARY_DISMISS \<equiv> 0x0105"
abbreviation OC_MSG_SERVER_BUILD :: u16 where "OC_MSG_SERVER_BUILD \<equiv> 0x0106"
abbreviation OC_MSG_PDM_OPEN :: u16 where "OC_MSG_PDM_OPEN \<equiv> 0x0107"
abbreviation OC_MSG_PDM_OPENED :: u16 where "OC_MSG_PDM_OPENED \<equiv> 0x0108"
abbreviation OC_MSG_PDM_INVITE :: u16 where "OC_MSG_PDM_INVITE \<equiv> 0x0109"
abbreviation OC_MSG_PDM_HS :: u16 where "OC_MSG_PDM_HS \<equiv> 0x010A"
abbreviation OC_MSG_PDM_HS_FOR :: u16 where "OC_MSG_PDM_HS_FOR \<equiv> 0x010B"
abbreviation OC_MSG_PDM_SEND :: u16 where "OC_MSG_PDM_SEND \<equiv> 0x010C"
abbreviation OC_MSG_PDM_MSG :: u16 where "OC_MSG_PDM_MSG \<equiv> 0x010D"
abbreviation OC_MSG_PDM_END :: u16 where "OC_MSG_PDM_END \<equiv> 0x010E"
abbreviation OC_MSG_POST_POLL :: u16 where "OC_MSG_POST_POLL \<equiv> 0x010F"
abbreviation OC_MSG_VOTE :: u16 where "OC_MSG_VOTE \<equiv> 0x0110"
abbreviation OC_MSG_POLL :: u16 where "OC_MSG_POLL \<equiv> 0x0111"
abbreviation OC_MSG_LIST_POLL_VOTERS :: u16 where "OC_MSG_LIST_POLL_VOTERS \<equiv> 0x0112"
abbreviation OC_MSG_POLL_VOTERS :: u16 where "OC_MSG_POLL_VOTERS \<equiv> 0x0113"
abbreviation OC_MSG_EDIT_POLL :: u16 where "OC_MSG_EDIT_POLL \<equiv> 0x0114"
abbreviation OC_MSG_DEACTIVATE_SELF :: u16 where "OC_MSG_DEACTIVATE_SELF \<equiv> 0x0115"
abbreviation OC_MSG_GET_PROFILE :: u16 where "OC_MSG_GET_PROFILE \<equiv> 0x0116"
abbreviation OC_MSG_SET_COLLAPSED :: u16 where "OC_MSG_SET_COLLAPSED \<equiv> 0x0117"
abbreviation OC_MSG_COLLAPSED_UPDATED :: u16 where "OC_MSG_COLLAPSED_UPDATED \<equiv> 0x0118"
abbreviation OC_MSG_WORKSPACE_SETTINGS :: u16 where "OC_MSG_WORKSPACE_SETTINGS \<equiv> 0x0119"
abbreviation OC_MSG_READ_RECEIPTS :: u16 where "OC_MSG_READ_RECEIPTS \<equiv> 0x011A"
abbreviation OC_MSG_LIST_USERS :: u16 where "OC_MSG_LIST_USERS \<equiv> 0x0040"
abbreviation OC_MSG_USER_LIST :: u16 where "OC_MSG_USER_LIST \<equiv> 0x0041"
abbreviation OC_MSG_SET_ROLE :: u16 where "OC_MSG_SET_ROLE \<equiv> 0x0042"
abbreviation OC_MSG_INVITE_USER :: u16 where "OC_MSG_INVITE_USER \<equiv> 0x0043"
abbreviation OC_MSG_REMOVE_USER :: u16 where "OC_MSG_REMOVE_USER \<equiv> 0x0044"
abbreviation OC_MSG_USER_UPDATED :: u16 where "OC_MSG_USER_UPDATED \<equiv> 0x0045"
abbreviation OC_MSG_INVITE_CREATED :: u16 where "OC_MSG_INVITE_CREATED \<equiv> 0x0046"
abbreviation OC_MSG_SET_DISPLAY_NAME :: u16 where "OC_MSG_SET_DISPLAY_NAME \<equiv> 0x0048"
abbreviation OC_MSG_PROFILE_UPDATED :: u16 where "OC_MSG_PROFILE_UPDATED \<equiv> 0x004A"
abbreviation OC_MSG_LIST_INVITES :: u16 where "OC_MSG_LIST_INVITES \<equiv> 0x004B"
abbreviation OC_MSG_INVITE_LIST :: u16 where "OC_MSG_INVITE_LIST \<equiv> 0x004C"
abbreviation OC_MSG_REVOKE_INVITE :: u16 where "OC_MSG_REVOKE_INVITE \<equiv> 0x004D"
abbreviation OC_MSG_SET_EMAIL :: u16 where "OC_MSG_SET_EMAIL \<equiv> 0x004F"
abbreviation OC_MSG_INVITE_REVOKED :: u16 where "OC_MSG_INVITE_REVOKED \<equiv> 0x004E"
abbreviation OC_MSG_SEARCH :: u16 where "OC_MSG_SEARCH \<equiv> 0x0060"
abbreviation OC_MSG_SEARCH_RESULTS :: u16 where "OC_MSG_SEARCH_RESULTS \<equiv> 0x0061"
abbreviation OC_MSG_BACKFILL_REQUEST :: u16 where "OC_MSG_BACKFILL_REQUEST \<equiv> 0x0030"
abbreviation OC_MSG_BACKFILL_DONE :: u16 where "OC_MSG_BACKFILL_DONE \<equiv> 0x0031"
abbreviation OC_MSG_ERROR :: u16 where "OC_MSG_ERROR \<equiv> 0x00FF"

section \<open>Error codes\<close>

abbreviation OC_ERR_VERSION_TOO_OLD :: u16 where "OC_ERR_VERSION_TOO_OLD \<equiv> 1001"
abbreviation OC_ERR_VERSION_TOO_NEW :: u16 where "OC_ERR_VERSION_TOO_NEW \<equiv> 1002"
abbreviation OC_ERR_MALFORMED_FRAME :: u16 where "OC_ERR_MALFORMED_FRAME \<equiv> 1003"
abbreviation OC_ERR_FRAME_TOO_LARGE :: u16 where "OC_ERR_FRAME_TOO_LARGE \<equiv> 1004"
abbreviation OC_ERR_UNEXPECTED_MSG_TYPE :: u16 where "OC_ERR_UNEXPECTED_MSG_TYPE \<equiv> 1005"
abbreviation OC_ERR_VERSION_MISMATCH :: u16 where "OC_ERR_VERSION_MISMATCH \<equiv> 1006"
abbreviation OC_ERR_AUTH_REQUIRED :: u16 where "OC_ERR_AUTH_REQUIRED \<equiv> 2001"
abbreviation OC_ERR_AUTH_INVALID_TOKEN :: u16 where "OC_ERR_AUTH_INVALID_TOKEN \<equiv> 2002"
abbreviation OC_ERR_AUTH_RATE_LIMITED :: u16 where "OC_ERR_AUTH_RATE_LIMITED \<equiv> 2003"
abbreviation OC_ERR_USER_LIMIT :: u16 where "OC_ERR_USER_LIMIT \<equiv> 2004"
abbreviation OC_ERR_AUTH_SOURCE_UNAVAILABLE :: u16 where "OC_ERR_AUTH_SOURCE_UNAVAILABLE \<equiv> 2006"
abbreviation OC_ERR_AUTH_NOT_ALLOWED :: u16 where "OC_ERR_AUTH_NOT_ALLOWED \<equiv> 2005"
abbreviation OC_ERR_AUTH_PENDING :: u16 where "OC_ERR_AUTH_PENDING \<equiv> 2007"
abbreviation OC_ERR_AUTH_SLOW_DOWN :: u16 where "OC_ERR_AUTH_SLOW_DOWN \<equiv> 2008"
abbreviation OC_ERR_AUTH_EXPIRED :: u16 where "OC_ERR_AUTH_EXPIRED \<equiv> 2009"
abbreviation OC_ERR_AUTH_DENIED :: u16 where "OC_ERR_AUTH_DENIED \<equiv> 2010"
abbreviation OC_ERR_AUTH_USE_PROVIDER :: u16 where "OC_ERR_AUTH_USE_PROVIDER \<equiv> 2011"
abbreviation OC_ERR_AUTH_SETUP_REQUIRED :: u16 where "OC_ERR_AUTH_SETUP_REQUIRED \<equiv> 2012"
abbreviation OC_ERR_BODY_TOO_LARGE :: u16 where "OC_ERR_BODY_TOO_LARGE \<equiv> 3001"
abbreviation OC_ERR_NOT_A_MEMBER :: u16 where "OC_ERR_NOT_A_MEMBER \<equiv> 3002"
abbreviation OC_ERR_UNKNOWN_CHANNEL :: u16 where "OC_ERR_UNKNOWN_CHANNEL \<equiv> 3003"
abbreviation OC_ERR_SEND_RATE_LIMITED :: u16 where "OC_ERR_SEND_RATE_LIMITED \<equiv> 3004"
abbreviation OC_ERR_FORBIDDEN :: u16 where "OC_ERR_FORBIDDEN \<equiv> 3005"
abbreviation OC_ERR_LAST_OWNER :: u16 where "OC_ERR_LAST_OWNER \<equiv> 3006"
abbreviation OC_ERR_UNKNOWN_MESSAGE :: u16 where "OC_ERR_UNKNOWN_MESSAGE \<equiv> 3007"
abbreviation OC_ERR_INVALID_CHANNEL :: u16 where "OC_ERR_INVALID_CHANNEL \<equiv> 3008"
abbreviation OC_ERR_INVALID_REACTION :: u16 where "OC_ERR_INVALID_REACTION \<equiv> 3009"
abbreviation OC_ERR_ATTACHMENT_TOO_LARGE :: u16 where "OC_ERR_ATTACHMENT_TOO_LARGE \<equiv> 3010"
abbreviation OC_ERR_UNKNOWN_ATTACHMENT :: u16 where "OC_ERR_UNKNOWN_ATTACHMENT \<equiv> 3011"
abbreviation OC_ERR_STORAGE_FULL :: u16 where "OC_ERR_STORAGE_FULL \<equiv> 3012"
abbreviation OC_ERR_ATTACHMENT_GONE :: u16 where "OC_ERR_ATTACHMENT_GONE \<equiv> 3013"
abbreviation OC_ERR_INVALID_DEVICE_TOKEN :: u16 where "OC_ERR_INVALID_DEVICE_TOKEN \<equiv> 3014"
abbreviation OC_ERR_TRANSFER_PROTOCOL :: u16 where "OC_ERR_TRANSFER_PROTOCOL \<equiv> 3015"
abbreviation OC_ERR_UNKNOWN_WEBHOOK :: u16 where "OC_ERR_UNKNOWN_WEBHOOK \<equiv> 3016"
abbreviation OC_ERR_CHANNEL_EXISTS :: u16 where "OC_ERR_CHANNEL_EXISTS \<equiv> 3017"
abbreviation OC_ERR_TOO_MANY_PINS :: u16 where "OC_ERR_TOO_MANY_PINS \<equiv> 3018"
abbreviation OC_ERR_CHANNEL_ARCHIVED :: u16 where "OC_ERR_CHANNEL_ARCHIVED \<equiv> 3019"
abbreviation OC_ERR_INVALID_MESSAGE :: u16 where "OC_ERR_INVALID_MESSAGE \<equiv> 3020"
abbreviation OC_ERR_MEDIA_INVALID :: u16 where "OC_ERR_MEDIA_INVALID \<equiv> 3021"
abbreviation OC_ERR_MEDIA_TOO_LARGE :: u16 where "OC_ERR_MEDIA_TOO_LARGE \<equiv> 3022"
abbreviation OC_ERR_NOT_RENDERABLE :: u16 where "OC_ERR_NOT_RENDERABLE \<equiv> 3023"
abbreviation OC_ERR_TTS_UNAVAILABLE :: u16 where "OC_ERR_TTS_UNAVAILABLE \<equiv> 3024"
abbreviation OC_ERR_CALL_UNAVAILABLE :: u16 where "OC_ERR_CALL_UNAVAILABLE \<equiv> 3025"
abbreviation OC_ERR_SEGMENT_TOO_LONG :: u16 where "OC_ERR_SEGMENT_TOO_LONG \<equiv> 3026"
abbreviation OC_ERR_STT_UNAVAILABLE :: u16 where "OC_ERR_STT_UNAVAILABLE \<equiv> 3027"
abbreviation OC_ERR_CALL_FULL :: u16 where "OC_ERR_CALL_FULL \<equiv> 3028"
abbreviation OC_ERR_NOT_CALL_STARTER :: u16 where "OC_ERR_NOT_CALL_STARTER \<equiv> 3029"
abbreviation OC_ERR_NOT_IN_CALL :: u16 where "OC_ERR_NOT_IN_CALL \<equiv> 3030"
abbreviation OC_ERR_INVITE_UNREDEEMABLE :: u16 where "OC_ERR_INVITE_UNREDEEMABLE \<equiv> 3031"
abbreviation OC_ERR_GROUP_HANDLE_TAKEN :: u16 where "OC_ERR_GROUP_HANDLE_TAKEN \<equiv> 3032"
abbreviation OC_ERR_UNKNOWN_GROUP :: u16 where "OC_ERR_UNKNOWN_GROUP \<equiv> 3033"
abbreviation OC_ERR_MEMBER_VIA_GROUP :: u16 where "OC_ERR_MEMBER_VIA_GROUP \<equiv> 3034"
abbreviation OC_ERR_INVALID_GROUP :: u16 where "OC_ERR_INVALID_GROUP \<equiv> 3035"
abbreviation OC_ERR_SIGNUP_LIMITED :: u16 where "OC_ERR_SIGNUP_LIMITED \<equiv> 3036"
abbreviation OC_ERR_DEMO_LIMIT :: u16 where "OC_ERR_DEMO_LIMIT \<equiv> 3037"
abbreviation OC_ERR_INVALID_POLL :: u16 where "OC_ERR_INVALID_POLL \<equiv> 3038"
abbreviation OC_ERR_POLL_CLOSED :: u16 where "OC_ERR_POLL_CLOSED \<equiv> 3039"
abbreviation OC_ERR_POLL_HAS_VOTES :: u16 where "OC_ERR_POLL_HAS_VOTES \<equiv> 3040"
abbreviation OC_ERR_EDIT_WINDOW_CLOSED :: u16 where "OC_ERR_EDIT_WINDOW_CLOSED \<equiv> 3041"
abbreviation OC_ERR_WORKSPACE_SENDER :: u16 where "OC_ERR_WORKSPACE_SENDER \<equiv> 3042"
abbreviation OC_ERR_INTERNAL :: u16 where "OC_ERR_INTERNAL \<equiv> 9001"

section \<open>The enumerations\<close>

definition oc_msg_type :: "u16 list" where
  "oc_msg_type = [
     OC_MSG_HELLO, OC_MSG_WELCOME, OC_MSG_REJECT, OC_MSG_AUTH, OC_MSG_AUTH_OK,
     OC_MSG_AUTH_CHALLENGE, OC_MSG_LOGOUT, OC_MSG_WORKSPACE_INFO, OC_MSG_AUTH_BEGIN,
     OC_MSG_AUTH_REDIRECT, OC_MSG_AUTH_CONTINUE, OC_MSG_AUTH_DEVICE_BEGIN, OC_MSG_AUTH_DEVICE,
     OC_MSG_AUTH_DEVICE_POLL, OC_MSG_AUTH_DEVICE_TOKEN, OC_MSG_WORKSPACE_ADDRESS,
     OC_MSG_RESET_CREDENTIAL, OC_MSG_CREDENTIAL_RESET, OC_MSG_ENABLE_USER, OC_MSG_SEND,
     OC_MSG_SEND_ACK, OC_MSG_BROADCAST, OC_MSG_CLIENT_ACK, OC_MSG_EDIT, OC_MSG_DELETE,
     OC_MSG_MSG_EDITED, OC_MSG_MSG_DELETED, OC_MSG_REACT, OC_MSG_REACTION_UPDATED,
     OC_MSG_LIST_REACTIONS, OC_MSG_REACTIONS, OC_MSG_SEND_REPLY, OC_MSG_THREAD_REPLY,
     OC_MSG_LIST_THREAD, OC_MSG_THREAD, OC_MSG_THREAD_META, OC_MSG_READ_CURSOR,
     OC_MSG_HISTORY_REQUEST, OC_MSG_HISTORY_AROUND, OC_MSG_PIN, OC_MSG_PIN_UPDATED,
     OC_MSG_LIST_PINS, OC_MSG_PINNED_MSG, OC_MSG_PINS, OC_MSG_LIST_MEMBERS, OC_MSG_MEMBER_ENTRY,
     OC_MSG_MEMBERS, OC_MSG_LIST_FILES, OC_MSG_FILE_ENTRY, OC_MSG_FILES, OC_MSG_CREATE_CHANNEL,
     OC_MSG_CHANNEL_INFO, OC_MSG_LIST_CHANNELS, OC_MSG_CHANNEL_LIST, OC_MSG_JOIN_CHANNEL,
     OC_MSG_LEAVE_CHANNEL, OC_MSG_INVITE_TO_CHANNEL, OC_MSG_REMOVE_FROM_CHANNEL, OC_MSG_OPEN_DM,
     OC_MSG_CREATE_WEBHOOK, OC_MSG_WEBHOOK_INFO, OC_MSG_LIST_WEBHOOKS, OC_MSG_WEBHOOK_LIST,
     OC_MSG_DELETE_WEBHOOK, OC_MSG_WEBHOOK_DELETED, OC_MSG_UPDATE_CHANNEL,
     OC_MSG_SET_NOTIFY_DEFAULT, OC_MSG_SET_AVATAR, OC_MSG_OPEN_GROUP_DM, OC_MSG_ADD_EMOJI,
     OC_MSG_DELETE_EMOJI, OC_MSG_LIST_EMOJI, OC_MSG_EMOJI_LIST, OC_MSG_LIST_SESSIONS,
     OC_MSG_SESSION_LIST, OC_MSG_LIST_FILE_CHANNELS, OC_MSG_FILE_CHANNELS, OC_MSG_SET_STATUS,
     OC_MSG_SET_PROFILE, OC_MSG_PROFILE_INFO, OC_MSG_SET_MUTE, OC_MSG_SET_READ_CURSOR,
     OC_MSG_SET_WEBHOOK_STATE, OC_MSG_ROTATE_WEBHOOK, OC_MSG_SAVE_ITEM, OC_MSG_SAVED_UPDATED,
     OC_MSG_LIST_SAVED, OC_MSG_SAVED_MSG, OC_MSG_SAVED, OC_MSG_LIST_ACTIVITY,
     OC_MSG_ACTIVITY_ENTRY, OC_MSG_ACTIVITY, OC_MSG_SET_PRESENCE, OC_MSG_PRESENCE_UPDATE,
     OC_MSG_TYPING, OC_MSG_TYPING_UPDATE, OC_MSG_UPLOAD_BEGIN, OC_MSG_UPLOAD_READY,
     OC_MSG_UPLOAD_CHUNK, OC_MSG_UPLOAD_ACK, OC_MSG_UPLOAD_END, OC_MSG_UPLOAD_OK,
     OC_MSG_DOWNLOAD_BEGIN, OC_MSG_DOWNLOAD_INFO, OC_MSG_DOWNLOAD_CHUNK, OC_MSG_DOWNLOAD_END,
     OC_MSG_TRANSFER_CANCEL, OC_MSG_MARK_ALL_READ, OC_MSG_GET_CHANNEL_DESCRIPTION,
     OC_MSG_CHANNEL_DESCRIPTION, OC_MSG_REVOKE_SESSION, OC_MSG_SET_NOTIFY_PREF,
     OC_MSG_LIST_NOTIFY_PREFS, OC_MSG_NOTIFY_PREFS, OC_MSG_SET_CLIENT_SETTING,
     OC_MSG_LIST_CLIENT_SETTINGS, OC_MSG_CLIENT_SETTINGS, OC_MSG_STORAGE_STATUS_REQ,
     OC_MSG_STORAGE_STATUS, OC_MSG_AUDIT_QUERY, OC_MSG_AUDIT_PAGE, OC_MSG_CALL_JOIN,
     OC_MSG_CALL_LEAVE, OC_MSG_CALL_JOINED, OC_MSG_CALL_ROSTER, OC_MSG_CALL_INVITE,
     OC_MSG_CALL_DECLINE, OC_MSG_CALL_END, OC_MSG_CALL_STATE, OC_MSG_CALL_KEY,
     OC_MSG_CALL_KEY_FOR, OC_MSG_CALL_SHARE, OC_MSG_CALL_MEDIA, OC_MSG_REGISTER_DEVICE_TOKEN,
     OC_MSG_UNREGISTER_DEVICE_TOKEN, OC_MSG_DEVICE_TOKEN_ACK, OC_MSG_MENTION_UNRESOLVED,
     OC_MSG_SET_DRAFT, OC_MSG_LIST_DRAFTS, OC_MSG_DRAFT, OC_MSG_DRAFTS, OC_MSG_SCHEDULE_MESSAGE,
     OC_MSG_LIST_SCHEDULED, OC_MSG_CANCEL_SCHEDULED, OC_MSG_UPDATE_SCHEDULED, OC_MSG_SCHEDULED,
     OC_MSG_SCHEDULED_LIST, OC_MSG_SET_SNOOZE, OC_MSG_SNOOZE, OC_MSG_SET_SCHEDULE,
     OC_MSG_SCHEDULE, OC_MSG_SET_KEYWORDS, OC_MSG_SET_PRIORITY, OC_MSG_ALERT_PREFS,
     OC_MSG_LIST_THREADS, OC_MSG_THREAD_SUMMARY, OC_MSG_THREADS, OC_MSG_SET_THREAD_FOLLOW,
     OC_MSG_MARK_THREAD_READ, OC_MSG_SET_TZ_OFFSET, OC_MSG_UNFURL, OC_MSG_FORWARD, OC_MSG_ACTION,
     OC_MSG_ATTACH_MEDIA_SET, OC_MSG_ATTACH_MEDIA_OK, OC_MSG_TTS_INFO, OC_MSG_AUDIO_GET,
     OC_MSG_AUDIO_INFO, OC_MSG_AUDIO_CHUNK, OC_MSG_AUDIO_END, OC_MSG_CAPABILITIES,
     OC_MSG_VOICE_PREVIEW_GET, OC_MSG_STT_INFO, OC_MSG_STT_BEGIN, OC_MSG_STT_CHUNK,
     OC_MSG_STT_END, OC_MSG_STT_TEXT, OC_MSG_LIST_GROUPS, OC_MSG_CREATE_GROUP,
     OC_MSG_UPDATE_GROUP, OC_MSG_DELETE_GROUP, OC_MSG_GROUP_ADD_MEMBERS,
     OC_MSG_GROUP_REMOVE_MEMBERS, OC_MSG_GROUP_INFO, OC_MSG_GROUP_DELETED, OC_MSG_GROUPS_END,
     OC_MSG_CHANNEL_ADD_GROUP, OC_MSG_CHANNEL_REMOVE_GROUP, OC_MSG_CHANNEL_GROUPS,
     OC_MSG_CHANNEL_VIA_GROUP, OC_MSG_MENTION_UNRESOLVED_MORE, OC_MSG_ALERTS_SUMMARY,
     OC_MSG_ALERTS_LIST, OC_MSG_ALERTS, OC_MSG_ALERT_ACK, OC_MSG_RESTORE, OC_MSG_MSG_RESTORED,
     OC_MSG_SUMMARIZE, OC_MSG_SUMMARY, OC_MSG_SUMMARY_QUEUED, OC_MSG_SUMMARY_DETACH,
     OC_MSG_SUMMARY_CANCEL, OC_MSG_SUMMARY_READY, OC_MSG_SUMMARY_OPEN, OC_MSG_SUMMARY_DISMISS,
     OC_MSG_SERVER_BUILD, OC_MSG_PDM_OPEN, OC_MSG_PDM_OPENED, OC_MSG_PDM_INVITE, OC_MSG_PDM_HS,
     OC_MSG_PDM_HS_FOR, OC_MSG_PDM_SEND, OC_MSG_PDM_MSG, OC_MSG_PDM_END, OC_MSG_POST_POLL,
     OC_MSG_VOTE, OC_MSG_POLL, OC_MSG_LIST_POLL_VOTERS, OC_MSG_POLL_VOTERS, OC_MSG_EDIT_POLL,
     OC_MSG_DEACTIVATE_SELF, OC_MSG_GET_PROFILE, OC_MSG_SET_COLLAPSED, OC_MSG_COLLAPSED_UPDATED,
     OC_MSG_WORKSPACE_SETTINGS, OC_MSG_READ_RECEIPTS, OC_MSG_LIST_USERS, OC_MSG_USER_LIST,
     OC_MSG_SET_ROLE, OC_MSG_INVITE_USER, OC_MSG_REMOVE_USER, OC_MSG_USER_UPDATED,
     OC_MSG_INVITE_CREATED, OC_MSG_SET_DISPLAY_NAME, OC_MSG_PROFILE_UPDATED, OC_MSG_LIST_INVITES,
     OC_MSG_INVITE_LIST, OC_MSG_REVOKE_INVITE, OC_MSG_SET_EMAIL, OC_MSG_INVITE_REVOKED,
     OC_MSG_SEARCH, OC_MSG_SEARCH_RESULTS, OC_MSG_BACKFILL_REQUEST, OC_MSG_BACKFILL_DONE,
     OC_MSG_ERROR]"

definition oc_reason_code :: "u16 list" where
  "oc_reason_code = [
     OC_ERR_VERSION_TOO_OLD, OC_ERR_VERSION_TOO_NEW, OC_ERR_MALFORMED_FRAME,
     OC_ERR_FRAME_TOO_LARGE, OC_ERR_UNEXPECTED_MSG_TYPE, OC_ERR_VERSION_MISMATCH,
     OC_ERR_AUTH_REQUIRED, OC_ERR_AUTH_INVALID_TOKEN, OC_ERR_AUTH_RATE_LIMITED, OC_ERR_USER_LIMIT,
     OC_ERR_AUTH_SOURCE_UNAVAILABLE, OC_ERR_AUTH_NOT_ALLOWED, OC_ERR_AUTH_PENDING,
     OC_ERR_AUTH_SLOW_DOWN, OC_ERR_AUTH_EXPIRED, OC_ERR_AUTH_DENIED, OC_ERR_AUTH_USE_PROVIDER,
     OC_ERR_AUTH_SETUP_REQUIRED, OC_ERR_BODY_TOO_LARGE, OC_ERR_NOT_A_MEMBER,
     OC_ERR_UNKNOWN_CHANNEL, OC_ERR_SEND_RATE_LIMITED, OC_ERR_FORBIDDEN, OC_ERR_LAST_OWNER,
     OC_ERR_UNKNOWN_MESSAGE, OC_ERR_INVALID_CHANNEL, OC_ERR_INVALID_REACTION,
     OC_ERR_ATTACHMENT_TOO_LARGE, OC_ERR_UNKNOWN_ATTACHMENT, OC_ERR_STORAGE_FULL,
     OC_ERR_ATTACHMENT_GONE, OC_ERR_INVALID_DEVICE_TOKEN, OC_ERR_TRANSFER_PROTOCOL,
     OC_ERR_UNKNOWN_WEBHOOK, OC_ERR_CHANNEL_EXISTS, OC_ERR_TOO_MANY_PINS, OC_ERR_CHANNEL_ARCHIVED,
     OC_ERR_INVALID_MESSAGE, OC_ERR_MEDIA_INVALID, OC_ERR_MEDIA_TOO_LARGE, OC_ERR_NOT_RENDERABLE,
     OC_ERR_TTS_UNAVAILABLE, OC_ERR_CALL_UNAVAILABLE, OC_ERR_SEGMENT_TOO_LONG,
     OC_ERR_STT_UNAVAILABLE, OC_ERR_CALL_FULL, OC_ERR_NOT_CALL_STARTER, OC_ERR_NOT_IN_CALL,
     OC_ERR_INVITE_UNREDEEMABLE, OC_ERR_GROUP_HANDLE_TAKEN, OC_ERR_UNKNOWN_GROUP,
     OC_ERR_MEMBER_VIA_GROUP, OC_ERR_INVALID_GROUP, OC_ERR_SIGNUP_LIMITED, OC_ERR_DEMO_LIMIT,
     OC_ERR_INVALID_POLL, OC_ERR_POLL_CLOSED, OC_ERR_POLL_HAS_VOTES, OC_ERR_EDIT_WINDOW_CLOSED,
     OC_ERR_WORKSPACE_SENDER, OC_ERR_INTERNAL]"

definition oc_error_text :: "u16 \<Rightarrow> string option" where
  "oc_error_text code = map_of [
     (OC_ERR_VERSION_TOO_OLD, ''this app is too old for the workspace: update it''),
     (OC_ERR_VERSION_TOO_NEW, ''the workspace is older than this app''),
     (OC_ERR_MALFORMED_FRAME, ''the workspace could not read a request''),
     (OC_ERR_FRAME_TOO_LARGE, ''that was too large to send''),
     (OC_ERR_UNEXPECTED_MSG_TYPE, ''the workspace did not expect that request''),
     (OC_ERR_VERSION_MISMATCH, ''the connection's version changed: reconnecting''),
     (OC_ERR_AUTH_REQUIRED, ''sign in first''),
     (OC_ERR_AUTH_INVALID_TOKEN, ''the sign-in was not accepted''),
     (OC_ERR_AUTH_RATE_LIMITED, ''too many attempts: try again in a minute''),
     (OC_ERR_USER_LIMIT, ''this workspace is full''),
     (OC_ERR_AUTH_NOT_ALLOWED, ''this account isn't allowed in this workspace''),
     (OC_ERR_AUTH_SOURCE_UNAVAILABLE, ''this way of signing in isn't available right now''),
     (OC_ERR_AUTH_PENDING, ''waiting for the code to be approved''),
     (OC_ERR_AUTH_SLOW_DOWN, ''waiting for the code to be approved''),
     (OC_ERR_AUTH_EXPIRED, ''the code expired: start again''),
     (OC_ERR_AUTH_DENIED, ''the sign-in was declined''),
     (OC_ERR_AUTH_SETUP_REQUIRED, ''this workspace requires two-step sign-in: set it up, then sign in''),
     (OC_ERR_AUTH_USE_PROVIDER, ''this address signs in here with Google or Microsoft: use that''),
     (OC_ERR_BODY_TOO_LARGE, ''that message is too long''),
     (OC_ERR_NOT_A_MEMBER, ''you are not in that channel''),
     (OC_ERR_UNKNOWN_CHANNEL, ''that channel no longer exists''),
     (OC_ERR_SEND_RATE_LIMITED, ''slow down: too many messages at once''),
     (OC_ERR_FORBIDDEN, ''you are not allowed to do that''),
     (OC_ERR_LAST_OWNER, ''a workspace needs at least one owner''),
     (OC_ERR_UNKNOWN_MESSAGE, ''that message no longer exists''),
     (OC_ERR_INVALID_CHANNEL, ''that is not a valid channel name''),
     (OC_ERR_INVALID_REACTION, ''that is not a valid reaction''),
     (OC_ERR_ATTACHMENT_TOO_LARGE, ''that file is too large''),
     (OC_ERR_UNKNOWN_ATTACHMENT, ''that file is not available''),
     (OC_ERR_STORAGE_FULL, ''upload refused: the server is low on storage''),
     (OC_ERR_ATTACHMENT_GONE, ''attachment is no longer available (reclaimed by the server's storage policy)''),
     (OC_ERR_INVALID_DEVICE_TOKEN, ''this device could not be registered for notifications''),
     (OC_ERR_TRANSFER_PROTOCOL, ''the file transfer failed: try again''),
     (OC_ERR_UNKNOWN_WEBHOOK, ''that webhook no longer exists''),
     (OC_ERR_CHANNEL_EXISTS, ''a channel of that name already exists''),
     (OC_ERR_TOO_MANY_PINS, ''this channel has as many pins as it can hold''),
     (OC_ERR_CHANNEL_ARCHIVED, ''this channel is archived and read-only''),
     (OC_ERR_INVALID_MESSAGE, ''there is nothing to send''),
     (OC_ERR_MEDIA_INVALID, ''that video could not be attached''),
     (OC_ERR_MEDIA_TOO_LARGE, ''that video is too large''),
     (OC_ERR_NOT_RENDERABLE, ''there is nothing in that message to read aloud''),
     (OC_ERR_TTS_UNAVAILABLE, ''read-aloud isn't available right now''),
     (OC_ERR_CALL_UNAVAILABLE, ''calls aren't available right now''),
     (OC_ERR_SEGMENT_TOO_LONG, ''that was too long to transcribe''),
     (OC_ERR_STT_UNAVAILABLE, ''voice input isn't available right now''),
     (OC_ERR_CALL_FULL, ''the call is full''),
     (OC_ERR_NOT_CALL_STARTER, ''only the person who started the call can end it for everyone''),
     (OC_ERR_NOT_IN_CALL, ''you are not in that call''),
     (OC_ERR_INVITE_UNREDEEMABLE, ''this workspace signs nobody in by email address: invite with a token instead''),
     (OC_ERR_GROUP_HANDLE_TAKEN, ''something already answers to that @name''),
     (OC_ERR_UNKNOWN_GROUP, ''that group no longer exists''),
     (OC_ERR_MEMBER_VIA_GROUP, ''they are in the channel through a group: change the group instead''),
     (OC_ERR_INVALID_GROUP, ''that group's name or handle is not valid, or there are too many''),
     (OC_ERR_DEMO_LIMIT, ''this is a public demo, and that is limited for the day''),
     (OC_ERR_INVALID_POLL, ''a poll needs a question and two to ten options, and a vote only options it has''),
     (OC_ERR_POLL_CLOSED, ''the poll has closed''),
     (OC_ERR_POLL_HAS_VOTES, ''people have voted, so the options and settings can no longer change''),
     (OC_ERR_EDIT_WINDOW_CLOSED, ''this workspace no longer lets you change or delete that message''),
     (OC_ERR_WORKSPACE_SENDER, ''messages from the workspace take no replies''),
     (OC_ERR_SIGNUP_LIMITED, ''too many accounts were made from this address; try again in an hour''),
     (OC_ERR_INTERNAL, ''the workspace had a problem: try again'')] code"

section \<open>No number is used twice\<close>

lemma words_distinct:
  "successively (<) (sort (map uint xs)) \<Longrightarrow> distinct (xs :: 'a :: len word list)"
  by (metis distinct_map distinct_sort strict_sorted_iff successively_conv_sorted_wrt
      transp_on_less)

text \<open>A frame's type field determines the message it carries.\<close>

lemma oc_msg_type_distinct: "distinct oc_msg_type"
  by (rule words_distinct) code_simp

text \<open>
  C39: no two error codes share a number, every error code has a text to show, and no other
  code has one.
\<close>

theorem error_text_covers_codes:
  "distinct oc_reason_code \<and> (oc_error_text code \<noteq> None \<longleftrightarrow> code \<in> set oc_reason_code)"
proof
  show "distinct oc_reason_code" by (rule words_distinct) code_simp
  show "oc_error_text code \<noteq> None \<longleftrightarrow> code \<in> set oc_reason_code"
    unfolding oc_error_text_def oc_reason_code_def map_of_eq_None_iff by (simp, blast)
qed

end
