(* ===== verification/Wire.thy ===== *)
theory Wire
  imports Protocol_Constants
begin

text \<open>
  The wire layer of \<^verbatim>\<open>shared/protocol.c\<close>: the write and read cursors, the primitive field
  encodings, the frame bracket (\<^verbatim>\<open>oc_frame_begin\<close>, \<^verbatim>\<open>oc_frame_end\<close>), the frame parser and
  version negotiation; then the two interfaces the message codecs are built on:
  \<open>wire_field\<close> (a field that is written, read and repeated) and \<open>frame_codec\<close> (a message
  whose encoder and decoder agree on a payload).

  A write cursor keeps the \<^verbatim>\<open>w->len\<close> bytes written so far; \<^verbatim>\<open>w->len\<close> is their number. A
  pointer returned by \<^verbatim>\<open>w_reserve\<close> is filled at once by every caller, so the model's
  \<open>w_reserve\<close> takes the bytes to put there.
\<close>

section \<open>Cursors\<close>

datatype oc_result = OC_OK | OC_E_OVERFLOW | OC_E_MALFORMED | OC_E_TOO_LARGE | OC_E_BODY_TOO_LARGE

record oc_wbuf =
  w_data :: "u8 list"
  w_cap :: nat
  w_overflow :: bool

record oc_rbuf =
  r_data :: "u8 list"
  r_pos :: nat
  r_underflow :: bool

record oc_header =
  hdr_length :: u32
  hdr_version :: u16
  hdr_msg_type :: u16

abbreviation OC_HEADER_SIZE :: nat where "OC_HEADER_SIZE \<equiv> 8"
abbreviation OC_LENGTH_MIN :: nat where "OC_LENGTH_MIN \<equiv> 4"
abbreviation OC_MAX_FRAME_SIZE :: nat where "OC_MAX_FRAME_SIZE \<equiv> 66560"
abbreviation OC_MAX_BODY_SIZE :: nat where "OC_MAX_BODY_SIZE \<equiv> 65536"
abbreviation OC_IDEM_SIZE :: nat where "OC_IDEM_SIZE \<equiv> 16"

definition oc_wbuf_init :: "nat \<Rightarrow> oc_wbuf" where
  "oc_wbuf_init cap = \<lparr>w_data = [], w_cap = cap, w_overflow = False\<rparr>"

definition oc_rbuf_init :: "u8 list \<Rightarrow> oc_rbuf" where
  "oc_rbuf_init data = \<lparr>r_data = data, r_pos = 0, r_underflow = False\<rparr>"

section \<open>Primitive writers\<close>

definition w_reserve :: "oc_wbuf \<Rightarrow> u8 list \<Rightarrow> oc_wbuf" where
  "w_reserve w bs =
     (if w_overflow w \<or> length bs > w_cap w - length (w_data w) then w\<lparr>w_overflow := True\<rparr>
      else w\<lparr>w_data := w_data w @ bs\<rparr>)"

definition oc_w_u8 :: "oc_wbuf \<Rightarrow> u8 \<Rightarrow> oc_wbuf" where
  "oc_w_u8 w v = w_reserve w [v]"

definition oc_w_u16 :: "oc_wbuf \<Rightarrow> u16 \<Rightarrow> oc_wbuf" where
  "oc_w_u16 w v = w_reserve w (be16 v)"

definition oc_w_u32 :: "oc_wbuf \<Rightarrow> u32 \<Rightarrow> oc_wbuf" where
  "oc_w_u32 w v = w_reserve w (be32 v)"

definition oc_w_u64 :: "oc_wbuf \<Rightarrow> u64 \<Rightarrow> oc_wbuf" where
  "oc_w_u64 w v = w_reserve w (be64 v)"

definition w_lenpref :: "oc_wbuf \<Rightarrow> oc_slice \<Rightarrow> nat \<Rightarrow> oc_wbuf" where
  "w_lenpref w s width =
     (if width = 2 then
        if length s > 0xFFFF then w\<lparr>w_overflow := True\<rparr>
        else w_reserve (oc_w_u16 w (of_nat (length s))) s
      else
        if length s > 0xFFFFFFFF then w\<lparr>w_overflow := True\<rparr>
        else w_reserve (oc_w_u32 w (of_nat (length s))) s)"

definition oc_w_str :: "oc_wbuf \<Rightarrow> oc_slice \<Rightarrow> oc_wbuf" where
  "oc_w_str w s = w_lenpref w s 2"

definition oc_w_lstr :: "oc_wbuf \<Rightarrow> oc_slice \<Rightarrow> oc_wbuf" where
  "oc_w_lstr w s = w_lenpref w s 4"

definition oc_w_bytes :: "oc_wbuf \<Rightarrow> oc_slice \<Rightarrow> oc_wbuf" where
  "oc_w_bytes w s = w_lenpref w s 4"

definition oc_w_idem :: "oc_wbuf \<Rightarrow> u8 list \<Rightarrow> oc_wbuf" where
  "oc_w_idem w idem = w_reserve w (take OC_IDEM_SIZE idem)"

definition w_raw :: "oc_wbuf \<Rightarrow> u8 list \<Rightarrow> nat \<Rightarrow> oc_wbuf" where
  "w_raw w b n = w_reserve w (take n b)"

text \<open>\<^verbatim>\<open>for (i = 0; i < n; i++) wr(w, xs[i])\<close>, the loop every list field is written with.\<close>

fun w_loop :: "(oc_wbuf \<Rightarrow> 'a \<Rightarrow> oc_wbuf) \<Rightarrow> oc_wbuf \<Rightarrow> 'a list \<Rightarrow> oc_wbuf" where
  "w_loop wr w [] = w"
| "w_loop wr w (x # xs) = w_loop wr (wr w x) xs"

section \<open>Primitive readers\<close>

definition r_take :: "oc_rbuf \<Rightarrow> nat \<Rightarrow> u8 list option \<times> oc_rbuf" where
  "r_take r n =
     (if r_underflow r \<or> n > length (r_data r) - r_pos r then (None, r\<lparr>r_underflow := True\<rparr>)
      else (Some (take n (drop (r_pos r) (r_data r))), r\<lparr>r_pos := r_pos r + n\<rparr>))"

definition oc_r_u8 :: "oc_rbuf \<Rightarrow> u8 \<times> oc_rbuf" where
  "oc_r_u8 r = (let (p, r) = r_take r 1 in (case p of Some bs \<Rightarrow> hd bs | None \<Rightarrow> 0, r))"

definition oc_r_u16 :: "oc_rbuf \<Rightarrow> u16 \<times> oc_rbuf" where
  "oc_r_u16 r = (let (p, r) = r_take r 2 in (case p of Some bs \<Rightarrow> rd16 bs | None \<Rightarrow> 0, r))"

definition oc_r_u32 :: "oc_rbuf \<Rightarrow> u32 \<times> oc_rbuf" where
  "oc_r_u32 r = (let (p, r) = r_take r 4 in (case p of Some bs \<Rightarrow> rd32 bs | None \<Rightarrow> 0, r))"

definition oc_r_u64 :: "oc_rbuf \<Rightarrow> u64 \<times> oc_rbuf" where
  "oc_r_u64 r = (let (p, r) = r_take r 8 in (case p of Some bs \<Rightarrow> rd64 bs | None \<Rightarrow> 0, r))"

definition r_lenpref :: "oc_rbuf \<Rightarrow> nat \<Rightarrow> oc_slice \<times> oc_rbuf" where
  "r_lenpref r width =
     (let (n, r) = (if width = 2 then let (v, r) = oc_r_u16 r in (unat v, r)
                    else let (v, r) = oc_r_u32 r in (unat v, r));
          (p, r) = r_take r n
      in (case p of Some bs \<Rightarrow> bs | None \<Rightarrow> [], r))"

definition oc_r_str :: "oc_rbuf \<Rightarrow> oc_slice \<times> oc_rbuf" where
  "oc_r_str r = r_lenpref r 2"

definition oc_r_lstr :: "oc_rbuf \<Rightarrow> oc_slice \<times> oc_rbuf" where
  "oc_r_lstr r = r_lenpref r 4"

definition oc_r_bytes :: "oc_rbuf \<Rightarrow> oc_slice \<times> oc_rbuf" where
  "oc_r_bytes r = r_lenpref r 4"

definition r_raw :: "oc_rbuf \<Rightarrow> nat \<Rightarrow> u8 list \<times> oc_rbuf" where
  "r_raw r n = (let (p, r) = r_take r n in (case p of Some bs \<Rightarrow> bs | None \<Rightarrow> replicate n 0, r))"

definition oc_r_idem :: "oc_rbuf \<Rightarrow> u8 list \<times> oc_rbuf" where
  "oc_r_idem r =
     (let (p, r) = r_take r OC_IDEM_SIZE
      in (case p of Some bs \<Rightarrow> bs | None \<Rightarrow> replicate OC_IDEM_SIZE 0, r))"

text \<open>
  The two loops list fields are read with: \<^verbatim>\<open>for (i = 0; i < n; i++)\<close>, and the same with
  \<^verbatim>\<open>&& !p->underflow\<close> in its condition.
\<close>

fun r_loop :: "(oc_rbuf \<Rightarrow> 'a \<times> oc_rbuf) \<Rightarrow> nat \<Rightarrow> oc_rbuf \<Rightarrow> 'a list \<times> oc_rbuf" where
  "r_loop rd 0 p = ([], p)"
| "r_loop rd (Suc n) p =
     (let (x, p) = rd p; (xs, p) = r_loop rd n p in (x # xs, p))"

fun r_loop_ok :: "(oc_rbuf \<Rightarrow> 'a \<times> oc_rbuf) \<Rightarrow> nat \<Rightarrow> oc_rbuf \<Rightarrow> 'a list \<times> oc_rbuf" where
  "r_loop_ok rd 0 p = ([], p)"
| "r_loop_ok rd (Suc n) p =
     (if r_underflow p then ([], p)
      else let (x, p) = rd p; (xs, p) = r_loop_ok rd n p in (x # xs, p))"

text \<open>The same loop around a step that can refuse its entry with a code of its own.\<close>

fun r_loop_try ::
  "(oc_rbuf \<Rightarrow> oc_result + 'a \<times> oc_rbuf) \<Rightarrow> nat \<Rightarrow> oc_rbuf \<Rightarrow> oc_result + 'a list \<times> oc_rbuf" where
  "r_loop_try rd 0 p = Inr ([], p)"
| "r_loop_try rd (Suc n) p =
     (if r_underflow p then Inr ([], p)
      else case rd p of Inl e \<Rightarrow> Inl e
        | Inr (x, p) \<Rightarrow>
            (case r_loop_try rd n p of Inl e \<Rightarrow> Inl e | Inr (xs, p) \<Rightarrow> Inr (x # xs, p)))"

section \<open>Frames\<close>

definition oc_frame_begin :: "oc_wbuf \<Rightarrow> u16 \<Rightarrow> u16 \<Rightarrow> nat \<times> oc_wbuf" where
  "oc_frame_begin w version msg_type =
     (let off = length (w_data w);
          w = oc_w_u32 w 0;
          w = oc_w_u16 w version;
          w = oc_w_u16 w msg_type
      in (off, w))"

definition oc_frame_end :: "oc_wbuf \<Rightarrow> nat \<Rightarrow> oc_result \<times> oc_wbuf" where
  "oc_frame_end w length_off =
     (if w_overflow w then (OC_E_OVERFLOW, w\<lparr>w_data := take length_off (w_data w)\<rparr>)
      else
        let total = length (w_data w) - length_off;
            len = total - 4
        in if total > OC_MAX_FRAME_SIZE
           then (OC_E_TOO_LARGE, w\<lparr>w_data := take length_off (w_data w)\<rparr>)
           else (OC_OK, w\<lparr>w_data := take length_off (w_data w) @ be32 (of_nat len)
                                    @ drop (length_off + 4) (w_data w)\<rparr>))"

definition oc_parse_frame :: "u8 list \<Rightarrow> oc_result + (oc_header \<times> oc_rbuf)" where
  "oc_parse_frame data =
     (if length data < OC_HEADER_SIZE then Inl OC_E_MALFORMED
      else
        let len = rd32 data
        in if unat len < OC_LENGTH_MIN then Inl OC_E_MALFORMED
           else if unat len + 4 > OC_MAX_FRAME_SIZE then Inl OC_E_TOO_LARGE
           else if length data < unat len + 4 then Inl OC_E_MALFORMED
           else Inr (\<lparr>hdr_length = len, hdr_version = rd16 (drop 4 data),
                      hdr_msg_type = rd16 (drop 6 data)\<rparr>,
                     oc_rbuf_init (take (unat len - 4) (drop OC_HEADER_SIZE data))))"

definition r_done :: "oc_rbuf \<Rightarrow> oc_result" where
  "r_done r =
     (if r_underflow r then OC_E_MALFORMED
      else if r_pos r \<noteq> length (r_data r) then OC_E_MALFORMED
      else OC_OK)"

text \<open>A decoder ends in \<^verbatim>\<open>return r_done(p)\<close> with its message filled in.\<close>

definition decoded :: "oc_rbuf \<Rightarrow> 'm \<Rightarrow> oc_result + 'm" where
  "decoded p m = (let r = r_done p in if r = OC_OK then Inr m else Inl r)"

definition oc_negotiate_version :: "u16 \<Rightarrow> u16 \<Rightarrow> u16 \<Rightarrow> u16 \<Rightarrow> u16 + u16" where
  "oc_negotiate_version client_min client_max server_min server_max =
     (if client_max < server_min then Inl OC_ERR_VERSION_TOO_OLD
      else if client_min > server_max then Inl OC_ERR_VERSION_TOO_NEW
      else Inr (if server_max < client_max then server_max else client_max))"

section \<open>What the write steps append\<close>

text \<open>
  \<open>writes f fits bs\<close>: from a cursor with room, \<open>f\<close> appends exactly \<open>bs\<close> provided \<open>fits\<close> holds
  (every length prefix can carry its length); from any other, or if not, it sets the
  overflow mark, keeps what was there before and changes nothing else.
\<close>

definition writes :: "(oc_wbuf \<Rightarrow> oc_wbuf) \<Rightarrow> bool \<Rightarrow> u8 list \<Rightarrow> bool" where
  "writes f fits bs \<longleftrightarrow>
     (\<forall>w. if fits \<and> \<not> w_overflow w \<and> length bs \<le> w_cap w - length (w_data w)
          then f w = w\<lparr>w_data := w_data w @ bs\<rparr>
          else w_overflow (f w) \<and> w_cap (f w) = w_cap w \<and> (\<exists>cs. w_data (f w) = w_data w @ cs))"

definition enc_str :: "oc_slice \<Rightarrow> u8 list" where
  "enc_str s = be16 (of_nat (length s)) @ s"

definition enc_lstr :: "oc_slice \<Rightarrow> u8 list" where
  "enc_lstr s = be32 (of_nat (length s)) @ s"

definition enc_list :: "('a \<Rightarrow> u8 list) \<Rightarrow> 'a list \<Rightarrow> u8 list" where
  "enc_list enc xs = concat (map enc xs)"

lemma enc_list_simps [simp]:
  "enc_list enc [] = []" "enc_list enc (x # xs) = enc x @ enc_list enc xs"
  by (simp_all add: enc_list_def)

lemma enc_str_not_Nil [simp]: "enc_str s \<noteq> []" "enc_lstr s \<noteq> []"
  by (simp_all add: enc_str_def enc_lstr_def)

lemma writes_id [wire_writes]: "writes (\<lambda>w. w) True []"
  by (auto simp: writes_def)

lemma writes_reserve: "writes (\<lambda>w. w_reserve w bs) True bs"
  by (auto simp: writes_def w_reserve_def)

lemma writes_seq:
  assumes f: "writes f c as" and g: "writes g d bs"
  shows "writes (\<lambda>w. g (f w)) (c \<and> d) (as @ bs)"
  unfolding writes_def
proof (intro allI)
  fix w
  let ?room = "\<lambda>c w bs. c \<and> \<not> w_overflow w \<and> length bs \<le> w_cap w - length (w_data w)"
  note gw = g [unfolded writes_def, rule_format, of "f w"]
  note fw = f [unfolded writes_def, rule_format, of w]
  show "if ?room (c \<and> d) w (as @ bs) then g (f w) = w\<lparr>w_data := w_data w @ as @ bs\<rparr>
      else w_overflow (g (f w)) \<and> w_cap (g (f w)) = w_cap w \<and>
        (\<exists>cs. w_data (g (f w)) = w_data w @ cs)"
  proof (cases "?room c w as")
    case True
    then have "f w = w\<lparr>w_data := w_data w @ as\<rparr>" using fw by simp
    then show ?thesis using gw True by (auto split: if_splits)
  next
    case False
    then have *: "w_overflow (f w)" "w_cap (f w) = w_cap w" "\<exists>cs. w_data (f w) = w_data w @ cs"
      using fw by auto
    then have "w_overflow (g (f w)) \<and> w_cap (g (f w)) = w_cap w \<and>
        (\<exists>cs. w_data (g (f w)) = w_data w @ cs)"
      using gw by auto
    then show ?thesis using False by auto
  qed
qed

lemma writes_fixed:
  "writes f c as \<Longrightarrow> writes (\<lambda>w. w_reserve (f w) bs) c (as @ bs)"
  using writes_seq [OF _ writes_reserve] by fastforce

lemma writes_u8 [wire_writes]: "writes f c as \<Longrightarrow> writes (\<lambda>w. oc_w_u8 (f w) v) c (as @ [v])"
  unfolding oc_w_u8_def by (rule writes_fixed)

lemma writes_u16 [wire_writes]: "writes f c as \<Longrightarrow> writes (\<lambda>w. oc_w_u16 (f w) v) c (as @ be16 v)"
  unfolding oc_w_u16_def by (rule writes_fixed)

lemma writes_u32 [wire_writes]: "writes f c as \<Longrightarrow> writes (\<lambda>w. oc_w_u32 (f w) v) c (as @ be32 v)"
  unfolding oc_w_u32_def by (rule writes_fixed)

lemma writes_u64 [wire_writes]: "writes f c as \<Longrightarrow> writes (\<lambda>w. oc_w_u64 (f w) v) c (as @ be64 v)"
  unfolding oc_w_u64_def by (rule writes_fixed)

lemma writes_refused: "writes (\<lambda>w. w\<lparr>w_overflow := True\<rparr>) False bs"
  by (auto simp: writes_def)

lemma w_lenpref_writes:
  "writes (\<lambda>w. w_lenpref w s 2) (length s \<le> 0xFFFF) (enc_str s)"
  "writes (\<lambda>w. w_lenpref w s 4) (length s \<le> 0xFFFFFFFF) (enc_lstr s)"
  using writes_fixed [OF writes_u16 [OF writes_id], of "of_nat (length s)" s]
    writes_fixed [OF writes_u32 [OF writes_id], of "of_nat (length s)" s] writes_refused
  by (cases "length s \<le> 0xFFFF"; cases "length s \<le> 0xFFFFFFFF";
      simp add: w_lenpref_def enc_str_def enc_lstr_def)+

lemma writes_str [wire_writes]:
  "writes f c as \<Longrightarrow> writes (\<lambda>w. oc_w_str (f w) s) (c \<and> length s \<le> 0xFFFF) (as @ enc_str s)"
  unfolding oc_w_str_def by (rule writes_seq [OF _ w_lenpref_writes(1)])

lemma writes_lstr [wire_writes]:
  "writes f c as \<Longrightarrow> writes (\<lambda>w. oc_w_lstr (f w) s) (c \<and> length s \<le> 0xFFFFFFFF) (as @ enc_lstr s)"
  unfolding oc_w_lstr_def by (rule writes_seq [OF _ w_lenpref_writes(2)])

lemma writes_bytes [wire_writes]:
  "writes f c as \<Longrightarrow> writes (\<lambda>w. oc_w_bytes (f w) s) (c \<and> length s \<le> 0xFFFFFFFF) (as @ enc_lstr s)"
  unfolding oc_w_bytes_def by (rule writes_seq [OF _ w_lenpref_writes(2)])

lemma writes_raw [wire_writes]:
  "writes f c as \<Longrightarrow> writes (\<lambda>w. w_raw (f w) b n) c (as @ take n b)"
  unfolding w_raw_def by (rule writes_fixed)

lemma writes_idem [wire_writes]:
  "writes f c as \<Longrightarrow> writes (\<lambda>w. oc_w_idem (f w) b) c (as @ take OC_IDEM_SIZE b)"
  unfolding oc_w_idem_def by (rule writes_fixed)

lemma writes_raw_exact:
  "writes f c as \<Longrightarrow> length b = n \<Longrightarrow> writes (\<lambda>w. w_raw (f w) b n) c (as @ b)"
  using writes_raw [of f c as b n] by simp

lemma writes_idem_exact:
  "writes f c as \<Longrightarrow> length b = OC_IDEM_SIZE \<Longrightarrow> writes (\<lambda>w. oc_w_idem (f w) b) c (as @ b)"
  using writes_idem [of f c as b] by simp

lemma writes_if:
  assumes "P \<Longrightarrow> writes f c as" and "\<not> P \<Longrightarrow> writes g d bs"
  shows "writes (\<lambda>w. if P then f w else g w) (if P then c else d) (if P then as else bs)"
  using assms by (cases P) simp_all

lemma writes_loop:
  assumes "\<And>x. x \<in> set xs \<Longrightarrow> writes (\<lambda>w. wr w x) (fits x) (enc x)"
  shows "writes (\<lambda>w. w_loop wr w xs) (list_all fits xs) (enc_list enc xs)"
  using assms
proof (induction xs)
  case Nil
  show ?case by (simp add: writes_id)
next
  case (Cons x xs)
  then have "writes (\<lambda>w. wr w x) (fits x) (enc x)"
    "writes (\<lambda>w. w_loop wr w xs) (list_all fits xs) (enc_list enc xs)"
    by auto
  then show ?case
    using writes_seq [of "\<lambda>w. wr w x" _ "enc x" "\<lambda>w. w_loop wr w xs"] by simp
qed

text \<open>
  The whole bracket, as one appended frame or none. \<open>early\<close> is the code an encoder returns
  before it begins its frame, if it does; \<open>fits\<close> says that every length prefix holds.
\<close>

definition frame_bytes :: "u16 \<Rightarrow> u16 \<Rightarrow> u8 list \<Rightarrow> u8 list" where
  "frame_bytes version msg_type payload =
     be32 (of_nat (4 + length payload)) @ be16 version @ be16 msg_type @ payload"

definition oc_emit ::
  "oc_wbuf \<Rightarrow> u16 \<Rightarrow> u16 \<Rightarrow> oc_result option \<Rightarrow> bool \<Rightarrow> u8 list \<Rightarrow> oc_result \<times> oc_wbuf" where
  "oc_emit w version msg_type early fits payload =
     (case early of Some e \<Rightarrow> (e, w)
      | None \<Rightarrow>
          if \<not> fits \<or> w_overflow w \<or> OC_HEADER_SIZE + length payload > w_cap w - length (w_data w)
          then (OC_E_OVERFLOW, w\<lparr>w_overflow := True\<rparr>)
          else if OC_HEADER_SIZE + length payload > OC_MAX_FRAME_SIZE then (OC_E_TOO_LARGE, w)
          else (OC_OK, w\<lparr>w_data := w_data w @ frame_bytes version msg_type payload\<rparr>))"

lemma length_frame_bytes [simp]: "length (frame_bytes v t bs) = OC_HEADER_SIZE + length bs"
  by (simp add: frame_bytes_def)

lemma frame_emits:
  assumes f: "writes f c bs" and eq: "c \<longleftrightarrow> fits" "bs = payload"
  shows "(case oc_frame_begin w v t of (off, w) \<Rightarrow> oc_frame_end (f w) off)
    = oc_emit w v t None fits payload"
proof -
  let ?head = "\<lambda>w. oc_w_u16 (oc_w_u16 (oc_w_u32 w 0) v) t"
  let ?hb = "be32 0 @ be16 v @ be16 t"
  let ?n = "length (w_data w)"
  have "writes (\<lambda>w. f (?head w)) c (?hb @ bs)"
    using writes_seq [OF writes_u16 [OF writes_u16 [OF writes_u32 [OF writes_id]]] f, of 0 v t]
    by simp
  then have *: "if c \<and> \<not> w_overflow w \<and> OC_HEADER_SIZE + length bs \<le> w_cap w - ?n
      then f (?head w) = w\<lparr>w_data := w_data w @ ?hb @ bs\<rparr>
      else w_overflow (f (?head w)) \<and> w_cap (f (?head w)) = w_cap w \<and>
        (\<exists>cs. w_data (f (?head w)) = w_data w @ cs)"
    by (auto simp: writes_def)
  have lhs: "(case oc_frame_begin w v t of (off, w) \<Rightarrow> oc_frame_end (f w) off)
      = oc_frame_end (f (?head w)) ?n"
    by (simp add: oc_frame_begin_def Let_def)
  show ?thesis
  proof (cases "c \<and> \<not> w_overflow w \<and> OC_HEADER_SIZE + length bs \<le> w_cap w - ?n")
    case True
    with * have "f (?head w) = w\<lparr>w_data := w_data w @ ?hb @ bs\<rparr>" by simp
    then show ?thesis
      using True eq unfolding lhs
      by (auto simp: oc_frame_end_def oc_emit_def frame_bytes_def Let_def
          add.commute)
  next
    case False
    with * obtain cs where "w_overflow (f (?head w))" "w_cap (f (?head w)) = w_cap w"
      "w_data (f (?head w)) = w_data w @ cs" by auto
    moreover from this have "(f (?head w))\<lparr>w_data := w_data w\<rparr> = w\<lparr>w_overflow := True\<rparr>"
      by (cases w; cases "f (?head w)") simp
    ultimately show ?thesis
      using False eq unfolding lhs by (auto simp: oc_frame_end_def oc_emit_def)
  qed
qed

lemma early_emits:
  assumes "X = oc_emit w v t None fits payload"
  shows "(if P then (e, w) else X) = oc_emit w v t (if P then Some e else None) fits payload"
  using assms by (simp add: oc_emit_def)

section \<open>The read steps as parsers of the bytes ahead\<close>

text \<open>
  \<open>rbuf_at ds bs\<close> is a reader that has consumed \<open>ds\<close> and has \<open>bs\<close> ahead of it;
  \<open>rbuf_bad ds bs\<close> is one that has underflowed there. On such readers every read step is a
  parser of \<open>bs\<close>, and the parsers invert the encodings.
\<close>

definition rbuf_at :: "u8 list \<Rightarrow> u8 list \<Rightarrow> oc_rbuf" where
  "rbuf_at ds bs = \<lparr>r_data = ds @ bs, r_pos = length ds, r_underflow = False\<rparr>"

definition rbuf_bad :: "u8 list \<Rightarrow> u8 list \<Rightarrow> oc_rbuf" where
  "rbuf_bad ds bs = \<lparr>r_data = ds @ bs, r_pos = length ds, r_underflow = True\<rparr>"

definition view8 :: "u8 list \<Rightarrow> (u8 \<times> u8 list) option" where
  "view8 bs = (case bs of [] \<Rightarrow> None | b # cs \<Rightarrow> Some (b, cs))"

definition view16 :: "u8 list \<Rightarrow> (u16 \<times> u8 list) option" where
  "view16 bs = (if length bs < 2 then None else Some (rd16 bs, drop 2 bs))"

definition view32 :: "u8 list \<Rightarrow> (u32 \<times> u8 list) option" where
  "view32 bs = (if length bs < 4 then None else Some (rd32 bs, drop 4 bs))"

definition view64 :: "u8 list \<Rightarrow> (u64 \<times> u8 list) option" where
  "view64 bs = (if length bs < 8 then None else Some (rd64 bs, drop 8 bs))"

definition view_raw :: "nat \<Rightarrow> u8 list \<Rightarrow> (u8 list \<times> u8 list) option" where
  "view_raw n bs = (if length bs < n then None else Some (take n bs, drop n bs))"

definition view_str :: "u8 list \<Rightarrow> (oc_slice \<times> u8 list) option" where
  "view_str bs = (case view16 bs of None \<Rightarrow> None | Some (n, cs) \<Rightarrow> view_raw (unat n) cs)"

definition view_lstr :: "u8 list \<Rightarrow> (oc_slice \<times> u8 list) option" where
  "view_lstr bs = (case view32 bs of None \<Rightarrow> None | Some (n, cs) \<Rightarrow> view_raw (unat n) cs)"

lemma oc_rbuf_init_at: "oc_rbuf_init bs = rbuf_at [] bs"
  by (simp add: oc_rbuf_init_def rbuf_at_def)

lemma r_underflow_at [simp]: "\<not> r_underflow (rbuf_at ds bs)" "r_underflow (rbuf_bad ds bs)"
  by (simp_all add: rbuf_at_def rbuf_bad_def)

lemma r_pos_at [simp]: "r_pos (rbuf_at ds bs) = length ds"
  by (simp add: rbuf_at_def)

lemma r_data_at [simp]: "r_data (rbuf_at ds bs) = ds @ bs"
  by (simp add: rbuf_at_def)

text \<open>The parsers on encoded fields, and what a successful parse says about the bytes.\<close>

lemma view8_enc [simp]: "view8 (b # bs) = Some (b, bs)"
  by (simp add: view8_def)

lemma view16_enc [simp]: "view16 (be16 v @ bs) = Some (v, bs)"
  by (simp add: view16_def)

lemma view32_enc [simp]: "view32 (be32 v @ bs) = Some (v, bs)"
  by (simp add: view32_def)

lemma view64_enc [simp]: "view64 (be64 v @ bs) = Some (v, bs)"
  by (simp add: view64_def)

lemma view_raw_enc [simp]: "length xs = n \<Longrightarrow> view_raw n (xs @ bs) = Some (xs, bs)"
  by (auto simp: view_raw_def)

lemma view_str_enc [simp]: "length s \<le> 0xFFFF \<Longrightarrow> view_str (enc_str s @ bs) = Some (s, bs)"
  by (simp add: view_str_def enc_str_def)

lemma view_lstr_enc [simp]: "length s \<le> 0xFFFFFFFF \<Longrightarrow> view_lstr (enc_lstr s @ bs) = Some (s, bs)"
  by (simp add: view_lstr_def enc_lstr_def)

lemmas view_enc_last [simp] =
  view16_enc [of _ "[]", simplified] view32_enc [of _ "[]", simplified]
  view64_enc [of _ "[]", simplified] view_str_enc [of _ "[]", simplified]
  view_lstr_enc [of _ "[]", simplified] view_raw_enc [of _ _ "[]", simplified]

lemma view8_some [wire_views]: "view8 bs = Some (v, cs) \<longleftrightarrow> bs = v # cs"
  by (cases bs) (auto simp: view8_def)

lemma view16_some [wire_views]: "view16 bs = Some (v, cs) \<longleftrightarrow> bs = be16 v @ cs"
  by (auto simp: view16_def be16_rd16_take not_less)

lemma view32_some [wire_views]: "view32 bs = Some (v, cs) \<longleftrightarrow> bs = be32 v @ cs"
  by (auto simp: view32_def be32_rd32_take not_less)

lemma view64_some [wire_views]: "view64 bs = Some (v, cs) \<longleftrightarrow> bs = be64 v @ cs"
  by (auto simp: view64_def be64_rd64_take not_less)

lemma view_raw_some [wire_views]: "view_raw n bs = Some (xs, cs) \<longleftrightarrow> length xs = n \<and> bs = xs @ cs"
  by (auto simp: view_raw_def not_less)

lemma view_str_some [wire_views]:
  "view_str bs = Some (s, cs) \<longleftrightarrow> length s \<le> 0xFFFF \<and> bs = enc_str s @ cs"
  by (auto simp: view_str_def enc_str_def wire_views split: option.splits)

lemma view_lstr_some [wire_views]:
  "view_lstr bs = Some (s, cs) \<longleftrightarrow> length s \<le> 0xFFFFFFFF \<and> bs = enc_lstr s @ cs"
  by (auto simp: view_lstr_def enc_lstr_def wire_views split: option.splits)

text \<open>The read steps.\<close>

lemma r_take_at:
  "r_take (rbuf_at ds bs) n =
     (case view_raw n bs of Some (xs, cs) \<Rightarrow> (Some xs, rbuf_at (ds @ xs) cs)
      | None \<Rightarrow> (None, rbuf_bad ds bs))"
  by (simp add: r_take_def rbuf_at_def rbuf_bad_def view_raw_def)

lemma r_take_bad: "r_underflow p \<Longrightarrow> r_take p n = (None, p)"
  by (simp add: r_take_def)

lemma oc_r_u8_at [wire_reads]:
  "oc_r_u8 (rbuf_at ds bs) =
     (case view8 bs of Some (v, cs) \<Rightarrow> (v, rbuf_at (ds @ [v]) cs) | None \<Rightarrow> (0, rbuf_bad ds bs))"
  by (cases bs) (simp_all add: oc_r_u8_def r_take_at view_raw_def view8_def)

lemma oc_r_u16_at [wire_reads]:
  "oc_r_u16 (rbuf_at ds bs) =
     (case view16 bs of Some (v, cs) \<Rightarrow> (v, rbuf_at (ds @ be16 v) cs)
      | None \<Rightarrow> (0, rbuf_bad ds bs))"
proof -
  have "rd16 (take 2 bs) = rd16 bs"
    by (induction bs rule: rd16.induct) (simp_all add: numeral_2_eq_2)
  then show ?thesis
    by (simp add: oc_r_u16_def r_take_at view_raw_def view16_def be16_rd16_take)
qed

lemma oc_r_u32_at [wire_reads]:
  "oc_r_u32 (rbuf_at ds bs) =
     (case view32 bs of Some (v, cs) \<Rightarrow> (v, rbuf_at (ds @ be32 v) cs)
      | None \<Rightarrow> (0, rbuf_bad ds bs))"
proof -
  have "rd32 (take 4 bs) = rd32 bs"
    by (induction bs rule: rd32.induct) (simp_all add: numeral_eq_Suc)
  then show ?thesis
    by (simp add: oc_r_u32_def r_take_at view_raw_def view32_def be32_rd32_take)
qed

lemma oc_r_u64_at [wire_reads]:
  "oc_r_u64 (rbuf_at ds bs) =
     (case view64 bs of Some (v, cs) \<Rightarrow> (v, rbuf_at (ds @ be64 v) cs)
      | None \<Rightarrow> (0, rbuf_bad ds bs))"
proof -
  have "rd64 (take 8 bs) = rd64 bs"
    by (induction bs rule: rd64.induct) (simp_all add: numeral_eq_Suc)
  then show ?thesis
    by (simp add: oc_r_u64_def r_take_at view_raw_def view64_def be64_rd64_take)
qed

lemma r_raw_at [wire_reads]:
  "r_raw (rbuf_at ds bs) n =
     (case view_raw n bs of Some (v, cs) \<Rightarrow> (v, rbuf_at (ds @ v) cs)
      | None \<Rightarrow> (replicate n 0, rbuf_bad ds bs))"
  by (simp add: r_raw_def r_take_at split: option.splits)

lemma oc_r_idem_at [wire_reads]:
  "oc_r_idem (rbuf_at ds bs) =
     (case view_raw OC_IDEM_SIZE bs of Some (v, cs) \<Rightarrow> (v, rbuf_at (ds @ v) cs)
      | None \<Rightarrow> (replicate OC_IDEM_SIZE 0, rbuf_bad ds bs))"
  by (simp add: oc_r_idem_def r_take_at split: option.splits)

text \<open>Where a length-prefixed read fails: before the prefix, or behind it.\<close>

definition pref_bad :: "nat \<Rightarrow> u8 list \<Rightarrow> u8 list \<Rightarrow> oc_rbuf" where
  "pref_bad k ds bs =
     (if length bs < k then rbuf_bad ds bs else rbuf_bad (ds @ take k bs) (drop k bs))"

lemma r_underflow_pref_bad [simp]: "r_underflow (pref_bad k ds bs)"
  by (simp add: pref_bad_def)

lemma oc_r_str_at [wire_reads]:
  "oc_r_str (rbuf_at ds bs) =
     (case view_str bs of Some (s, cs) \<Rightarrow> (s, rbuf_at (ds @ enc_str s) cs)
      | None \<Rightarrow> ([], pref_bad 2 ds bs))"
proof (cases "view16 bs")
  case None
  then show ?thesis
    by (auto simp: oc_r_str_def r_lenpref_def view_str_def oc_r_u16_at r_take_bad pref_bad_def
        view16_def split: if_splits)
next
  case (Some a)
  then obtain n cs where bs: "bs = be16 n @ cs" and a: "a = (n, cs)"
    by (cases a) (auto simp: wire_views)
  show ?thesis
    by (auto simp: bs oc_r_str_def r_lenpref_def view_str_def oc_r_u16_at r_take_at enc_str_def
        pref_bad_def view_raw_def split: option.splits)
qed

lemma r_lenpref4_at:
  "r_lenpref (rbuf_at ds bs) 4 =
     (case view_lstr bs of Some (s, cs) \<Rightarrow> (s, rbuf_at (ds @ enc_lstr s) cs)
      | None \<Rightarrow> ([], pref_bad 4 ds bs))"
proof (cases "view32 bs")
  case None
  then show ?thesis
    by (auto simp: r_lenpref_def view_lstr_def oc_r_u32_at r_take_bad pref_bad_def
        view32_def split: if_splits)
next
  case (Some a)
  then obtain n cs where bs: "bs = be32 n @ cs" and a: "a = (n, cs)"
    by (cases a) (auto simp: wire_views)
  show ?thesis
    by (auto simp: bs r_lenpref_def view_lstr_def oc_r_u32_at r_take_at enc_lstr_def
        pref_bad_def view_raw_def split: option.splits)
qed

lemma oc_r_lstr_at [wire_reads]:
  "oc_r_lstr (rbuf_at ds bs) =
     (case view_lstr bs of Some (s, cs) \<Rightarrow> (s, rbuf_at (ds @ enc_lstr s) cs)
      | None \<Rightarrow> ([], pref_bad 4 ds bs))"
  unfolding oc_r_lstr_def by (rule r_lenpref4_at)

lemma oc_r_bytes_at [wire_reads]:
  "oc_r_bytes (rbuf_at ds bs) =
     (case view_lstr bs of Some (s, cs) \<Rightarrow> (s, rbuf_at (ds @ enc_lstr s) cs)
      | None \<Rightarrow> ([], pref_bad 4 ds bs))"
  unfolding oc_r_bytes_def by (rule r_lenpref4_at)

text \<open>Once a reader has underflowed, a read step leaves it as it is and yields zeroes.\<close>

lemma reads_bad [wire_reads]:
  assumes "r_underflow p"
  shows "oc_r_u8 p = (0, p)" "oc_r_u16 p = (0, p)" "oc_r_u32 p = (0, p)" "oc_r_u64 p = (0, p)"
    "oc_r_str p = ([], p)" "oc_r_lstr p = ([], p)" "oc_r_bytes p = ([], p)"
    "r_raw p n = (replicate n 0, p)" "oc_r_idem p = (replicate OC_IDEM_SIZE 0, p)"
  using assms
  by (simp_all add: oc_r_u8_def oc_r_u16_def oc_r_u32_def oc_r_u64_def oc_r_str_def oc_r_lstr_def
      oc_r_bytes_def r_lenpref_def r_raw_def oc_r_idem_def r_take_bad)

lemma decoded_at [wire_reads]:
  "decoded (rbuf_at ds bs) m = (if bs = [] then Inr m else Inl OC_E_MALFORMED)"
  by (simp add: decoded_def r_done_def Let_def)

lemma decoded_bad [wire_reads]: "r_underflow p \<Longrightarrow> decoded p m = Inl OC_E_MALFORMED"
  by (simp add: decoded_def r_done_def Let_def)

section \<open>The parsed frame\<close>

lemma parse_frame_bytes:
  assumes "OC_HEADER_SIZE + length bs \<le> OC_MAX_FRAME_SIZE"
  shows "oc_parse_frame (frame_bytes v t bs @ rest) =
    Inr (\<lparr>hdr_length = of_nat (4 + length bs), hdr_version = v, hdr_msg_type = t\<rparr>, oc_rbuf_init bs)"
proof -
  have n: "unat (of_nat (4 + length bs) :: u32) = 4 + length bs"
    using assms by (intro unat_of_nat32) simp
  have "length (frame_bytes v t bs @ rest) = 8 + length bs + length rest"
    by simp
  moreover have "rd32 (frame_bytes v t bs @ rest) = of_nat (4 + length bs)"
    by (simp only: frame_bytes_def append_assoc rd32_be32)
  moreover have "drop 4 (frame_bytes v t bs @ rest) = be16 v @ be16 t @ bs @ rest"
    by (simp add: frame_bytes_def)
  moreover have "drop 6 (frame_bytes v t bs @ rest) = be16 t @ bs @ rest"
    by (simp add: frame_bytes_def)
  moreover have "drop 8 (frame_bytes v t bs @ rest) = bs @ rest"
    by (simp add: frame_bytes_def)
  ultimately show ?thesis
    using assms n by (simp add: oc_parse_frame_def Let_def)
qed

section \<open>Fields\<close>

text \<open>
  A field of a frame: a reader and a writer that agree on an encoding. A reader on underflowed input stays underflowed, and one that has not underflowed
  consumed exactly the encoding of what it returned. \<open>wf\<close> is the shape of the C type (a fixed
  array has its size), \<open>fits\<close> that the length prefixes can carry the lengths.
\<close>

definition yields :: "'a \<times> oc_rbuf \<Rightarrow> 'a \<Rightarrow> oc_rbuf \<Rightarrow> bool" where
  "yields r x p \<longleftrightarrow> r = (x, p) \<and> \<not> r_underflow p"

lemma yields_pair [wire_binds]: "yields (x, p) y q \<longleftrightarrow> x = y \<and> p = q \<and> \<not> r_underflow p"
  by (auto simp: yields_def)

definition accepts :: "oc_result + 'a \<times> oc_rbuf \<Rightarrow> 'a \<Rightarrow> oc_rbuf \<Rightarrow> bool" where
  "accepts r x p \<longleftrightarrow> r = Inr (x, p) \<and> \<not> r_underflow p"

lemma accepts_simps [wire_binds]:
  "accepts (Inl e) y q \<longleftrightarrow> False"
  "accepts (Inr (x, p)) y q \<longleftrightarrow> x = y \<and> p = q \<and> \<not> r_underflow p"
  by (auto simp: accepts_def)

locale wire_field =
  fixes rd :: "oc_rbuf \<Rightarrow> 'a \<times> oc_rbuf"
    and wr :: "oc_wbuf \<Rightarrow> 'a \<Rightarrow> oc_wbuf"
    and enc :: "'a \<Rightarrow> u8 list"
    and wf :: "'a \<Rightarrow> bool"
    and fits :: "'a \<Rightarrow> bool"
  assumes wr: "wf x \<Longrightarrow> writes (\<lambda>w. wr w x) (fits x) (enc x)"
    and rd_enc: "wf x \<Longrightarrow> fits x \<Longrightarrow>
      rd (rbuf_at ds (enc x @ bs)) = (x, rbuf_at (ds @ enc x) bs)"
    and rd_dest: "rd (rbuf_at ds bs) = (x, p) \<Longrightarrow> \<not> r_underflow p \<Longrightarrow>
      \<exists>cs. wf x \<and> fits x \<and> bs = enc x @ cs \<and> p = rbuf_at (ds @ enc x) cs"
    and rd_bad: "r_underflow p \<Longrightarrow> r_underflow (snd (rd p))"
begin

text \<open>
  Inverting a read in front of a continuation that refuses underflowed readers: the
  continuation got a value whose encoding stood ahead.
\<close>

lemma enc_prefix_free:
  assumes "wf x" "fits x" "wf y" "fits y" and eq: "enc x @ bs = enc y @ cs"
  shows "x = y \<and> bs = cs"
  using rd_enc [OF assms(1,2), of "[]" bs] rd_enc [OF assms(3,4), of "[]" cs] eq by auto

lemma bind_inverts:
  assumes "\<And>x p. r_underflow p \<Longrightarrow> \<not> P (F x p)"
  shows "P (case rd (rbuf_at ds bs) of (x, p) \<Rightarrow> F x p) \<longleftrightarrow>
    (\<exists>x cs. wf x \<and> fits x \<and> bs = enc x @ cs \<and> P (F x (rbuf_at (ds @ enc x) cs)))"
proof (cases "rd (rbuf_at ds bs)")
  case (Pair x p)
  show ?thesis
  proof (cases "r_underflow p")
    case True
    with Pair assms show ?thesis by (auto simp: rd_enc)
  next
    case False
    with rd_dest [OF Pair] obtain cs
      where "wf x" "fits x" "bs = enc x @ cs" "p = rbuf_at (ds @ enc x) cs" by auto
    with Pair show ?thesis by (auto dest: enc_prefix_free)
  qed
qed

lemma bind_decoded [wire_binds]:
  assumes "\<And>x p. r_underflow p \<Longrightarrow> F x p \<noteq> Inr m"
  shows "((case rd (rbuf_at ds bs) of (x, p) \<Rightarrow> F x p) = Inr m) \<longleftrightarrow>
    (\<exists>x cs. wf x \<and> fits x \<and> bs = enc x @ cs \<and> F x (rbuf_at (ds @ enc x) cs) = Inr m)"
  using bind_inverts [where P = "\<lambda>r. r = Inr m"] assms .

lemma bind_yields [wire_binds]:
  assumes "\<And>x p. r_underflow p \<Longrightarrow> \<not> yields (F x p) y q"
  shows "yields (case rd (rbuf_at ds bs) of (x, p) \<Rightarrow> F x p) y q \<longleftrightarrow>
    (\<exists>x cs. wf x \<and> fits x \<and> bs = enc x @ cs \<and> yields (F x (rbuf_at (ds @ enc x) cs)) y q)"
  using bind_inverts [where P = "\<lambda>r. yields r y q"] assms .

lemma bind_accepts [wire_binds]:
  assumes "\<And>x p. r_underflow p \<Longrightarrow> \<not> accepts (F x p) y q"
  shows "accepts (case rd (rbuf_at ds bs) of (x, p) \<Rightarrow> F x p) y q \<longleftrightarrow>
    (\<exists>x cs. wf x \<and> fits x \<and> bs = enc x @ cs \<and> accepts (F x (rbuf_at (ds @ enc x) cs)) y q)"
  using bind_inverts [where P = "\<lambda>r. accepts r y q"] assms .

lemma bind_bad_accepts [wire_binds]:
  assumes "r_underflow p" and "\<And>x q. r_underflow q \<Longrightarrow> \<not> accepts (F x q) y r"
  shows "accepts (case rd p of (x, q) \<Rightarrow> F x q) y r \<longleftrightarrow> False"
  using rd_bad [OF assms(1)] assms(2) by (cases "rd p") auto

lemma bind_bad [wire_binds]:
  assumes "r_underflow p" and "\<And>x q. r_underflow q \<Longrightarrow> F x q \<noteq> Inr m"
  shows "(case rd p of (x, q) \<Rightarrow> F x q) = Inr m \<longleftrightarrow> False"
  using rd_bad [OF assms(1)] assms(2) by (cases "rd p") auto

lemma bind_bad_yields [wire_binds]:
  assumes "r_underflow p" and "\<And>x q. r_underflow q \<Longrightarrow> \<not> yields (F x q) y r"
  shows "yields (case rd p of (x, q) \<Rightarrow> F x q) y r \<longleftrightarrow> False"
  using rd_bad [OF assms(1)] assms(2) by (cases "rd p") auto

lemma wr_step:
  "writes f c as \<Longrightarrow> wf x \<Longrightarrow> writes (\<lambda>w. wr (f w) x) (c \<and> fits x) (as @ enc x)"
  by (rule writes_seq [OF _ wr])

text \<open>A repeated field is a field: the loops write and read what the single steps do.\<close>

lemma loop_wr:
  "list_all wf xs \<Longrightarrow> writes (\<lambda>w. w_loop wr w xs) (list_all fits xs) (enc_list enc xs)"
  by (rule writes_loop) (auto simp: list_all_iff wr)

lemma loop_wr_step:
  "writes f c as \<Longrightarrow> list_all wf xs \<Longrightarrow>
    writes (\<lambda>w. w_loop wr (f w) xs) (c \<and> list_all fits xs) (as @ enc_list enc xs)"
  by (rule writes_seq [OF _ loop_wr])

lemma r_loop_enc:
  "list_all wf xs \<Longrightarrow> list_all fits xs \<Longrightarrow> r_loop rd (length xs) (rbuf_at ds (enc_list enc xs @ bs))
    = (xs, rbuf_at (ds @ enc_list enc xs) bs)"
  by (induction xs arbitrary: ds) (simp_all add: rd_enc)

lemma r_loop_ok_enc:
  "list_all wf xs \<Longrightarrow> list_all fits xs \<Longrightarrow> r_loop_ok rd (length xs) (rbuf_at ds (enc_list enc xs @ bs))
    = (xs, rbuf_at (ds @ enc_list enc xs) bs)"
  by (induction xs arbitrary: ds) (simp_all add: rd_enc)

lemma rd_enc_last: "wf x \<Longrightarrow> fits x \<Longrightarrow> rd (rbuf_at ds (enc x)) = (x, rbuf_at (ds @ enc x) [])"
  using rd_enc [of x ds "[]"] by simp

lemma r_loop_enc_last:
  "list_all wf xs \<Longrightarrow> list_all fits xs \<Longrightarrow>
    r_loop rd (length xs) (rbuf_at ds (enc_list enc xs)) = (xs, rbuf_at (ds @ enc_list enc xs) [])"
  using r_loop_enc [of xs ds "[]"] by simp

lemma r_loop_ok_enc_last:
  "list_all wf xs \<Longrightarrow> list_all fits xs \<Longrightarrow>
    r_loop_ok rd (length xs) (rbuf_at ds (enc_list enc xs)) = (xs, rbuf_at (ds @ enc_list enc xs) [])"
  using r_loop_ok_enc [of xs ds "[]"] by simp

lemmas enc_reads = rd_enc rd_enc_last r_loop_enc r_loop_enc_last r_loop_ok_enc r_loop_ok_enc_last

lemma r_loop_bad: "r_underflow p \<Longrightarrow> r_underflow (snd (r_loop rd n p))"
proof (induction n arbitrary: p)
  case (Suc n)
  from rd_bad [OF Suc.prems] have "r_underflow (snd (r_loop rd n (snd (rd p))))" by (rule Suc.IH)
  then show ?case by (simp add: case_prod_beta)
qed simp

lemma r_loop_ok_bad: "r_underflow p \<Longrightarrow> r_loop_ok rd n p = ([], p)"
  by (cases n) simp_all

lemma r_loop_dest:
  "r_loop rd n (rbuf_at ds bs) = (xs, p) \<Longrightarrow> \<not> r_underflow p \<Longrightarrow>
    \<exists>cs. length xs = n \<and> list_all wf xs \<and> list_all fits xs \<and> bs = enc_list enc xs @ cs \<and>
      p = rbuf_at (ds @ enc_list enc xs) cs"
proof (induction n arbitrary: ds bs xs)
  case 0
  then show ?case by simp
next
  case (Suc n)
  obtain y q where y: "rd (rbuf_at ds bs) = (y, q)" by fastforce
  with Suc.prems(1) obtain ys where ys: "r_loop rd n q = (ys, p)" and xs: "xs = y # ys"
    by (auto split: prod.splits)
  have "\<not> r_underflow q" using r_loop_bad [of q n] ys Suc.prems(2) by auto
  from rd_dest [OF y this] obtain cs
    where cs: "wf y" "fits y" "bs = enc y @ cs" "q = rbuf_at (ds @ enc y) cs" by auto
  from Suc.IH [OF ys [unfolded cs(4)] Suc.prems(2)] cs xs show ?case by auto
qed

lemma r_loop_ok_dest:
  "r_loop_ok rd n (rbuf_at ds bs) = (xs, p) \<Longrightarrow> \<not> r_underflow p \<Longrightarrow>
    \<exists>cs. length xs = n \<and> list_all wf xs \<and> list_all fits xs \<and> bs = enc_list enc xs @ cs \<and>
      p = rbuf_at (ds @ enc_list enc xs) cs"
proof (induction n arbitrary: ds bs xs)
  case 0
  then show ?case by simp
next
  case (Suc n)
  obtain y q where y: "rd (rbuf_at ds bs) = (y, q)" by fastforce
  with Suc.prems(1) obtain ys where ys: "r_loop_ok rd n q = (ys, p)" and xs: "xs = y # ys"
    by (auto split: prod.splits)
  have "\<not> r_underflow q" using r_loop_ok_bad [of q n] ys Suc.prems(2) by auto
  from rd_dest [OF y this] obtain cs
    where cs: "wf y" "fits y" "bs = enc y @ cs" "q = rbuf_at (ds @ enc y) cs" by auto
  from Suc.IH [OF ys [unfolded cs(4)] Suc.prems(2)] cs xs show ?case by auto
qed

lemma loop_field:
  "wire_field (r_loop rd n) (w_loop wr) (enc_list enc)
    (\<lambda>xs. length xs = n \<and> list_all wf xs) (list_all fits)"
  by unfold_locales (auto simp: loop_wr r_loop_enc r_loop_bad dest: r_loop_dest)

lemma loop_ok_field:
  "wire_field (r_loop_ok rd n) (w_loop wr) (enc_list enc)
    (\<lambda>xs. length xs = n \<and> list_all wf xs) (list_all fits)"
  by unfold_locales (auto simp: loop_wr r_loop_ok_enc r_loop_ok_bad dest: r_loop_ok_dest)

end

lemma wire_fieldI:
  assumes "\<And>x. ty x \<Longrightarrow> writes (\<lambda>w. wr w x) (fits x) (enc x)"
    and "\<And>x ds bs. ty x \<Longrightarrow> fits x \<Longrightarrow>
      rd (rbuf_at ds (enc x @ bs)) = (x, rbuf_at (ds @ enc x) bs)"
    and "\<And>x p ds bs. yields (rd (rbuf_at ds bs)) x p \<Longrightarrow>
      \<exists>cs. ty x \<and> fits x \<and> bs = enc x @ cs \<and> p = rbuf_at (ds @ enc x) cs"
    and "\<And>x p q. r_underflow p \<Longrightarrow> \<not> yields (rd p) x q"
  shows "wire_field rd wr enc ty fits"
  using assms by unfold_locales (auto simp: yields_def, metis prod.collapse)

lemma writes_fits: "writes f c as \<Longrightarrow> c \<longleftrightarrow> c' \<Longrightarrow> as = as' \<Longrightarrow> writes f c' as'"
  by simp

text \<open>
  A list entry whose reader can refuse it: the same laws, for a reader that returns a code or
  the entry and where it stopped.
\<close>

locale wire_entry =
  fixes rd :: "oc_rbuf \<Rightarrow> oc_result + 'a \<times> oc_rbuf"
    and wr :: "oc_wbuf \<Rightarrow> 'a \<Rightarrow> oc_wbuf"
    and enc :: "'a \<Rightarrow> u8 list"
    and wf :: "'a \<Rightarrow> bool"
    and fits :: "'a \<Rightarrow> bool"
  assumes wr: "wf x \<Longrightarrow> writes (\<lambda>w. wr w x) (fits x) (enc x)"
    and rd_enc: "wf x \<Longrightarrow> fits x \<Longrightarrow>
      rd (rbuf_at ds (enc x @ bs)) = Inr (x, rbuf_at (ds @ enc x) bs)"
    and rd_dest: "rd (rbuf_at ds bs) = Inr (x, p) \<Longrightarrow> \<not> r_underflow p \<Longrightarrow>
      \<exists>cs. wf x \<and> fits x \<and> bs = enc x @ cs \<and> p = rbuf_at (ds @ enc x) cs"
begin

lemma loop_wr_step:
  "writes f c as \<Longrightarrow> list_all wf xs \<Longrightarrow>
    writes (\<lambda>w. w_loop wr (f w) xs) (c \<and> list_all fits xs) (as @ enc_list enc xs)"
  by (rule writes_seq [OF _ writes_loop]) (auto simp: list_all_iff wr)

lemma loop_enc:
  "list_all wf xs \<Longrightarrow> list_all fits xs \<Longrightarrow>
    r_loop_try rd (length xs) (rbuf_at ds (enc_list enc xs @ bs))
      = Inr (xs, rbuf_at (ds @ enc_list enc xs) bs)"
  by (induction xs arbitrary: ds) (simp_all add: rd_enc)

lemma loop_enc_last:
  "list_all wf xs \<Longrightarrow> list_all fits xs \<Longrightarrow>
    r_loop_try rd (length xs) (rbuf_at ds (enc_list enc xs))
      = Inr (xs, rbuf_at (ds @ enc_list enc xs) [])"
  using loop_enc [of xs ds "[]"] by simp

lemmas enc_reads = loop_enc loop_enc_last

lemma loop_bad: "r_underflow p \<Longrightarrow> r_loop_try rd n p = Inr ([], p)"
  by (cases n) simp_all

lemma loop_dest:
  "r_loop_try rd n (rbuf_at ds bs) = Inr (xs, p) \<Longrightarrow> \<not> r_underflow p \<Longrightarrow>
    \<exists>cs. length xs = n \<and> list_all wf xs \<and> list_all fits xs \<and> bs = enc_list enc xs @ cs \<and>
      p = rbuf_at (ds @ enc_list enc xs) cs"
proof (induction n arbitrary: ds bs xs)
  case 0
  then show ?case by simp
next
  case (Suc n)
  from Suc.prems(1) obtain y q ys where y: "rd (rbuf_at ds bs) = Inr (y, q)"
    and ys: "r_loop_try rd n q = Inr (ys, p)" and xs: "xs = y # ys"
    by (auto split: sum.splits)
  have "\<not> r_underflow q" using loop_bad [of q n] ys Suc.prems(2) by auto
  from rd_dest [OF y this] obtain cs
    where cs: "wf y" "fits y" "bs = enc y @ cs" "q = rbuf_at (ds @ enc y) cs" by auto
  from Suc.IH [OF ys [unfolded cs(4)] Suc.prems(2)] cs xs show ?case by auto
qed

lemma bind_loop [wire_binds]:
  assumes "\<And>xs p. r_underflow p \<Longrightarrow> F xs p \<noteq> Inr m"
  shows "((case r_loop_try rd n (rbuf_at ds bs) of Inl e \<Rightarrow> Inl e | Inr (xs, p) \<Rightarrow> F xs p) = Inr m) \<longleftrightarrow>
    (\<exists>xs cs. length xs = n \<and> list_all wf xs \<and> list_all fits xs \<and> bs = enc_list enc xs @ cs \<and>
      F xs (rbuf_at (ds @ enc_list enc xs) cs) = Inr m)" (is "?l \<longleftrightarrow> ?r")
proof
  assume ?l
  then obtain xs p where *: "r_loop_try rd n (rbuf_at ds bs) = Inr (xs, p)" "F xs p = Inr m"
    by (auto split: sum.splits)
  with assms have "\<not> r_underflow p" by blast
  from loop_dest [OF *(1) this] *(2) show ?r by blast
next
  assume ?r
  then show ?l by (auto simp: loop_enc)
qed

lemma bind_loop_bad [wire_binds]:
  assumes "r_underflow p" and "\<And>xs q. r_underflow q \<Longrightarrow> F xs q \<noteq> Inr m"
  shows "(case r_loop_try rd n p of Inl e \<Rightarrow> Inl e | Inr (xs, p) \<Rightarrow> F xs p) = Inr m \<longleftrightarrow> False"
  using assms by (auto simp: loop_bad)

end

lemma wire_entryI:
  assumes "\<And>x. ty x \<Longrightarrow> writes (\<lambda>w. wr w x) (fits x) (enc x)"
    and "\<And>x ds bs. ty x \<Longrightarrow> fits x \<Longrightarrow>
      rd (rbuf_at ds (enc x @ bs)) = Inr (x, rbuf_at (ds @ enc x) bs)"
    and "\<And>x p ds bs. accepts (rd (rbuf_at ds bs)) x p \<Longrightarrow>
      \<exists>cs. ty x \<and> fits x \<and> bs = enc x @ cs \<and> p = rbuf_at (ds @ enc x) cs"
  shows "wire_entry rd wr enc ty fits"
  using assms by unfold_locales (auto simp: accepts_def)

interpretation f8: wire_field oc_r_u8 oc_w_u8 "\<lambda>v. [v]" "\<lambda>_. True" "\<lambda>_. True"
  by unfold_locales
    (use writes_u8 [OF writes_id] in \<open>auto simp: wire_reads wire_views split: option.splits\<close>)

interpretation f16: wire_field oc_r_u16 oc_w_u16 be16 "\<lambda>_. True" "\<lambda>_. True"
  by unfold_locales
    (use writes_u16 [OF writes_id] in \<open>auto simp: wire_reads wire_views split: option.splits\<close>)

interpretation f32: wire_field oc_r_u32 oc_w_u32 be32 "\<lambda>_. True" "\<lambda>_. True"
  by unfold_locales
    (use writes_u32 [OF writes_id] in \<open>auto simp: wire_reads wire_views split: option.splits\<close>)

interpretation f64: wire_field oc_r_u64 oc_w_u64 be64 "\<lambda>_. True" "\<lambda>_. True"
  by unfold_locales
    (use writes_u64 [OF writes_id] in \<open>auto simp: wire_reads wire_views split: option.splits\<close>)

interpretation fstr: wire_field oc_r_str oc_w_str enc_str "\<lambda>_. True" "\<lambda>s. length s \<le> 0xFFFF"
  by unfold_locales
    (use writes_str [OF writes_id] in \<open>auto simp: wire_reads wire_views split: option.splits\<close>)

interpretation flstr: wire_field oc_r_lstr oc_w_lstr enc_lstr "\<lambda>_. True" "\<lambda>s. length s \<le> 0xFFFFFFFF"
  by unfold_locales
    (use writes_lstr [OF writes_id] in \<open>auto simp: wire_reads wire_views split: option.splits\<close>)

interpretation fbytes: wire_field oc_r_bytes oc_w_bytes enc_lstr "\<lambda>_. True" "\<lambda>s. length s \<le> 0xFFFFFFFF"
  by unfold_locales
    (use writes_bytes [OF writes_id] in \<open>auto simp: wire_reads wire_views split: option.splits\<close>)

interpretation fidem: wire_field oc_r_idem oc_w_idem "\<lambda>b. b" "\<lambda>b. length b = OC_IDEM_SIZE" "\<lambda>_. True"
  by unfold_locales
    (use writes_idem_exact [OF writes_id] in \<open>auto simp: wire_reads wire_views split: option.splits\<close>)

interpretation fraw: wire_field "\<lambda>p. r_raw p n" "\<lambda>w b. w_raw w b n" "\<lambda>b. b" "\<lambda>b. length b = n" "\<lambda>_. True" for n
  by unfold_locales
    (use writes_raw_exact [OF writes_id] in \<open>auto simp: wire_reads wire_views split: option.splits\<close>)

text \<open>The loops over the primitive fields.\<close>

interpretation f8s: wire_field "r_loop oc_r_u8 n" "w_loop oc_w_u8" "enc_list (\<lambda>v. [v])"
  "\<lambda>xs. length xs = n \<and> list_all (\<lambda>_. True) xs" "list_all (\<lambda>_. True)" for n
  by (rule f8.loop_field)

interpretation f64s: wire_field "r_loop oc_r_u64 n" "w_loop oc_w_u64" "enc_list be64"
  "\<lambda>xs. length xs = n \<and> list_all (\<lambda>_. True) xs" "list_all (\<lambda>_. True)" for n
  by (rule f64.loop_field)

interpretation fstrs: wire_field "r_loop oc_r_str n" "w_loop oc_w_str" "enc_list enc_str"
  "\<lambda>xs. length xs = n \<and> list_all (\<lambda>_. True) xs" "list_all (\<lambda>s. length s \<le> 0xFFFF)" for n
  by (rule fstr.loop_field)

lemmas prim_loops = f8.loop_wr_step f64.loop_wr_step fstr.loop_wr_step
lemmas prim_loop_reads = f8.enc_reads f64.enc_reads fstr.enc_reads

section \<open>Messages\<close>

text \<open>
  A message type: its encoder appends one frame of the given version and type around the
  message's payload, or appends nothing and says why; its decoder reads that payload back.
  \<open>wf\<close> is what the C types say of the message (fixed arrays have their size, lists are no
  longer than the array that holds them) and, where a decoder refuses other values or an encoder normalises
  them, that the values are ones they both keep.

  \<open>frame_roundtrips\<close> says that a frame an encoder appended, parsed and decoded, is the message
  again; \<open>frame_atomic\<close> that an encoder appends a whole frame or nothing and stays inside the
  buffer, whatever the message; \<open>decodes_within\<close> that a decoder returns only messages with a property;
  \<open>frame_canonical\<close> that a decoder accepts no two payloads for one message, and that encoding a message it
  returned appends the frame of the payload it was read from, or fails for a reason that is not the payload's:
  no room for that frame, or a body above the limit that encoders check and decoders do not.
\<close>

definition frame_roundtrips ::
  "(oc_wbuf \<Rightarrow> 'm \<Rightarrow> oc_result \<times> oc_wbuf) \<Rightarrow> u16 \<Rightarrow> u16 \<Rightarrow> (oc_rbuf \<Rightarrow> oc_result + 'm) \<Rightarrow> ('m \<Rightarrow> bool) \<Rightarrow> bool"
  where
  "frame_roundtrips encode version msg_type decode ty \<longleftrightarrow>
     (\<forall>m w w' rest. ty m \<longrightarrow> encode w m = (OC_OK, w') \<longrightarrow>
        (\<exists>frame hdr p. w_data w' = w_data w @ frame \<and>
           oc_parse_frame (frame @ rest) = Inr (hdr, p) \<and>
           hdr_version hdr = version \<and> hdr_msg_type hdr = msg_type \<and> decode p = Inr m))"

definition decodes_within :: "(oc_rbuf \<Rightarrow> oc_result + 'm) \<Rightarrow> ('m \<Rightarrow> bool) \<Rightarrow> bool" where
  "decodes_within decode ty \<longleftrightarrow> (\<forall>p m. decode p = Inr m \<longrightarrow> ty m)"

definition all_or_nothing :: "oc_wbuf \<Rightarrow> oc_result \<times> oc_wbuf \<Rightarrow> bool" where
  "all_or_nothing w res \<longleftrightarrow>
     (case res of (r, w') \<Rightarrow>
        w_cap w' = w_cap w \<and> (r \<noteq> OC_OK \<longrightarrow> w_data w' = w_data w) \<and>
        (length (w_data w) \<le> w_cap w \<longrightarrow> length (w_data w') \<le> w_cap w'))"

definition frame_atomic :: "(oc_wbuf \<Rightarrow> 'm \<Rightarrow> oc_result \<times> oc_wbuf) \<Rightarrow> bool" where
  "frame_atomic encode \<longleftrightarrow> (\<forall>m w. all_or_nothing w (encode w m))"

definition frame_canonical ::
  "(oc_wbuf \<Rightarrow> 'm \<Rightarrow> oc_result \<times> oc_wbuf) \<Rightarrow> u16 \<Rightarrow> u16 \<Rightarrow> (oc_rbuf \<Rightarrow> oc_result + 'm) \<Rightarrow> bool" where
  "frame_canonical encode version msg_type decode \<longleftrightarrow>
     (\<forall>bs m. decode (oc_rbuf_init bs) = Inr m \<longrightarrow>
        (\<forall>cs. decode (oc_rbuf_init cs) = Inr m \<longrightarrow> cs = bs) \<and>
        (\<forall>w r w'. encode w m = (r, w') \<longrightarrow>
           (if r = OC_OK then w_data w' = w_data w @ frame_bytes version msg_type bs
            else r = OC_E_BODY_TOO_LARGE \<or> w_overflow w \<or>
              OC_HEADER_SIZE + length bs > min OC_MAX_FRAME_SIZE (w_cap w - length (w_data w)))))"

text \<open>Every bracket of write steps is all or nothing, an early return before it included.\<close>

lemma emit_all_or_nothing: "all_or_nothing w (oc_emit w v t early fits payload)"
  by (auto simp: all_or_nothing_def oc_emit_def split: option.splits)

lemma bracket_all_or_nothing:
  "writes f c bs \<Longrightarrow> all_or_nothing w (case oc_frame_begin w v t of (off, w) \<Rightarrow> oc_frame_end (f w) off)"
  using frame_emits [of f c bs c bs w v t] emit_all_or_nothing by simp

lemma early_all_or_nothing: "all_or_nothing w X \<Longrightarrow> all_or_nothing w (if P then (e, w) else X)"
  by (simp add: all_or_nothing_def)

lemma frame_atomicI: "(\<And>m w. all_or_nothing w (encode w m)) \<Longrightarrow> frame_atomic encode"
  by (simp add: frame_atomic_def)

lemma writes_loop_any:
  assumes "writes f c as" "\<And>x. writes (\<lambda>w. wr w x) (fits x) (enc x)"
  shows "writes (\<lambda>w. w_loop wr (f w) xs) (c \<and> list_all fits xs) (as @ enc_list enc xs)"
  using writes_seq [OF assms(1) writes_loop [of xs wr fits enc]] assms(2) by simp

lemma writes_cond:
  "writes f c as \<Longrightarrow> writes g d bs \<Longrightarrow> writes (\<lambda>w. if P then f w else g w) (if P then c else d) (if P then as else bs)"
  by (rule writes_if)

lemmas any_writes = wire_writes writes_loop_any writes_cond

locale frame_codec =
  fixes encode :: "oc_wbuf \<Rightarrow> 'm \<Rightarrow> oc_result \<times> oc_wbuf"
    and version :: u16
    and msg_type :: u16
    and decode :: "oc_rbuf \<Rightarrow> oc_result + 'm"
    and payload :: "'m \<Rightarrow> u8 list"
    and early :: "'m \<Rightarrow> oc_result option"
    and wf :: "'m \<Rightarrow> bool"
    and fits :: "'m \<Rightarrow> bool"
  assumes encode_emits:
      "wf m \<Longrightarrow> encode w m = oc_emit w version msg_type (early m) (fits m) (payload m)"
    and early_fails: "early m \<in> {None, Some OC_E_BODY_TOO_LARGE}"
    and decode_payload: "wf m \<Longrightarrow> fits m \<Longrightarrow> decode (rbuf_at [] (payload m)) = Inr m"
begin

lemma encoded_frame:
  assumes m: "wf m" and enc: "encode w m = (OC_OK, w')"
  shows "w_data w' = w_data w @ frame_bytes version msg_type (payload m)"
    and "OC_HEADER_SIZE + length (payload m) \<le> OC_MAX_FRAME_SIZE"
    and "decode (rbuf_at [] (payload m)) = Inr m"
  using enc encode_emits [OF m, of w] early_fails [of m] decode_payload [OF m]
  by (auto simp: oc_emit_def split: if_splits option.splits)

lemma encoded_parses:
  assumes m: "wf m" and enc: "encode w m = (OC_OK, w')"
  shows "\<exists>frame hdr p. w_data w' = w_data w @ frame \<and>
    oc_parse_frame (frame @ rest) = Inr (hdr, p) \<and>
    hdr_version hdr = version \<and> hdr_msg_type hdr = msg_type \<and> decode p = Inr m"
  using encoded_frame [OF assms] parse_frame_bytes [OF encoded_frame(2) [OF assms], of version msg_type rest]
  by (auto simp: oc_rbuf_init_at)

lemma roundtrips: "frame_roundtrips encode version msg_type decode wf"
  unfolding frame_roundtrips_def using encoded_parses by blast

lemma atomic: "(\<And>m. wf m) \<Longrightarrow> frame_atomic encode"
  by (rule frame_atomicI) (simp add: encode_emits emit_all_or_nothing)

lemma encode_ok_iff:
  assumes "wf m" and "\<not> w_overflow w"
  shows "fst (encode w m) = OC_OK \<longleftrightarrow> early m = None \<and> fits m \<and>
    OC_HEADER_SIZE + length (payload m) \<le> min OC_MAX_FRAME_SIZE (w_cap w - length (w_data w))"
  using assms encode_emits [OF assms(1), of w] early_fails [of m]
  by (auto simp: oc_emit_def split: option.splits)

end

locale canonical_codec = frame_codec +
  assumes decode_canonical: "decode (rbuf_at [] bs) = Inr m \<Longrightarrow> wf m \<and> fits m \<and> bs = payload m"
begin

lemma decode_unique:
  "decode (rbuf_at [] bs) = Inr m \<Longrightarrow> decode (rbuf_at [] cs) = Inr m \<Longrightarrow> bs = cs"
  using decode_canonical by metis

lemma canonical: "frame_canonical encode version msg_type decode"
  unfolding frame_canonical_def oc_rbuf_init_at
proof (intro allI impI conjI)
  fix bs m assume dec: "decode (rbuf_at [] bs) = Inr m"
  fix cs assume "decode (rbuf_at [] cs) = Inr m"
  then show "cs = bs" using dec decode_unique by blast
next
  fix bs m w r w' assume dec: "decode (rbuf_at [] bs) = Inr m" and enc: "encode w m = (r, w')"
  then have m: "wf m" "fits m" "bs = payload m" using decode_canonical by auto
  from enc encode_emits [OF m(1), of w] m(2,3) early_fails [of m]
  show "if r = OC_OK then w_data w' = w_data w @ frame_bytes version msg_type bs
      else r = OC_E_BODY_TOO_LARGE \<or> w_overflow w \<or>
        OC_HEADER_SIZE + length bs > min OC_MAX_FRAME_SIZE (w_cap w - length (w_data w))"
    by (auto simp: oc_emit_def split: if_splits option.splits)
qed

end

declare Let_def [codec_defs, entry_defs]
declare reads_bad [wire_binds] decoded_at [wire_binds] decoded_bad [wire_binds]

section \<open>Version negotiation\<close>

text \<open>
  C36: version negotiation picks the highest version both ranges contain, and fails exactly
  when the ranges are disjoint, telling the client it is too old when its whole range lies
  below the server's and too new when it lies above.
\<close>

theorem negotiate_version_correct:
  assumes "client_min \<le> client_max" and "server_min \<le> server_max"
  shows "case oc_negotiate_version client_min client_max server_min server_max of
      Inr v \<Rightarrow> v \<in> {client_min..client_max} \<inter> {server_min..server_max} \<and>
        (\<forall>u \<in> {client_min..client_max} \<inter> {server_min..server_max}. u \<le> v)
    | Inl e \<Rightarrow> {client_min..client_max} \<inter> {server_min..server_max} = {} \<and>
        (e = OC_ERR_VERSION_TOO_OLD \<and> client_max < server_min \<or>
         e = OC_ERR_VERSION_TOO_NEW \<and> server_max < client_min)"
  using assms by (auto simp: oc_negotiate_version_def split: sum.splits if_splits)

theorem negotiate_version_correct_witness:
  "oc_negotiate_version 1 5 3 4 = Inr 4 \<and> (4 :: u16) \<in> {1..5} \<inter> {3..4}"
  using negotiate_version_correct [of 1 5 3 4] by (simp add: oc_negotiate_version_def)

end
