(* ===== verification/Codec_Session.thy ===== *)
theory Codec_Session
  imports Wire
begin

text \<open>
  The messages of the handshake, of signing in and of errors (\<^verbatim>\<open>shared/protocol.c\<close>), one encoder and
  one decoder each. The field \<^verbatim>\<open>f\<close> of the C struct \<^verbatim>\<open>oc_s\<close> is the record field \<open>s_f\<close>; a count and
  the array it counts are one list. The payload functions say what bytes a message has on
  the wire, and each encoder and decoder pair is an instance of \<open>canonical_codec\<close> for them.
\<close>

abbreviation OC_MAX_SOURCES :: nat where "OC_MAX_SOURCES \<equiv> 8"

section \<open>Messages, encoders and decoders\<close>

record oc_hello =
  hello_min_version :: u16
  hello_max_version :: u16
  hello_client_info :: oc_slice

definition oc_encode_hello :: "oc_wbuf \<Rightarrow> oc_hello \<Rightarrow> oc_result \<times> oc_wbuf" where [codec_defs]:
  "oc_encode_hello w m =
     (let (off, w) = oc_frame_begin w OC_HANDSHAKE_VERSION OC_MSG_HELLO;
          w = oc_w_u16 w (hello_min_version m);
          w = oc_w_u16 w (hello_max_version m);
          w = oc_w_str w (hello_client_info m)
      in oc_frame_end w off)"

definition oc_decode_hello :: "oc_rbuf \<Rightarrow> oc_result + oc_hello" where [codec_defs]:
  "oc_decode_hello p =
     (let (min_version_v, p) = oc_r_u16 p;
          (max_version_v, p) = oc_r_u16 p;
          (client_info_v, p) = oc_r_str p
      in decoded p \<lparr>hello_min_version = min_version_v, hello_max_version = max_version_v,
        hello_client_info = client_info_v\<rparr>)"

record oc_welcome =
  welcome_chosen_version :: u16
  welcome_server_time :: u64

definition oc_encode_welcome :: "oc_wbuf \<Rightarrow> oc_welcome \<Rightarrow> oc_result \<times> oc_wbuf" where [codec_defs]:
  "oc_encode_welcome w m =
     (let (off, w) = oc_frame_begin w OC_HANDSHAKE_VERSION OC_MSG_WELCOME;
          w = oc_w_u16 w (welcome_chosen_version m);
          w = oc_w_u64 w (welcome_server_time m)
      in oc_frame_end w off)"

definition oc_decode_welcome :: "oc_rbuf \<Rightarrow> oc_result + oc_welcome" where [codec_defs]:
  "oc_decode_welcome p =
     (let (chosen_version_v, p) = oc_r_u16 p;
          (server_time_v, p) = oc_r_u64 p
      in decoded p \<lparr>welcome_chosen_version = chosen_version_v,
        welcome_server_time = server_time_v\<rparr>)"

record oc_reject =
  reject_code :: u16
  reject_message :: oc_slice

definition oc_encode_reject :: "oc_wbuf \<Rightarrow> oc_reject \<Rightarrow> oc_result \<times> oc_wbuf" where [codec_defs]:
  "oc_encode_reject w m =
     (let (off, w) = oc_frame_begin w OC_HANDSHAKE_VERSION OC_MSG_REJECT;
          w = oc_w_u16 w (reject_code m);
          w = oc_w_str w (reject_message m)
      in oc_frame_end w off)"

definition oc_decode_reject :: "oc_rbuf \<Rightarrow> oc_result + oc_reject" where [codec_defs]:
  "oc_decode_reject p =
     (let (code_v, p) = oc_r_u16 p;
          (message_v, p) = oc_r_str p
      in decoded p \<lparr>reject_code = code_v, reject_message = message_v\<rparr>)"

record oc_auth_source =
  auth_source_id :: oc_slice
  auth_source_kind :: u8
  auth_source_label :: oc_slice

definition w_auth_source :: "oc_wbuf \<Rightarrow> oc_auth_source \<Rightarrow> oc_wbuf" where [entry_defs]:
  "w_auth_source w x =
     (let w = oc_w_str w (auth_source_id x);
          w = oc_w_u8 w (auth_source_kind x);
          w = oc_w_str w (auth_source_label x)
      in w)"

definition r_auth_source :: "oc_rbuf \<Rightarrow> oc_auth_source \<times> oc_rbuf" where [entry_defs]:
  "r_auth_source p =
     (let (id_v, p) = oc_r_str p;
          (kind_v, p) = oc_r_u8 p;
          (label_v, p) = oc_r_str p
      in (\<lparr>auth_source_id = id_v, auth_source_kind = kind_v,
        auth_source_label = label_v\<rparr>, p))"

record oc_auth_challenge =
  auth_challenge_sources :: "oc_auth_source list"

definition oc_encode_auth_challenge :: "oc_wbuf \<Rightarrow> u16 \<Rightarrow> oc_auth_challenge \<Rightarrow> oc_result \<times> oc_wbuf" where [codec_defs]:
  "oc_encode_auth_challenge w version m =
     (let (off, w) = oc_frame_begin w version OC_MSG_AUTH_CHALLENGE;
          n = min (length (auth_challenge_sources m)) OC_MAX_SOURCES;
          w = oc_w_u8 w (of_nat n);
          w = w_loop w_auth_source w (take n (auth_challenge_sources m))
      in oc_frame_end w off)"

definition oc_decode_auth_challenge :: "oc_rbuf \<Rightarrow> oc_result + oc_auth_challenge" where [codec_defs]:
  "oc_decode_auth_challenge p =
     (let (n, p) = oc_r_u8 p
      in if unat n > OC_MAX_SOURCES then Inl OC_E_MALFORMED
         else let (sources_v, p) = r_loop r_auth_source (unat n) p
              in decoded p \<lparr>auth_challenge_sources = sources_v\<rparr>)"

record oc_auth_begin =
  auth_begin_source :: oc_slice
  auth_begin_redirect_uri :: oc_slice
  auth_begin_challenge :: oc_slice

definition oc_encode_auth_begin :: "oc_wbuf \<Rightarrow> u16 \<Rightarrow> oc_auth_begin \<Rightarrow> oc_result \<times> oc_wbuf" where [codec_defs]:
  "oc_encode_auth_begin w version m =
     (let (off, w) = oc_frame_begin w version OC_MSG_AUTH_BEGIN;
          w = oc_w_str w (auth_begin_source m);
          w = oc_w_str w (auth_begin_redirect_uri m);
          w = oc_w_str w (auth_begin_challenge m)
      in oc_frame_end w off)"

definition oc_decode_auth_begin :: "oc_rbuf \<Rightarrow> oc_result + oc_auth_begin" where [codec_defs]:
  "oc_decode_auth_begin p =
     (let (source_v, p) = oc_r_str p;
          (redirect_uri_v, p) = oc_r_str p;
          (challenge_v, p) = oc_r_str p
      in decoded p \<lparr>auth_begin_source = source_v,
        auth_begin_redirect_uri = redirect_uri_v, auth_begin_challenge = challenge_v\<rparr>)"

record oc_auth_redirect =
  auth_redirect_authorize_url :: oc_slice

definition oc_encode_auth_redirect :: "oc_wbuf \<Rightarrow> u16 \<Rightarrow> oc_auth_redirect \<Rightarrow> oc_result \<times> oc_wbuf" where [codec_defs]:
  "oc_encode_auth_redirect w version m =
     (let (off, w) = oc_frame_begin w version OC_MSG_AUTH_REDIRECT;
          w = oc_w_str w (auth_redirect_authorize_url m)
      in oc_frame_end w off)"

definition oc_decode_auth_redirect :: "oc_rbuf \<Rightarrow> oc_result + oc_auth_redirect" where [codec_defs]:
  "oc_decode_auth_redirect p =
     (let (authorize_url_v, p) = oc_r_str p
      in decoded p \<lparr>auth_redirect_authorize_url = authorize_url_v\<rparr>)"

record oc_auth_device_begin =
  auth_device_begin_source :: oc_slice
  auth_device_begin_challenge :: oc_slice

definition oc_encode_auth_device_begin :: "oc_wbuf \<Rightarrow> u16 \<Rightarrow> oc_auth_device_begin \<Rightarrow> oc_result \<times> oc_wbuf" where [codec_defs]:
  "oc_encode_auth_device_begin w version m =
     (let (off, w) = oc_frame_begin w version OC_MSG_AUTH_DEVICE_BEGIN;
          w = oc_w_str w (auth_device_begin_source m);
          w = oc_w_str w (auth_device_begin_challenge m)
      in oc_frame_end w off)"

definition oc_decode_auth_device_begin :: "oc_rbuf \<Rightarrow> oc_result + oc_auth_device_begin" where [codec_defs]:
  "oc_decode_auth_device_begin p =
     (let (source_v, p) = oc_r_str p;
          (challenge_v, p) = oc_r_str p
      in decoded p \<lparr>auth_device_begin_source = source_v,
        auth_device_begin_challenge = challenge_v\<rparr>)"

record oc_auth_device =
  auth_device_device_code :: oc_slice
  auth_device_user_code :: oc_slice
  auth_device_verification_path :: oc_slice
  auth_device_interval_s :: u16
  auth_device_expires_in_s :: u16

definition oc_encode_auth_device :: "oc_wbuf \<Rightarrow> u16 \<Rightarrow> oc_auth_device \<Rightarrow> oc_result \<times> oc_wbuf" where [codec_defs]:
  "oc_encode_auth_device w version m =
     (let (off, w) = oc_frame_begin w version OC_MSG_AUTH_DEVICE;
          w = oc_w_str w (auth_device_device_code m);
          w = oc_w_str w (auth_device_user_code m);
          w = oc_w_str w (auth_device_verification_path m);
          w = oc_w_u16 w (auth_device_interval_s m);
          w = oc_w_u16 w (auth_device_expires_in_s m)
      in oc_frame_end w off)"

definition oc_decode_auth_device :: "oc_rbuf \<Rightarrow> oc_result + oc_auth_device" where [codec_defs]:
  "oc_decode_auth_device p =
     (let (device_code_v, p) = oc_r_str p;
          (user_code_v, p) = oc_r_str p;
          (verification_path_v, p) = oc_r_str p;
          (interval_s_v, p) = oc_r_u16 p;
          (expires_in_s_v, p) = oc_r_u16 p
      in decoded p \<lparr>auth_device_device_code = device_code_v,
        auth_device_user_code = user_code_v,
        auth_device_verification_path = verification_path_v,
        auth_device_interval_s = interval_s_v, auth_device_expires_in_s = expires_in_s_v\<rparr>)"

record oc_auth_device_poll =
  auth_device_poll_device_code :: oc_slice

definition oc_encode_auth_device_poll :: "oc_wbuf \<Rightarrow> u16 \<Rightarrow> oc_auth_device_poll \<Rightarrow> oc_result \<times> oc_wbuf" where [codec_defs]:
  "oc_encode_auth_device_poll w version m =
     (let (off, w) = oc_frame_begin w version OC_MSG_AUTH_DEVICE_POLL;
          w = oc_w_str w (auth_device_poll_device_code m)
      in oc_frame_end w off)"

definition oc_decode_auth_device_poll :: "oc_rbuf \<Rightarrow> oc_result + oc_auth_device_poll" where [codec_defs]:
  "oc_decode_auth_device_poll p =
     (let (device_code_v, p) = oc_r_str p
      in decoded p \<lparr>auth_device_poll_device_code = device_code_v\<rparr>)"

record oc_auth_device_token =
  auth_device_token_token :: oc_slice

definition oc_encode_auth_device_token :: "oc_wbuf \<Rightarrow> u16 \<Rightarrow> oc_auth_device_token \<Rightarrow> oc_result \<times> oc_wbuf" where [codec_defs]:
  "oc_encode_auth_device_token w version m =
     (if length (auth_device_token_token m) > OC_MAX_BODY_SIZE then (OC_E_BODY_TOO_LARGE, w)
      else
        (let (off, w) = oc_frame_begin w version OC_MSG_AUTH_DEVICE_TOKEN;
            w = oc_w_lstr w (auth_device_token_token m)
        in oc_frame_end w off))"

definition oc_decode_auth_device_token :: "oc_rbuf \<Rightarrow> oc_result + oc_auth_device_token" where [codec_defs]:
  "oc_decode_auth_device_token p =
     (let (token_v, p) = oc_r_lstr p
      in decoded p \<lparr>auth_device_token_token = token_v\<rparr>)"

record oc_auth =
  auth_method :: u8
  auth_source :: oc_slice
  auth_credential :: oc_slice
  auth_proof :: oc_slice
  auth_state :: oc_slice

definition oc_encode_auth :: "oc_wbuf \<Rightarrow> u16 \<Rightarrow> oc_auth \<Rightarrow> oc_result \<times> oc_wbuf" where [codec_defs]:
  "oc_encode_auth w version m =
     (if length (auth_credential m) > OC_MAX_BODY_SIZE then (OC_E_BODY_TOO_LARGE, w)
      else
        (let (off, w) = oc_frame_begin w version OC_MSG_AUTH;
            w = oc_w_u8 w (auth_method m);
            w = oc_w_str w (auth_source m);
            w = oc_w_lstr w (auth_credential m);
            w = oc_w_str w (auth_proof m);
            w = oc_w_str w (auth_state m)
        in oc_frame_end w off))"

definition oc_decode_auth :: "oc_rbuf \<Rightarrow> oc_result + oc_auth" where [codec_defs]:
  "oc_decode_auth p =
     (let (method_v, p) = oc_r_u8 p;
          (source_v, p) = oc_r_str p;
          (credential_v, p) = oc_r_lstr p;
          (proof_v, p) = oc_r_str p;
          (state_v, p) = oc_r_str p
      in decoded p \<lparr>auth_method = method_v, auth_source = source_v,
        auth_credential = credential_v, auth_proof = proof_v, auth_state = state_v\<rparr>)"

record oc_auth_continue =
  auth_continue_step :: u8

definition oc_encode_auth_continue :: "oc_wbuf \<Rightarrow> u16 \<Rightarrow> oc_auth_continue \<Rightarrow> oc_result \<times> oc_wbuf" where [codec_defs]:
  "oc_encode_auth_continue w version m =
     (let (off, w) = oc_frame_begin w version OC_MSG_AUTH_CONTINUE;
          w = oc_w_u8 w (auth_continue_step m)
      in oc_frame_end w off)"

definition oc_decode_auth_continue :: "oc_rbuf \<Rightarrow> oc_result + oc_auth_continue" where [codec_defs]:
  "oc_decode_auth_continue p =
     (let (step_v, p) = oc_r_u8 p
      in decoded p \<lparr>auth_continue_step = step_v\<rparr>)"

record oc_auth_ok =
  auth_ok_user_id :: u64
  auth_ok_role :: u8
  auth_ok_session_expiry :: u64
  auth_ok_session_token :: oc_slice

definition oc_encode_auth_ok :: "oc_wbuf \<Rightarrow> u16 \<Rightarrow> oc_auth_ok \<Rightarrow> oc_result \<times> oc_wbuf" where [codec_defs]:
  "oc_encode_auth_ok w version m =
     (let (off, w) = oc_frame_begin w version OC_MSG_AUTH_OK;
          w = oc_w_u64 w (auth_ok_user_id m);
          w = oc_w_u8 w (auth_ok_role m);
          w = oc_w_u64 w (auth_ok_session_expiry m);
          w = oc_w_bytes w (auth_ok_session_token m)
      in oc_frame_end w off)"

definition oc_decode_auth_ok :: "oc_rbuf \<Rightarrow> oc_result + oc_auth_ok" where [codec_defs]:
  "oc_decode_auth_ok p =
     (let (user_id_v, p) = oc_r_u64 p;
          (role_v, p) = oc_r_u8 p;
          (session_expiry_v, p) = oc_r_u64 p;
          (session_token_v, p) = oc_r_bytes p
      in decoded p \<lparr>auth_ok_user_id = user_id_v, auth_ok_role = role_v,
        auth_ok_session_expiry = session_expiry_v,
        auth_ok_session_token = session_token_v\<rparr>)"

record oc_workspace_info =
  workspace_info_deployment_mode :: u8
  workspace_info_max_users :: u32
  workspace_info_workspace_name :: oc_slice
  workspace_info_call_max :: u8
  workspace_info_mode :: u8
  workspace_info_max_video_size :: u64

definition oc_encode_workspace_info :: "oc_wbuf \<Rightarrow> u16 \<Rightarrow> oc_workspace_info \<Rightarrow> oc_result \<times> oc_wbuf" where [codec_defs]:
  "oc_encode_workspace_info w version m =
     (let (off, w) = oc_frame_begin w version OC_MSG_WORKSPACE_INFO;
          w = oc_w_u8 w (workspace_info_deployment_mode m);
          w = oc_w_u32 w (workspace_info_max_users m);
          w = oc_w_str w (workspace_info_workspace_name m);
          w = oc_w_u8 w (workspace_info_call_max m);
          w = oc_w_u8 w (workspace_info_mode m);
          w = oc_w_u64 w (workspace_info_max_video_size m)
      in oc_frame_end w off)"

definition oc_decode_workspace_info :: "oc_rbuf \<Rightarrow> oc_result + oc_workspace_info" where [codec_defs]:
  "oc_decode_workspace_info p =
     (let (deployment_mode_v, p) = oc_r_u8 p;
          (max_users_v, p) = oc_r_u32 p;
          (workspace_name_v, p) = oc_r_str p;
          (call_max_v, p) = oc_r_u8 p;
          (mode_v, p) = oc_r_u8 p;
          (max_video_size_v, p) = oc_r_u64 p
      in decoded p \<lparr>workspace_info_deployment_mode = deployment_mode_v,
        workspace_info_max_users = max_users_v,
        workspace_info_workspace_name = workspace_name_v, workspace_info_call_max = call_max_v,
        workspace_info_mode = mode_v, workspace_info_max_video_size = max_video_size_v\<rparr>)"

record oc_logout =
  logout_scope :: u8
  logout_session_token :: oc_slice

definition oc_encode_logout :: "oc_wbuf \<Rightarrow> u16 \<Rightarrow> oc_logout \<Rightarrow> oc_result \<times> oc_wbuf" where [codec_defs]:
  "oc_encode_logout w version m =
     (let (off, w) = oc_frame_begin w version OC_MSG_LOGOUT;
          w = oc_w_u8 w (logout_scope m);
          w = oc_w_bytes w (logout_session_token m)
      in oc_frame_end w off)"

definition oc_decode_logout :: "oc_rbuf \<Rightarrow> oc_result + oc_logout" where [codec_defs]:
  "oc_decode_logout p =
     (let (scope_v, p) = oc_r_u8 p;
          (session_token_v, p) = oc_r_bytes p
      in decoded p \<lparr>logout_scope = scope_v, logout_session_token = session_token_v\<rparr>)"

record oc_error =
  error_code :: u16
  error_fatal :: u8
  error_context :: oc_slice
  error_message :: oc_slice

definition oc_encode_error :: "oc_wbuf \<Rightarrow> u16 \<Rightarrow> oc_error \<Rightarrow> oc_result \<times> oc_wbuf" where [codec_defs]:
  "oc_encode_error w version m =
     (let (off, w) = oc_frame_begin w version OC_MSG_ERROR;
          w = oc_w_u16 w (error_code m);
          w = oc_w_u8 w (error_fatal m);
          w = oc_w_bytes w (error_context m);
          w = oc_w_str w (error_message m)
      in oc_frame_end w off)"

definition oc_decode_error :: "oc_rbuf \<Rightarrow> oc_result + oc_error" where [codec_defs]:
  "oc_decode_error p =
     (let (code_v, p) = oc_r_u16 p;
          (fatal_v, p) = oc_r_u8 p;
          (context_v, p) = oc_r_bytes p;
          (message_v, p) = oc_r_str p
      in decoded p \<lparr>error_code = code_v, error_fatal = fatal_v,
        error_context = context_v, error_message = message_v\<rparr>)"

section \<open>Payloads\<close>

definition payload_hello :: "oc_hello \<Rightarrow> u8 list" where [codec_defs]:
  "payload_hello m =
     be16 (hello_min_version m) @ be16 (hello_max_version m) @ enc_str (hello_client_info m)"

definition fits_hello :: "oc_hello \<Rightarrow> bool" where [codec_defs]:
  "fits_hello m \<longleftrightarrow> length (hello_client_info m) \<le> 0xFFFF"

definition payload_welcome :: "oc_welcome \<Rightarrow> u8 list" where [codec_defs]:
  "payload_welcome m =
     be16 (welcome_chosen_version m) @ be64 (welcome_server_time m)"

definition payload_reject :: "oc_reject \<Rightarrow> u8 list" where [codec_defs]:
  "payload_reject m =
     be16 (reject_code m) @ enc_str (reject_message m)"

definition fits_reject :: "oc_reject \<Rightarrow> bool" where [codec_defs]:
  "fits_reject m \<longleftrightarrow> length (reject_message m) \<le> 0xFFFF"

definition enc_auth_source :: "oc_auth_source \<Rightarrow> u8 list" where [entry_defs]:
  "enc_auth_source x =
     enc_str (auth_source_id x) @ [auth_source_kind x] @ enc_str (auth_source_label x)"

definition fits_auth_source :: "oc_auth_source \<Rightarrow> bool" where [entry_defs]:
  "fits_auth_source x \<longleftrightarrow> length (auth_source_id x) \<le> 0xFFFF \<and>
     length (auth_source_label x) \<le> 0xFFFF"

definition payload_auth_challenge :: "oc_auth_challenge \<Rightarrow> u8 list" where [codec_defs]:
  "payload_auth_challenge m =
     [of_nat (length (auth_challenge_sources m))] @
       enc_list enc_auth_source (auth_challenge_sources m)"

definition wf_auth_challenge :: "oc_auth_challenge \<Rightarrow> bool" where [codec_defs]:
  "wf_auth_challenge m \<longleftrightarrow> length (auth_challenge_sources m) \<le> OC_MAX_SOURCES"

definition fits_auth_challenge :: "oc_auth_challenge \<Rightarrow> bool" where [codec_defs]:
  "fits_auth_challenge m \<longleftrightarrow> list_all fits_auth_source (auth_challenge_sources m)"

definition payload_auth_begin :: "oc_auth_begin \<Rightarrow> u8 list" where [codec_defs]:
  "payload_auth_begin m =
     enc_str (auth_begin_source m) @ enc_str (auth_begin_redirect_uri m) @
       enc_str (auth_begin_challenge m)"

definition fits_auth_begin :: "oc_auth_begin \<Rightarrow> bool" where [codec_defs]:
  "fits_auth_begin m \<longleftrightarrow> length (auth_begin_source m) \<le> 0xFFFF \<and>
     length (auth_begin_redirect_uri m) \<le> 0xFFFF \<and>
     length (auth_begin_challenge m) \<le> 0xFFFF"

definition payload_auth_redirect :: "oc_auth_redirect \<Rightarrow> u8 list" where [codec_defs]:
  "payload_auth_redirect m =
     enc_str (auth_redirect_authorize_url m)"

definition fits_auth_redirect :: "oc_auth_redirect \<Rightarrow> bool" where [codec_defs]:
  "fits_auth_redirect m \<longleftrightarrow> length (auth_redirect_authorize_url m) \<le> 0xFFFF"

definition payload_auth_device_begin :: "oc_auth_device_begin \<Rightarrow> u8 list" where [codec_defs]:
  "payload_auth_device_begin m =
     enc_str (auth_device_begin_source m) @ enc_str (auth_device_begin_challenge m)"

definition fits_auth_device_begin :: "oc_auth_device_begin \<Rightarrow> bool" where [codec_defs]:
  "fits_auth_device_begin m \<longleftrightarrow> length (auth_device_begin_source m) \<le> 0xFFFF \<and>
     length (auth_device_begin_challenge m) \<le> 0xFFFF"

definition payload_auth_device :: "oc_auth_device \<Rightarrow> u8 list" where [codec_defs]:
  "payload_auth_device m =
     enc_str (auth_device_device_code m) @ enc_str (auth_device_user_code m) @
       enc_str (auth_device_verification_path m) @ be16 (auth_device_interval_s m) @
       be16 (auth_device_expires_in_s m)"

definition fits_auth_device :: "oc_auth_device \<Rightarrow> bool" where [codec_defs]:
  "fits_auth_device m \<longleftrightarrow> length (auth_device_device_code m) \<le> 0xFFFF \<and>
     length (auth_device_user_code m) \<le> 0xFFFF \<and>
     length (auth_device_verification_path m) \<le> 0xFFFF"

definition payload_auth_device_poll :: "oc_auth_device_poll \<Rightarrow> u8 list" where [codec_defs]:
  "payload_auth_device_poll m =
     enc_str (auth_device_poll_device_code m)"

definition fits_auth_device_poll :: "oc_auth_device_poll \<Rightarrow> bool" where [codec_defs]:
  "fits_auth_device_poll m \<longleftrightarrow> length (auth_device_poll_device_code m) \<le> 0xFFFF"

definition payload_auth_device_token :: "oc_auth_device_token \<Rightarrow> u8 list" where [codec_defs]:
  "payload_auth_device_token m =
     enc_lstr (auth_device_token_token m)"

definition fits_auth_device_token :: "oc_auth_device_token \<Rightarrow> bool" where [codec_defs]:
  "fits_auth_device_token m \<longleftrightarrow> length (auth_device_token_token m) \<le> 0xFFFFFFFF"

definition payload_auth :: "oc_auth \<Rightarrow> u8 list" where [codec_defs]:
  "payload_auth m =
     [auth_method m] @ enc_str (auth_source m) @ enc_lstr (auth_credential m) @
       enc_str (auth_proof m) @ enc_str (auth_state m)"

definition fits_auth :: "oc_auth \<Rightarrow> bool" where [codec_defs]:
  "fits_auth m \<longleftrightarrow> length (auth_source m) \<le> 0xFFFF \<and>
     length (auth_credential m) \<le> 0xFFFFFFFF \<and>
     length (auth_proof m) \<le> 0xFFFF \<and>
     length (auth_state m) \<le> 0xFFFF"

definition payload_auth_continue :: "oc_auth_continue \<Rightarrow> u8 list" where [codec_defs]:
  "payload_auth_continue m =
     [auth_continue_step m]"

definition payload_auth_ok :: "oc_auth_ok \<Rightarrow> u8 list" where [codec_defs]:
  "payload_auth_ok m =
     be64 (auth_ok_user_id m) @ [auth_ok_role m] @ be64 (auth_ok_session_expiry m) @
       enc_lstr (auth_ok_session_token m)"

definition fits_auth_ok :: "oc_auth_ok \<Rightarrow> bool" where [codec_defs]:
  "fits_auth_ok m \<longleftrightarrow> length (auth_ok_session_token m) \<le> 0xFFFFFFFF"

definition payload_workspace_info :: "oc_workspace_info \<Rightarrow> u8 list" where [codec_defs]:
  "payload_workspace_info m =
     [workspace_info_deployment_mode m] @ be32 (workspace_info_max_users m) @
       enc_str (workspace_info_workspace_name m) @ [workspace_info_call_max m] @
       [workspace_info_mode m] @ be64 (workspace_info_max_video_size m)"

definition fits_workspace_info :: "oc_workspace_info \<Rightarrow> bool" where [codec_defs]:
  "fits_workspace_info m \<longleftrightarrow> length (workspace_info_workspace_name m) \<le> 0xFFFF"

definition payload_logout :: "oc_logout \<Rightarrow> u8 list" where [codec_defs]:
  "payload_logout m =
     [logout_scope m] @ enc_lstr (logout_session_token m)"

definition fits_logout :: "oc_logout \<Rightarrow> bool" where [codec_defs]:
  "fits_logout m \<longleftrightarrow> length (logout_session_token m) \<le> 0xFFFFFFFF"

definition payload_error :: "oc_error \<Rightarrow> u8 list" where [codec_defs]:
  "payload_error m =
     be16 (error_code m) @ [error_fatal m] @ enc_lstr (error_context m) @
       enc_str (error_message m)"

definition fits_error :: "oc_error \<Rightarrow> bool" where [codec_defs]:
  "fits_error m \<longleftrightarrow> length (error_context m) \<le> 0xFFFFFFFF \<and>
     length (error_message m) \<le> 0xFFFF"

section \<open>Each pair is a codec\<close>

interpretation hello_codec: canonical_codec
  oc_encode_hello OC_HANDSHAKE_VERSION OC_MSG_HELLO
  oc_decode_hello payload_hello "\<lambda>_. None" "\<lambda>_. True" fits_hello
  by unfold_locales
    (unfold codec_defs, rule frame_emits, (rule wire_writes)+, simp, simp, simp,
      simp add: wire_reads, auto simp: wire_binds split: if_splits)

interpretation welcome_codec: canonical_codec
  oc_encode_welcome OC_HANDSHAKE_VERSION OC_MSG_WELCOME
  oc_decode_welcome payload_welcome "\<lambda>_. None" "\<lambda>_. True" "\<lambda>_. True"
  by unfold_locales
    (unfold codec_defs, rule frame_emits, (rule wire_writes)+, simp, simp, simp,
      simp add: wire_reads, auto simp: wire_binds split: if_splits)

interpretation reject_codec: canonical_codec
  oc_encode_reject OC_HANDSHAKE_VERSION OC_MSG_REJECT
  oc_decode_reject payload_reject "\<lambda>_. None" "\<lambda>_. True" fits_reject
  by unfold_locales
    (unfold codec_defs, rule frame_emits, (rule wire_writes)+, simp, simp, simp,
      simp add: wire_reads, auto simp: wire_binds split: if_splits)

interpretation auth_source: wire_field r_auth_source w_auth_source enc_auth_source "\<lambda>_. True" fits_auth_source
  by (rule wire_fieldI, unfold entry_defs, (rule writes_fits, (rule wire_writes)+; simp),
      simp add: wire_reads, auto simp: wire_binds split: if_splits)

interpretation auth_sources: wire_field "r_loop r_auth_source n" "w_loop w_auth_source" "enc_list enc_auth_source"
  "\<lambda>xs. length xs = n \<and> list_all (\<lambda>_. True) xs" "list_all fits_auth_source" for n
  by (rule auth_source.loop_field)

interpretation auth_challenge_codec: canonical_codec
  "\<lambda>w. oc_encode_auth_challenge w version" version OC_MSG_AUTH_CHALLENGE
  oc_decode_auth_challenge payload_auth_challenge "\<lambda>_. None" wf_auth_challenge fits_auth_challenge for version
  by unfold_locales
    (unfold codec_defs, (rule frame_emits, (rule wire_writes auth_source.loop_wr_step)+; simp), simp,
      simp add: wire_reads auth_source.enc_reads, auto simp: wire_binds split: if_splits)

interpretation auth_begin_codec: canonical_codec
  "\<lambda>w. oc_encode_auth_begin w version" version OC_MSG_AUTH_BEGIN
  oc_decode_auth_begin payload_auth_begin "\<lambda>_. None" "\<lambda>_. True" fits_auth_begin for version
  by unfold_locales
    (unfold codec_defs, rule frame_emits, (rule wire_writes)+, simp, simp, simp,
      simp add: wire_reads, auto simp: wire_binds split: if_splits)

interpretation auth_redirect_codec: canonical_codec
  "\<lambda>w. oc_encode_auth_redirect w version" version OC_MSG_AUTH_REDIRECT
  oc_decode_auth_redirect payload_auth_redirect "\<lambda>_. None" "\<lambda>_. True" fits_auth_redirect for version
  by unfold_locales
    (unfold codec_defs, rule frame_emits, (rule wire_writes)+, simp, simp, simp,
      simp add: wire_reads, auto simp: wire_binds split: if_splits)

interpretation auth_device_begin_codec: canonical_codec
  "\<lambda>w. oc_encode_auth_device_begin w version" version OC_MSG_AUTH_DEVICE_BEGIN
  oc_decode_auth_device_begin payload_auth_device_begin "\<lambda>_. None" "\<lambda>_. True" fits_auth_device_begin for version
  by unfold_locales
    (unfold codec_defs, rule frame_emits, (rule wire_writes)+, simp, simp, simp,
      simp add: wire_reads, auto simp: wire_binds split: if_splits)

interpretation auth_device_codec: canonical_codec
  "\<lambda>w. oc_encode_auth_device w version" version OC_MSG_AUTH_DEVICE
  oc_decode_auth_device payload_auth_device "\<lambda>_. None" "\<lambda>_. True" fits_auth_device for version
  by unfold_locales
    (unfold codec_defs, rule frame_emits, (rule wire_writes)+, simp, simp, simp,
      simp add: wire_reads, auto simp: wire_binds split: if_splits)

interpretation auth_device_poll_codec: canonical_codec
  "\<lambda>w. oc_encode_auth_device_poll w version" version OC_MSG_AUTH_DEVICE_POLL
  oc_decode_auth_device_poll payload_auth_device_poll "\<lambda>_. None" "\<lambda>_. True" fits_auth_device_poll for version
  by unfold_locales
    (unfold codec_defs, rule frame_emits, (rule wire_writes)+, simp, simp, simp,
      simp add: wire_reads, auto simp: wire_binds split: if_splits)

interpretation auth_device_token_codec: canonical_codec
  "\<lambda>w. oc_encode_auth_device_token w version" version OC_MSG_AUTH_DEVICE_TOKEN
  oc_decode_auth_device_token payload_auth_device_token "\<lambda>m. if length (auth_device_token_token m) > OC_MAX_BODY_SIZE then Some OC_E_BODY_TOO_LARGE else None" "\<lambda>_. True" fits_auth_device_token for version
  by unfold_locales
    (unfold codec_defs, rule early_emits, rule frame_emits, (rule wire_writes)+, simp, simp, simp,
      simp add: wire_reads, auto simp: wire_binds split: if_splits)

interpretation auth_codec: canonical_codec
  "\<lambda>w. oc_encode_auth w version" version OC_MSG_AUTH
  oc_decode_auth payload_auth "\<lambda>m. if length (auth_credential m) > OC_MAX_BODY_SIZE then Some OC_E_BODY_TOO_LARGE else None" "\<lambda>_. True" fits_auth for version
  by unfold_locales
    (unfold codec_defs, rule early_emits, rule frame_emits, (rule wire_writes)+, simp, simp, simp,
      simp add: wire_reads, auto simp: wire_binds split: if_splits)

interpretation auth_continue_codec: canonical_codec
  "\<lambda>w. oc_encode_auth_continue w version" version OC_MSG_AUTH_CONTINUE
  oc_decode_auth_continue payload_auth_continue "\<lambda>_. None" "\<lambda>_. True" "\<lambda>_. True" for version
  by unfold_locales
    (unfold codec_defs, rule frame_emits, (rule wire_writes)+, simp, simp, simp,
      simp add: wire_reads, auto simp: wire_binds split: if_splits)

interpretation auth_ok_codec: canonical_codec
  "\<lambda>w. oc_encode_auth_ok w version" version OC_MSG_AUTH_OK
  oc_decode_auth_ok payload_auth_ok "\<lambda>_. None" "\<lambda>_. True" fits_auth_ok for version
  by unfold_locales
    (unfold codec_defs, rule frame_emits, (rule wire_writes)+, simp, simp, simp,
      simp add: wire_reads, auto simp: wire_binds split: if_splits)

interpretation workspace_info_codec: canonical_codec
  "\<lambda>w. oc_encode_workspace_info w version" version OC_MSG_WORKSPACE_INFO
  oc_decode_workspace_info payload_workspace_info "\<lambda>_. None" "\<lambda>_. True" fits_workspace_info for version
  by unfold_locales
    (unfold codec_defs, rule frame_emits, (rule wire_writes)+, simp, simp, simp,
      simp add: wire_reads, auto simp: wire_binds split: if_splits)

interpretation logout_codec: canonical_codec
  "\<lambda>w. oc_encode_logout w version" version OC_MSG_LOGOUT
  oc_decode_logout payload_logout "\<lambda>_. None" "\<lambda>_. True" fits_logout for version
  by unfold_locales
    (unfold codec_defs, rule frame_emits, (rule wire_writes)+, simp, simp, simp,
      simp add: wire_reads, auto simp: wire_binds split: if_splits)

interpretation error_codec: canonical_codec
  "\<lambda>w. oc_encode_error w version" version OC_MSG_ERROR
  oc_decode_error payload_error "\<lambda>_. None" "\<lambda>_. True" fits_error for version
  by unfold_locales
    (unfold codec_defs, rule frame_emits, (rule wire_writes)+, simp, simp, simp,
      simp add: wire_reads, auto simp: wire_binds split: if_splits)

text \<open>The encoders of messages with fixed arrays and lists are all or nothing whatever the message holds.\<close>

lemma session_atomic:
  shows "frame_atomic (\<lambda>w. oc_encode_auth_challenge w version)"
  by (unfold codec_defs,
      (rule frame_atomicI, (rule early_all_or_nothing)?, rule bracket_all_or_nothing, (rule any_writes | simp only: entry_defs)+)+)

section \<open>Round trips\<close>

text \<open>
  C22: every handshake, sign-in and error frame an encoder accepts, followed by anything, parses
  to a header with the frame's version and type, and its decoder returns the message that
  was encoded.
\<close>

theorem session_frames_roundtrip:
  "frame_roundtrips oc_encode_hello OC_HANDSHAKE_VERSION OC_MSG_HELLO
       oc_decode_hello (\<lambda>_. True) \<and>
   frame_roundtrips oc_encode_welcome OC_HANDSHAKE_VERSION OC_MSG_WELCOME
       oc_decode_welcome (\<lambda>_. True) \<and>
   frame_roundtrips oc_encode_reject OC_HANDSHAKE_VERSION OC_MSG_REJECT
       oc_decode_reject (\<lambda>_. True) \<and>
   frame_roundtrips (\<lambda>w. oc_encode_auth_challenge w version) version OC_MSG_AUTH_CHALLENGE
       oc_decode_auth_challenge wf_auth_challenge \<and>
   frame_roundtrips (\<lambda>w. oc_encode_auth_begin w version) version OC_MSG_AUTH_BEGIN
       oc_decode_auth_begin (\<lambda>_. True) \<and>
   frame_roundtrips (\<lambda>w. oc_encode_auth_redirect w version) version OC_MSG_AUTH_REDIRECT
       oc_decode_auth_redirect (\<lambda>_. True) \<and>
   frame_roundtrips (\<lambda>w. oc_encode_auth_device_begin w version) version OC_MSG_AUTH_DEVICE_BEGIN
       oc_decode_auth_device_begin (\<lambda>_. True) \<and>
   frame_roundtrips (\<lambda>w. oc_encode_auth_device w version) version OC_MSG_AUTH_DEVICE
       oc_decode_auth_device (\<lambda>_. True) \<and>
   frame_roundtrips (\<lambda>w. oc_encode_auth_device_poll w version) version OC_MSG_AUTH_DEVICE_POLL
       oc_decode_auth_device_poll (\<lambda>_. True) \<and>
   frame_roundtrips (\<lambda>w. oc_encode_auth_device_token w version) version OC_MSG_AUTH_DEVICE_TOKEN
       oc_decode_auth_device_token (\<lambda>_. True) \<and>
   frame_roundtrips (\<lambda>w. oc_encode_auth w version) version OC_MSG_AUTH
       oc_decode_auth (\<lambda>_. True) \<and>
   frame_roundtrips (\<lambda>w. oc_encode_auth_continue w version) version OC_MSG_AUTH_CONTINUE
       oc_decode_auth_continue (\<lambda>_. True) \<and>
   frame_roundtrips (\<lambda>w. oc_encode_auth_ok w version) version OC_MSG_AUTH_OK
       oc_decode_auth_ok (\<lambda>_. True) \<and>
   frame_roundtrips (\<lambda>w. oc_encode_workspace_info w version) version OC_MSG_WORKSPACE_INFO
       oc_decode_workspace_info (\<lambda>_. True) \<and>
   frame_roundtrips (\<lambda>w. oc_encode_logout w version) version OC_MSG_LOGOUT
       oc_decode_logout (\<lambda>_. True) \<and>
   frame_roundtrips (\<lambda>w. oc_encode_error w version) version OC_MSG_ERROR
       oc_decode_error (\<lambda>_. True)"
  by (intro conjI
      hello_codec.roundtrips welcome_codec.roundtrips reject_codec.roundtrips
        auth_challenge_codec.roundtrips auth_begin_codec.roundtrips
        auth_redirect_codec.roundtrips auth_device_begin_codec.roundtrips
        auth_device_codec.roundtrips auth_device_poll_codec.roundtrips
        auth_device_token_codec.roundtrips auth_codec.roundtrips auth_continue_codec.roundtrips
        auth_ok_codec.roundtrips workspace_info_codec.roundtrips logout_codec.roundtrips
        error_codec.roundtrips)

end
