(* ===== verification/Codec_Messages.thy ===== *)
theory Codec_Messages
  imports Wire
begin

text \<open>
  The messages of a conversation (\<^verbatim>\<open>shared/protocol.c\<close>): posting, fan-out, acknowledgement, editing,
  reactions, pins, threads and history. Four of them end in an optional block, written only
  when there is something to carry; their decoders look for it when bytes remain. Those are
  instances of \<open>frame_codec\<close> (an explicit empty block decodes too), the others of
  \<open>canonical_codec\<close>.
\<close>

abbreviation OC_MAX_ATTACH :: nat where "OC_MAX_ATTACH \<equiv> 16"
abbreviation OC_MEDIA_NONE :: u8 where "OC_MEDIA_NONE \<equiv> 0"
abbreviation OC_MEDIA_VIDEO_MESSAGE :: u8 where "OC_MEDIA_VIDEO_MESSAGE \<equiv> 1"
abbreviation OC_MSG_KIND_CALL :: u8 where "OC_MSG_KIND_CALL \<equiv> 1"

section \<open>Messages, encoders and decoders\<close>

record oc_send =
  send_channel_id :: u64
  send_idem :: "u8 list"
  send_body :: oc_slice
  send_src_channel :: u64
  send_src_message :: u64
  send_attach_ids :: "u64 list"

text \<open>
  The attachment ids a \<^verbatim>\<open>SEND\<close> or \<^verbatim>\<open>SEND_REPLY\<close> may end in: the block both encoders write when
  there are any, and both decoders look for when bytes remain.
\<close>

definition w_ids_tail :: "oc_wbuf \<Rightarrow> u64 list \<Rightarrow> oc_wbuf" where
  "w_ids_tail w attach_ids =
     (if attach_ids \<noteq> [] then
        let n = min (length attach_ids) OC_MAX_ATTACH;
            w = oc_w_u16 w (of_nat n)
        in w_loop oc_w_u64 w (take n attach_ids)
      else w)"

definition r_ids_tail :: "oc_rbuf \<Rightarrow> oc_result + u64 list \<times> oc_rbuf" where
  "r_ids_tail p =
     (if \<not> r_underflow p \<and> r_pos p < length (r_data p) then
        let (n, p) = oc_r_u16 p
        in if unat n > OC_MAX_ATTACH then Inl OC_E_MALFORMED
           else Inr (r_loop_ok oc_r_u64 (unat n) p)
      else Inr ([], p))"

definition oc_encode_send :: "oc_wbuf \<Rightarrow> u16 \<Rightarrow> oc_send \<Rightarrow> oc_result \<times> oc_wbuf" where [codec_defs]:
  "oc_encode_send w version m =
     (if length (send_body m) > OC_MAX_BODY_SIZE then (OC_E_BODY_TOO_LARGE, w)
      else
        (let (off, w) = oc_frame_begin w version OC_MSG_SEND;
             w = oc_w_u64 w (send_channel_id m);
             w = oc_w_idem w (send_idem m);
             w = oc_w_lstr w (send_body m);
             w = oc_w_u64 w (send_src_channel m);
             w = oc_w_u64 w (send_src_message m);
             w = w_ids_tail w (send_attach_ids m)
         in oc_frame_end w off))"

definition oc_decode_send :: "oc_rbuf \<Rightarrow> oc_result + oc_send" where [codec_defs]:
  "oc_decode_send p =
     (let (channel_id_v, p) = oc_r_u64 p;
          (idem_v, p) = oc_r_idem p;
          (body_v, p) = oc_r_lstr p;
          (src_channel_v, p) = oc_r_u64 p;
          (src_message_v, p) = oc_r_u64 p
      in case r_ids_tail p of Inl e \<Rightarrow> Inl e
         | Inr (attach_ids_v, p) \<Rightarrow>
             decoded p \<lparr>send_channel_id = channel_id_v, send_idem = idem_v, send_body = body_v,
               send_src_channel = src_channel_v, send_src_message = src_message_v,
               send_attach_ids = attach_ids_v\<rparr>)"

record oc_send_ack =
  send_ack_idem :: "u8 list"
  send_ack_channel_id :: u64
  send_ack_message_id :: u64
  send_ack_server_time :: u64

definition oc_encode_send_ack :: "oc_wbuf \<Rightarrow> u16 \<Rightarrow> oc_send_ack \<Rightarrow> oc_result \<times> oc_wbuf" where [codec_defs]:
  "oc_encode_send_ack w version m =
     (let (off, w) = oc_frame_begin w version OC_MSG_SEND_ACK;
          w = oc_w_idem w (send_ack_idem m);
          w = oc_w_u64 w (send_ack_channel_id m);
          w = oc_w_u64 w (send_ack_message_id m);
          w = oc_w_u64 w (send_ack_server_time m)
      in oc_frame_end w off)"

definition oc_decode_send_ack :: "oc_rbuf \<Rightarrow> oc_result + oc_send_ack" where [codec_defs]:
  "oc_decode_send_ack p =
     (let (idem_v, p) = oc_r_idem p;
          (channel_id_v, p) = oc_r_u64 p;
          (message_id_v, p) = oc_r_u64 p;
          (server_time_v, p) = oc_r_u64 p
      in decoded p \<lparr>send_ack_idem = idem_v, send_ack_channel_id = channel_id_v,
        send_ack_message_id = message_id_v, send_ack_server_time = server_time_v\<rparr>)"

record oc_attach_entry =
  attach_entry_id :: u64
  attach_entry_filename :: oc_slice
  attach_entry_mime :: oc_slice
  attach_entry_size :: u64
  attach_entry_reclaimed :: u8
  attach_entry_media_kind :: u8
  attach_entry_duration_ms :: u32
  attach_entry_width :: u16
  attach_entry_height :: u16
  attach_entry_poster_id :: u64

definition w_attach_entry :: "oc_wbuf \<Rightarrow> oc_attach_entry \<Rightarrow> oc_wbuf" where [entry_defs]:
  "w_attach_entry w a =
     (let w = oc_w_u64 w (attach_entry_id a);
          w = oc_w_str w (attach_entry_filename a);
          w = oc_w_str w (attach_entry_mime a);
          w = oc_w_u64 w (attach_entry_size a);
          w = oc_w_u8 w (attach_entry_reclaimed a);
          w = oc_w_u8 w (attach_entry_media_kind a)
      in if attach_entry_media_kind a = OC_MEDIA_VIDEO_MESSAGE then
           let w = oc_w_u32 w (attach_entry_duration_ms a);
               w = oc_w_u16 w (attach_entry_width a);
               w = oc_w_u16 w (attach_entry_height a);
               w = oc_w_u64 w (attach_entry_poster_id a)
           in w
         else w)"

definition r_attach_entry :: "oc_rbuf \<Rightarrow> oc_result + oc_attach_entry \<times> oc_rbuf" where [entry_defs]:
  "r_attach_entry p =
     (let (id_v, p) = oc_r_u64 p;
          (filename_v, p) = oc_r_str p;
          (mime_v, p) = oc_r_str p;
          (size_v, p) = oc_r_u64 p;
          (reclaimed_v, p) = oc_r_u8 p;
          (media_kind_v, p) = oc_r_u8 p;
          a = \<lparr>attach_entry_id = id_v, attach_entry_filename = filename_v,
               attach_entry_mime = mime_v, attach_entry_size = size_v,
               attach_entry_reclaimed = reclaimed_v, attach_entry_media_kind = media_kind_v,
               attach_entry_duration_ms = 0, attach_entry_width = 0,
               attach_entry_height = 0, attach_entry_poster_id = 0\<rparr>
      in if media_kind_v = OC_MEDIA_VIDEO_MESSAGE then
           let (duration_ms_v, p) = oc_r_u32 p;
               (width_v, p) = oc_r_u16 p;
               (height_v, p) = oc_r_u16 p;
               (poster_id_v, p) = oc_r_u64 p
           in Inr (a\<lparr>attach_entry_duration_ms := duration_ms_v, attach_entry_width := width_v,
                     attach_entry_height := height_v, attach_entry_poster_id := poster_id_v\<rparr>, p)
         else if media_kind_v \<noteq> OC_MEDIA_NONE then Inl OC_E_MALFORMED
         else Inr (a, p))"

text \<open>The attachment lists of \<^verbatim>\<open>BROADCAST\<close> and \<^verbatim>\<open>THREAD_REPLY\<close>, behind their count.\<close>

definition w_attach_list :: "oc_wbuf \<Rightarrow> oc_attach_entry list \<Rightarrow> oc_wbuf" where
  "w_attach_list w attach =
     (let n = min (length attach) OC_MAX_ATTACH;
          w = oc_w_u16 w (of_nat n)
      in w_loop w_attach_entry w (take n attach))"

definition w_attach_tail :: "oc_wbuf \<Rightarrow> oc_attach_entry list \<Rightarrow> oc_wbuf" where
  "w_attach_tail w attach = (if attach \<noteq> [] then w_attach_list w attach else w)"

definition r_attach_list :: "oc_rbuf \<Rightarrow> oc_result + oc_attach_entry list \<times> oc_rbuf" where
  "r_attach_list p =
     (let (n, p) = oc_r_u16 p
      in if unat n > OC_MAX_ATTACH then Inl OC_E_MALFORMED
         else case r_loop_try r_attach_entry (unat n) p of
             Inl _ \<Rightarrow> Inl OC_E_MALFORMED
           | Inr (attach, p) \<Rightarrow> Inr (attach, p))"

record oc_broadcast =
  broadcast_message_id :: u64
  broadcast_channel_id :: u64
  broadcast_author_id :: u64
  broadcast_server_time :: u64
  broadcast_kind :: u8
  broadcast_body :: oc_slice
  broadcast_attach :: "oc_attach_entry list"
  broadcast_author_name :: oc_slice
  broadcast_broadcast_stored :: u8

definition w_broadcast_tail :: "oc_wbuf \<Rightarrow> oc_attach_entry list \<Rightarrow> oc_slice \<Rightarrow> oc_wbuf" where
  "w_broadcast_tail w attach author_name =
     (if attach \<noteq> [] \<or> author_name \<noteq> [] then
        let w = w_attach_list w attach
        in if author_name \<noteq> [] then oc_w_str w author_name else w
      else w)"

definition r_broadcast_tail ::
  "oc_rbuf \<Rightarrow> oc_result + (oc_attach_entry list \<times> oc_slice) \<times> oc_rbuf" where
  "r_broadcast_tail p =
     (if \<not> r_underflow p \<and> r_pos p < length (r_data p) then
        case r_attach_list p of Inl e \<Rightarrow> Inl e
        | Inr (attach, p) \<Rightarrow>
            if \<not> r_underflow p \<and> r_pos p < length (r_data p) then
              let (author_name, p) = oc_r_str p in Inr ((attach, author_name), p)
            else Inr ((attach, []), p)
      else Inr (([], []), p))"

definition encode_broadcast_as ::
  "oc_wbuf \<Rightarrow> u16 \<Rightarrow> u16 \<Rightarrow> oc_broadcast \<Rightarrow> oc_result \<times> oc_wbuf" where [codec_defs]:
  "encode_broadcast_as w version type m =
     (if length (broadcast_body m) > OC_MAX_BODY_SIZE then (OC_E_BODY_TOO_LARGE, w)
      else
        (let (off, w) = oc_frame_begin w version type;
             w = oc_w_u64 w (broadcast_message_id m);
             w = oc_w_u64 w (broadcast_channel_id m);
             w = oc_w_u64 w (broadcast_author_id m);
             w = oc_w_u64 w (broadcast_server_time m);
             w = oc_w_u8 w (broadcast_kind m);
             w = oc_w_u8 w (if broadcast_broadcast_stored m \<noteq> 0 then 1 else 0);
             w = oc_w_lstr w (broadcast_body m);
             w = w_broadcast_tail w (broadcast_attach m) (broadcast_author_name m)
         in oc_frame_end w off))"

definition oc_encode_broadcast :: "oc_wbuf \<Rightarrow> u16 \<Rightarrow> oc_broadcast \<Rightarrow> oc_result \<times> oc_wbuf" where [codec_defs]:
  "oc_encode_broadcast w version m = encode_broadcast_as w version OC_MSG_BROADCAST m"

definition oc_encode_msg_restored :: "oc_wbuf \<Rightarrow> u16 \<Rightarrow> oc_broadcast \<Rightarrow> oc_result \<times> oc_wbuf" where [codec_defs]:
  "oc_encode_msg_restored w version m = encode_broadcast_as w version OC_MSG_MSG_RESTORED m"

definition oc_decode_broadcast :: "oc_rbuf \<Rightarrow> oc_result + oc_broadcast" where [codec_defs]:
  "oc_decode_broadcast p =
     (let (message_id_v, p) = oc_r_u64 p;
          (channel_id_v, p) = oc_r_u64 p;
          (author_id_v, p) = oc_r_u64 p;
          (server_time_v, p) = oc_r_u64 p;
          (kind_v, p) = oc_r_u8 p
      in if kind_v > OC_MSG_KIND_CALL then Inl OC_E_MALFORMED
         else let (broadcast_stored_v, p) = oc_r_u8 p
              in if broadcast_stored_v > 1 then Inl OC_E_MALFORMED
                 else let (body_v, p) = oc_r_lstr p
                      in case r_broadcast_tail p of Inl e \<Rightarrow> Inl e
                         | Inr ((attach_v, author_name_v), p) \<Rightarrow>
                             decoded p
                               \<lparr>broadcast_message_id = message_id_v,
                                broadcast_channel_id = channel_id_v,
                                broadcast_author_id = author_id_v,
                                broadcast_server_time = server_time_v,
                                broadcast_kind = kind_v, broadcast_body = body_v,
                                broadcast_attach = attach_v,
                                broadcast_author_name = author_name_v,
                                broadcast_broadcast_stored = broadcast_stored_v\<rparr>)"

record oc_client_ack =
  client_ack_channel_id :: u64
  client_ack_message_id :: u64

definition oc_encode_client_ack :: "oc_wbuf \<Rightarrow> u16 \<Rightarrow> oc_client_ack \<Rightarrow> oc_result \<times> oc_wbuf" where [codec_defs]:
  "oc_encode_client_ack w version m =
     (let (off, w) = oc_frame_begin w version OC_MSG_CLIENT_ACK;
          w = oc_w_u64 w (client_ack_channel_id m);
          w = oc_w_u64 w (client_ack_message_id m)
      in oc_frame_end w off)"

definition oc_decode_client_ack :: "oc_rbuf \<Rightarrow> oc_result + oc_client_ack" where [codec_defs]:
  "oc_decode_client_ack p =
     (let (channel_id_v, p) = oc_r_u64 p;
          (message_id_v, p) = oc_r_u64 p
      in decoded p \<lparr>client_ack_channel_id = channel_id_v,
        client_ack_message_id = message_id_v\<rparr>)"

record oc_read_cursor =
  read_cursor_channel_id :: u64
  read_cursor_user_id :: u64
  read_cursor_message_id :: u64

definition oc_encode_read_cursor :: "oc_wbuf \<Rightarrow> u16 \<Rightarrow> oc_read_cursor \<Rightarrow> oc_result \<times> oc_wbuf" where [codec_defs]:
  "oc_encode_read_cursor w version m =
     (let (off, w) = oc_frame_begin w version OC_MSG_READ_CURSOR;
          w = oc_w_u64 w (read_cursor_channel_id m);
          w = oc_w_u64 w (read_cursor_user_id m);
          w = oc_w_u64 w (read_cursor_message_id m)
      in oc_frame_end w off)"

definition oc_decode_read_cursor :: "oc_rbuf \<Rightarrow> oc_result + oc_read_cursor" where [codec_defs]:
  "oc_decode_read_cursor p =
     (let (channel_id_v, p) = oc_r_u64 p;
          (user_id_v, p) = oc_r_u64 p;
          (message_id_v, p) = oc_r_u64 p
      in decoded p \<lparr>read_cursor_channel_id = channel_id_v,
        read_cursor_user_id = user_id_v, read_cursor_message_id = message_id_v\<rparr>)"

record oc_edit =
  edit_channel_id :: u64
  edit_message_id :: u64
  edit_body :: oc_slice

definition oc_encode_edit :: "oc_wbuf \<Rightarrow> u16 \<Rightarrow> oc_edit \<Rightarrow> oc_result \<times> oc_wbuf" where [codec_defs]:
  "oc_encode_edit w version m =
     (if length (edit_body m) > OC_MAX_BODY_SIZE then (OC_E_BODY_TOO_LARGE, w)
      else
        (let (off, w) = oc_frame_begin w version OC_MSG_EDIT;
            w = oc_w_u64 w (edit_channel_id m);
            w = oc_w_u64 w (edit_message_id m);
            w = oc_w_lstr w (edit_body m)
        in oc_frame_end w off))"

definition oc_decode_edit :: "oc_rbuf \<Rightarrow> oc_result + oc_edit" where [codec_defs]:
  "oc_decode_edit p =
     (let (channel_id_v, p) = oc_r_u64 p;
          (message_id_v, p) = oc_r_u64 p;
          (body_v, p) = oc_r_lstr p
      in decoded p \<lparr>edit_channel_id = channel_id_v, edit_message_id = message_id_v,
        edit_body = body_v\<rparr>)"

record oc_msg_edited =
  msg_edited_message_id :: u64
  msg_edited_channel_id :: u64
  msg_edited_author_id :: u64
  msg_edited_edited_at :: u64
  msg_edited_body :: oc_slice

definition oc_encode_msg_edited :: "oc_wbuf \<Rightarrow> u16 \<Rightarrow> oc_msg_edited \<Rightarrow> oc_result \<times> oc_wbuf" where [codec_defs]:
  "oc_encode_msg_edited w version m =
     (if length (msg_edited_body m) > OC_MAX_BODY_SIZE then (OC_E_BODY_TOO_LARGE, w)
      else
        (let (off, w) = oc_frame_begin w version OC_MSG_MSG_EDITED;
            w = oc_w_u64 w (msg_edited_message_id m);
            w = oc_w_u64 w (msg_edited_channel_id m);
            w = oc_w_u64 w (msg_edited_author_id m);
            w = oc_w_u64 w (msg_edited_edited_at m);
            w = oc_w_lstr w (msg_edited_body m)
        in oc_frame_end w off))"

definition oc_decode_msg_edited :: "oc_rbuf \<Rightarrow> oc_result + oc_msg_edited" where [codec_defs]:
  "oc_decode_msg_edited p =
     (let (message_id_v, p) = oc_r_u64 p;
          (channel_id_v, p) = oc_r_u64 p;
          (author_id_v, p) = oc_r_u64 p;
          (edited_at_v, p) = oc_r_u64 p;
          (body_v, p) = oc_r_lstr p
      in decoded p \<lparr>msg_edited_message_id = message_id_v,
        msg_edited_channel_id = channel_id_v, msg_edited_author_id = author_id_v,
        msg_edited_edited_at = edited_at_v, msg_edited_body = body_v\<rparr>)"

record oc_delete =
  delete_channel_id :: u64
  delete_message_id :: u64

definition oc_encode_delete :: "oc_wbuf \<Rightarrow> u16 \<Rightarrow> oc_delete \<Rightarrow> oc_result \<times> oc_wbuf" where [codec_defs]:
  "oc_encode_delete w version m =
     (let (off, w) = oc_frame_begin w version OC_MSG_DELETE;
          w = oc_w_u64 w (delete_channel_id m);
          w = oc_w_u64 w (delete_message_id m)
      in oc_frame_end w off)"

definition oc_decode_delete :: "oc_rbuf \<Rightarrow> oc_result + oc_delete" where [codec_defs]:
  "oc_decode_delete p =
     (let (channel_id_v, p) = oc_r_u64 p;
          (message_id_v, p) = oc_r_u64 p
      in decoded p \<lparr>delete_channel_id = channel_id_v,
        delete_message_id = message_id_v\<rparr>)"

record oc_msg_deleted =
  msg_deleted_message_id :: u64
  msg_deleted_channel_id :: u64
  msg_deleted_author_id :: u64
  msg_deleted_deleted_by :: u64
  msg_deleted_deleted_at :: u64

definition oc_encode_msg_deleted :: "oc_wbuf \<Rightarrow> u16 \<Rightarrow> oc_msg_deleted \<Rightarrow> oc_result \<times> oc_wbuf" where [codec_defs]:
  "oc_encode_msg_deleted w version m =
     (let (off, w) = oc_frame_begin w version OC_MSG_MSG_DELETED;
          w = oc_w_u64 w (msg_deleted_message_id m);
          w = oc_w_u64 w (msg_deleted_channel_id m);
          w = oc_w_u64 w (msg_deleted_author_id m);
          w = oc_w_u64 w (msg_deleted_deleted_by m);
          w = oc_w_u64 w (msg_deleted_deleted_at m)
      in oc_frame_end w off)"

definition oc_decode_msg_deleted :: "oc_rbuf \<Rightarrow> oc_result + oc_msg_deleted" where [codec_defs]:
  "oc_decode_msg_deleted p =
     (let (message_id_v, p) = oc_r_u64 p;
          (channel_id_v, p) = oc_r_u64 p;
          (author_id_v, p) = oc_r_u64 p;
          (deleted_by_v, p) = oc_r_u64 p;
          (deleted_at_v, p) = oc_r_u64 p
      in decoded p \<lparr>msg_deleted_message_id = message_id_v,
        msg_deleted_channel_id = channel_id_v, msg_deleted_author_id = author_id_v,
        msg_deleted_deleted_by = deleted_by_v, msg_deleted_deleted_at = deleted_at_v\<rparr>)"

record oc_react =
  react_channel_id :: u64
  react_message_id :: u64
  react_emoji :: oc_slice
  react_op :: u8

definition oc_encode_react :: "oc_wbuf \<Rightarrow> u16 \<Rightarrow> oc_react \<Rightarrow> oc_result \<times> oc_wbuf" where [codec_defs]:
  "oc_encode_react w version m =
     (let (off, w) = oc_frame_begin w version OC_MSG_REACT;
          w = oc_w_u64 w (react_channel_id m);
          w = oc_w_u64 w (react_message_id m);
          w = oc_w_str w (react_emoji m);
          w = oc_w_u8 w (react_op m)
      in oc_frame_end w off)"

definition oc_decode_react :: "oc_rbuf \<Rightarrow> oc_result + oc_react" where [codec_defs]:
  "oc_decode_react p =
     (let (channel_id_v, p) = oc_r_u64 p;
          (message_id_v, p) = oc_r_u64 p;
          (emoji_v, p) = oc_r_str p;
          (op_v, p) = oc_r_u8 p
      in decoded p \<lparr>react_channel_id = channel_id_v, react_message_id = message_id_v,
        react_emoji = emoji_v, react_op = op_v\<rparr>)"

record oc_reaction_updated =
  reaction_updated_message_id :: u64
  reaction_updated_channel_id :: u64
  reaction_updated_user_id :: u64
  reaction_updated_emoji :: oc_slice
  reaction_updated_op :: u8
  reaction_updated_count :: u64

definition oc_encode_reaction_updated :: "oc_wbuf \<Rightarrow> u16 \<Rightarrow> oc_reaction_updated \<Rightarrow> oc_result \<times> oc_wbuf" where [codec_defs]:
  "oc_encode_reaction_updated w version m =
     (let (off, w) = oc_frame_begin w version OC_MSG_REACTION_UPDATED;
          w = oc_w_u64 w (reaction_updated_message_id m);
          w = oc_w_u64 w (reaction_updated_channel_id m);
          w = oc_w_u64 w (reaction_updated_user_id m);
          w = oc_w_str w (reaction_updated_emoji m);
          w = oc_w_u8 w (reaction_updated_op m);
          w = oc_w_u64 w (reaction_updated_count m)
      in oc_frame_end w off)"

definition oc_decode_reaction_updated :: "oc_rbuf \<Rightarrow> oc_result + oc_reaction_updated" where [codec_defs]:
  "oc_decode_reaction_updated p =
     (let (message_id_v, p) = oc_r_u64 p;
          (channel_id_v, p) = oc_r_u64 p;
          (user_id_v, p) = oc_r_u64 p;
          (emoji_v, p) = oc_r_str p;
          (op_v, p) = oc_r_u8 p;
          (count_v, p) = oc_r_u64 p
      in decoded p \<lparr>reaction_updated_message_id = message_id_v,
        reaction_updated_channel_id = channel_id_v, reaction_updated_user_id = user_id_v,
        reaction_updated_emoji = emoji_v, reaction_updated_op = op_v,
        reaction_updated_count = count_v\<rparr>)"

record oc_pin =
  pin_channel_id :: u64
  pin_message_id :: u64
  pin_op :: u8

definition oc_encode_pin :: "oc_wbuf \<Rightarrow> u16 \<Rightarrow> oc_pin \<Rightarrow> oc_result \<times> oc_wbuf" where [codec_defs]:
  "oc_encode_pin w version m =
     (let (off, w) = oc_frame_begin w version OC_MSG_PIN;
          w = oc_w_u64 w (pin_channel_id m);
          w = oc_w_u64 w (pin_message_id m);
          w = oc_w_u8 w (pin_op m)
      in oc_frame_end w off)"

definition oc_decode_pin :: "oc_rbuf \<Rightarrow> oc_result + oc_pin" where [codec_defs]:
  "oc_decode_pin p =
     (let (channel_id_v, p) = oc_r_u64 p;
          (message_id_v, p) = oc_r_u64 p;
          (op_v, p) = oc_r_u8 p
      in decoded p \<lparr>pin_channel_id = channel_id_v, pin_message_id = message_id_v,
        pin_op = op_v\<rparr>)"

record oc_pin_updated =
  pin_updated_message_id :: u64
  pin_updated_channel_id :: u64
  pin_updated_user_id :: u64
  pin_updated_op :: u8
  pin_updated_pinned_at :: u64

definition oc_encode_pin_updated :: "oc_wbuf \<Rightarrow> u16 \<Rightarrow> oc_pin_updated \<Rightarrow> oc_result \<times> oc_wbuf" where [codec_defs]:
  "oc_encode_pin_updated w version m =
     (let (off, w) = oc_frame_begin w version OC_MSG_PIN_UPDATED;
          w = oc_w_u64 w (pin_updated_message_id m);
          w = oc_w_u64 w (pin_updated_channel_id m);
          w = oc_w_u64 w (pin_updated_user_id m);
          w = oc_w_u8 w (pin_updated_op m);
          w = oc_w_u64 w (pin_updated_pinned_at m)
      in oc_frame_end w off)"

definition oc_decode_pin_updated :: "oc_rbuf \<Rightarrow> oc_result + oc_pin_updated" where [codec_defs]:
  "oc_decode_pin_updated p =
     (let (message_id_v, p) = oc_r_u64 p;
          (channel_id_v, p) = oc_r_u64 p;
          (user_id_v, p) = oc_r_u64 p;
          (op_v, p) = oc_r_u8 p;
          (pinned_at_v, p) = oc_r_u64 p
      in decoded p \<lparr>pin_updated_message_id = message_id_v,
        pin_updated_channel_id = channel_id_v, pin_updated_user_id = user_id_v,
        pin_updated_op = op_v, pin_updated_pinned_at = pinned_at_v\<rparr>)"

record oc_unfurl =
  unfurl_message_id :: u64
  unfurl_channel_id :: u64
  unfurl_url :: oc_slice
  unfurl_title :: oc_slice
  unfurl_descr :: oc_slice

definition oc_encode_unfurl :: "oc_wbuf \<Rightarrow> u16 \<Rightarrow> oc_unfurl \<Rightarrow> oc_result \<times> oc_wbuf" where [codec_defs]:
  "oc_encode_unfurl w version m =
     (let (off, w) = oc_frame_begin w version OC_MSG_UNFURL;
          w = oc_w_u64 w (unfurl_message_id m);
          w = oc_w_u64 w (unfurl_channel_id m);
          w = oc_w_str w (unfurl_url m);
          w = oc_w_str w (unfurl_title m);
          w = oc_w_str w (unfurl_descr m)
      in oc_frame_end w off)"

definition oc_decode_unfurl :: "oc_rbuf \<Rightarrow> oc_result + oc_unfurl" where [codec_defs]:
  "oc_decode_unfurl p =
     (let (message_id_v, p) = oc_r_u64 p;
          (channel_id_v, p) = oc_r_u64 p;
          (url_v, p) = oc_r_str p;
          (title_v, p) = oc_r_str p;
          (descr_v, p) = oc_r_str p
      in decoded p \<lparr>unfurl_message_id = message_id_v, unfurl_channel_id = channel_id_v,
        unfurl_url = url_v, unfurl_title = title_v, unfurl_descr = descr_v\<rparr>)"

record oc_forward =
  forward_message_id :: u64
  forward_channel_id :: u64
  forward_src_channel :: u64
  forward_src_message :: u64
  forward_src_author :: u64
  forward_src_excerpt :: oc_slice
  forward_n_attach :: u16
  forward_src_attach_name :: oc_slice
  forward_src_action :: u8

definition oc_encode_forward :: "oc_wbuf \<Rightarrow> u16 \<Rightarrow> oc_forward \<Rightarrow> oc_result \<times> oc_wbuf" where [codec_defs]:
  "oc_encode_forward w version m =
     (let (off, w) = oc_frame_begin w version OC_MSG_FORWARD;
          w = oc_w_u64 w (forward_message_id m);
          w = oc_w_u64 w (forward_channel_id m);
          w = oc_w_u64 w (forward_src_channel m);
          w = oc_w_u64 w (forward_src_message m);
          w = oc_w_u64 w (forward_src_author m);
          w = oc_w_str w (forward_src_excerpt m);
          w = oc_w_u16 w (forward_n_attach m);
          w = oc_w_str w (forward_src_attach_name m);
          w = oc_w_u8 w (forward_src_action m)
      in oc_frame_end w off)"

definition oc_decode_forward :: "oc_rbuf \<Rightarrow> oc_result + oc_forward" where [codec_defs]:
  "oc_decode_forward p =
     (let (message_id_v, p) = oc_r_u64 p;
          (channel_id_v, p) = oc_r_u64 p;
          (src_channel_v, p) = oc_r_u64 p;
          (src_message_v, p) = oc_r_u64 p;
          (src_author_v, p) = oc_r_u64 p;
          (src_excerpt_v, p) = oc_r_str p;
          (n_attach_v, p) = oc_r_u16 p;
          (src_attach_name_v, p) = oc_r_str p;
          (src_action_v, p) = oc_r_u8 p
      in decoded p \<lparr>forward_message_id = message_id_v, forward_channel_id = channel_id_v,
        forward_src_channel = src_channel_v, forward_src_message = src_message_v,
        forward_src_author = src_author_v, forward_src_excerpt = src_excerpt_v,
        forward_n_attach = n_attach_v, forward_src_attach_name = src_attach_name_v,
        forward_src_action = src_action_v\<rparr>)"

record oc_action =
  action_message_id :: u64
  action_channel_id :: u64
  action_actor_id :: u64
  action_actor_name :: oc_slice
  action_text_start :: u32
  action_text_len :: u32

definition oc_encode_action :: "oc_wbuf \<Rightarrow> u16 \<Rightarrow> oc_action \<Rightarrow> oc_result \<times> oc_wbuf" where [codec_defs]:
  "oc_encode_action w version m =
     (let (off, w) = oc_frame_begin w version OC_MSG_ACTION;
          w = oc_w_u64 w (action_message_id m);
          w = oc_w_u64 w (action_channel_id m);
          w = oc_w_u64 w (action_actor_id m);
          w = oc_w_str w (action_actor_name m);
          w = oc_w_u32 w (action_text_start m);
          w = oc_w_u32 w (action_text_len m)
      in oc_frame_end w off)"

definition oc_decode_action :: "oc_rbuf \<Rightarrow> oc_result + oc_action" where [codec_defs]:
  "oc_decode_action p =
     (let (message_id_v, p) = oc_r_u64 p;
          (channel_id_v, p) = oc_r_u64 p;
          (actor_id_v, p) = oc_r_u64 p;
          (actor_name_v, p) = oc_r_str p;
          (text_start_v, p) = oc_r_u32 p;
          (text_len_v, p) = oc_r_u32 p
      in decoded p \<lparr>action_message_id = message_id_v, action_channel_id = channel_id_v,
        action_actor_id = actor_id_v, action_actor_name = actor_name_v,
        action_text_start = text_start_v, action_text_len = text_len_v\<rparr>)"

record oc_pinned_msg =
  pinned_msg_message_id :: u64
  pinned_msg_channel_id :: u64
  pinned_msg_author_id :: u64
  pinned_msg_server_time :: u64
  pinned_msg_pinned_by :: u64
  pinned_msg_pinned_at :: u64
  pinned_msg_body :: oc_slice
  pinned_msg_attach_name :: oc_slice
  pinned_msg_action :: u8

definition oc_encode_pinned_msg :: "oc_wbuf \<Rightarrow> u16 \<Rightarrow> oc_pinned_msg \<Rightarrow> oc_result \<times> oc_wbuf" where [codec_defs]:
  "oc_encode_pinned_msg w version m =
     (let (off, w) = oc_frame_begin w version OC_MSG_PINNED_MSG;
          w = oc_w_u64 w (pinned_msg_message_id m);
          w = oc_w_u64 w (pinned_msg_channel_id m);
          w = oc_w_u64 w (pinned_msg_author_id m);
          w = oc_w_u64 w (pinned_msg_server_time m);
          w = oc_w_u64 w (pinned_msg_pinned_by m);
          w = oc_w_u64 w (pinned_msg_pinned_at m);
          w = oc_w_str w (pinned_msg_body m);
          w = oc_w_str w (pinned_msg_attach_name m);
          w = oc_w_u8 w (pinned_msg_action m)
      in oc_frame_end w off)"

definition oc_decode_pinned_msg :: "oc_rbuf \<Rightarrow> oc_result + oc_pinned_msg" where [codec_defs]:
  "oc_decode_pinned_msg p =
     (let (message_id_v, p) = oc_r_u64 p;
          (channel_id_v, p) = oc_r_u64 p;
          (author_id_v, p) = oc_r_u64 p;
          (server_time_v, p) = oc_r_u64 p;
          (pinned_by_v, p) = oc_r_u64 p;
          (pinned_at_v, p) = oc_r_u64 p;
          (body_v, p) = oc_r_str p;
          (attach_name_v, p) = oc_r_str p;
          (action_v, p) = oc_r_u8 p
      in decoded p \<lparr>pinned_msg_message_id = message_id_v,
        pinned_msg_channel_id = channel_id_v, pinned_msg_author_id = author_id_v,
        pinned_msg_server_time = server_time_v, pinned_msg_pinned_by = pinned_by_v,
        pinned_msg_pinned_at = pinned_at_v, pinned_msg_body = body_v,
        pinned_msg_attach_name = attach_name_v, pinned_msg_action = action_v\<rparr>)"

record oc_send_reply =
  send_reply_channel_id :: u64
  send_reply_idem :: "u8 list"
  send_reply_parent_id :: u64
  send_reply_body :: oc_slice
  send_reply_attach_ids :: "u64 list"

definition oc_encode_send_reply :: "oc_wbuf \<Rightarrow> u16 \<Rightarrow> oc_send_reply \<Rightarrow> oc_result \<times> oc_wbuf" where [codec_defs]:
  "oc_encode_send_reply w version m =
     (if length (send_reply_body m) > OC_MAX_BODY_SIZE then (OC_E_BODY_TOO_LARGE, w)
      else
        (let (off, w) = oc_frame_begin w version OC_MSG_SEND_REPLY;
             w = oc_w_u64 w (send_reply_channel_id m);
             w = oc_w_idem w (send_reply_idem m);
             w = oc_w_u64 w (send_reply_parent_id m);
             w = oc_w_lstr w (send_reply_body m);
             w = w_ids_tail w (send_reply_attach_ids m)
         in oc_frame_end w off))"

definition oc_decode_send_reply :: "oc_rbuf \<Rightarrow> oc_result + oc_send_reply" where [codec_defs]:
  "oc_decode_send_reply p =
     (let (channel_id_v, p) = oc_r_u64 p;
          (idem_v, p) = oc_r_idem p;
          (parent_id_v, p) = oc_r_u64 p;
          (body_v, p) = oc_r_lstr p
      in case r_ids_tail p of Inl e \<Rightarrow> Inl e
         | Inr (attach_ids_v, p) \<Rightarrow>
             decoded p \<lparr>send_reply_channel_id = channel_id_v, send_reply_idem = idem_v,
               send_reply_parent_id = parent_id_v, send_reply_body = body_v,
               send_reply_attach_ids = attach_ids_v\<rparr>)"

record oc_thread_reply =
  thread_reply_message_id :: u64
  thread_reply_channel_id :: u64
  thread_reply_parent_id :: u64
  thread_reply_author_id :: u64
  thread_reply_server_time :: u64
  thread_reply_reply_count :: u32
  thread_reply_participant :: u8
  thread_reply_body :: oc_slice
  thread_reply_attach :: "oc_attach_entry list"
  thread_reply_broadcast_stored :: u8

definition oc_encode_thread_reply :: "oc_wbuf \<Rightarrow> u16 \<Rightarrow> oc_thread_reply \<Rightarrow> oc_result \<times> oc_wbuf" where [codec_defs]:
  "oc_encode_thread_reply w version m =
     (if length (thread_reply_body m) > OC_MAX_BODY_SIZE then (OC_E_BODY_TOO_LARGE, w)
      else
        (let (off, w) = oc_frame_begin w version OC_MSG_THREAD_REPLY;
             w = oc_w_u64 w (thread_reply_message_id m);
             w = oc_w_u64 w (thread_reply_channel_id m);
             w = oc_w_u64 w (thread_reply_parent_id m);
             w = oc_w_u64 w (thread_reply_author_id m);
             w = oc_w_u64 w (thread_reply_server_time m);
             w = oc_w_u32 w (thread_reply_reply_count m);
             w = oc_w_u8 w (if thread_reply_participant m \<noteq> 0 then 1 else 0);
             w = oc_w_u8 w (if thread_reply_broadcast_stored m \<noteq> 0 then 1 else 0);
             w = oc_w_lstr w (thread_reply_body m);
             w = w_attach_tail w (thread_reply_attach m)
         in oc_frame_end w off))"

definition oc_decode_thread_reply :: "oc_rbuf \<Rightarrow> oc_result + oc_thread_reply" where [codec_defs]:
  "oc_decode_thread_reply p =
     (let (message_id_v, p) = oc_r_u64 p;
          (channel_id_v, p) = oc_r_u64 p;
          (parent_id_v, p) = oc_r_u64 p;
          (author_id_v, p) = oc_r_u64 p;
          (server_time_v, p) = oc_r_u64 p;
          (reply_count_v, p) = oc_r_u32 p;
          (participant_v, p) = oc_r_u8 p;
          (broadcast_stored_v, p) = oc_r_u8 p
      in if broadcast_stored_v > 1 then Inl OC_E_MALFORMED
         else let (body_v, p) = oc_r_lstr p;
                  m = \<lparr>thread_reply_message_id = message_id_v,
                       thread_reply_channel_id = channel_id_v,
                       thread_reply_parent_id = parent_id_v,
                       thread_reply_author_id = author_id_v,
                       thread_reply_server_time = server_time_v,
                       thread_reply_reply_count = reply_count_v,
                       thread_reply_participant = participant_v, thread_reply_body = body_v,
                       thread_reply_attach = [],
                       thread_reply_broadcast_stored = broadcast_stored_v\<rparr>
              in if \<not> r_underflow p \<and> r_pos p < length (r_data p) then
                   case r_attach_list p of Inl e \<Rightarrow> Inl e
                   | Inr (attach_v, p) \<Rightarrow> decoded p (m\<lparr>thread_reply_attach := attach_v\<rparr>)
                 else decoded p m)"

record oc_thread_meta =
  thread_meta_message_id :: u64
  thread_meta_reply_count :: u32
  thread_meta_last_reply_at :: u64

definition oc_encode_thread_meta :: "oc_wbuf \<Rightarrow> u16 \<Rightarrow> oc_thread_meta \<Rightarrow> oc_result \<times> oc_wbuf" where [codec_defs]:
  "oc_encode_thread_meta w version m =
     (let (off, w) = oc_frame_begin w version OC_MSG_THREAD_META;
          w = oc_w_u64 w (thread_meta_message_id m);
          w = oc_w_u32 w (thread_meta_reply_count m);
          w = oc_w_u64 w (thread_meta_last_reply_at m)
      in oc_frame_end w off)"

definition oc_decode_thread_meta :: "oc_rbuf \<Rightarrow> oc_result + oc_thread_meta" where [codec_defs]:
  "oc_decode_thread_meta p =
     (let (message_id_v, p) = oc_r_u64 p;
          (reply_count_v, p) = oc_r_u32 p;
          (last_reply_at_v, p) = oc_r_u64 p
      in decoded p \<lparr>thread_meta_message_id = message_id_v,
        thread_meta_reply_count = reply_count_v,
        thread_meta_last_reply_at = last_reply_at_v\<rparr>)"

record oc_history_request =
  history_request_channel_id :: u64
  history_request_before_message_id :: u64
  history_request_limit :: u16

definition oc_encode_history_request :: "oc_wbuf \<Rightarrow> u16 \<Rightarrow> oc_history_request \<Rightarrow> oc_result \<times> oc_wbuf" where [codec_defs]:
  "oc_encode_history_request w version m =
     (let (off, w) = oc_frame_begin w version OC_MSG_HISTORY_REQUEST;
          w = oc_w_u64 w (history_request_channel_id m);
          w = oc_w_u64 w (history_request_before_message_id m);
          w = oc_w_u16 w (history_request_limit m)
      in oc_frame_end w off)"

definition oc_decode_history_request :: "oc_rbuf \<Rightarrow> oc_result + oc_history_request" where [codec_defs]:
  "oc_decode_history_request p =
     (let (channel_id_v, p) = oc_r_u64 p;
          (before_message_id_v, p) = oc_r_u64 p;
          (limit_v, p) = oc_r_u16 p
      in decoded p \<lparr>history_request_channel_id = channel_id_v,
        history_request_before_message_id = before_message_id_v,
        history_request_limit = limit_v\<rparr>)"

record oc_backfill_done =
  backfill_done_high_water :: u64
  backfill_done_more :: u8

definition oc_encode_backfill_done :: "oc_wbuf \<Rightarrow> u16 \<Rightarrow> oc_backfill_done \<Rightarrow> oc_result \<times> oc_wbuf" where [codec_defs]:
  "oc_encode_backfill_done w version m =
     (let (off, w) = oc_frame_begin w version OC_MSG_BACKFILL_DONE;
          w = oc_w_u64 w (backfill_done_high_water m);
          w = oc_w_u8 w (backfill_done_more m)
      in oc_frame_end w off)"

definition oc_decode_backfill_done :: "oc_rbuf \<Rightarrow> oc_result + oc_backfill_done" where [codec_defs]:
  "oc_decode_backfill_done p =
     (let (high_water_v, p) = oc_r_u64 p;
          (more_v, p) = oc_r_u8 p
      in decoded p \<lparr>backfill_done_high_water = high_water_v,
        backfill_done_more = more_v\<rparr>)"

record oc_restore =
  restore_channel_id :: u64
  restore_message_id :: u64

definition oc_encode_restore :: "oc_wbuf \<Rightarrow> u16 \<Rightarrow> oc_restore \<Rightarrow> oc_result \<times> oc_wbuf" where [codec_defs]:
  "oc_encode_restore w version m =
     (let (off, w) = oc_frame_begin w version OC_MSG_RESTORE;
          w = oc_w_u64 w (restore_channel_id m);
          w = oc_w_u64 w (restore_message_id m)
      in oc_frame_end w off)"

definition oc_decode_restore :: "oc_rbuf \<Rightarrow> oc_result + oc_restore" where [codec_defs]:
  "oc_decode_restore p =
     (let (channel_id_v, p) = oc_r_u64 p;
          (message_id_v, p) = oc_r_u64 p
      in decoded p \<lparr>restore_channel_id = channel_id_v,
        restore_message_id = message_id_v\<rparr>)"

section \<open>Payloads\<close>

text \<open>The optional tails: absent when there is nothing to carry.\<close>

definition enc_ids_tail :: "u64 list \<Rightarrow> u8 list" where
  "enc_ids_tail ids = (if ids = [] then [] else be16 (of_nat (length ids)) @ enc_list be64 ids)"

definition payload_send :: "oc_send \<Rightarrow> u8 list" where [codec_defs]:
  "payload_send m =
     be64 (send_channel_id m) @ send_idem m @ enc_lstr (send_body m) @ be64 (send_src_channel m) @
       be64 (send_src_message m) @ enc_ids_tail (send_attach_ids m)"

definition wf_send :: "oc_send \<Rightarrow> bool" where [codec_defs]:
  "wf_send m \<longleftrightarrow> length (send_idem m) = OC_IDEM_SIZE \<and> length (send_attach_ids m) \<le> OC_MAX_ATTACH"

definition fits_send :: "oc_send \<Rightarrow> bool" where [codec_defs]:
  "fits_send m \<longleftrightarrow> length (send_body m) \<le> 0xFFFFFFFF"

definition payload_send_ack :: "oc_send_ack \<Rightarrow> u8 list" where [codec_defs]:
  "payload_send_ack m =
     send_ack_idem m @ be64 (send_ack_channel_id m) @ be64 (send_ack_message_id m) @
       be64 (send_ack_server_time m)"

definition wf_send_ack :: "oc_send_ack \<Rightarrow> bool" where [codec_defs]:
  "wf_send_ack m \<longleftrightarrow> length (send_ack_idem m) = OC_IDEM_SIZE"

text \<open>
  An attachment without media carries no dimensions, and there is no other kind than the two.
\<close>

definition wf_attach_entry :: "oc_attach_entry \<Rightarrow> bool" where [entry_defs]:
  "wf_attach_entry a \<longleftrightarrow>
     attach_entry_media_kind a = OC_MEDIA_VIDEO_MESSAGE \<or>
     attach_entry_media_kind a = OC_MEDIA_NONE \<and> attach_entry_duration_ms a = 0 \<and>
     attach_entry_width a = 0 \<and> attach_entry_height a = 0 \<and> attach_entry_poster_id a = 0"

definition fits_attach_entry :: "oc_attach_entry \<Rightarrow> bool" where [entry_defs]:
  "fits_attach_entry a \<longleftrightarrow>
     length (attach_entry_filename a) \<le> 0xFFFF \<and> length (attach_entry_mime a) \<le> 0xFFFF"

definition enc_attach_entry :: "oc_attach_entry \<Rightarrow> u8 list" where [entry_defs]:
  "enc_attach_entry a =
     be64 (attach_entry_id a) @ enc_str (attach_entry_filename a) @ enc_str (attach_entry_mime a) @
       be64 (attach_entry_size a) @ [attach_entry_reclaimed a] @ [attach_entry_media_kind a] @
       (if attach_entry_media_kind a = OC_MEDIA_VIDEO_MESSAGE
        then be32 (attach_entry_duration_ms a) @ be16 (attach_entry_width a) @
          be16 (attach_entry_height a) @ be64 (attach_entry_poster_id a)
        else [])"

definition enc_attach_list :: "oc_attach_entry list \<Rightarrow> u8 list" where
  "enc_attach_list attach = be16 (of_nat (length attach)) @ enc_list enc_attach_entry attach"

definition enc_attach_tail :: "oc_attach_entry list \<Rightarrow> u8 list" where
  "enc_attach_tail attach = (if attach = [] then [] else enc_attach_list attach)"

definition enc_broadcast_tail :: "oc_attach_entry list \<Rightarrow> oc_slice \<Rightarrow> u8 list" where
  "enc_broadcast_tail attach author_name =
     (if author_name = [] then enc_attach_tail attach
      else enc_attach_list attach @ enc_str author_name)"

definition payload_broadcast :: "oc_broadcast \<Rightarrow> u8 list" where [codec_defs]:
  "payload_broadcast m =
     be64 (broadcast_message_id m) @ be64 (broadcast_channel_id m) @ be64 (broadcast_author_id m) @
       be64 (broadcast_server_time m) @ [broadcast_kind m] @ [broadcast_broadcast_stored m] @
       enc_lstr (broadcast_body m) @
       enc_broadcast_tail (broadcast_attach m) (broadcast_author_name m)"

definition wf_broadcast :: "oc_broadcast \<Rightarrow> bool" where [codec_defs]:
  "wf_broadcast m \<longleftrightarrow>
     broadcast_kind m \<le> OC_MSG_KIND_CALL \<and>
     (broadcast_broadcast_stored m = 0 \<or> broadcast_broadcast_stored m = 1) \<and>
     length (broadcast_attach m) \<le> OC_MAX_ATTACH \<and> list_all wf_attach_entry (broadcast_attach m)"

definition fits_broadcast :: "oc_broadcast \<Rightarrow> bool" where [codec_defs]:
  "fits_broadcast m \<longleftrightarrow>
     length (broadcast_body m) \<le> 0xFFFFFFFF \<and> length (broadcast_author_name m) \<le> 0xFFFF \<and>
     list_all fits_attach_entry (broadcast_attach m)"

definition payload_client_ack :: "oc_client_ack \<Rightarrow> u8 list" where [codec_defs]:
  "payload_client_ack m =
     be64 (client_ack_channel_id m) @ be64 (client_ack_message_id m)"

definition payload_read_cursor :: "oc_read_cursor \<Rightarrow> u8 list" where [codec_defs]:
  "payload_read_cursor m =
     be64 (read_cursor_channel_id m) @ be64 (read_cursor_user_id m) @
       be64 (read_cursor_message_id m)"

definition payload_edit :: "oc_edit \<Rightarrow> u8 list" where [codec_defs]:
  "payload_edit m =
     be64 (edit_channel_id m) @ be64 (edit_message_id m) @ enc_lstr (edit_body m)"

definition fits_edit :: "oc_edit \<Rightarrow> bool" where [codec_defs]:
  "fits_edit m \<longleftrightarrow> length (edit_body m) \<le> 0xFFFFFFFF"

definition payload_msg_edited :: "oc_msg_edited \<Rightarrow> u8 list" where [codec_defs]:
  "payload_msg_edited m =
     be64 (msg_edited_message_id m) @ be64 (msg_edited_channel_id m) @
       be64 (msg_edited_author_id m) @ be64 (msg_edited_edited_at m) @
       enc_lstr (msg_edited_body m)"

definition fits_msg_edited :: "oc_msg_edited \<Rightarrow> bool" where [codec_defs]:
  "fits_msg_edited m \<longleftrightarrow> length (msg_edited_body m) \<le> 0xFFFFFFFF"

definition payload_delete :: "oc_delete \<Rightarrow> u8 list" where [codec_defs]:
  "payload_delete m =
     be64 (delete_channel_id m) @ be64 (delete_message_id m)"

definition payload_msg_deleted :: "oc_msg_deleted \<Rightarrow> u8 list" where [codec_defs]:
  "payload_msg_deleted m =
     be64 (msg_deleted_message_id m) @ be64 (msg_deleted_channel_id m) @
       be64 (msg_deleted_author_id m) @ be64 (msg_deleted_deleted_by m) @
       be64 (msg_deleted_deleted_at m)"

definition payload_react :: "oc_react \<Rightarrow> u8 list" where [codec_defs]:
  "payload_react m =
     be64 (react_channel_id m) @ be64 (react_message_id m) @ enc_str (react_emoji m) @
       [react_op m]"

definition fits_react :: "oc_react \<Rightarrow> bool" where [codec_defs]:
  "fits_react m \<longleftrightarrow> length (react_emoji m) \<le> 0xFFFF"

definition payload_reaction_updated :: "oc_reaction_updated \<Rightarrow> u8 list" where [codec_defs]:
  "payload_reaction_updated m =
     be64 (reaction_updated_message_id m) @ be64 (reaction_updated_channel_id m) @
       be64 (reaction_updated_user_id m) @ enc_str (reaction_updated_emoji m) @
       [reaction_updated_op m] @ be64 (reaction_updated_count m)"

definition fits_reaction_updated :: "oc_reaction_updated \<Rightarrow> bool" where [codec_defs]:
  "fits_reaction_updated m \<longleftrightarrow> length (reaction_updated_emoji m) \<le> 0xFFFF"

definition payload_pin :: "oc_pin \<Rightarrow> u8 list" where [codec_defs]:
  "payload_pin m =
     be64 (pin_channel_id m) @ be64 (pin_message_id m) @ [pin_op m]"

definition payload_pin_updated :: "oc_pin_updated \<Rightarrow> u8 list" where [codec_defs]:
  "payload_pin_updated m =
     be64 (pin_updated_message_id m) @ be64 (pin_updated_channel_id m) @
       be64 (pin_updated_user_id m) @ [pin_updated_op m] @ be64 (pin_updated_pinned_at m)"

definition payload_unfurl :: "oc_unfurl \<Rightarrow> u8 list" where [codec_defs]:
  "payload_unfurl m =
     be64 (unfurl_message_id m) @ be64 (unfurl_channel_id m) @ enc_str (unfurl_url m) @
       enc_str (unfurl_title m) @ enc_str (unfurl_descr m)"

definition fits_unfurl :: "oc_unfurl \<Rightarrow> bool" where [codec_defs]:
  "fits_unfurl m \<longleftrightarrow> length (unfurl_url m) \<le> 0xFFFF \<and>
     length (unfurl_title m) \<le> 0xFFFF \<and>
     length (unfurl_descr m) \<le> 0xFFFF"

definition payload_forward :: "oc_forward \<Rightarrow> u8 list" where [codec_defs]:
  "payload_forward m =
     be64 (forward_message_id m) @ be64 (forward_channel_id m) @ be64 (forward_src_channel m) @
       be64 (forward_src_message m) @ be64 (forward_src_author m) @
       enc_str (forward_src_excerpt m) @ be16 (forward_n_attach m) @
       enc_str (forward_src_attach_name m) @ [forward_src_action m]"

definition fits_forward :: "oc_forward \<Rightarrow> bool" where [codec_defs]:
  "fits_forward m \<longleftrightarrow> length (forward_src_excerpt m) \<le> 0xFFFF \<and>
     length (forward_src_attach_name m) \<le> 0xFFFF"

definition payload_action :: "oc_action \<Rightarrow> u8 list" where [codec_defs]:
  "payload_action m =
     be64 (action_message_id m) @ be64 (action_channel_id m) @ be64 (action_actor_id m) @
       enc_str (action_actor_name m) @ be32 (action_text_start m) @ be32 (action_text_len m)"

definition fits_action :: "oc_action \<Rightarrow> bool" where [codec_defs]:
  "fits_action m \<longleftrightarrow> length (action_actor_name m) \<le> 0xFFFF"

definition payload_pinned_msg :: "oc_pinned_msg \<Rightarrow> u8 list" where [codec_defs]:
  "payload_pinned_msg m =
     be64 (pinned_msg_message_id m) @ be64 (pinned_msg_channel_id m) @
       be64 (pinned_msg_author_id m) @ be64 (pinned_msg_server_time m) @
       be64 (pinned_msg_pinned_by m) @ be64 (pinned_msg_pinned_at m) @
       enc_str (pinned_msg_body m) @ enc_str (pinned_msg_attach_name m) @ [pinned_msg_action m]"

definition fits_pinned_msg :: "oc_pinned_msg \<Rightarrow> bool" where [codec_defs]:
  "fits_pinned_msg m \<longleftrightarrow> length (pinned_msg_body m) \<le> 0xFFFF \<and>
     length (pinned_msg_attach_name m) \<le> 0xFFFF"

definition payload_send_reply :: "oc_send_reply \<Rightarrow> u8 list" where [codec_defs]:
  "payload_send_reply m =
     be64 (send_reply_channel_id m) @ send_reply_idem m @ be64 (send_reply_parent_id m) @
       enc_lstr (send_reply_body m) @ enc_ids_tail (send_reply_attach_ids m)"

definition wf_send_reply :: "oc_send_reply \<Rightarrow> bool" where [codec_defs]:
  "wf_send_reply m \<longleftrightarrow>
     length (send_reply_idem m) = OC_IDEM_SIZE \<and> length (send_reply_attach_ids m) \<le> OC_MAX_ATTACH"

definition fits_send_reply :: "oc_send_reply \<Rightarrow> bool" where [codec_defs]:
  "fits_send_reply m \<longleftrightarrow> length (send_reply_body m) \<le> 0xFFFFFFFF"

definition payload_thread_reply :: "oc_thread_reply \<Rightarrow> u8 list" where [codec_defs]:
  "payload_thread_reply m =
     be64 (thread_reply_message_id m) @ be64 (thread_reply_channel_id m) @
       be64 (thread_reply_parent_id m) @ be64 (thread_reply_author_id m) @
       be64 (thread_reply_server_time m) @ be32 (thread_reply_reply_count m) @
       [thread_reply_participant m] @ [thread_reply_broadcast_stored m] @
       enc_lstr (thread_reply_body m) @ enc_attach_tail (thread_reply_attach m)"

definition wf_thread_reply :: "oc_thread_reply \<Rightarrow> bool" where [codec_defs]:
  "wf_thread_reply m \<longleftrightarrow>
     (thread_reply_participant m = 0 \<or> thread_reply_participant m = 1) \<and>
     (thread_reply_broadcast_stored m = 0 \<or> thread_reply_broadcast_stored m = 1) \<and>
     length (thread_reply_attach m) \<le> OC_MAX_ATTACH \<and>
     list_all wf_attach_entry (thread_reply_attach m)"

definition fits_thread_reply :: "oc_thread_reply \<Rightarrow> bool" where [codec_defs]:
  "fits_thread_reply m \<longleftrightarrow>
     length (thread_reply_body m) \<le> 0xFFFFFFFF \<and> list_all fits_attach_entry (thread_reply_attach m)"

definition payload_thread_meta :: "oc_thread_meta \<Rightarrow> u8 list" where [codec_defs]:
  "payload_thread_meta m =
     be64 (thread_meta_message_id m) @ be32 (thread_meta_reply_count m) @
       be64 (thread_meta_last_reply_at m)"

definition payload_history_request :: "oc_history_request \<Rightarrow> u8 list" where [codec_defs]:
  "payload_history_request m =
     be64 (history_request_channel_id m) @ be64 (history_request_before_message_id m) @
       be16 (history_request_limit m)"

definition payload_backfill_done :: "oc_backfill_done \<Rightarrow> u8 list" where [codec_defs]:
  "payload_backfill_done m =
     be64 (backfill_done_high_water m) @ [backfill_done_more m]"

definition payload_restore :: "oc_restore \<Rightarrow> u8 list" where [codec_defs]:
  "payload_restore m =
     be64 (restore_channel_id m) @ be64 (restore_message_id m)"

section \<open>Each pair is a codec\<close>

lemma w_ids_tail_step:
  "writes f c as \<Longrightarrow> length ids \<le> OC_MAX_ATTACH \<Longrightarrow>
    writes (\<lambda>w. w_ids_tail (f w) ids) c (as @ enc_ids_tail ids)"
  using f64.loop_wr_step [OF writes_u16, of f c as ids "of_nat (length ids)"]
  by (simp add: w_ids_tail_def enc_ids_tail_def Let_def)

lemma r_ids_tail_enc:
  "length ids \<le> OC_MAX_ATTACH \<Longrightarrow>
    r_ids_tail (rbuf_at ds (enc_ids_tail ids)) = Inr (ids, rbuf_at (ds @ enc_ids_tail ids) [])"
  by (simp add: r_ids_tail_def enc_ids_tail_def wire_reads f64.enc_reads)

interpretation send_codec: frame_codec
  "\<lambda>w. oc_encode_send w version" version OC_MSG_SEND oc_decode_send payload_send
  "\<lambda>m. if length (send_body m) > OC_MAX_BODY_SIZE then Some OC_E_BODY_TOO_LARGE else None"
  wf_send fits_send for version
  by unfold_locales
    (unfold codec_defs, rule early_emits,
      (rule frame_emits, (rule wire_writes w_ids_tail_step)+; simp), simp,
      simp add: wire_reads r_ids_tail_enc)

interpretation send_ack_codec: canonical_codec
  "\<lambda>w. oc_encode_send_ack w version" version OC_MSG_SEND_ACK
  oc_decode_send_ack payload_send_ack "\<lambda>_. None" wf_send_ack "\<lambda>_. True" for version
  by unfold_locales
    (unfold codec_defs, rule frame_emits, (rule wire_writes)+, simp, simp, simp,
      simp add: wire_reads, auto simp: wire_binds split: if_splits)

lemma w_attach_entry_writes:
  "wf_attach_entry a \<Longrightarrow>
    writes (\<lambda>w. w_attach_entry w a) (fits_attach_entry a) (enc_attach_entry a)"
  by (cases "attach_entry_media_kind a = OC_MEDIA_VIDEO_MESSAGE"; simp add: w_attach_entry_def Let_def;
      (rule writes_fits, (rule wire_writes)+; simp add: fits_attach_entry_def enc_attach_entry_def))

lemma r_attach_entry_enc:
  "wf_attach_entry a \<Longrightarrow> fits_attach_entry a \<Longrightarrow>
    r_attach_entry (rbuf_at ds (enc_attach_entry a @ bs)) = Inr (a, rbuf_at (ds @ enc_attach_entry a) bs)"
  by (cases "attach_entry_media_kind a = OC_MEDIA_VIDEO_MESSAGE")
    (simp_all add: entry_defs wire_reads)

lemma r_attach_entry_dest:
  assumes "r_attach_entry (rbuf_at ds bs) = Inr (a, p)" and "\<not> r_underflow p"
  shows "\<exists>cs. wf_attach_entry a \<and> fits_attach_entry a \<and> bs = enc_attach_entry a @ cs \<and>
    p = rbuf_at (ds @ enc_attach_entry a) cs"
  using assms
  by (auto simp: entry_defs wire_reads wire_views reads_bad split: option.splits if_splits prod.splits)

interpretation attach_entry: wire_entry
  r_attach_entry w_attach_entry enc_attach_entry wf_attach_entry fits_attach_entry
  by unfold_locales (rule w_attach_entry_writes r_attach_entry_enc r_attach_entry_dest; assumption)+

lemma w_attach_list_step:
  "writes f c as \<Longrightarrow> length attach \<le> OC_MAX_ATTACH \<Longrightarrow> list_all wf_attach_entry attach \<Longrightarrow>
    writes (\<lambda>w. w_attach_list (f w) attach) (c \<and> list_all fits_attach_entry attach)
      (as @ enc_attach_list attach)"
  using attach_entry.loop_wr_step [OF writes_u16, of f c as attach "of_nat (length attach)"]
  by (simp add: w_attach_list_def enc_attach_list_def Let_def)

lemma w_attach_tail_step:
  "writes f c as \<Longrightarrow> length attach \<le> OC_MAX_ATTACH \<Longrightarrow> list_all wf_attach_entry attach \<Longrightarrow>
    writes (\<lambda>w. w_attach_tail (f w) attach) (c \<and> list_all fits_attach_entry attach)
      (as @ enc_attach_tail attach)"
  using w_attach_list_step [of f c as attach]
  by (cases "attach = []") (simp_all add: w_attach_tail_def enc_attach_tail_def)

lemma r_attach_list_enc:
  assumes "length attach \<le> OC_MAX_ATTACH" "list_all wf_attach_entry attach"
    "list_all fits_attach_entry attach"
  shows "r_attach_list (rbuf_at ds (enc_attach_list attach @ bs))
    = Inr (attach, rbuf_at (ds @ enc_attach_list attach) bs)"
  using assms by (simp add: r_attach_list_def enc_attach_list_def wire_reads attach_entry.enc_reads)

lemma enc_attach_list_ne [simp]: "enc_attach_list attach \<noteq> []"
  by (simp add: enc_attach_list_def be16_def)

lemma w_broadcast_tail_step:
  assumes "writes f c as" "length attach \<le> OC_MAX_ATTACH" "list_all wf_attach_entry attach"
  shows "writes (\<lambda>w. w_broadcast_tail (f w) attach name)
    (c \<and> list_all fits_attach_entry attach \<and> length name \<le> 0xFFFF)
    (as @ enc_broadcast_tail attach name)"
  using assms w_attach_list_step [OF assms] writes_str [OF w_attach_list_step [OF assms], of name]
  by (cases "name = []"; cases "attach = []")
    (simp_all add: w_broadcast_tail_def enc_broadcast_tail_def enc_attach_tail_def Let_def)

lemma r_broadcast_tail_enc:
  assumes "length attach \<le> OC_MAX_ATTACH" "list_all wf_attach_entry attach"
    "list_all fits_attach_entry attach" "length name \<le> 0xFFFF"
  shows "r_broadcast_tail (rbuf_at ds (enc_broadcast_tail attach name))
    = Inr ((attach, name), rbuf_at (ds @ enc_broadcast_tail attach name) [])"
  using assms r_attach_list_enc [OF assms(1-3), of ds "[]"]
  by (cases "name = []"; cases "attach = []")
    (simp_all add: r_broadcast_tail_def enc_broadcast_tail_def enc_attach_tail_def Let_def
      r_attach_list_enc wire_reads)

lemma encode_broadcast_emits:
  "wf_broadcast m \<Longrightarrow> encode_broadcast_as w version type m = oc_emit w version type
    (if length (broadcast_body m) > OC_MAX_BODY_SIZE then Some OC_E_BODY_TOO_LARGE else None)
    (fits_broadcast m) (payload_broadcast m)"
  by (unfold codec_defs, rule early_emits,
      rule frame_emits, (rule wire_writes w_broadcast_tail_step)+; auto)

lemma decode_broadcast_payload:
  "wf_broadcast m \<Longrightarrow> fits_broadcast m \<Longrightarrow>
    oc_decode_broadcast (rbuf_at [] (payload_broadcast m)) = Inr m"
  by (auto simp: codec_defs wire_reads r_broadcast_tail_enc not_less)

interpretation broadcast_codec: frame_codec
  "\<lambda>w. oc_encode_broadcast w version" version OC_MSG_BROADCAST oc_decode_broadcast
  payload_broadcast
  "\<lambda>m. if length (broadcast_body m) > OC_MAX_BODY_SIZE then Some OC_E_BODY_TOO_LARGE else None"
  wf_broadcast fits_broadcast for version
  by unfold_locales
    (simp_all add: oc_encode_broadcast_def encode_broadcast_emits decode_broadcast_payload)

interpretation msg_restored_codec: frame_codec
  "\<lambda>w. oc_encode_msg_restored w version" version OC_MSG_MSG_RESTORED oc_decode_broadcast
  payload_broadcast
  "\<lambda>m. if length (broadcast_body m) > OC_MAX_BODY_SIZE then Some OC_E_BODY_TOO_LARGE else None"
  wf_broadcast fits_broadcast for version
  by unfold_locales
    (simp_all add: oc_encode_msg_restored_def encode_broadcast_emits decode_broadcast_payload)

interpretation client_ack_codec: canonical_codec
  "\<lambda>w. oc_encode_client_ack w version" version OC_MSG_CLIENT_ACK
  oc_decode_client_ack payload_client_ack "\<lambda>_. None" "\<lambda>_. True" "\<lambda>_. True" for version
  by unfold_locales
    (unfold codec_defs, rule frame_emits, (rule wire_writes)+, simp, simp, simp,
      simp add: wire_reads, auto simp: wire_binds split: if_splits)

interpretation read_cursor_codec: canonical_codec
  "\<lambda>w. oc_encode_read_cursor w version" version OC_MSG_READ_CURSOR
  oc_decode_read_cursor payload_read_cursor "\<lambda>_. None" "\<lambda>_. True" "\<lambda>_. True" for version
  by unfold_locales
    (unfold codec_defs, rule frame_emits, (rule wire_writes)+, simp, simp, simp,
      simp add: wire_reads, auto simp: wire_binds split: if_splits)

interpretation edit_codec: canonical_codec
  "\<lambda>w. oc_encode_edit w version" version OC_MSG_EDIT
  oc_decode_edit payload_edit "\<lambda>m. if length (edit_body m) > OC_MAX_BODY_SIZE then Some OC_E_BODY_TOO_LARGE else None" "\<lambda>_. True" fits_edit for version
  by unfold_locales
    (unfold codec_defs, rule early_emits, rule frame_emits, (rule wire_writes)+, simp, simp, simp,
      simp add: wire_reads, auto simp: wire_binds split: if_splits)

interpretation msg_edited_codec: canonical_codec
  "\<lambda>w. oc_encode_msg_edited w version" version OC_MSG_MSG_EDITED
  oc_decode_msg_edited payload_msg_edited "\<lambda>m. if length (msg_edited_body m) > OC_MAX_BODY_SIZE then Some OC_E_BODY_TOO_LARGE else None" "\<lambda>_. True" fits_msg_edited for version
  by unfold_locales
    (unfold codec_defs, rule early_emits, rule frame_emits, (rule wire_writes)+, simp, simp, simp,
      simp add: wire_reads, auto simp: wire_binds split: if_splits)

interpretation delete_codec: canonical_codec
  "\<lambda>w. oc_encode_delete w version" version OC_MSG_DELETE
  oc_decode_delete payload_delete "\<lambda>_. None" "\<lambda>_. True" "\<lambda>_. True" for version
  by unfold_locales
    (unfold codec_defs, rule frame_emits, (rule wire_writes)+, simp, simp, simp,
      simp add: wire_reads, auto simp: wire_binds split: if_splits)

interpretation msg_deleted_codec: canonical_codec
  "\<lambda>w. oc_encode_msg_deleted w version" version OC_MSG_MSG_DELETED
  oc_decode_msg_deleted payload_msg_deleted "\<lambda>_. None" "\<lambda>_. True" "\<lambda>_. True" for version
  by unfold_locales
    (unfold codec_defs, rule frame_emits, (rule wire_writes)+, simp, simp, simp,
      simp add: wire_reads, auto simp: wire_binds split: if_splits)

interpretation react_codec: canonical_codec
  "\<lambda>w. oc_encode_react w version" version OC_MSG_REACT
  oc_decode_react payload_react "\<lambda>_. None" "\<lambda>_. True" fits_react for version
  by unfold_locales
    (unfold codec_defs, rule frame_emits, (rule wire_writes)+, simp, simp, simp,
      simp add: wire_reads, auto simp: wire_binds split: if_splits)

interpretation reaction_updated_codec: canonical_codec
  "\<lambda>w. oc_encode_reaction_updated w version" version OC_MSG_REACTION_UPDATED
  oc_decode_reaction_updated payload_reaction_updated "\<lambda>_. None" "\<lambda>_. True" fits_reaction_updated for version
  by unfold_locales
    (unfold codec_defs, rule frame_emits, (rule wire_writes)+, simp, simp, simp,
      simp add: wire_reads, auto simp: wire_binds split: if_splits)

interpretation pin_codec: canonical_codec
  "\<lambda>w. oc_encode_pin w version" version OC_MSG_PIN
  oc_decode_pin payload_pin "\<lambda>_. None" "\<lambda>_. True" "\<lambda>_. True" for version
  by unfold_locales
    (unfold codec_defs, rule frame_emits, (rule wire_writes)+, simp, simp, simp,
      simp add: wire_reads, auto simp: wire_binds split: if_splits)

interpretation pin_updated_codec: canonical_codec
  "\<lambda>w. oc_encode_pin_updated w version" version OC_MSG_PIN_UPDATED
  oc_decode_pin_updated payload_pin_updated "\<lambda>_. None" "\<lambda>_. True" "\<lambda>_. True" for version
  by unfold_locales
    (unfold codec_defs, rule frame_emits, (rule wire_writes)+, simp, simp, simp,
      simp add: wire_reads, auto simp: wire_binds split: if_splits)

interpretation unfurl_codec: canonical_codec
  "\<lambda>w. oc_encode_unfurl w version" version OC_MSG_UNFURL
  oc_decode_unfurl payload_unfurl "\<lambda>_. None" "\<lambda>_. True" fits_unfurl for version
  by unfold_locales
    (unfold codec_defs, rule frame_emits, (rule wire_writes)+, simp, simp, simp,
      simp add: wire_reads, auto simp: wire_binds split: if_splits)

interpretation forward_codec: canonical_codec
  "\<lambda>w. oc_encode_forward w version" version OC_MSG_FORWARD
  oc_decode_forward payload_forward "\<lambda>_. None" "\<lambda>_. True" fits_forward for version
  by unfold_locales
    (unfold codec_defs, rule frame_emits, (rule wire_writes)+, simp, simp, simp,
      simp add: wire_reads, auto simp: wire_binds split: if_splits)

interpretation action_codec: canonical_codec
  "\<lambda>w. oc_encode_action w version" version OC_MSG_ACTION
  oc_decode_action payload_action "\<lambda>_. None" "\<lambda>_. True" fits_action for version
  by unfold_locales
    (unfold codec_defs, rule frame_emits, (rule wire_writes)+, simp, simp, simp,
      simp add: wire_reads, auto simp: wire_binds split: if_splits)

interpretation pinned_msg_codec: canonical_codec
  "\<lambda>w. oc_encode_pinned_msg w version" version OC_MSG_PINNED_MSG
  oc_decode_pinned_msg payload_pinned_msg "\<lambda>_. None" "\<lambda>_. True" fits_pinned_msg for version
  by unfold_locales
    (unfold codec_defs, rule frame_emits, (rule wire_writes)+, simp, simp, simp,
      simp add: wire_reads, auto simp: wire_binds split: if_splits)

interpretation send_reply_codec: frame_codec
  "\<lambda>w. oc_encode_send_reply w version" version OC_MSG_SEND_REPLY oc_decode_send_reply
  payload_send_reply
  "\<lambda>m. if length (send_reply_body m) > OC_MAX_BODY_SIZE then Some OC_E_BODY_TOO_LARGE else None"
  wf_send_reply fits_send_reply for version
  by unfold_locales
    (unfold codec_defs, rule early_emits,
      (rule frame_emits, (rule wire_writes w_ids_tail_step)+; simp), simp,
      simp add: wire_reads r_ids_tail_enc)

lemma encode_thread_reply_emits:
  "wf_thread_reply m \<Longrightarrow> oc_encode_thread_reply w version m = oc_emit w version OC_MSG_THREAD_REPLY
    (if length (thread_reply_body m) > OC_MAX_BODY_SIZE then Some OC_E_BODY_TOO_LARGE else None)
    (fits_thread_reply m) (payload_thread_reply m)"
  by (unfold codec_defs, rule early_emits,
      rule frame_emits, (rule wire_writes w_attach_tail_step)+; auto)

lemma decode_thread_reply_payload:
  "wf_thread_reply m \<Longrightarrow> fits_thread_reply m \<Longrightarrow>
    oc_decode_thread_reply (rbuf_at [] (payload_thread_reply m)) = Inr m"
  using r_attach_list_enc [of "thread_reply_attach m" _ "[]"]
  by (auto simp: codec_defs wire_reads enc_attach_tail_def not_less)

interpretation thread_reply_codec: frame_codec
  "\<lambda>w. oc_encode_thread_reply w version" version OC_MSG_THREAD_REPLY oc_decode_thread_reply
  payload_thread_reply
  "\<lambda>m. if length (thread_reply_body m) > OC_MAX_BODY_SIZE then Some OC_E_BODY_TOO_LARGE else None"
  wf_thread_reply fits_thread_reply for version
  by unfold_locales (simp_all add: encode_thread_reply_emits decode_thread_reply_payload)

interpretation thread_meta_codec: canonical_codec
  "\<lambda>w. oc_encode_thread_meta w version" version OC_MSG_THREAD_META
  oc_decode_thread_meta payload_thread_meta "\<lambda>_. None" "\<lambda>_. True" "\<lambda>_. True" for version
  by unfold_locales
    (unfold codec_defs, rule frame_emits, (rule wire_writes)+, simp, simp, simp,
      simp add: wire_reads, auto simp: wire_binds split: if_splits)

interpretation history_request_codec: canonical_codec
  "\<lambda>w. oc_encode_history_request w version" version OC_MSG_HISTORY_REQUEST
  oc_decode_history_request payload_history_request "\<lambda>_. None" "\<lambda>_. True" "\<lambda>_. True" for version
  by unfold_locales
    (unfold codec_defs, rule frame_emits, (rule wire_writes)+, simp, simp, simp,
      simp add: wire_reads, auto simp: wire_binds split: if_splits)

interpretation backfill_done_codec: canonical_codec
  "\<lambda>w. oc_encode_backfill_done w version" version OC_MSG_BACKFILL_DONE
  oc_decode_backfill_done payload_backfill_done "\<lambda>_. None" "\<lambda>_. True" "\<lambda>_. True" for version
  by unfold_locales
    (unfold codec_defs, rule frame_emits, (rule wire_writes)+, simp, simp, simp,
      simp add: wire_reads, auto simp: wire_binds split: if_splits)

interpretation restore_codec: canonical_codec
  "\<lambda>w. oc_encode_restore w version" version OC_MSG_RESTORE
  oc_decode_restore payload_restore "\<lambda>_. None" "\<lambda>_. True" "\<lambda>_. True" for version
  by unfold_locales
    (unfold codec_defs, rule frame_emits, (rule wire_writes)+, simp, simp, simp,
      simp add: wire_reads, auto simp: wire_binds split: if_splits)

text \<open>The decoders of posts and of the fan-out return only well-formed messages.\<close>

lemma loop_try_all:
  assumes "\<And>p x q. rd p = Inr (x, q) \<Longrightarrow> P x" and "r_loop_try rd n p = Inr (xs, q)"
  shows "list_all P xs \<and> length xs \<le> n"
  using assms(2)
proof (induction n arbitrary: p xs)
  case (Suc n)
  then show ?case using assms(1) by (auto split: if_splits sum.splits prod.splits)
qed simp

lemma loop_ok_length: "r_loop_ok rd n p = (xs, q) \<Longrightarrow> length xs \<le> n"
  by (induction n arbitrary: p xs) (auto simp: Let_def split: if_splits prod.splits)

lemma attach_entry_within: "r_attach_entry p = Inr (a, q) \<Longrightarrow> wf_attach_entry a"
  by (auto simp: r_attach_entry_def wf_attach_entry_def Let_def split: prod.splits if_splits)

lemma attach_list_within:
  assumes "r_attach_list p = Inr (as, q)"
  shows "list_all wf_attach_entry as \<and> length as \<le> OC_MAX_ATTACH"
proof -
  obtain n p' where "r_loop_try r_attach_entry (unat n) p' = Inr (as, q)" "unat (n :: u16) \<le> OC_MAX_ATTACH"
    using assms by (auto simp: r_attach_list_def Let_def split: prod.splits if_splits sum.splits)
  then show ?thesis using loop_try_all [of r_attach_entry wf_attach_entry] attach_entry_within by fastforce
qed

lemma r_idem_length: "oc_r_idem p = (b, q) \<Longrightarrow> length b = OC_IDEM_SIZE"
  by (auto simp: oc_r_idem_def r_take_def split: if_splits)

lemma ids_tail_within: "r_ids_tail p = Inr (ids, q) \<Longrightarrow> length ids \<le> OC_MAX_ATTACH"
  by (auto simp: r_ids_tail_def Let_def split: prod.splits if_splits dest!: loop_ok_length)

lemma broadcast_tail_within:
  "r_broadcast_tail p = Inr ((as, nm), q) \<Longrightarrow> list_all wf_attach_entry as \<and> length as \<le> OC_MAX_ATTACH"
  by (auto simp: r_broadcast_tail_def split: if_splits sum.splits prod.splits dest!: attach_list_within)

lemma decoded_Inr: "decoded p m = Inr m' \<Longrightarrow> m' = m"
  by (simp add: decoded_def Let_def split: if_splits)

lemma flag_word: "x \<le> (1 :: u8) \<Longrightarrow> x \<noteq> 1 \<Longrightarrow> x = 0"
  by (metis le_less word_less_1)

lemma message_decoders_within:
  shows "decodes_within oc_decode_send wf_send" "decodes_within oc_decode_send_reply wf_send_reply"
    "decodes_within oc_decode_broadcast wf_broadcast"
  unfolding decodes_within_def oc_decode_send_def oc_decode_send_reply_def oc_decode_broadcast_def Let_def
  by (auto simp: wf_send_def wf_send_reply_def wf_broadcast_def not_less split: prod.splits if_splits sum.splits
      dest!: decoded_Inr r_idem_length ids_tail_within broadcast_tail_within intro: flag_word)

text \<open>The encoders of messages with fixed arrays and lists are all or nothing whatever the message holds.\<close>

lemma message_atomic:
  shows "frame_atomic (\<lambda>w. oc_encode_send w version)"
    "frame_atomic (\<lambda>w. oc_encode_send_ack w version)"
    "frame_atomic (\<lambda>w. oc_encode_broadcast w version)"
    "frame_atomic (\<lambda>w. oc_encode_msg_restored w version)"
    "frame_atomic (\<lambda>w. oc_encode_send_reply w version)"
    "frame_atomic (\<lambda>w. oc_encode_thread_reply w version)"
  by (unfold codec_defs w_ids_tail_def w_attach_tail_def w_attach_list_def w_broadcast_tail_def,
      (rule frame_atomicI, (rule early_all_or_nothing)?, rule bracket_all_or_nothing, (rule any_writes | simp only: entry_defs)+)+)

section \<open>Round trips\<close>

text \<open>
  C8: round trips of the 24 message types for posting, fan-out, acknowledging, read cursors, editing, deleting,
  restoring, reacting, pinning, link previews, forwards, actions, replies, thread counts and asking for history. A
  frame that an encoder appended, whatever follows it, parses to its version and type and decodes to the message
  that was encoded, with and without the optional block of attachments. The message must have the shape of its C type
  (16 bytes of idempotency key, at most as many attachments as the array holds); a BROADCAST, MSG_RESTORED or
  THREAD_REPLY must also have values that its decoder admits and its encoder does not normalise: a known kind, flags
  0 or 1, and attachments that are video messages or carry no media fields. The decoders of SEND, SEND_REPLY and
  BROADCAST return no message that is not of this kind. The other message types of conversations (lists of pins, threads
  and saved messages, thread summaries, history around a message) are not modelled.
\<close>

theorem message_frames_roundtrip:
  "frame_roundtrips (\<lambda>w. oc_encode_send w version) version OC_MSG_SEND
       oc_decode_send wf_send \<and>
   frame_roundtrips (\<lambda>w. oc_encode_send_ack w version) version OC_MSG_SEND_ACK
       oc_decode_send_ack wf_send_ack \<and>
   frame_roundtrips (\<lambda>w. oc_encode_broadcast w version) version OC_MSG_BROADCAST
       oc_decode_broadcast wf_broadcast \<and>
   frame_roundtrips (\<lambda>w. oc_encode_msg_restored w version) version OC_MSG_MSG_RESTORED
       oc_decode_broadcast wf_broadcast \<and>
   frame_roundtrips (\<lambda>w. oc_encode_client_ack w version) version OC_MSG_CLIENT_ACK
       oc_decode_client_ack (\<lambda>_. True) \<and>
   frame_roundtrips (\<lambda>w. oc_encode_read_cursor w version) version OC_MSG_READ_CURSOR
       oc_decode_read_cursor (\<lambda>_. True) \<and>
   frame_roundtrips (\<lambda>w. oc_encode_edit w version) version OC_MSG_EDIT
       oc_decode_edit (\<lambda>_. True) \<and>
   frame_roundtrips (\<lambda>w. oc_encode_msg_edited w version) version OC_MSG_MSG_EDITED
       oc_decode_msg_edited (\<lambda>_. True) \<and>
   frame_roundtrips (\<lambda>w. oc_encode_delete w version) version OC_MSG_DELETE
       oc_decode_delete (\<lambda>_. True) \<and>
   frame_roundtrips (\<lambda>w. oc_encode_msg_deleted w version) version OC_MSG_MSG_DELETED
       oc_decode_msg_deleted (\<lambda>_. True) \<and>
   frame_roundtrips (\<lambda>w. oc_encode_react w version) version OC_MSG_REACT
       oc_decode_react (\<lambda>_. True) \<and>
   frame_roundtrips (\<lambda>w. oc_encode_reaction_updated w version) version OC_MSG_REACTION_UPDATED
       oc_decode_reaction_updated (\<lambda>_. True) \<and>
   frame_roundtrips (\<lambda>w. oc_encode_pin w version) version OC_MSG_PIN
       oc_decode_pin (\<lambda>_. True) \<and>
   frame_roundtrips (\<lambda>w. oc_encode_pin_updated w version) version OC_MSG_PIN_UPDATED
       oc_decode_pin_updated (\<lambda>_. True) \<and>
   frame_roundtrips (\<lambda>w. oc_encode_unfurl w version) version OC_MSG_UNFURL
       oc_decode_unfurl (\<lambda>_. True) \<and>
   frame_roundtrips (\<lambda>w. oc_encode_forward w version) version OC_MSG_FORWARD
       oc_decode_forward (\<lambda>_. True) \<and>
   frame_roundtrips (\<lambda>w. oc_encode_action w version) version OC_MSG_ACTION
       oc_decode_action (\<lambda>_. True) \<and>
   frame_roundtrips (\<lambda>w. oc_encode_pinned_msg w version) version OC_MSG_PINNED_MSG
       oc_decode_pinned_msg (\<lambda>_. True) \<and>
   frame_roundtrips (\<lambda>w. oc_encode_send_reply w version) version OC_MSG_SEND_REPLY
       oc_decode_send_reply wf_send_reply \<and>
   frame_roundtrips (\<lambda>w. oc_encode_thread_reply w version) version OC_MSG_THREAD_REPLY
       oc_decode_thread_reply wf_thread_reply \<and>
   frame_roundtrips (\<lambda>w. oc_encode_thread_meta w version) version OC_MSG_THREAD_META
       oc_decode_thread_meta (\<lambda>_. True) \<and>
   frame_roundtrips (\<lambda>w. oc_encode_history_request w version) version OC_MSG_HISTORY_REQUEST
       oc_decode_history_request (\<lambda>_. True) \<and>
   frame_roundtrips (\<lambda>w. oc_encode_backfill_done w version) version OC_MSG_BACKFILL_DONE
       oc_decode_backfill_done (\<lambda>_. True) \<and>
   frame_roundtrips (\<lambda>w. oc_encode_restore w version) version OC_MSG_RESTORE
       oc_decode_restore (\<lambda>_. True) \<and>
   decodes_within oc_decode_send wf_send \<and>
   decodes_within oc_decode_send_reply wf_send_reply \<and>
   decodes_within oc_decode_broadcast wf_broadcast"
  by (intro conjI message_decoders_within
      send_codec.roundtrips send_ack_codec.roundtrips broadcast_codec.roundtrips
        msg_restored_codec.roundtrips client_ack_codec.roundtrips read_cursor_codec.roundtrips
        edit_codec.roundtrips msg_edited_codec.roundtrips delete_codec.roundtrips
        msg_deleted_codec.roundtrips react_codec.roundtrips reaction_updated_codec.roundtrips
        pin_codec.roundtrips pin_updated_codec.roundtrips unfurl_codec.roundtrips
        forward_codec.roundtrips action_codec.roundtrips pinned_msg_codec.roundtrips
        send_reply_codec.roundtrips thread_reply_codec.roundtrips thread_meta_codec.roundtrips
        history_request_codec.roundtrips backfill_done_codec.roundtrips restore_codec.roundtrips)

end
