(* ===== verification/Codec_Channels.thy ===== *)
theory Codec_Channels
  imports Wire
begin

text \<open>
  The messages about channels, their members and the people of a workspace
  (\<^verbatim>\<open>shared/protocol.c\<close>). \<^verbatim>\<open>CHANNEL_LIST\<close> and \<^verbatim>\<open>USER_LIST\<close> are read into an array of the caller's with
  \<^verbatim>\<open>cap\<close> entries: the decoder returns the entries it stored and, in \<^verbatim>\<open>out_count\<close>, how many the frame had.
\<close>

abbreviation OC_MAX_GROUP_DM :: nat where "OC_MAX_GROUP_DM \<equiv> 8"

section \<open>Messages, encoders and decoders\<close>

record oc_create_channel =
  create_channel_name :: oc_slice
  create_channel_is_public :: u8

definition oc_encode_create_channel :: "oc_wbuf \<Rightarrow> u16 \<Rightarrow> oc_create_channel \<Rightarrow> oc_result \<times> oc_wbuf" where [codec_defs]:
  "oc_encode_create_channel w version m =
     (let (off, w) = oc_frame_begin w version OC_MSG_CREATE_CHANNEL;
          w = oc_w_str w (create_channel_name m);
          w = oc_w_u8 w (create_channel_is_public m)
      in oc_frame_end w off)"

definition oc_decode_create_channel :: "oc_rbuf \<Rightarrow> oc_result + oc_create_channel" where [codec_defs]:
  "oc_decode_create_channel p =
     (let (name_v, p) = oc_r_str p;
          (is_public_v, p) = oc_r_u8 p
      in decoded p \<lparr>create_channel_name = name_v,
        create_channel_is_public = is_public_v\<rparr>)"

record oc_update_channel =
  update_channel_channel_id :: u64
  update_channel_op :: u8
  update_channel_value :: oc_slice

definition oc_encode_update_channel :: "oc_wbuf \<Rightarrow> u16 \<Rightarrow> oc_update_channel \<Rightarrow> oc_result \<times> oc_wbuf" where [codec_defs]:
  "oc_encode_update_channel w version m =
     (let (off, w) = oc_frame_begin w version OC_MSG_UPDATE_CHANNEL;
          w = oc_w_u64 w (update_channel_channel_id m);
          w = oc_w_u8 w (update_channel_op m);
          w = oc_w_str w (update_channel_value m)
      in oc_frame_end w off)"

definition oc_decode_update_channel :: "oc_rbuf \<Rightarrow> oc_result + oc_update_channel" where [codec_defs]:
  "oc_decode_update_channel p =
     (let (channel_id_v, p) = oc_r_u64 p;
          (op_v, p) = oc_r_u8 p;
          (value_v, p) = oc_r_str p
      in decoded p \<lparr>update_channel_channel_id = channel_id_v, update_channel_op = op_v,
        update_channel_value = value_v\<rparr>)"

record oc_channel_ref =
  channel_ref_channel_id :: u64

definition oc_encode_join_channel :: "oc_wbuf \<Rightarrow> u16 \<Rightarrow> oc_channel_ref \<Rightarrow> oc_result \<times> oc_wbuf" where [codec_defs]:
  "oc_encode_join_channel w version m =
     (let (off, w) = oc_frame_begin w version OC_MSG_JOIN_CHANNEL;
          w = oc_w_u64 w (channel_ref_channel_id m)
      in oc_frame_end w off)"

definition oc_decode_join_channel :: "oc_rbuf \<Rightarrow> oc_result + oc_channel_ref" where [codec_defs]:
  "oc_decode_join_channel p =
     (let (channel_id_v, p) = oc_r_u64 p
      in decoded p \<lparr>channel_ref_channel_id = channel_id_v\<rparr>)"

definition oc_encode_leave_channel :: "oc_wbuf \<Rightarrow> u16 \<Rightarrow> oc_channel_ref \<Rightarrow> oc_result \<times> oc_wbuf" where [codec_defs]:
  "oc_encode_leave_channel w version m =
     (let (off, w) = oc_frame_begin w version OC_MSG_LEAVE_CHANNEL;
          w = oc_w_u64 w (channel_ref_channel_id m)
      in oc_frame_end w off)"

definition oc_decode_leave_channel :: "oc_rbuf \<Rightarrow> oc_result + oc_channel_ref" where [codec_defs]:
  "oc_decode_leave_channel p =
     (let (channel_id_v, p) = oc_r_u64 p
      in decoded p \<lparr>channel_ref_channel_id = channel_id_v\<rparr>)"

record oc_channel_member_op =
  channel_member_op_channel_id :: u64
  channel_member_op_user_id :: u64

definition oc_encode_invite_to_channel :: "oc_wbuf \<Rightarrow> u16 \<Rightarrow> oc_channel_member_op \<Rightarrow> oc_result \<times> oc_wbuf" where [codec_defs]:
  "oc_encode_invite_to_channel w version m =
     (let (off, w) = oc_frame_begin w version OC_MSG_INVITE_TO_CHANNEL;
          w = oc_w_u64 w (channel_member_op_channel_id m);
          w = oc_w_u64 w (channel_member_op_user_id m)
      in oc_frame_end w off)"

definition oc_decode_invite_to_channel :: "oc_rbuf \<Rightarrow> oc_result + oc_channel_member_op" where [codec_defs]:
  "oc_decode_invite_to_channel p =
     (let (channel_id_v, p) = oc_r_u64 p;
          (user_id_v, p) = oc_r_u64 p
      in decoded p \<lparr>channel_member_op_channel_id = channel_id_v,
        channel_member_op_user_id = user_id_v\<rparr>)"

definition oc_encode_remove_from_channel :: "oc_wbuf \<Rightarrow> u16 \<Rightarrow> oc_channel_member_op \<Rightarrow> oc_result \<times> oc_wbuf" where [codec_defs]:
  "oc_encode_remove_from_channel w version m =
     (let (off, w) = oc_frame_begin w version OC_MSG_REMOVE_FROM_CHANNEL;
          w = oc_w_u64 w (channel_member_op_channel_id m);
          w = oc_w_u64 w (channel_member_op_user_id m)
      in oc_frame_end w off)"

definition oc_decode_remove_from_channel :: "oc_rbuf \<Rightarrow> oc_result + oc_channel_member_op" where [codec_defs]:
  "oc_decode_remove_from_channel p =
     (let (channel_id_v, p) = oc_r_u64 p;
          (user_id_v, p) = oc_r_u64 p
      in decoded p \<lparr>channel_member_op_channel_id = channel_id_v,
        channel_member_op_user_id = user_id_v\<rparr>)"

record oc_open_dm =
  open_dm_user_id :: u64

definition oc_encode_open_dm :: "oc_wbuf \<Rightarrow> u16 \<Rightarrow> oc_open_dm \<Rightarrow> oc_result \<times> oc_wbuf" where [codec_defs]:
  "oc_encode_open_dm w version m =
     (let (off, w) = oc_frame_begin w version OC_MSG_OPEN_DM;
          w = oc_w_u64 w (open_dm_user_id m)
      in oc_frame_end w off)"

definition oc_decode_open_dm :: "oc_rbuf \<Rightarrow> oc_result + oc_open_dm" where [codec_defs]:
  "oc_decode_open_dm p =
     (let (user_id_v, p) = oc_r_u64 p
      in decoded p \<lparr>open_dm_user_id = user_id_v\<rparr>)"

record oc_channel_info =
  channel_info_channel_id :: u64
  channel_info_kind :: u8
  channel_info_name :: oc_slice
  channel_info_is_public :: u8
  channel_info_joined :: u8
  channel_info_created_at :: u64
  channel_info_peer_id :: u64
  channel_info_topic :: oc_slice
  channel_info_archived :: u8
  channel_info_peers :: "u64 list"
  channel_info_e2e :: u8

definition oc_encode_channel_info :: "oc_wbuf \<Rightarrow> u16 \<Rightarrow> oc_channel_info \<Rightarrow> oc_result \<times> oc_wbuf" where [codec_defs]:
  "oc_encode_channel_info w version m =
     (let (off, w) = oc_frame_begin w version OC_MSG_CHANNEL_INFO;
          w = oc_w_u64 w (channel_info_channel_id m);
          w = oc_w_u8 w (channel_info_kind m);
          w = oc_w_str w (channel_info_name m);
          w = oc_w_u8 w (channel_info_is_public m);
          w = oc_w_u8 w (channel_info_joined m);
          w = oc_w_u64 w (channel_info_created_at m);
          w = oc_w_u64 w (channel_info_peer_id m);
          w = oc_w_str w (channel_info_topic m);
          w = oc_w_u8 w (channel_info_archived m);
          n = min (length (channel_info_peers m)) (OC_MAX_GROUP_DM + 1);
          w = oc_w_u16 w (of_nat n);
          w = w_loop oc_w_u64 w (take n (channel_info_peers m));
          w = oc_w_u8 w (channel_info_e2e m)
      in oc_frame_end w off)"

definition oc_decode_channel_info :: "oc_rbuf \<Rightarrow> oc_result + oc_channel_info" where [codec_defs]:
  "oc_decode_channel_info p =
     (let (channel_id_v, p) = oc_r_u64 p;
          (kind_v, p) = oc_r_u8 p;
          (name_v, p) = oc_r_str p;
          (is_public_v, p) = oc_r_u8 p;
          (joined_v, p) = oc_r_u8 p;
          (created_at_v, p) = oc_r_u64 p;
          (peer_id_v, p) = oc_r_u64 p;
          (topic_v, p) = oc_r_str p;
          (archived_v, p) = oc_r_u8 p;
          (n, p) = oc_r_u16 p
      in if unat n > (OC_MAX_GROUP_DM + 1) then Inl OC_E_MALFORMED
         else let (peers_v, p) = r_loop oc_r_u64 (unat n) p;
                  (e2e_v, p) = oc_r_u8 p
              in decoded p \<lparr>channel_info_channel_id = channel_id_v,
                channel_info_kind = kind_v, channel_info_name = name_v,
                channel_info_is_public = is_public_v, channel_info_joined = joined_v,
                channel_info_created_at = created_at_v, channel_info_peer_id = peer_id_v,
                channel_info_topic = topic_v, channel_info_archived = archived_v,
                channel_info_peers = peers_v, channel_info_e2e = e2e_v\<rparr>)"

record oc_channel_list_entry =
  channel_list_entry_channel_id :: u64
  channel_list_entry_name :: oc_slice
  channel_list_entry_is_public :: u8
  channel_list_entry_joined :: u8
  channel_list_entry_kind :: u8
  channel_list_entry_last_message_at :: u64
  channel_list_entry_unread :: u32
  channel_list_entry_peer_id :: u64
  channel_list_entry_topic :: oc_slice
  channel_list_entry_archived :: u8
  channel_list_entry_created_at :: u64
  channel_list_entry_preview :: oc_slice
  channel_list_entry_preview_author :: u64
  channel_list_entry_preview_action :: u8
  channel_list_entry_peers :: "u64 list"
  channel_list_entry_e2e :: u8

definition w_channel_list_entry :: "oc_wbuf \<Rightarrow> oc_channel_list_entry \<Rightarrow> oc_wbuf" where [entry_defs]:
  "w_channel_list_entry w x =
     (let w = oc_w_u64 w (channel_list_entry_channel_id x);
          w = oc_w_str w (channel_list_entry_name x);
          w = oc_w_u8 w (channel_list_entry_is_public x);
          w = oc_w_u8 w (channel_list_entry_joined x);
          w = oc_w_u8 w (channel_list_entry_kind x);
          w = oc_w_u64 w (channel_list_entry_last_message_at x);
          w = oc_w_u32 w (channel_list_entry_unread x);
          w = oc_w_u64 w (channel_list_entry_peer_id x);
          w = oc_w_str w (channel_list_entry_topic x);
          w = oc_w_u8 w (channel_list_entry_archived x);
          w = oc_w_u64 w (channel_list_entry_created_at x);
          w = oc_w_str w (channel_list_entry_preview x);
          w = oc_w_u64 w (channel_list_entry_preview_author x);
          w = oc_w_u8 w (channel_list_entry_preview_action x);
          np = min (length (channel_list_entry_peers x)) (OC_MAX_GROUP_DM + 1);
          w = oc_w_u16 w (of_nat np);
          w = w_loop oc_w_u64 w (take np (channel_list_entry_peers x));
          w = oc_w_u8 w (channel_list_entry_e2e x)
      in w)"

definition r_channel_list_entry ::
  "oc_rbuf \<Rightarrow> oc_result + oc_channel_list_entry \<times> oc_rbuf" where [entry_defs]:
  "r_channel_list_entry p =
     (let (id, p) = oc_r_u64 p;
          (name, p) = oc_r_str p;
          (is_public, p) = oc_r_u8 p;
          (joined, p) = oc_r_u8 p;
          (kind, p) = oc_r_u8 p;
          (last_at, p) = oc_r_u64 p;
          (unread, p) = oc_r_u32 p;
          (peer, p) = oc_r_u64 p;
          (topic, p) = oc_r_str p;
          (archived, p) = oc_r_u8 p;
          (created, p) = oc_r_u64 p;
          (prev, p) = oc_r_str p;
          (prev_a, p) = oc_r_u64 p;
          (prev_act, p) = oc_r_u8 p;
          (np, p) = oc_r_u16 p
      in if unat np > OC_MAX_GROUP_DM + 1 then Inl OC_E_MALFORMED
         else let (peers, p) = r_loop oc_r_u64 (unat np) p;
                  (e2e, p) = oc_r_u8 p
              in Inr (\<lparr>channel_list_entry_channel_id = id, channel_list_entry_name = name,
                   channel_list_entry_is_public = is_public, channel_list_entry_joined = joined,
                   channel_list_entry_kind = kind, channel_list_entry_last_message_at = last_at,
                   channel_list_entry_unread = unread, channel_list_entry_peer_id = peer,
                   channel_list_entry_topic = topic, channel_list_entry_archived = archived,
                   channel_list_entry_created_at = created, channel_list_entry_preview = prev,
                   channel_list_entry_preview_author = prev_a,
                   channel_list_entry_preview_action = prev_act,
                   channel_list_entry_peers = peers, channel_list_entry_e2e = e2e\<rparr>, p))"

record oc_channel_list =
  channel_list_entries :: "oc_channel_list_entry list"

definition oc_encode_channel_list :: "oc_wbuf \<Rightarrow> u16 \<Rightarrow> oc_channel_list \<Rightarrow> oc_result \<times> oc_wbuf" where [codec_defs]:
  "oc_encode_channel_list w version m =
     (let (off, w) = oc_frame_begin w version OC_MSG_CHANNEL_LIST;
          w = oc_w_u16 w (of_nat (length (channel_list_entries m)));
          w = w_loop w_channel_list_entry w (channel_list_entries m)
      in oc_frame_end w off)"

definition oc_decode_channel_list :: "oc_rbuf \<Rightarrow> nat \<Rightarrow> oc_result + oc_channel_list \<times> u16" where [codec_defs]:
  "oc_decode_channel_list p cap =
     (let (count, p) = oc_r_u16 p
      in case r_loop_try r_channel_list_entry (unat count) p of Inl e \<Rightarrow> Inl e
         | Inr (entries_v,
           p) \<Rightarrow> decoded p (\<lparr>channel_list_entries = take cap entries_v\<rparr>, count))"

record oc_list_members =
  list_members_channel_id :: u64

definition oc_encode_list_members :: "oc_wbuf \<Rightarrow> u16 \<Rightarrow> oc_list_members \<Rightarrow> oc_result \<times> oc_wbuf" where [codec_defs]:
  "oc_encode_list_members w version m =
     (let (off, w) = oc_frame_begin w version OC_MSG_LIST_MEMBERS;
          w = oc_w_u64 w (list_members_channel_id m)
      in oc_frame_end w off)"

definition oc_decode_list_members :: "oc_rbuf \<Rightarrow> oc_result + oc_list_members" where [codec_defs]:
  "oc_decode_list_members p =
     (let (channel_id_v, p) = oc_r_u64 p
      in decoded p \<lparr>list_members_channel_id = channel_id_v\<rparr>)"

record oc_member_entry =
  member_entry_channel_id :: u64
  member_entry_user_id :: u64
  member_entry_role :: u8
  member_entry_joined_at :: u64

definition oc_encode_member_entry :: "oc_wbuf \<Rightarrow> u16 \<Rightarrow> oc_member_entry \<Rightarrow> oc_result \<times> oc_wbuf" where [codec_defs]:
  "oc_encode_member_entry w version m =
     (let (off, w) = oc_frame_begin w version OC_MSG_MEMBER_ENTRY;
          w = oc_w_u64 w (member_entry_channel_id m);
          w = oc_w_u64 w (member_entry_user_id m);
          w = oc_w_u8 w (member_entry_role m);
          w = oc_w_u64 w (member_entry_joined_at m)
      in oc_frame_end w off)"

definition oc_decode_member_entry :: "oc_rbuf \<Rightarrow> oc_result + oc_member_entry" where [codec_defs]:
  "oc_decode_member_entry p =
     (let (channel_id_v, p) = oc_r_u64 p;
          (user_id_v, p) = oc_r_u64 p;
          (role_v, p) = oc_r_u8 p;
          (joined_at_v, p) = oc_r_u64 p
      in decoded p \<lparr>member_entry_channel_id = channel_id_v,
        member_entry_user_id = user_id_v, member_entry_role = role_v,
        member_entry_joined_at = joined_at_v\<rparr>)"

record oc_members =
  members_channel_id :: u64
  members_count :: u32

definition oc_encode_members :: "oc_wbuf \<Rightarrow> u16 \<Rightarrow> oc_members \<Rightarrow> oc_result \<times> oc_wbuf" where [codec_defs]:
  "oc_encode_members w version m =
     (let (off, w) = oc_frame_begin w version OC_MSG_MEMBERS;
          w = oc_w_u64 w (members_channel_id m);
          w = oc_w_u32 w (members_count m)
      in oc_frame_end w off)"

definition oc_decode_members :: "oc_rbuf \<Rightarrow> oc_result + oc_members" where [codec_defs]:
  "oc_decode_members p =
     (let (channel_id_v, p) = oc_r_u64 p;
          (count_v, p) = oc_r_u32 p
      in decoded p \<lparr>members_channel_id = channel_id_v, members_count = count_v\<rparr>)"

record oc_set_read_cursor =
  set_read_cursor_channel_id :: u64
  set_read_cursor_message_id :: u64

definition oc_encode_set_read_cursor :: "oc_wbuf \<Rightarrow> u16 \<Rightarrow> oc_set_read_cursor \<Rightarrow> oc_result \<times> oc_wbuf" where [codec_defs]:
  "oc_encode_set_read_cursor w version m =
     (let (off, w) = oc_frame_begin w version OC_MSG_SET_READ_CURSOR;
          w = oc_w_u64 w (set_read_cursor_channel_id m);
          w = oc_w_u64 w (set_read_cursor_message_id m)
      in oc_frame_end w off)"

definition oc_decode_set_read_cursor :: "oc_rbuf \<Rightarrow> oc_result + oc_set_read_cursor" where [codec_defs]:
  "oc_decode_set_read_cursor p =
     (let (channel_id_v, p) = oc_r_u64 p;
          (message_id_v, p) = oc_r_u64 p
      in decoded p \<lparr>set_read_cursor_channel_id = channel_id_v,
        set_read_cursor_message_id = message_id_v\<rparr>)"

record oc_presence_update =
  presence_update_user_id :: u64
  presence_update_status :: u8
  presence_update_dnd :: u8

definition oc_encode_presence_update :: "oc_wbuf \<Rightarrow> u16 \<Rightarrow> oc_presence_update \<Rightarrow> oc_result \<times> oc_wbuf" where [codec_defs]:
  "oc_encode_presence_update w version m =
     (let (off, w) = oc_frame_begin w version OC_MSG_PRESENCE_UPDATE;
          w = oc_w_u64 w (presence_update_user_id m);
          w = oc_w_u8 w (presence_update_status m);
          w = oc_w_u8 w (presence_update_dnd m)
      in oc_frame_end w off)"

definition oc_decode_presence_update :: "oc_rbuf \<Rightarrow> oc_result + oc_presence_update" where [codec_defs]:
  "oc_decode_presence_update p =
     (let (user_id_v, p) = oc_r_u64 p;
          (status_v, p) = oc_r_u8 p;
          (dnd_v, p) = oc_r_u8 p
      in decoded p \<lparr>presence_update_user_id = user_id_v,
        presence_update_status = status_v, presence_update_dnd = dnd_v\<rparr>)"

record oc_typing_update =
  typing_update_channel_id :: u64
  typing_update_user_id :: u64

definition oc_encode_typing_update :: "oc_wbuf \<Rightarrow> u16 \<Rightarrow> oc_typing_update \<Rightarrow> oc_result \<times> oc_wbuf" where [codec_defs]:
  "oc_encode_typing_update w version m =
     (let (off, w) = oc_frame_begin w version OC_MSG_TYPING_UPDATE;
          w = oc_w_u64 w (typing_update_channel_id m);
          w = oc_w_u64 w (typing_update_user_id m)
      in oc_frame_end w off)"

definition oc_decode_typing_update :: "oc_rbuf \<Rightarrow> oc_result + oc_typing_update" where [codec_defs]:
  "oc_decode_typing_update p =
     (let (channel_id_v, p) = oc_r_u64 p;
          (user_id_v, p) = oc_r_u64 p
      in decoded p \<lparr>typing_update_channel_id = channel_id_v,
        typing_update_user_id = user_id_v\<rparr>)"

record oc_set_mute =
  set_mute_channel_id :: u64
  set_mute_muted :: u8

definition oc_encode_set_mute :: "oc_wbuf \<Rightarrow> u16 \<Rightarrow> oc_set_mute \<Rightarrow> oc_result \<times> oc_wbuf" where [codec_defs]:
  "oc_encode_set_mute w version m =
     (let (off, w) = oc_frame_begin w version OC_MSG_SET_MUTE;
          w = oc_w_u64 w (set_mute_channel_id m);
          w = oc_w_u8 w (set_mute_muted m)
      in oc_frame_end w off)"

definition oc_decode_set_mute :: "oc_rbuf \<Rightarrow> oc_result + oc_set_mute" where [codec_defs]:
  "oc_decode_set_mute p =
     (let (channel_id_v, p) = oc_r_u64 p;
          (muted_v, p) = oc_r_u8 p
      in decoded p \<lparr>set_mute_channel_id = channel_id_v, set_mute_muted = muted_v\<rparr>)"

record oc_user_list_entry =
  user_list_entry_user_id :: u64
  user_list_entry_role :: u8
  user_list_entry_disabled :: u8
  user_list_entry_email :: oc_slice
  user_list_entry_display_name :: oc_slice
  user_list_entry_avatar_id :: u64
  user_list_entry_title :: oc_slice
  user_list_entry_timezone :: oc_slice
  user_list_entry_status_emoji :: oc_slice
  user_list_entry_status_text :: oc_slice
  user_list_entry_full_name :: oc_slice
  user_list_entry_pronouns :: oc_slice
  user_list_entry_voice_id :: oc_slice
  user_list_entry_flags :: u8

definition w_user_list_entry :: "oc_wbuf \<Rightarrow> oc_user_list_entry \<Rightarrow> oc_wbuf" where [entry_defs]:
  "w_user_list_entry w x =
     (let w = oc_w_u64 w (user_list_entry_user_id x);
          w = oc_w_u8 w (user_list_entry_role x);
          w = oc_w_u8 w (user_list_entry_disabled x);
          w = oc_w_str w (user_list_entry_email x);
          w = oc_w_str w (user_list_entry_display_name x);
          w = oc_w_u64 w (user_list_entry_avatar_id x);
          w = oc_w_str w (user_list_entry_title x);
          w = oc_w_str w (user_list_entry_timezone x);
          w = oc_w_str w (user_list_entry_status_emoji x);
          w = oc_w_str w (user_list_entry_status_text x);
          w = oc_w_str w (user_list_entry_full_name x);
          w = oc_w_str w (user_list_entry_pronouns x);
          w = oc_w_str w (user_list_entry_voice_id x);
          w = oc_w_u8 w (user_list_entry_flags x)
      in w)"

definition r_user_list_entry :: "oc_rbuf \<Rightarrow> oc_user_list_entry \<times> oc_rbuf" where [entry_defs]:
  "r_user_list_entry p =
     (let (user_id_v, p) = oc_r_u64 p;
          (role_v, p) = oc_r_u8 p;
          (disabled_v, p) = oc_r_u8 p;
          (email_v, p) = oc_r_str p;
          (display_name_v, p) = oc_r_str p;
          (avatar_id_v, p) = oc_r_u64 p;
          (title_v, p) = oc_r_str p;
          (timezone_v, p) = oc_r_str p;
          (status_emoji_v, p) = oc_r_str p;
          (status_text_v, p) = oc_r_str p;
          (full_name_v, p) = oc_r_str p;
          (pronouns_v, p) = oc_r_str p;
          (voice_id_v, p) = oc_r_str p;
          (flags_v, p) = oc_r_u8 p
      in (\<lparr>user_list_entry_user_id = user_id_v, user_list_entry_role = role_v,
        user_list_entry_disabled = disabled_v, user_list_entry_email = email_v,
        user_list_entry_display_name = display_name_v, user_list_entry_avatar_id = avatar_id_v,
        user_list_entry_title = title_v, user_list_entry_timezone = timezone_v,
        user_list_entry_status_emoji = status_emoji_v,
        user_list_entry_status_text = status_text_v, user_list_entry_full_name = full_name_v,
        user_list_entry_pronouns = pronouns_v, user_list_entry_voice_id = voice_id_v,
        user_list_entry_flags = flags_v\<rparr>, p))"

record oc_user_list =
  user_list_entries :: "oc_user_list_entry list"

definition oc_encode_user_list :: "oc_wbuf \<Rightarrow> u16 \<Rightarrow> oc_user_list \<Rightarrow> oc_result \<times> oc_wbuf" where [codec_defs]:
  "oc_encode_user_list w version m =
     (let (off, w) = oc_frame_begin w version OC_MSG_USER_LIST;
          w = oc_w_u16 w (of_nat (length (user_list_entries m)));
          w = w_loop w_user_list_entry w (user_list_entries m)
      in oc_frame_end w off)"

definition oc_decode_user_list :: "oc_rbuf \<Rightarrow> nat \<Rightarrow> oc_result + oc_user_list \<times> u16" where [codec_defs]:
  "oc_decode_user_list p cap =
     (let (count, p) = oc_r_u16 p;
          (entries_v, p) = r_loop_ok r_user_list_entry (unat count) p
      in decoded p (\<lparr>user_list_entries = take cap entries_v\<rparr>, count))"

record oc_set_role =
  set_role_user_id :: u64
  set_role_role :: u8

definition oc_encode_set_role :: "oc_wbuf \<Rightarrow> u16 \<Rightarrow> oc_set_role \<Rightarrow> oc_result \<times> oc_wbuf" where [codec_defs]:
  "oc_encode_set_role w version m =
     (let (off, w) = oc_frame_begin w version OC_MSG_SET_ROLE;
          w = oc_w_u64 w (set_role_user_id m);
          w = oc_w_u8 w (set_role_role m)
      in oc_frame_end w off)"

definition oc_decode_set_role :: "oc_rbuf \<Rightarrow> oc_result + oc_set_role" where [codec_defs]:
  "oc_decode_set_role p =
     (let (user_id_v, p) = oc_r_u64 p;
          (role_v, p) = oc_r_u8 p
      in decoded p \<lparr>set_role_user_id = user_id_v, set_role_role = role_v\<rparr>)"

record oc_invite_user =
  invite_user_role :: u8
  invite_user_email :: oc_slice
  invite_user_uses :: u16

definition oc_encode_invite_user :: "oc_wbuf \<Rightarrow> u16 \<Rightarrow> oc_invite_user \<Rightarrow> oc_result \<times> oc_wbuf" where [codec_defs]:
  "oc_encode_invite_user w version m =
     (let (off, w) = oc_frame_begin w version OC_MSG_INVITE_USER;
          w = oc_w_u8 w (invite_user_role m);
          w = oc_w_str w (invite_user_email m);
          w = oc_w_u16 w (invite_user_uses m)
      in oc_frame_end w off)"

definition oc_decode_invite_user :: "oc_rbuf \<Rightarrow> oc_result + oc_invite_user" where [codec_defs]:
  "oc_decode_invite_user p =
     (let (role_v, p) = oc_r_u8 p;
          (email_v, p) = oc_r_str p;
          (uses_v, p) = oc_r_u16 p
      in decoded p \<lparr>invite_user_role = role_v, invite_user_email = email_v,
        invite_user_uses = uses_v\<rparr>)"

record oc_invite_created =
  invite_created_token :: oc_slice
  invite_created_role :: u8
  invite_created_expires_at :: u64
  invite_created_uses :: u16

definition oc_encode_invite_created :: "oc_wbuf \<Rightarrow> u16 \<Rightarrow> oc_invite_created \<Rightarrow> oc_result \<times> oc_wbuf" where [codec_defs]:
  "oc_encode_invite_created w version m =
     (let (off, w) = oc_frame_begin w version OC_MSG_INVITE_CREATED;
          w = oc_w_bytes w (invite_created_token m);
          w = oc_w_u8 w (invite_created_role m);
          w = oc_w_u64 w (invite_created_expires_at m);
          w = oc_w_u16 w (invite_created_uses m)
      in oc_frame_end w off)"

definition oc_decode_invite_created :: "oc_rbuf \<Rightarrow> oc_result + oc_invite_created" where [codec_defs]:
  "oc_decode_invite_created p =
     (let (token_v, p) = oc_r_bytes p;
          (role_v, p) = oc_r_u8 p;
          (expires_at_v, p) = oc_r_u64 p;
          (uses_v, p) = oc_r_u16 p
      in decoded p \<lparr>invite_created_token = token_v, invite_created_role = role_v,
        invite_created_expires_at = expires_at_v, invite_created_uses = uses_v\<rparr>)"

record oc_set_profile =
  set_profile_full_name :: oc_slice
  set_profile_title :: oc_slice
  set_profile_pronouns :: oc_slice
  set_profile_phone :: oc_slice
  set_profile_timezone :: oc_slice
  set_profile_voice_id :: oc_slice

definition oc_encode_set_profile :: "oc_wbuf \<Rightarrow> u16 \<Rightarrow> oc_set_profile \<Rightarrow> oc_result \<times> oc_wbuf" where [codec_defs]:
  "oc_encode_set_profile w version m =
     (let (off, w) = oc_frame_begin w version OC_MSG_SET_PROFILE;
          w = oc_w_str w (set_profile_full_name m);
          w = oc_w_str w (set_profile_title m);
          w = oc_w_str w (set_profile_pronouns m);
          w = oc_w_str w (set_profile_phone m);
          w = oc_w_str w (set_profile_timezone m);
          w = oc_w_str w (set_profile_voice_id m)
      in oc_frame_end w off)"

definition oc_decode_set_profile :: "oc_rbuf \<Rightarrow> oc_result + oc_set_profile" where [codec_defs]:
  "oc_decode_set_profile p =
     (let (full_name_v, p) = oc_r_str p;
          (title_v, p) = oc_r_str p;
          (pronouns_v, p) = oc_r_str p;
          (phone_v, p) = oc_r_str p;
          (timezone_v, p) = oc_r_str p;
          (voice_id_v, p) = oc_r_str p
      in decoded p \<lparr>set_profile_full_name = full_name_v, set_profile_title = title_v,
        set_profile_pronouns = pronouns_v, set_profile_phone = phone_v,
        set_profile_timezone = timezone_v, set_profile_voice_id = voice_id_v\<rparr>)"

record oc_profile_info =
  profile_info_user_id :: u64
  profile_info_display_name :: oc_slice
  profile_info_email :: oc_slice
  profile_info_status_emoji :: oc_slice
  profile_info_status_text :: oc_slice
  profile_info_status_expires :: u64
  profile_info_title :: oc_slice
  profile_info_timezone :: oc_slice
  profile_info_avatar_id :: u64
  profile_info_role :: u8
  profile_info_full_name :: oc_slice
  profile_info_pronouns :: oc_slice
  profile_info_phone :: oc_slice
  profile_info_voice_id :: oc_slice

definition oc_encode_profile_info :: "oc_wbuf \<Rightarrow> u16 \<Rightarrow> oc_profile_info \<Rightarrow> oc_result \<times> oc_wbuf" where [codec_defs]:
  "oc_encode_profile_info w version m =
     (let (off, w) = oc_frame_begin w version OC_MSG_PROFILE_INFO;
          w = oc_w_u64 w (profile_info_user_id m);
          w = oc_w_str w (profile_info_display_name m);
          w = oc_w_str w (profile_info_email m);
          w = oc_w_str w (profile_info_status_emoji m);
          w = oc_w_str w (profile_info_status_text m);
          w = oc_w_u64 w (profile_info_status_expires m);
          w = oc_w_str w (profile_info_title m);
          w = oc_w_str w (profile_info_timezone m);
          w = oc_w_u64 w (profile_info_avatar_id m);
          w = oc_w_u8 w (profile_info_role m);
          w = oc_w_str w (profile_info_full_name m);
          w = oc_w_str w (profile_info_pronouns m);
          w = oc_w_str w (profile_info_phone m);
          w = oc_w_str w (profile_info_voice_id m)
      in oc_frame_end w off)"

definition oc_decode_profile_info :: "oc_rbuf \<Rightarrow> oc_result + oc_profile_info" where [codec_defs]:
  "oc_decode_profile_info p =
     (let (user_id_v, p) = oc_r_u64 p;
          (display_name_v, p) = oc_r_str p;
          (email_v, p) = oc_r_str p;
          (status_emoji_v, p) = oc_r_str p;
          (status_text_v, p) = oc_r_str p;
          (status_expires_v, p) = oc_r_u64 p;
          (title_v, p) = oc_r_str p;
          (timezone_v, p) = oc_r_str p;
          (avatar_id_v, p) = oc_r_u64 p;
          (role_v, p) = oc_r_u8 p;
          (full_name_v, p) = oc_r_str p;
          (pronouns_v, p) = oc_r_str p;
          (phone_v, p) = oc_r_str p;
          (voice_id_v, p) = oc_r_str p
      in decoded p \<lparr>profile_info_user_id = user_id_v,
        profile_info_display_name = display_name_v, profile_info_email = email_v,
        profile_info_status_emoji = status_emoji_v, profile_info_status_text = status_text_v,
        profile_info_status_expires = status_expires_v, profile_info_title = title_v,
        profile_info_timezone = timezone_v, profile_info_avatar_id = avatar_id_v,
        profile_info_role = role_v, profile_info_full_name = full_name_v,
        profile_info_pronouns = pronouns_v, profile_info_phone = phone_v,
        profile_info_voice_id = voice_id_v\<rparr>)"

section \<open>Payloads\<close>

definition payload_create_channel :: "oc_create_channel \<Rightarrow> u8 list" where [codec_defs]:
  "payload_create_channel m =
     enc_str (create_channel_name m) @ [create_channel_is_public m]"

definition fits_create_channel :: "oc_create_channel \<Rightarrow> bool" where [codec_defs]:
  "fits_create_channel m \<longleftrightarrow> length (create_channel_name m) \<le> 0xFFFF"

definition payload_update_channel :: "oc_update_channel \<Rightarrow> u8 list" where [codec_defs]:
  "payload_update_channel m =
     be64 (update_channel_channel_id m) @ [update_channel_op m] @ enc_str (update_channel_value m)"

definition fits_update_channel :: "oc_update_channel \<Rightarrow> bool" where [codec_defs]:
  "fits_update_channel m \<longleftrightarrow> length (update_channel_value m) \<le> 0xFFFF"

definition payload_join_channel :: "oc_channel_ref \<Rightarrow> u8 list" where [codec_defs]:
  "payload_join_channel m =
     be64 (channel_ref_channel_id m)"

definition payload_leave_channel :: "oc_channel_ref \<Rightarrow> u8 list" where [codec_defs]:
  "payload_leave_channel m =
     be64 (channel_ref_channel_id m)"

definition payload_invite_to_channel :: "oc_channel_member_op \<Rightarrow> u8 list" where [codec_defs]:
  "payload_invite_to_channel m =
     be64 (channel_member_op_channel_id m) @ be64 (channel_member_op_user_id m)"

definition payload_remove_from_channel :: "oc_channel_member_op \<Rightarrow> u8 list" where [codec_defs]:
  "payload_remove_from_channel m =
     be64 (channel_member_op_channel_id m) @ be64 (channel_member_op_user_id m)"

definition payload_open_dm :: "oc_open_dm \<Rightarrow> u8 list" where [codec_defs]:
  "payload_open_dm m =
     be64 (open_dm_user_id m)"

definition payload_channel_info :: "oc_channel_info \<Rightarrow> u8 list" where [codec_defs]:
  "payload_channel_info m =
     be64 (channel_info_channel_id m) @ [channel_info_kind m] @ enc_str (channel_info_name m) @
       [channel_info_is_public m] @ [channel_info_joined m] @ be64 (channel_info_created_at m) @
       be64 (channel_info_peer_id m) @ enc_str (channel_info_topic m) @
       [channel_info_archived m] @ be16 (of_nat (length (channel_info_peers m))) @
       enc_list be64 (channel_info_peers m) @ [channel_info_e2e m]"

definition wf_channel_info :: "oc_channel_info \<Rightarrow> bool" where [codec_defs]:
  "wf_channel_info m \<longleftrightarrow> length (channel_info_peers m) \<le> (OC_MAX_GROUP_DM + 1)"

definition fits_channel_info :: "oc_channel_info \<Rightarrow> bool" where [codec_defs]:
  "fits_channel_info m \<longleftrightarrow> length (channel_info_name m) \<le> 0xFFFF \<and>
     length (channel_info_topic m) \<le> 0xFFFF"

definition wf_channel_list_entry :: "oc_channel_list_entry \<Rightarrow> bool" where [entry_defs]:
  "wf_channel_list_entry x \<longleftrightarrow> length (channel_list_entry_peers x) \<le> OC_MAX_GROUP_DM + 1"

definition fits_channel_list_entry :: "oc_channel_list_entry \<Rightarrow> bool" where [entry_defs]:
  "fits_channel_list_entry x \<longleftrightarrow>
     length (channel_list_entry_name x) \<le> 0xFFFF \<and> length (channel_list_entry_topic x) \<le> 0xFFFF \<and>
     length (channel_list_entry_preview x) \<le> 0xFFFF"

definition enc_channel_list_entry :: "oc_channel_list_entry \<Rightarrow> u8 list" where [entry_defs]:
  "enc_channel_list_entry x =
     be64 (channel_list_entry_channel_id x) @ enc_str (channel_list_entry_name x) @
       [channel_list_entry_is_public x] @ [channel_list_entry_joined x] @
       [channel_list_entry_kind x] @ be64 (channel_list_entry_last_message_at x) @
       be32 (channel_list_entry_unread x) @ be64 (channel_list_entry_peer_id x) @
       enc_str (channel_list_entry_topic x) @ [channel_list_entry_archived x] @
       be64 (channel_list_entry_created_at x) @ enc_str (channel_list_entry_preview x) @
       be64 (channel_list_entry_preview_author x) @ [channel_list_entry_preview_action x] @
       be16 (of_nat (length (channel_list_entry_peers x))) @
       enc_list be64 (channel_list_entry_peers x) @ [channel_list_entry_e2e x]"

definition payload_channel_list :: "oc_channel_list \<Rightarrow> u8 list" where [codec_defs]:
  "payload_channel_list m =
     be16 (of_nat (length (channel_list_entries m))) @
       enc_list enc_channel_list_entry (channel_list_entries m)"

definition payload_list_members :: "oc_list_members \<Rightarrow> u8 list" where [codec_defs]:
  "payload_list_members m =
     be64 (list_members_channel_id m)"

definition payload_member_entry :: "oc_member_entry \<Rightarrow> u8 list" where [codec_defs]:
  "payload_member_entry m =
     be64 (member_entry_channel_id m) @ be64 (member_entry_user_id m) @ [member_entry_role m] @
       be64 (member_entry_joined_at m)"

definition payload_members :: "oc_members \<Rightarrow> u8 list" where [codec_defs]:
  "payload_members m =
     be64 (members_channel_id m) @ be32 (members_count m)"

definition payload_set_read_cursor :: "oc_set_read_cursor \<Rightarrow> u8 list" where [codec_defs]:
  "payload_set_read_cursor m =
     be64 (set_read_cursor_channel_id m) @ be64 (set_read_cursor_message_id m)"

definition payload_presence_update :: "oc_presence_update \<Rightarrow> u8 list" where [codec_defs]:
  "payload_presence_update m =
     be64 (presence_update_user_id m) @ [presence_update_status m] @ [presence_update_dnd m]"

definition payload_typing_update :: "oc_typing_update \<Rightarrow> u8 list" where [codec_defs]:
  "payload_typing_update m =
     be64 (typing_update_channel_id m) @ be64 (typing_update_user_id m)"

definition payload_set_mute :: "oc_set_mute \<Rightarrow> u8 list" where [codec_defs]:
  "payload_set_mute m =
     be64 (set_mute_channel_id m) @ [set_mute_muted m]"

definition enc_user_list_entry :: "oc_user_list_entry \<Rightarrow> u8 list" where [entry_defs]:
  "enc_user_list_entry x =
     be64 (user_list_entry_user_id x) @ [user_list_entry_role x] @
       [user_list_entry_disabled x] @ enc_str (user_list_entry_email x) @
       enc_str (user_list_entry_display_name x) @ be64 (user_list_entry_avatar_id x) @
       enc_str (user_list_entry_title x) @ enc_str (user_list_entry_timezone x) @
       enc_str (user_list_entry_status_emoji x) @ enc_str (user_list_entry_status_text x) @
       enc_str (user_list_entry_full_name x) @ enc_str (user_list_entry_pronouns x) @
       enc_str (user_list_entry_voice_id x) @ [user_list_entry_flags x]"

definition fits_user_list_entry :: "oc_user_list_entry \<Rightarrow> bool" where [entry_defs]:
  "fits_user_list_entry x \<longleftrightarrow> length (user_list_entry_email x) \<le> 0xFFFF \<and>
     length (user_list_entry_display_name x) \<le> 0xFFFF \<and>
     length (user_list_entry_title x) \<le> 0xFFFF \<and>
     length (user_list_entry_timezone x) \<le> 0xFFFF \<and>
     length (user_list_entry_status_emoji x) \<le> 0xFFFF \<and>
     length (user_list_entry_status_text x) \<le> 0xFFFF \<and>
     length (user_list_entry_full_name x) \<le> 0xFFFF \<and>
     length (user_list_entry_pronouns x) \<le> 0xFFFF \<and>
     length (user_list_entry_voice_id x) \<le> 0xFFFF"

definition payload_user_list :: "oc_user_list \<Rightarrow> u8 list" where [codec_defs]:
  "payload_user_list m =
     be16 (of_nat (length (user_list_entries m))) @
       enc_list enc_user_list_entry (user_list_entries m)"

definition payload_set_role :: "oc_set_role \<Rightarrow> u8 list" where [codec_defs]:
  "payload_set_role m =
     be64 (set_role_user_id m) @ [set_role_role m]"

definition payload_invite_user :: "oc_invite_user \<Rightarrow> u8 list" where [codec_defs]:
  "payload_invite_user m =
     [invite_user_role m] @ enc_str (invite_user_email m) @ be16 (invite_user_uses m)"

definition fits_invite_user :: "oc_invite_user \<Rightarrow> bool" where [codec_defs]:
  "fits_invite_user m \<longleftrightarrow> length (invite_user_email m) \<le> 0xFFFF"

definition payload_invite_created :: "oc_invite_created \<Rightarrow> u8 list" where [codec_defs]:
  "payload_invite_created m =
     enc_lstr (invite_created_token m) @ [invite_created_role m] @
       be64 (invite_created_expires_at m) @ be16 (invite_created_uses m)"

definition fits_invite_created :: "oc_invite_created \<Rightarrow> bool" where [codec_defs]:
  "fits_invite_created m \<longleftrightarrow> length (invite_created_token m) \<le> 0xFFFFFFFF"

definition payload_set_profile :: "oc_set_profile \<Rightarrow> u8 list" where [codec_defs]:
  "payload_set_profile m =
     enc_str (set_profile_full_name m) @ enc_str (set_profile_title m) @
       enc_str (set_profile_pronouns m) @ enc_str (set_profile_phone m) @
       enc_str (set_profile_timezone m) @ enc_str (set_profile_voice_id m)"

definition fits_set_profile :: "oc_set_profile \<Rightarrow> bool" where [codec_defs]:
  "fits_set_profile m \<longleftrightarrow> length (set_profile_full_name m) \<le> 0xFFFF \<and>
     length (set_profile_title m) \<le> 0xFFFF \<and>
     length (set_profile_pronouns m) \<le> 0xFFFF \<and>
     length (set_profile_phone m) \<le> 0xFFFF \<and>
     length (set_profile_timezone m) \<le> 0xFFFF \<and>
     length (set_profile_voice_id m) \<le> 0xFFFF"

definition payload_profile_info :: "oc_profile_info \<Rightarrow> u8 list" where [codec_defs]:
  "payload_profile_info m =
     be64 (profile_info_user_id m) @ enc_str (profile_info_display_name m) @
       enc_str (profile_info_email m) @ enc_str (profile_info_status_emoji m) @
       enc_str (profile_info_status_text m) @ be64 (profile_info_status_expires m) @
       enc_str (profile_info_title m) @ enc_str (profile_info_timezone m) @
       be64 (profile_info_avatar_id m) @ [profile_info_role m] @
       enc_str (profile_info_full_name m) @ enc_str (profile_info_pronouns m) @
       enc_str (profile_info_phone m) @ enc_str (profile_info_voice_id m)"

definition fits_profile_info :: "oc_profile_info \<Rightarrow> bool" where [codec_defs]:
  "fits_profile_info m \<longleftrightarrow> length (profile_info_display_name m) \<le> 0xFFFF \<and>
     length (profile_info_email m) \<le> 0xFFFF \<and>
     length (profile_info_status_emoji m) \<le> 0xFFFF \<and>
     length (profile_info_status_text m) \<le> 0xFFFF \<and>
     length (profile_info_title m) \<le> 0xFFFF \<and>
     length (profile_info_timezone m) \<le> 0xFFFF \<and>
     length (profile_info_full_name m) \<le> 0xFFFF \<and>
     length (profile_info_pronouns m) \<le> 0xFFFF \<and>
     length (profile_info_phone m) \<le> 0xFFFF \<and>
     length (profile_info_voice_id m) \<le> 0xFFFF"

section \<open>Each pair is a codec\<close>

interpretation create_channel_codec: canonical_codec
  "\<lambda>w. oc_encode_create_channel w version" version OC_MSG_CREATE_CHANNEL
  oc_decode_create_channel payload_create_channel "\<lambda>_. None" "\<lambda>_. True" fits_create_channel for version
  by unfold_locales
    (unfold codec_defs, rule frame_emits, (rule wire_writes)+, simp, simp, simp,
      simp add: wire_reads, auto simp: wire_binds split: if_splits)

interpretation update_channel_codec: canonical_codec
  "\<lambda>w. oc_encode_update_channel w version" version OC_MSG_UPDATE_CHANNEL
  oc_decode_update_channel payload_update_channel "\<lambda>_. None" "\<lambda>_. True" fits_update_channel for version
  by unfold_locales
    (unfold codec_defs, rule frame_emits, (rule wire_writes)+, simp, simp, simp,
      simp add: wire_reads, auto simp: wire_binds split: if_splits)

interpretation join_channel_codec: canonical_codec
  "\<lambda>w. oc_encode_join_channel w version" version OC_MSG_JOIN_CHANNEL
  oc_decode_join_channel payload_join_channel "\<lambda>_. None" "\<lambda>_. True" "\<lambda>_. True" for version
  by unfold_locales
    (unfold codec_defs, rule frame_emits, (rule wire_writes)+, simp, simp, simp,
      simp add: wire_reads, auto simp: wire_binds split: if_splits)

interpretation leave_channel_codec: canonical_codec
  "\<lambda>w. oc_encode_leave_channel w version" version OC_MSG_LEAVE_CHANNEL
  oc_decode_leave_channel payload_leave_channel "\<lambda>_. None" "\<lambda>_. True" "\<lambda>_. True" for version
  by unfold_locales
    (unfold codec_defs, rule frame_emits, (rule wire_writes)+, simp, simp, simp,
      simp add: wire_reads, auto simp: wire_binds split: if_splits)

interpretation invite_to_channel_codec: canonical_codec
  "\<lambda>w. oc_encode_invite_to_channel w version" version OC_MSG_INVITE_TO_CHANNEL
  oc_decode_invite_to_channel payload_invite_to_channel "\<lambda>_. None" "\<lambda>_. True" "\<lambda>_. True" for version
  by unfold_locales
    (unfold codec_defs, rule frame_emits, (rule wire_writes)+, simp, simp, simp,
      simp add: wire_reads, auto simp: wire_binds split: if_splits)

interpretation remove_from_channel_codec: canonical_codec
  "\<lambda>w. oc_encode_remove_from_channel w version" version OC_MSG_REMOVE_FROM_CHANNEL
  oc_decode_remove_from_channel payload_remove_from_channel "\<lambda>_. None" "\<lambda>_. True" "\<lambda>_. True" for version
  by unfold_locales
    (unfold codec_defs, rule frame_emits, (rule wire_writes)+, simp, simp, simp,
      simp add: wire_reads, auto simp: wire_binds split: if_splits)

interpretation open_dm_codec: canonical_codec
  "\<lambda>w. oc_encode_open_dm w version" version OC_MSG_OPEN_DM
  oc_decode_open_dm payload_open_dm "\<lambda>_. None" "\<lambda>_. True" "\<lambda>_. True" for version
  by unfold_locales
    (unfold codec_defs, rule frame_emits, (rule wire_writes)+, simp, simp, simp,
      simp add: wire_reads, auto simp: wire_binds split: if_splits)

interpretation channel_info_codec: canonical_codec
  "\<lambda>w. oc_encode_channel_info w version" version OC_MSG_CHANNEL_INFO
  oc_decode_channel_info payload_channel_info "\<lambda>_. None" wf_channel_info fits_channel_info for version
  by unfold_locales
    (unfold codec_defs, (rule frame_emits, (rule wire_writes f64.loop_wr_step)+; simp), simp,
      simp add: wire_reads f64.enc_reads, auto simp: wire_binds split: if_splits)

interpretation channel_list_entry: wire_entry r_channel_list_entry w_channel_list_entry
  enc_channel_list_entry wf_channel_list_entry fits_channel_list_entry
  by (rule wire_entryI, unfold entry_defs,
      (rule writes_fits, (rule wire_writes f64.loop_wr_step)+; simp),
      simp add: wire_reads f64.enc_reads, auto simp: wire_binds split: if_splits)

lemma decode_channel_list_payload:
  "length (channel_list_entries m) \<le> 0xFFFF \<and> list_all wf_channel_list_entry (channel_list_entries m) \<Longrightarrow> list_all fits_channel_list_entry (channel_list_entries m) \<Longrightarrow>
    oc_decode_channel_list (rbuf_at [] (payload_channel_list m)) cap
      = Inr (m\<lparr>channel_list_entries := take cap (channel_list_entries m)\<rparr>, of_nat (length (channel_list_entries m)))"
  by (simp add: codec_defs wire_reads channel_list_entry.enc_reads)

interpretation channel_list_codec: frame_codec
  "\<lambda>w. oc_encode_channel_list w version" version OC_MSG_CHANNEL_LIST
  "\<lambda>p. map_sum id fst (oc_decode_channel_list p cap)" payload_channel_list "\<lambda>_. None"
  "\<lambda>m. length (channel_list_entries m) \<le> min cap 0xFFFF \<and> list_all wf_channel_list_entry (channel_list_entries m)" "\<lambda>m. list_all fits_channel_list_entry (channel_list_entries m)" for version cap
  by unfold_locales
    (unfold oc_encode_channel_list_def payload_channel_list_def Let_def,
      (rule frame_emits, (rule wire_writes channel_list_entry.loop_wr_step)+; simp),
      simp, fold payload_channel_list_def, simp add: decode_channel_list_payload)

interpretation list_members_codec: canonical_codec
  "\<lambda>w. oc_encode_list_members w version" version OC_MSG_LIST_MEMBERS
  oc_decode_list_members payload_list_members "\<lambda>_. None" "\<lambda>_. True" "\<lambda>_. True" for version
  by unfold_locales
    (unfold codec_defs, rule frame_emits, (rule wire_writes)+, simp, simp, simp,
      simp add: wire_reads, auto simp: wire_binds split: if_splits)

interpretation member_entry_codec: canonical_codec
  "\<lambda>w. oc_encode_member_entry w version" version OC_MSG_MEMBER_ENTRY
  oc_decode_member_entry payload_member_entry "\<lambda>_. None" "\<lambda>_. True" "\<lambda>_. True" for version
  by unfold_locales
    (unfold codec_defs, rule frame_emits, (rule wire_writes)+, simp, simp, simp,
      simp add: wire_reads, auto simp: wire_binds split: if_splits)

interpretation members_codec: canonical_codec
  "\<lambda>w. oc_encode_members w version" version OC_MSG_MEMBERS
  oc_decode_members payload_members "\<lambda>_. None" "\<lambda>_. True" "\<lambda>_. True" for version
  by unfold_locales
    (unfold codec_defs, rule frame_emits, (rule wire_writes)+, simp, simp, simp,
      simp add: wire_reads, auto simp: wire_binds split: if_splits)

interpretation set_read_cursor_codec: canonical_codec
  "\<lambda>w. oc_encode_set_read_cursor w version" version OC_MSG_SET_READ_CURSOR
  oc_decode_set_read_cursor payload_set_read_cursor "\<lambda>_. None" "\<lambda>_. True" "\<lambda>_. True" for version
  by unfold_locales
    (unfold codec_defs, rule frame_emits, (rule wire_writes)+, simp, simp, simp,
      simp add: wire_reads, auto simp: wire_binds split: if_splits)

interpretation presence_update_codec: canonical_codec
  "\<lambda>w. oc_encode_presence_update w version" version OC_MSG_PRESENCE_UPDATE
  oc_decode_presence_update payload_presence_update "\<lambda>_. None" "\<lambda>_. True" "\<lambda>_. True" for version
  by unfold_locales
    (unfold codec_defs, rule frame_emits, (rule wire_writes)+, simp, simp, simp,
      simp add: wire_reads, auto simp: wire_binds split: if_splits)

interpretation typing_update_codec: canonical_codec
  "\<lambda>w. oc_encode_typing_update w version" version OC_MSG_TYPING_UPDATE
  oc_decode_typing_update payload_typing_update "\<lambda>_. None" "\<lambda>_. True" "\<lambda>_. True" for version
  by unfold_locales
    (unfold codec_defs, rule frame_emits, (rule wire_writes)+, simp, simp, simp,
      simp add: wire_reads, auto simp: wire_binds split: if_splits)

interpretation set_mute_codec: canonical_codec
  "\<lambda>w. oc_encode_set_mute w version" version OC_MSG_SET_MUTE
  oc_decode_set_mute payload_set_mute "\<lambda>_. None" "\<lambda>_. True" "\<lambda>_. True" for version
  by unfold_locales
    (unfold codec_defs, rule frame_emits, (rule wire_writes)+, simp, simp, simp,
      simp add: wire_reads, auto simp: wire_binds split: if_splits)

interpretation user_list_entry: wire_field r_user_list_entry w_user_list_entry enc_user_list_entry "\<lambda>_. True" fits_user_list_entry
  by (rule wire_fieldI, unfold entry_defs, (rule writes_fits, (rule wire_writes)+; simp),
      simp add: wire_reads, auto simp: wire_binds split: if_splits)

lemma decode_user_list_payload:
  "length (user_list_entries m) \<le> 0xFFFF \<Longrightarrow> list_all fits_user_list_entry (user_list_entries m) \<Longrightarrow>
    oc_decode_user_list (rbuf_at [] (payload_user_list m)) cap
      = Inr (m\<lparr>user_list_entries := take cap (user_list_entries m)\<rparr>, of_nat (length (user_list_entries m)))"
  by (simp add: codec_defs wire_reads user_list_entry.enc_reads)

interpretation user_list_codec: frame_codec
  "\<lambda>w. oc_encode_user_list w version" version OC_MSG_USER_LIST
  "\<lambda>p. map_sum id fst (oc_decode_user_list p cap)" payload_user_list "\<lambda>_. None"
  "\<lambda>m. length (user_list_entries m) \<le> min cap 0xFFFF" "\<lambda>m. list_all fits_user_list_entry (user_list_entries m)" for version cap
  by unfold_locales
    (unfold oc_encode_user_list_def payload_user_list_def Let_def,
      (rule frame_emits, (rule wire_writes user_list_entry.loop_wr_step)+; simp),
      simp, fold payload_user_list_def, simp add: decode_user_list_payload)

interpretation set_role_codec: canonical_codec
  "\<lambda>w. oc_encode_set_role w version" version OC_MSG_SET_ROLE
  oc_decode_set_role payload_set_role "\<lambda>_. None" "\<lambda>_. True" "\<lambda>_. True" for version
  by unfold_locales
    (unfold codec_defs, rule frame_emits, (rule wire_writes)+, simp, simp, simp,
      simp add: wire_reads, auto simp: wire_binds split: if_splits)

interpretation invite_user_codec: canonical_codec
  "\<lambda>w. oc_encode_invite_user w version" version OC_MSG_INVITE_USER
  oc_decode_invite_user payload_invite_user "\<lambda>_. None" "\<lambda>_. True" fits_invite_user for version
  by unfold_locales
    (unfold codec_defs, rule frame_emits, (rule wire_writes)+, simp, simp, simp,
      simp add: wire_reads, auto simp: wire_binds split: if_splits)

interpretation invite_created_codec: canonical_codec
  "\<lambda>w. oc_encode_invite_created w version" version OC_MSG_INVITE_CREATED
  oc_decode_invite_created payload_invite_created "\<lambda>_. None" "\<lambda>_. True" fits_invite_created for version
  by unfold_locales
    (unfold codec_defs, rule frame_emits, (rule wire_writes)+, simp, simp, simp,
      simp add: wire_reads, auto simp: wire_binds split: if_splits)

interpretation set_profile_codec: canonical_codec
  "\<lambda>w. oc_encode_set_profile w version" version OC_MSG_SET_PROFILE
  oc_decode_set_profile payload_set_profile "\<lambda>_. None" "\<lambda>_. True" fits_set_profile for version
  by unfold_locales
    (unfold codec_defs, rule frame_emits, (rule wire_writes)+, simp, simp, simp,
      simp add: wire_reads, auto simp: wire_binds split: if_splits)

interpretation profile_info_codec: canonical_codec
  "\<lambda>w. oc_encode_profile_info w version" version OC_MSG_PROFILE_INFO
  oc_decode_profile_info payload_profile_info "\<lambda>_. None" "\<lambda>_. True" fits_profile_info for version
  by unfold_locales
    (unfold codec_defs, rule frame_emits, (rule wire_writes)+, simp, simp, simp,
      simp add: wire_reads, auto simp: wire_binds split: if_splits)

text \<open>The encoders of messages with fixed arrays and lists are all or nothing whatever the message holds.\<close>

lemma channel_atomic:
  shows "frame_atomic (\<lambda>w. oc_encode_channel_info w version)"
    "frame_atomic (\<lambda>w. oc_encode_channel_list w version)"
    "frame_atomic (\<lambda>w. oc_encode_user_list w version)"
  by (unfold codec_defs,
      (rule frame_atomicI, (rule early_all_or_nothing)?, rule bracket_all_or_nothing, (rule any_writes | simp only: entry_defs)+)+)

section \<open>Round trips\<close>

text \<open>
  C23: round trips of 22 message types about channels and people: CREATE_CHANNEL, UPDATE_CHANNEL, JOIN_CHANNEL,
  LEAVE_CHANNEL, INVITE_TO_CHANNEL, REMOVE_FROM_CHANNEL, OPEN_DM, CHANNEL_INFO, CHANNEL_LIST, LIST_MEMBERS, MEMBER_ENTRY,
  MEMBERS, SET_READ_CURSOR, PRESENCE_UPDATE, TYPING_UPDATE, SET_MUTE, USER_LIST, SET_ROLE, INVITE_USER, INVITE_CREATED,
  SET_PROFILE and PROFILE_INFO. A frame that one of these encoders appended, whatever follows it, parses to its version
  and type and decodes to the message that was encoded. A CHANNEL_INFO and each entry of a CHANNEL_LIST have at most as
  many peers as the C array holds; CHANNEL_LIST and USER_LIST have at most as many entries as the array the reader
  passes and as the 16-bit count can say. The other message types about channels and people are not modelled.
\<close>

theorem channel_frames_roundtrip:
  "frame_roundtrips (\<lambda>w. oc_encode_create_channel w version) version OC_MSG_CREATE_CHANNEL
       oc_decode_create_channel (\<lambda>_. True) \<and>
   frame_roundtrips (\<lambda>w. oc_encode_update_channel w version) version OC_MSG_UPDATE_CHANNEL
       oc_decode_update_channel (\<lambda>_. True) \<and>
   frame_roundtrips (\<lambda>w. oc_encode_join_channel w version) version OC_MSG_JOIN_CHANNEL
       oc_decode_join_channel (\<lambda>_. True) \<and>
   frame_roundtrips (\<lambda>w. oc_encode_leave_channel w version) version OC_MSG_LEAVE_CHANNEL
       oc_decode_leave_channel (\<lambda>_. True) \<and>
   frame_roundtrips (\<lambda>w. oc_encode_invite_to_channel w version) version OC_MSG_INVITE_TO_CHANNEL
       oc_decode_invite_to_channel (\<lambda>_. True) \<and>
   frame_roundtrips (\<lambda>w. oc_encode_remove_from_channel w version) version OC_MSG_REMOVE_FROM_CHANNEL
       oc_decode_remove_from_channel (\<lambda>_. True) \<and>
   frame_roundtrips (\<lambda>w. oc_encode_open_dm w version) version OC_MSG_OPEN_DM
       oc_decode_open_dm (\<lambda>_. True) \<and>
   frame_roundtrips (\<lambda>w. oc_encode_channel_info w version) version OC_MSG_CHANNEL_INFO
       oc_decode_channel_info wf_channel_info \<and>
   frame_roundtrips (\<lambda>w. oc_encode_channel_list w version) version OC_MSG_CHANNEL_LIST
       (\<lambda>p. map_sum id fst (oc_decode_channel_list p cap)) (\<lambda>m. length (channel_list_entries m) \<le> min cap 0xFFFF \<and> list_all wf_channel_list_entry (channel_list_entries m)) \<and>
   frame_roundtrips (\<lambda>w. oc_encode_list_members w version) version OC_MSG_LIST_MEMBERS
       oc_decode_list_members (\<lambda>_. True) \<and>
   frame_roundtrips (\<lambda>w. oc_encode_member_entry w version) version OC_MSG_MEMBER_ENTRY
       oc_decode_member_entry (\<lambda>_. True) \<and>
   frame_roundtrips (\<lambda>w. oc_encode_members w version) version OC_MSG_MEMBERS
       oc_decode_members (\<lambda>_. True) \<and>
   frame_roundtrips (\<lambda>w. oc_encode_set_read_cursor w version) version OC_MSG_SET_READ_CURSOR
       oc_decode_set_read_cursor (\<lambda>_. True) \<and>
   frame_roundtrips (\<lambda>w. oc_encode_presence_update w version) version OC_MSG_PRESENCE_UPDATE
       oc_decode_presence_update (\<lambda>_. True) \<and>
   frame_roundtrips (\<lambda>w. oc_encode_typing_update w version) version OC_MSG_TYPING_UPDATE
       oc_decode_typing_update (\<lambda>_. True) \<and>
   frame_roundtrips (\<lambda>w. oc_encode_set_mute w version) version OC_MSG_SET_MUTE
       oc_decode_set_mute (\<lambda>_. True) \<and>
   frame_roundtrips (\<lambda>w. oc_encode_user_list w version) version OC_MSG_USER_LIST
       (\<lambda>p. map_sum id fst (oc_decode_user_list p cap)) (\<lambda>m. length (user_list_entries m) \<le> min cap 0xFFFF) \<and>
   frame_roundtrips (\<lambda>w. oc_encode_set_role w version) version OC_MSG_SET_ROLE
       oc_decode_set_role (\<lambda>_. True) \<and>
   frame_roundtrips (\<lambda>w. oc_encode_invite_user w version) version OC_MSG_INVITE_USER
       oc_decode_invite_user (\<lambda>_. True) \<and>
   frame_roundtrips (\<lambda>w. oc_encode_invite_created w version) version OC_MSG_INVITE_CREATED
       oc_decode_invite_created (\<lambda>_. True) \<and>
   frame_roundtrips (\<lambda>w. oc_encode_set_profile w version) version OC_MSG_SET_PROFILE
       oc_decode_set_profile (\<lambda>_. True) \<and>
   frame_roundtrips (\<lambda>w. oc_encode_profile_info w version) version OC_MSG_PROFILE_INFO
       oc_decode_profile_info (\<lambda>_. True)"
  by (intro conjI
      create_channel_codec.roundtrips update_channel_codec.roundtrips
        join_channel_codec.roundtrips leave_channel_codec.roundtrips
        invite_to_channel_codec.roundtrips remove_from_channel_codec.roundtrips
        open_dm_codec.roundtrips channel_info_codec.roundtrips channel_list_codec.roundtrips
        list_members_codec.roundtrips member_entry_codec.roundtrips members_codec.roundtrips
        set_read_cursor_codec.roundtrips presence_update_codec.roundtrips
        typing_update_codec.roundtrips set_mute_codec.roundtrips user_list_codec.roundtrips
        set_role_codec.roundtrips invite_user_codec.roundtrips invite_created_codec.roundtrips
        set_profile_codec.roundtrips profile_info_codec.roundtrips)

end
