(* ===== verification/Codec_Content.thy ===== *)
theory Codec_Content
  imports Wire
begin

text \<open>
  The messages about polls, reactions, catching up, search and file transfer
  (\<^verbatim>\<open>shared/protocol.c\<close>). A signed field (\<^verbatim>\<open>rank\<close>, \<^verbatim>\<open>cursor_rank\<close>) is kept as the 64-bit word the casts
  \<^verbatim>\<open>(uint64_t)\<close> and \<^verbatim>\<open>(int64_t)\<close> pass through unchanged.
\<close>

abbreviation OC_POLL_MAX_OPTIONS :: nat where "OC_POLL_MAX_OPTIONS \<equiv> 10"

section \<open>Messages, encoders and decoders\<close>

record oc_post_poll =
  post_poll_channel_id :: u64
  post_poll_idem :: "u8 list"
  post_poll_parent_id :: u64
  post_poll_question :: oc_slice
  post_poll_flags :: u8
  post_poll_close_at_ms :: u64
  post_poll_options :: "oc_slice list"

definition oc_encode_post_poll :: "oc_wbuf \<Rightarrow> u16 \<Rightarrow> oc_post_poll \<Rightarrow> oc_result \<times> oc_wbuf" where [codec_defs]:
  "oc_encode_post_poll w version m =
     (if length (post_poll_question m) > OC_MAX_BODY_SIZE then (OC_E_BODY_TOO_LARGE, w)
      else
        (let (off, w) = oc_frame_begin w version OC_MSG_POST_POLL;
             w = oc_w_u64 w (post_poll_channel_id m);
             w = oc_w_idem w (post_poll_idem m);
             w = oc_w_u64 w (post_poll_parent_id m);
             w = oc_w_lstr w (post_poll_question m);
             w = oc_w_u8 w (post_poll_flags m);
             w = oc_w_u64 w (post_poll_close_at_ms m);
             n = min (length (post_poll_options m)) OC_POLL_MAX_OPTIONS;
             w = oc_w_u8 w (of_nat n);
             w = w_loop oc_w_str w (take n (post_poll_options m))
         in oc_frame_end w off))"

definition oc_decode_post_poll :: "oc_rbuf \<Rightarrow> oc_result + oc_post_poll" where [codec_defs]:
  "oc_decode_post_poll p =
     (let (channel_id_v, p) = oc_r_u64 p;
          (idem_v, p) = oc_r_idem p;
          (parent_id_v, p) = oc_r_u64 p;
          (question_v, p) = oc_r_lstr p;
          (flags_v, p) = oc_r_u8 p;
          (close_at_ms_v, p) = oc_r_u64 p;
          (n, p) = oc_r_u8 p
      in if unat n > OC_POLL_MAX_OPTIONS then Inl OC_E_MALFORMED
         else let (options_v, p) = r_loop oc_r_str (unat n) p
              in decoded p \<lparr>post_poll_channel_id = channel_id_v, post_poll_idem = idem_v,
                post_poll_parent_id = parent_id_v, post_poll_question = question_v,
                post_poll_flags = flags_v, post_poll_close_at_ms = close_at_ms_v,
                post_poll_options = options_v\<rparr>)"

record oc_vote =
  vote_channel_id :: u64
  vote_message_id :: u64
  vote_picks :: "u8 list"

definition oc_encode_vote :: "oc_wbuf \<Rightarrow> u16 \<Rightarrow> oc_vote \<Rightarrow> oc_result \<times> oc_wbuf" where [codec_defs]:
  "oc_encode_vote w version m =
     (let (off, w) = oc_frame_begin w version OC_MSG_VOTE;
          w = oc_w_u64 w (vote_channel_id m);
          w = oc_w_u64 w (vote_message_id m);
          n = min (length (vote_picks m)) OC_POLL_MAX_OPTIONS;
          w = oc_w_u8 w (of_nat n);
          w = w_loop oc_w_u8 w (take n (vote_picks m))
      in oc_frame_end w off)"

definition oc_decode_vote :: "oc_rbuf \<Rightarrow> oc_result + oc_vote" where [codec_defs]:
  "oc_decode_vote p =
     (let (channel_id_v, p) = oc_r_u64 p;
          (message_id_v, p) = oc_r_u64 p;
          (n, p) = oc_r_u8 p
      in if unat n > OC_POLL_MAX_OPTIONS then Inl OC_E_MALFORMED
         else let (picks_v, p) = r_loop oc_r_u8 (unat n) p
              in decoded p \<lparr>vote_channel_id = channel_id_v,
                vote_message_id = message_id_v, vote_picks = picks_v\<rparr>)"

record oc_poll_option =
  poll_option_label :: oc_slice
  poll_option_count :: u32

definition w_poll_option :: "oc_wbuf \<Rightarrow> oc_poll_option \<Rightarrow> oc_wbuf" where [entry_defs]:
  "w_poll_option w x =
     (let w = oc_w_str w (poll_option_label x);
          w = oc_w_u32 w (poll_option_count x)
      in w)"

definition r_poll_option :: "oc_rbuf \<Rightarrow> oc_poll_option \<times> oc_rbuf" where [entry_defs]:
  "r_poll_option p =
     (let (label_v, p) = oc_r_str p;
          (count_v, p) = oc_r_u32 p
      in (\<lparr>poll_option_label = label_v, poll_option_count = count_v\<rparr>, p))"

record oc_poll_msg =
  poll_msg_message_id :: u64
  poll_msg_channel_id :: u64
  poll_msg_flags :: u8
  poll_msg_close_at_ms :: u64
  poll_msg_voters :: u32
  poll_msg_mine :: u16
  poll_msg_options :: "oc_poll_option list"

definition oc_encode_poll :: "oc_wbuf \<Rightarrow> u16 \<Rightarrow> oc_poll_msg \<Rightarrow> oc_result \<times> oc_wbuf" where [codec_defs]:
  "oc_encode_poll w version m =
     (let (off, w) = oc_frame_begin w version OC_MSG_POLL;
          w = oc_w_u64 w (poll_msg_message_id m);
          w = oc_w_u64 w (poll_msg_channel_id m);
          w = oc_w_u8 w (poll_msg_flags m);
          w = oc_w_u64 w (poll_msg_close_at_ms m);
          w = oc_w_u32 w (poll_msg_voters m);
          w = oc_w_u16 w (poll_msg_mine m);
          n = min (length (poll_msg_options m)) OC_POLL_MAX_OPTIONS;
          w = oc_w_u8 w (of_nat n);
          w = w_loop w_poll_option w (take n (poll_msg_options m))
      in oc_frame_end w off)"

definition oc_decode_poll :: "oc_rbuf \<Rightarrow> oc_result + oc_poll_msg" where [codec_defs]:
  "oc_decode_poll p =
     (let (message_id_v, p) = oc_r_u64 p;
          (channel_id_v, p) = oc_r_u64 p;
          (flags_v, p) = oc_r_u8 p;
          (close_at_ms_v, p) = oc_r_u64 p;
          (voters_v, p) = oc_r_u32 p;
          (mine_v, p) = oc_r_u16 p;
          (n, p) = oc_r_u8 p
      in if unat n > OC_POLL_MAX_OPTIONS then Inl OC_E_MALFORMED
         else let (options_v, p) = r_loop r_poll_option (unat n) p
              in decoded p \<lparr>poll_msg_message_id = message_id_v,
                poll_msg_channel_id = channel_id_v, poll_msg_flags = flags_v,
                poll_msg_close_at_ms = close_at_ms_v, poll_msg_voters = voters_v,
                poll_msg_mine = mine_v, poll_msg_options = options_v\<rparr>)"

record oc_edit_poll =
  edit_poll_channel_id :: u64
  edit_poll_message_id :: u64
  edit_poll_flags :: u8
  edit_poll_close_at_ms :: u64
  edit_poll_options :: "oc_slice list"

definition oc_encode_edit_poll :: "oc_wbuf \<Rightarrow> u16 \<Rightarrow> oc_edit_poll \<Rightarrow> oc_result \<times> oc_wbuf" where [codec_defs]:
  "oc_encode_edit_poll w version m =
     (let (off, w) = oc_frame_begin w version OC_MSG_EDIT_POLL;
          w = oc_w_u64 w (edit_poll_channel_id m);
          w = oc_w_u64 w (edit_poll_message_id m);
          w = oc_w_u8 w (edit_poll_flags m);
          w = oc_w_u64 w (edit_poll_close_at_ms m);
          n = min (length (edit_poll_options m)) OC_POLL_MAX_OPTIONS;
          w = oc_w_u8 w (of_nat n);
          w = w_loop oc_w_str w (take n (edit_poll_options m))
      in oc_frame_end w off)"

definition oc_decode_edit_poll :: "oc_rbuf \<Rightarrow> oc_result + oc_edit_poll" where [codec_defs]:
  "oc_decode_edit_poll p =
     (let (channel_id_v, p) = oc_r_u64 p;
          (message_id_v, p) = oc_r_u64 p;
          (flags_v, p) = oc_r_u8 p;
          (close_at_ms_v, p) = oc_r_u64 p;
          (n, p) = oc_r_u8 p
      in if unat n > OC_POLL_MAX_OPTIONS then Inl OC_E_MALFORMED
         else let (options_v, p) = r_loop oc_r_str (unat n) p
              in decoded p \<lparr>edit_poll_channel_id = channel_id_v,
                edit_poll_message_id = message_id_v, edit_poll_flags = flags_v,
                edit_poll_close_at_ms = close_at_ms_v, edit_poll_options = options_v\<rparr>)"

record oc_list_poll_voters =
  list_poll_voters_channel_id :: u64
  list_poll_voters_message_id :: u64

definition oc_encode_list_poll_voters :: "oc_wbuf \<Rightarrow> u16 \<Rightarrow> oc_list_poll_voters \<Rightarrow> oc_result \<times> oc_wbuf" where [codec_defs]:
  "oc_encode_list_poll_voters w version m =
     (let (off, w) = oc_frame_begin w version OC_MSG_LIST_POLL_VOTERS;
          w = oc_w_u64 w (list_poll_voters_channel_id m);
          w = oc_w_u64 w (list_poll_voters_message_id m)
      in oc_frame_end w off)"

definition oc_decode_list_poll_voters :: "oc_rbuf \<Rightarrow> oc_result + oc_list_poll_voters" where [codec_defs]:
  "oc_decode_list_poll_voters p =
     (let (channel_id_v, p) = oc_r_u64 p;
          (message_id_v, p) = oc_r_u64 p
      in decoded p \<lparr>list_poll_voters_channel_id = channel_id_v,
        list_poll_voters_message_id = message_id_v\<rparr>)"

record oc_reaction_entry =
  reaction_entry_emoji :: oc_slice
  reaction_entry_user_id :: u64

definition w_reaction_entry :: "oc_wbuf \<Rightarrow> oc_reaction_entry \<Rightarrow> oc_wbuf" where [entry_defs]:
  "w_reaction_entry w x =
     (let w = oc_w_str w (reaction_entry_emoji x);
          w = oc_w_u64 w (reaction_entry_user_id x)
      in w)"

definition r_reaction_entry :: "oc_rbuf \<Rightarrow> oc_reaction_entry \<times> oc_rbuf" where [entry_defs]:
  "r_reaction_entry p =
     (let (emoji_v, p) = oc_r_str p;
          (user_id_v, p) = oc_r_u64 p
      in (\<lparr>reaction_entry_emoji = emoji_v, reaction_entry_user_id = user_id_v\<rparr>, p))"

record oc_reactions =
  reactions_message_id :: u64
  reactions_entries :: "oc_reaction_entry list"

definition oc_encode_reactions :: "oc_wbuf \<Rightarrow> u16 \<Rightarrow> oc_reactions \<Rightarrow> oc_result \<times> oc_wbuf" where [codec_defs]:
  "oc_encode_reactions w version m =
     (let (off, w) = oc_frame_begin w version OC_MSG_REACTIONS;
          w = oc_w_u64 w (reactions_message_id m);
          w = oc_w_u16 w (of_nat (length (reactions_entries m)));
          w = w_loop w_reaction_entry w (reactions_entries m)
      in oc_frame_end w off)"

definition oc_decode_reactions :: "oc_rbuf \<Rightarrow> nat \<Rightarrow> oc_result + oc_reactions \<times> u16" where [codec_defs]:
  "oc_decode_reactions p cap =
     (let (message_id_v, p) = oc_r_u64 p;
          (count, p) = oc_r_u16 p;
          (entries_v, p) = r_loop_ok r_reaction_entry (unat count) p
      in decoded p (\<lparr>reactions_message_id = message_id_v,
        reactions_entries = take cap entries_v\<rparr>, count))"

record oc_cursor =
  cursor_channel_id :: u64
  cursor_after_message_id :: u64

definition w_cursor :: "oc_wbuf \<Rightarrow> oc_cursor \<Rightarrow> oc_wbuf" where [entry_defs]:
  "w_cursor w x =
     (let w = oc_w_u64 w (cursor_channel_id x);
          w = oc_w_u64 w (cursor_after_message_id x)
      in w)"

definition r_cursor :: "oc_rbuf \<Rightarrow> oc_cursor \<times> oc_rbuf" where [entry_defs]:
  "r_cursor p =
     (let (channel_id_v, p) = oc_r_u64 p;
          (after_message_id_v, p) = oc_r_u64 p
      in (\<lparr>cursor_channel_id = channel_id_v,
        cursor_after_message_id = after_message_id_v\<rparr>, p))"

record oc_backfill_request =
  backfill_request_cursors :: "oc_cursor list"

definition oc_encode_backfill_request :: "oc_wbuf \<Rightarrow> u16 \<Rightarrow> oc_backfill_request \<Rightarrow> oc_result \<times> oc_wbuf" where [codec_defs]:
  "oc_encode_backfill_request w version m =
     (let (off, w) = oc_frame_begin w version OC_MSG_BACKFILL_REQUEST;
          w = oc_w_u16 w (of_nat (length (backfill_request_cursors m)));
          w = w_loop w_cursor w (backfill_request_cursors m)
      in oc_frame_end w off)"

definition oc_decode_backfill_request :: "oc_rbuf \<Rightarrow> nat \<Rightarrow> oc_result + oc_backfill_request \<times> u16" where [codec_defs]:
  "oc_decode_backfill_request p cap =
     (let (count, p) = oc_r_u16 p;
          (cursors_v, p) = r_loop_ok r_cursor (unat count) p
      in decoded p (\<lparr>backfill_request_cursors = take cap cursors_v\<rparr>, count))"

record oc_search =
  search_query :: oc_slice
  search_limit :: u16
  search_before_id :: u64
  search_from_name :: oc_slice
  search_in_channel :: oc_slice
  search_has_mask :: u8
  search_after_ms :: u64
  search_before_ms :: u64
  search_sort :: u8
  search_cursor_rank :: u64

definition oc_encode_search :: "oc_wbuf \<Rightarrow> u16 \<Rightarrow> oc_search \<Rightarrow> oc_result \<times> oc_wbuf" where [codec_defs]:
  "oc_encode_search w version m =
     (let (off, w) = oc_frame_begin w version OC_MSG_SEARCH;
          w = oc_w_str w (search_query m);
          w = oc_w_u16 w (search_limit m);
          w = oc_w_u64 w (search_before_id m);
          w = oc_w_str w (search_from_name m);
          w = oc_w_str w (search_in_channel m);
          w = oc_w_u8 w (search_has_mask m);
          w = oc_w_u64 w (search_after_ms m);
          w = oc_w_u64 w (search_before_ms m);
          w = oc_w_u8 w (search_sort m);
          w = oc_w_u64 w (search_cursor_rank m)
      in oc_frame_end w off)"

definition oc_decode_search :: "oc_rbuf \<Rightarrow> oc_result + oc_search" where [codec_defs]:
  "oc_decode_search p =
     (let (query_v, p) = oc_r_str p;
          (limit_v, p) = oc_r_u16 p;
          (before_id_v, p) = oc_r_u64 p;
          (from_name_v, p) = oc_r_str p;
          (in_channel_v, p) = oc_r_str p;
          (has_mask_v, p) = oc_r_u8 p;
          (after_ms_v, p) = oc_r_u64 p;
          (before_ms_v, p) = oc_r_u64 p;
          (sort_v, p) = oc_r_u8 p;
          (cursor_rank_v, p) = oc_r_u64 p
      in decoded p \<lparr>search_query = query_v, search_limit = limit_v,
        search_before_id = before_id_v, search_from_name = from_name_v,
        search_in_channel = in_channel_v, search_has_mask = has_mask_v,
        search_after_ms = after_ms_v, search_before_ms = before_ms_v, search_sort = sort_v,
        search_cursor_rank = cursor_rank_v\<rparr>)"

record oc_search_result_entry =
  search_result_entry_message_id :: u64
  search_result_entry_channel_id :: u64
  search_result_entry_author_id :: u64
  search_result_entry_server_time :: u64
  search_result_entry_snippet :: oc_slice
  search_result_entry_action :: u8
  search_result_entry_rank :: u64

definition w_search_result_entry :: "oc_wbuf \<Rightarrow> oc_search_result_entry \<Rightarrow> oc_wbuf" where [entry_defs]:
  "w_search_result_entry w x =
     (let w = oc_w_u64 w (search_result_entry_message_id x);
          w = oc_w_u64 w (search_result_entry_channel_id x);
          w = oc_w_u64 w (search_result_entry_author_id x);
          w = oc_w_u64 w (search_result_entry_server_time x);
          w = oc_w_str w (search_result_entry_snippet x);
          w = oc_w_u8 w (search_result_entry_action x);
          w = oc_w_u64 w (search_result_entry_rank x)
      in w)"

definition r_search_result_entry :: "oc_rbuf \<Rightarrow> oc_search_result_entry \<times> oc_rbuf" where [entry_defs]:
  "r_search_result_entry p =
     (let (message_id_v, p) = oc_r_u64 p;
          (channel_id_v, p) = oc_r_u64 p;
          (author_id_v, p) = oc_r_u64 p;
          (server_time_v, p) = oc_r_u64 p;
          (snippet_v, p) = oc_r_str p;
          (action_v, p) = oc_r_u8 p;
          (rank_v, p) = oc_r_u64 p
      in (\<lparr>search_result_entry_message_id = message_id_v,
        search_result_entry_channel_id = channel_id_v,
        search_result_entry_author_id = author_id_v,
        search_result_entry_server_time = server_time_v,
        search_result_entry_snippet = snippet_v, search_result_entry_action = action_v,
        search_result_entry_rank = rank_v\<rparr>, p))"

record oc_search_results =
  search_results_entries :: "oc_search_result_entry list"
  search_results_truncated :: u8

definition oc_encode_search_results :: "oc_wbuf \<Rightarrow> u16 \<Rightarrow> oc_search_results \<Rightarrow> oc_result \<times> oc_wbuf" where [codec_defs]:
  "oc_encode_search_results w version m =
     (let (off, w) = oc_frame_begin w version OC_MSG_SEARCH_RESULTS;
          w = oc_w_u16 w (of_nat (length (search_results_entries m)));
          w = w_loop w_search_result_entry w (search_results_entries m);
          w = oc_w_u8 w (search_results_truncated m)
      in oc_frame_end w off)"

definition oc_decode_search_results :: "oc_rbuf \<Rightarrow> nat \<Rightarrow> oc_result + oc_search_results \<times> u16" where [codec_defs]:
  "oc_decode_search_results p cap =
     (let (count, p) = oc_r_u16 p;
          (entries_v, p) = r_loop_ok r_search_result_entry (unat count) p;
          (truncated_v, p) = oc_r_u8 p
      in decoded p (\<lparr>search_results_entries = take cap entries_v,
        search_results_truncated = truncated_v\<rparr>, count))"

record oc_upload_begin =
  upload_begin_channel_id :: u64
  upload_begin_idem :: "u8 list"
  upload_begin_filename :: oc_slice
  upload_begin_mime :: oc_slice
  upload_begin_total_size :: u64

definition oc_encode_upload_begin :: "oc_wbuf \<Rightarrow> u16 \<Rightarrow> oc_upload_begin \<Rightarrow> oc_result \<times> oc_wbuf" where [codec_defs]:
  "oc_encode_upload_begin w version m =
     (let (off, w) = oc_frame_begin w version OC_MSG_UPLOAD_BEGIN;
          w = oc_w_u64 w (upload_begin_channel_id m);
          w = oc_w_idem w (upload_begin_idem m);
          w = oc_w_str w (upload_begin_filename m);
          w = oc_w_str w (upload_begin_mime m);
          w = oc_w_u64 w (upload_begin_total_size m)
      in oc_frame_end w off)"

definition oc_decode_upload_begin :: "oc_rbuf \<Rightarrow> oc_result + oc_upload_begin" where [codec_defs]:
  "oc_decode_upload_begin p =
     (let (channel_id_v, p) = oc_r_u64 p;
          (idem_v, p) = oc_r_idem p;
          (filename_v, p) = oc_r_str p;
          (mime_v, p) = oc_r_str p;
          (total_size_v, p) = oc_r_u64 p
      in decoded p \<lparr>upload_begin_channel_id = channel_id_v, upload_begin_idem = idem_v,
        upload_begin_filename = filename_v, upload_begin_mime = mime_v,
        upload_begin_total_size = total_size_v\<rparr>)"

record oc_upload_ready =
  upload_ready_attachment_id :: u64
  upload_ready_chunk_size :: u32
  upload_ready_window_bytes :: u32

definition oc_encode_upload_ready :: "oc_wbuf \<Rightarrow> u16 \<Rightarrow> oc_upload_ready \<Rightarrow> oc_result \<times> oc_wbuf" where [codec_defs]:
  "oc_encode_upload_ready w version m =
     (let (off, w) = oc_frame_begin w version OC_MSG_UPLOAD_READY;
          w = oc_w_u64 w (upload_ready_attachment_id m);
          w = oc_w_u32 w (upload_ready_chunk_size m);
          w = oc_w_u32 w (upload_ready_window_bytes m)
      in oc_frame_end w off)"

definition oc_decode_upload_ready :: "oc_rbuf \<Rightarrow> oc_result + oc_upload_ready" where [codec_defs]:
  "oc_decode_upload_ready p =
     (let (attachment_id_v, p) = oc_r_u64 p;
          (chunk_size_v, p) = oc_r_u32 p;
          (window_bytes_v, p) = oc_r_u32 p
      in decoded p \<lparr>upload_ready_attachment_id = attachment_id_v,
        upload_ready_chunk_size = chunk_size_v,
        upload_ready_window_bytes = window_bytes_v\<rparr>)"

record oc_upload_chunk =
  upload_chunk_attachment_id :: u64
  upload_chunk_seq :: u32
  upload_chunk_data :: oc_slice

definition oc_encode_upload_chunk :: "oc_wbuf \<Rightarrow> u16 \<Rightarrow> oc_upload_chunk \<Rightarrow> oc_result \<times> oc_wbuf" where [codec_defs]:
  "oc_encode_upload_chunk w version m =
     (let (off, w) = oc_frame_begin w version OC_MSG_UPLOAD_CHUNK;
          w = oc_w_u64 w (upload_chunk_attachment_id m);
          w = oc_w_u32 w (upload_chunk_seq m);
          w = oc_w_bytes w (upload_chunk_data m)
      in oc_frame_end w off)"

definition oc_decode_upload_chunk :: "oc_rbuf \<Rightarrow> oc_result + oc_upload_chunk" where [codec_defs]:
  "oc_decode_upload_chunk p =
     (let (attachment_id_v, p) = oc_r_u64 p;
          (seq_v, p) = oc_r_u32 p;
          (data_v, p) = oc_r_bytes p
      in decoded p \<lparr>upload_chunk_attachment_id = attachment_id_v,
        upload_chunk_seq = seq_v, upload_chunk_data = data_v\<rparr>)"

record oc_upload_ack =
  upload_ack_attachment_id :: u64
  upload_ack_acked_through :: u32

definition oc_encode_upload_ack :: "oc_wbuf \<Rightarrow> u16 \<Rightarrow> oc_upload_ack \<Rightarrow> oc_result \<times> oc_wbuf" where [codec_defs]:
  "oc_encode_upload_ack w version m =
     (let (off, w) = oc_frame_begin w version OC_MSG_UPLOAD_ACK;
          w = oc_w_u64 w (upload_ack_attachment_id m);
          w = oc_w_u32 w (upload_ack_acked_through m)
      in oc_frame_end w off)"

definition oc_decode_upload_ack :: "oc_rbuf \<Rightarrow> oc_result + oc_upload_ack" where [codec_defs]:
  "oc_decode_upload_ack p =
     (let (attachment_id_v, p) = oc_r_u64 p;
          (acked_through_v, p) = oc_r_u32 p
      in decoded p \<lparr>upload_ack_attachment_id = attachment_id_v,
        upload_ack_acked_through = acked_through_v\<rparr>)"

record oc_upload_end =
  upload_end_attachment_id :: u64

definition oc_encode_upload_end :: "oc_wbuf \<Rightarrow> u16 \<Rightarrow> oc_upload_end \<Rightarrow> oc_result \<times> oc_wbuf" where [codec_defs]:
  "oc_encode_upload_end w version m =
     (let (off, w) = oc_frame_begin w version OC_MSG_UPLOAD_END;
          w = oc_w_u64 w (upload_end_attachment_id m)
      in oc_frame_end w off)"

definition oc_decode_upload_end :: "oc_rbuf \<Rightarrow> oc_result + oc_upload_end" where [codec_defs]:
  "oc_decode_upload_end p =
     (let (attachment_id_v, p) = oc_r_u64 p
      in decoded p \<lparr>upload_end_attachment_id = attachment_id_v\<rparr>)"

record oc_upload_ok =
  upload_ok_attachment_id :: u64
  upload_ok_size :: u64
  upload_ok_sha256 :: oc_slice

definition oc_encode_upload_ok :: "oc_wbuf \<Rightarrow> u16 \<Rightarrow> oc_upload_ok \<Rightarrow> oc_result \<times> oc_wbuf" where [codec_defs]:
  "oc_encode_upload_ok w version m =
     (let (off, w) = oc_frame_begin w version OC_MSG_UPLOAD_OK;
          w = oc_w_u64 w (upload_ok_attachment_id m);
          w = oc_w_u64 w (upload_ok_size m);
          w = oc_w_bytes w (upload_ok_sha256 m)
      in oc_frame_end w off)"

definition oc_decode_upload_ok :: "oc_rbuf \<Rightarrow> oc_result + oc_upload_ok" where [codec_defs]:
  "oc_decode_upload_ok p =
     (let (attachment_id_v, p) = oc_r_u64 p;
          (size_v, p) = oc_r_u64 p;
          (sha256_v, p) = oc_r_bytes p
      in decoded p \<lparr>upload_ok_attachment_id = attachment_id_v, upload_ok_size = size_v,
        upload_ok_sha256 = sha256_v\<rparr>)"

record oc_download_begin =
  download_begin_attachment_id :: u64

definition oc_encode_download_begin :: "oc_wbuf \<Rightarrow> u16 \<Rightarrow> oc_download_begin \<Rightarrow> oc_result \<times> oc_wbuf" where [codec_defs]:
  "oc_encode_download_begin w version m =
     (let (off, w) = oc_frame_begin w version OC_MSG_DOWNLOAD_BEGIN;
          w = oc_w_u64 w (download_begin_attachment_id m)
      in oc_frame_end w off)"

definition oc_decode_download_begin :: "oc_rbuf \<Rightarrow> oc_result + oc_download_begin" where [codec_defs]:
  "oc_decode_download_begin p =
     (let (attachment_id_v, p) = oc_r_u64 p
      in decoded p \<lparr>download_begin_attachment_id = attachment_id_v\<rparr>)"

record oc_download_info =
  download_info_attachment_id :: u64
  download_info_filename :: oc_slice
  download_info_mime :: oc_slice
  download_info_total_size :: u64
  download_info_sha256 :: oc_slice

definition oc_encode_download_info :: "oc_wbuf \<Rightarrow> u16 \<Rightarrow> oc_download_info \<Rightarrow> oc_result \<times> oc_wbuf" where [codec_defs]:
  "oc_encode_download_info w version m =
     (let (off, w) = oc_frame_begin w version OC_MSG_DOWNLOAD_INFO;
          w = oc_w_u64 w (download_info_attachment_id m);
          w = oc_w_str w (download_info_filename m);
          w = oc_w_str w (download_info_mime m);
          w = oc_w_u64 w (download_info_total_size m);
          w = oc_w_bytes w (download_info_sha256 m)
      in oc_frame_end w off)"

definition oc_decode_download_info :: "oc_rbuf \<Rightarrow> oc_result + oc_download_info" where [codec_defs]:
  "oc_decode_download_info p =
     (let (attachment_id_v, p) = oc_r_u64 p;
          (filename_v, p) = oc_r_str p;
          (mime_v, p) = oc_r_str p;
          (total_size_v, p) = oc_r_u64 p;
          (sha256_v, p) = oc_r_bytes p
      in decoded p \<lparr>download_info_attachment_id = attachment_id_v,
        download_info_filename = filename_v, download_info_mime = mime_v,
        download_info_total_size = total_size_v, download_info_sha256 = sha256_v\<rparr>)"

record oc_download_chunk =
  download_chunk_attachment_id :: u64
  download_chunk_seq :: u32
  download_chunk_data :: oc_slice

definition oc_encode_download_chunk :: "oc_wbuf \<Rightarrow> u16 \<Rightarrow> oc_download_chunk \<Rightarrow> oc_result \<times> oc_wbuf" where [codec_defs]:
  "oc_encode_download_chunk w version m =
     (let (off, w) = oc_frame_begin w version OC_MSG_DOWNLOAD_CHUNK;
          w = oc_w_u64 w (download_chunk_attachment_id m);
          w = oc_w_u32 w (download_chunk_seq m);
          w = oc_w_bytes w (download_chunk_data m)
      in oc_frame_end w off)"

definition oc_decode_download_chunk :: "oc_rbuf \<Rightarrow> oc_result + oc_download_chunk" where [codec_defs]:
  "oc_decode_download_chunk p =
     (let (attachment_id_v, p) = oc_r_u64 p;
          (seq_v, p) = oc_r_u32 p;
          (data_v, p) = oc_r_bytes p
      in decoded p \<lparr>download_chunk_attachment_id = attachment_id_v,
        download_chunk_seq = seq_v, download_chunk_data = data_v\<rparr>)"

record oc_download_end =
  download_end_attachment_id :: u64

definition oc_encode_download_end :: "oc_wbuf \<Rightarrow> u16 \<Rightarrow> oc_download_end \<Rightarrow> oc_result \<times> oc_wbuf" where [codec_defs]:
  "oc_encode_download_end w version m =
     (let (off, w) = oc_frame_begin w version OC_MSG_DOWNLOAD_END;
          w = oc_w_u64 w (download_end_attachment_id m)
      in oc_frame_end w off)"

definition oc_decode_download_end :: "oc_rbuf \<Rightarrow> oc_result + oc_download_end" where [codec_defs]:
  "oc_decode_download_end p =
     (let (attachment_id_v, p) = oc_r_u64 p
      in decoded p \<lparr>download_end_attachment_id = attachment_id_v\<rparr>)"

record oc_transfer_cancel =
  transfer_cancel_attachment_id :: u64

definition oc_encode_transfer_cancel :: "oc_wbuf \<Rightarrow> u16 \<Rightarrow> oc_transfer_cancel \<Rightarrow> oc_result \<times> oc_wbuf" where [codec_defs]:
  "oc_encode_transfer_cancel w version m =
     (let (off, w) = oc_frame_begin w version OC_MSG_TRANSFER_CANCEL;
          w = oc_w_u64 w (transfer_cancel_attachment_id m)
      in oc_frame_end w off)"

definition oc_decode_transfer_cancel :: "oc_rbuf \<Rightarrow> oc_result + oc_transfer_cancel" where [codec_defs]:
  "oc_decode_transfer_cancel p =
     (let (attachment_id_v, p) = oc_r_u64 p
      in decoded p \<lparr>transfer_cancel_attachment_id = attachment_id_v\<rparr>)"

record oc_file_entry =
  file_entry_attachment_id :: u64
  file_entry_channel_id :: u64
  file_entry_message_id :: u64
  file_entry_uploader_id :: u64
  file_entry_size :: u64
  file_entry_created_at :: u64
  file_entry_reclaimed :: u8
  file_entry_filename :: oc_slice
  file_entry_mime :: oc_slice
  file_entry_media_kind :: u8
  file_entry_duration_ms :: u32

definition oc_encode_file_entry :: "oc_wbuf \<Rightarrow> u16 \<Rightarrow> oc_file_entry \<Rightarrow> oc_result \<times> oc_wbuf" where [codec_defs]:
  "oc_encode_file_entry w version m =
     (let (off, w) = oc_frame_begin w version OC_MSG_FILE_ENTRY;
          w = oc_w_u64 w (file_entry_attachment_id m);
          w = oc_w_u64 w (file_entry_channel_id m);
          w = oc_w_u64 w (file_entry_message_id m);
          w = oc_w_u64 w (file_entry_uploader_id m);
          w = oc_w_u64 w (file_entry_size m);
          w = oc_w_u64 w (file_entry_created_at m);
          w = oc_w_u8 w (file_entry_reclaimed m);
          w = oc_w_str w (file_entry_filename m);
          w = oc_w_str w (file_entry_mime m);
          w = oc_w_u8 w (file_entry_media_kind m);
          w = oc_w_u32 w (file_entry_duration_ms m)
      in oc_frame_end w off)"

definition oc_decode_file_entry :: "oc_rbuf \<Rightarrow> oc_result + oc_file_entry" where [codec_defs]:
  "oc_decode_file_entry p =
     (let (attachment_id_v, p) = oc_r_u64 p;
          (channel_id_v, p) = oc_r_u64 p;
          (message_id_v, p) = oc_r_u64 p;
          (uploader_id_v, p) = oc_r_u64 p;
          (size_v, p) = oc_r_u64 p;
          (created_at_v, p) = oc_r_u64 p;
          (reclaimed_v, p) = oc_r_u8 p;
          (filename_v, p) = oc_r_str p;
          (mime_v, p) = oc_r_str p;
          (media_kind_v, p) = oc_r_u8 p;
          (duration_ms_v, p) = oc_r_u32 p
      in decoded p \<lparr>file_entry_attachment_id = attachment_id_v,
        file_entry_channel_id = channel_id_v, file_entry_message_id = message_id_v,
        file_entry_uploader_id = uploader_id_v, file_entry_size = size_v,
        file_entry_created_at = created_at_v, file_entry_reclaimed = reclaimed_v,
        file_entry_filename = filename_v, file_entry_mime = mime_v,
        file_entry_media_kind = media_kind_v, file_entry_duration_ms = duration_ms_v\<rparr>)"

section \<open>Payloads\<close>

definition payload_post_poll :: "oc_post_poll \<Rightarrow> u8 list" where [codec_defs]:
  "payload_post_poll m =
     be64 (post_poll_channel_id m) @ post_poll_idem m @ be64 (post_poll_parent_id m) @
       enc_lstr (post_poll_question m) @ [post_poll_flags m] @ be64 (post_poll_close_at_ms m) @
       [of_nat (length (post_poll_options m))] @ enc_list enc_str (post_poll_options m)"

definition wf_post_poll :: "oc_post_poll \<Rightarrow> bool" where [codec_defs]:
  "wf_post_poll m \<longleftrightarrow> length (post_poll_idem m) = OC_IDEM_SIZE \<and>
     length (post_poll_options m) \<le> OC_POLL_MAX_OPTIONS"

definition fits_post_poll :: "oc_post_poll \<Rightarrow> bool" where [codec_defs]:
  "fits_post_poll m \<longleftrightarrow> length (post_poll_question m) \<le> 0xFFFFFFFF \<and>
     list_all (\<lambda>s. length s \<le> 0xFFFF) (post_poll_options m)"

definition payload_vote :: "oc_vote \<Rightarrow> u8 list" where [codec_defs]:
  "payload_vote m =
     be64 (vote_channel_id m) @ be64 (vote_message_id m) @ [of_nat (length (vote_picks m))] @
       enc_list (\<lambda>v. [v]) (vote_picks m)"

definition wf_vote :: "oc_vote \<Rightarrow> bool" where [codec_defs]:
  "wf_vote m \<longleftrightarrow> length (vote_picks m) \<le> OC_POLL_MAX_OPTIONS"

definition enc_poll_option :: "oc_poll_option \<Rightarrow> u8 list" where [entry_defs]:
  "enc_poll_option x =
     enc_str (poll_option_label x) @ be32 (poll_option_count x)"

definition fits_poll_option :: "oc_poll_option \<Rightarrow> bool" where [entry_defs]:
  "fits_poll_option x \<longleftrightarrow> length (poll_option_label x) \<le> 0xFFFF"

definition payload_poll :: "oc_poll_msg \<Rightarrow> u8 list" where [codec_defs]:
  "payload_poll m =
     be64 (poll_msg_message_id m) @ be64 (poll_msg_channel_id m) @ [poll_msg_flags m] @
       be64 (poll_msg_close_at_ms m) @ be32 (poll_msg_voters m) @ be16 (poll_msg_mine m) @
       [of_nat (length (poll_msg_options m))] @ enc_list enc_poll_option (poll_msg_options m)"

definition wf_poll :: "oc_poll_msg \<Rightarrow> bool" where [codec_defs]:
  "wf_poll m \<longleftrightarrow> length (poll_msg_options m) \<le> OC_POLL_MAX_OPTIONS"

definition fits_poll :: "oc_poll_msg \<Rightarrow> bool" where [codec_defs]:
  "fits_poll m \<longleftrightarrow> list_all fits_poll_option (poll_msg_options m)"

definition payload_edit_poll :: "oc_edit_poll \<Rightarrow> u8 list" where [codec_defs]:
  "payload_edit_poll m =
     be64 (edit_poll_channel_id m) @ be64 (edit_poll_message_id m) @ [edit_poll_flags m] @
       be64 (edit_poll_close_at_ms m) @ [of_nat (length (edit_poll_options m))] @
       enc_list enc_str (edit_poll_options m)"

definition wf_edit_poll :: "oc_edit_poll \<Rightarrow> bool" where [codec_defs]:
  "wf_edit_poll m \<longleftrightarrow> length (edit_poll_options m) \<le> OC_POLL_MAX_OPTIONS"

definition fits_edit_poll :: "oc_edit_poll \<Rightarrow> bool" where [codec_defs]:
  "fits_edit_poll m \<longleftrightarrow> list_all (\<lambda>s. length s \<le> 0xFFFF) (edit_poll_options m)"

definition payload_list_poll_voters :: "oc_list_poll_voters \<Rightarrow> u8 list" where [codec_defs]:
  "payload_list_poll_voters m =
     be64 (list_poll_voters_channel_id m) @ be64 (list_poll_voters_message_id m)"

definition enc_reaction_entry :: "oc_reaction_entry \<Rightarrow> u8 list" where [entry_defs]:
  "enc_reaction_entry x =
     enc_str (reaction_entry_emoji x) @ be64 (reaction_entry_user_id x)"

definition fits_reaction_entry :: "oc_reaction_entry \<Rightarrow> bool" where [entry_defs]:
  "fits_reaction_entry x \<longleftrightarrow> length (reaction_entry_emoji x) \<le> 0xFFFF"

definition payload_reactions :: "oc_reactions \<Rightarrow> u8 list" where [codec_defs]:
  "payload_reactions m =
     be64 (reactions_message_id m) @ be16 (of_nat (length (reactions_entries m))) @
       enc_list enc_reaction_entry (reactions_entries m)"

definition enc_cursor :: "oc_cursor \<Rightarrow> u8 list" where [entry_defs]:
  "enc_cursor x =
     be64 (cursor_channel_id x) @ be64 (cursor_after_message_id x)"

definition payload_backfill_request :: "oc_backfill_request \<Rightarrow> u8 list" where [codec_defs]:
  "payload_backfill_request m =
     be16 (of_nat (length (backfill_request_cursors m))) @
       enc_list enc_cursor (backfill_request_cursors m)"

definition payload_search :: "oc_search \<Rightarrow> u8 list" where [codec_defs]:
  "payload_search m =
     enc_str (search_query m) @ be16 (search_limit m) @ be64 (search_before_id m) @
       enc_str (search_from_name m) @ enc_str (search_in_channel m) @ [search_has_mask m] @
       be64 (search_after_ms m) @ be64 (search_before_ms m) @ [search_sort m] @
       be64 (search_cursor_rank m)"

definition fits_search :: "oc_search \<Rightarrow> bool" where [codec_defs]:
  "fits_search m \<longleftrightarrow> length (search_query m) \<le> 0xFFFF \<and>
     length (search_from_name m) \<le> 0xFFFF \<and>
     length (search_in_channel m) \<le> 0xFFFF"

definition enc_search_result_entry :: "oc_search_result_entry \<Rightarrow> u8 list" where [entry_defs]:
  "enc_search_result_entry x =
     be64 (search_result_entry_message_id x) @ be64 (search_result_entry_channel_id x) @
       be64 (search_result_entry_author_id x) @ be64 (search_result_entry_server_time x) @
       enc_str (search_result_entry_snippet x) @ [search_result_entry_action x] @
       be64 (search_result_entry_rank x)"

definition fits_search_result_entry :: "oc_search_result_entry \<Rightarrow> bool" where [entry_defs]:
  "fits_search_result_entry x \<longleftrightarrow> length (search_result_entry_snippet x) \<le> 0xFFFF"

definition payload_search_results :: "oc_search_results \<Rightarrow> u8 list" where [codec_defs]:
  "payload_search_results m =
     be16 (of_nat (length (search_results_entries m))) @
       enc_list enc_search_result_entry (search_results_entries m) @ [search_results_truncated m]"

definition payload_upload_begin :: "oc_upload_begin \<Rightarrow> u8 list" where [codec_defs]:
  "payload_upload_begin m =
     be64 (upload_begin_channel_id m) @ upload_begin_idem m @
       enc_str (upload_begin_filename m) @ enc_str (upload_begin_mime m) @
       be64 (upload_begin_total_size m)"

definition wf_upload_begin :: "oc_upload_begin \<Rightarrow> bool" where [codec_defs]:
  "wf_upload_begin m \<longleftrightarrow> length (upload_begin_idem m) = OC_IDEM_SIZE"

definition fits_upload_begin :: "oc_upload_begin \<Rightarrow> bool" where [codec_defs]:
  "fits_upload_begin m \<longleftrightarrow> length (upload_begin_filename m) \<le> 0xFFFF \<and>
     length (upload_begin_mime m) \<le> 0xFFFF"

definition payload_upload_ready :: "oc_upload_ready \<Rightarrow> u8 list" where [codec_defs]:
  "payload_upload_ready m =
     be64 (upload_ready_attachment_id m) @ be32 (upload_ready_chunk_size m) @
       be32 (upload_ready_window_bytes m)"

definition payload_upload_chunk :: "oc_upload_chunk \<Rightarrow> u8 list" where [codec_defs]:
  "payload_upload_chunk m =
     be64 (upload_chunk_attachment_id m) @ be32 (upload_chunk_seq m) @
       enc_lstr (upload_chunk_data m)"

definition fits_upload_chunk :: "oc_upload_chunk \<Rightarrow> bool" where [codec_defs]:
  "fits_upload_chunk m \<longleftrightarrow> length (upload_chunk_data m) \<le> 0xFFFFFFFF"

definition payload_upload_ack :: "oc_upload_ack \<Rightarrow> u8 list" where [codec_defs]:
  "payload_upload_ack m =
     be64 (upload_ack_attachment_id m) @ be32 (upload_ack_acked_through m)"

definition payload_upload_end :: "oc_upload_end \<Rightarrow> u8 list" where [codec_defs]:
  "payload_upload_end m =
     be64 (upload_end_attachment_id m)"

definition payload_upload_ok :: "oc_upload_ok \<Rightarrow> u8 list" where [codec_defs]:
  "payload_upload_ok m =
     be64 (upload_ok_attachment_id m) @ be64 (upload_ok_size m) @ enc_lstr (upload_ok_sha256 m)"

definition fits_upload_ok :: "oc_upload_ok \<Rightarrow> bool" where [codec_defs]:
  "fits_upload_ok m \<longleftrightarrow> length (upload_ok_sha256 m) \<le> 0xFFFFFFFF"

definition payload_download_begin :: "oc_download_begin \<Rightarrow> u8 list" where [codec_defs]:
  "payload_download_begin m =
     be64 (download_begin_attachment_id m)"

definition payload_download_info :: "oc_download_info \<Rightarrow> u8 list" where [codec_defs]:
  "payload_download_info m =
     be64 (download_info_attachment_id m) @ enc_str (download_info_filename m) @
       enc_str (download_info_mime m) @ be64 (download_info_total_size m) @
       enc_lstr (download_info_sha256 m)"

definition fits_download_info :: "oc_download_info \<Rightarrow> bool" where [codec_defs]:
  "fits_download_info m \<longleftrightarrow> length (download_info_filename m) \<le> 0xFFFF \<and>
     length (download_info_mime m) \<le> 0xFFFF \<and>
     length (download_info_sha256 m) \<le> 0xFFFFFFFF"

definition payload_download_chunk :: "oc_download_chunk \<Rightarrow> u8 list" where [codec_defs]:
  "payload_download_chunk m =
     be64 (download_chunk_attachment_id m) @ be32 (download_chunk_seq m) @
       enc_lstr (download_chunk_data m)"

definition fits_download_chunk :: "oc_download_chunk \<Rightarrow> bool" where [codec_defs]:
  "fits_download_chunk m \<longleftrightarrow> length (download_chunk_data m) \<le> 0xFFFFFFFF"

definition payload_download_end :: "oc_download_end \<Rightarrow> u8 list" where [codec_defs]:
  "payload_download_end m =
     be64 (download_end_attachment_id m)"

definition payload_transfer_cancel :: "oc_transfer_cancel \<Rightarrow> u8 list" where [codec_defs]:
  "payload_transfer_cancel m =
     be64 (transfer_cancel_attachment_id m)"

definition payload_file_entry :: "oc_file_entry \<Rightarrow> u8 list" where [codec_defs]:
  "payload_file_entry m =
     be64 (file_entry_attachment_id m) @ be64 (file_entry_channel_id m) @
       be64 (file_entry_message_id m) @ be64 (file_entry_uploader_id m) @
       be64 (file_entry_size m) @ be64 (file_entry_created_at m) @ [file_entry_reclaimed m] @
       enc_str (file_entry_filename m) @ enc_str (file_entry_mime m) @
       [file_entry_media_kind m] @ be32 (file_entry_duration_ms m)"

definition fits_file_entry :: "oc_file_entry \<Rightarrow> bool" where [codec_defs]:
  "fits_file_entry m \<longleftrightarrow> length (file_entry_filename m) \<le> 0xFFFF \<and>
     length (file_entry_mime m) \<le> 0xFFFF"

section \<open>Each pair is a codec\<close>

interpretation post_poll_codec: canonical_codec
  "\<lambda>w. oc_encode_post_poll w version" version OC_MSG_POST_POLL
  oc_decode_post_poll payload_post_poll "\<lambda>m. if length (post_poll_question m) > OC_MAX_BODY_SIZE then Some OC_E_BODY_TOO_LARGE else None" wf_post_poll fits_post_poll for version
  by unfold_locales
    (unfold codec_defs, rule early_emits, (rule frame_emits, (rule wire_writes fstr.loop_wr_step)+; simp), simp,
      simp add: wire_reads fstr.enc_reads, auto simp: wire_binds split: if_splits)

interpretation vote_codec: canonical_codec
  "\<lambda>w. oc_encode_vote w version" version OC_MSG_VOTE
  oc_decode_vote payload_vote "\<lambda>_. None" wf_vote "\<lambda>_. True" for version
  by unfold_locales
    (unfold codec_defs, (rule frame_emits, (rule wire_writes f8.loop_wr_step)+; simp), simp,
      simp add: wire_reads f8.enc_reads, auto simp: wire_binds split: if_splits)

interpretation poll_option: wire_field r_poll_option w_poll_option enc_poll_option "\<lambda>_. True" fits_poll_option
  by (rule wire_fieldI, unfold entry_defs, (rule writes_fits, (rule wire_writes)+; simp),
      simp add: wire_reads, auto simp: wire_binds split: if_splits)

interpretation poll_options: wire_field "r_loop r_poll_option n" "w_loop w_poll_option" "enc_list enc_poll_option"
  "\<lambda>xs. length xs = n \<and> list_all (\<lambda>_. True) xs" "list_all fits_poll_option" for n
  by (rule poll_option.loop_field)

interpretation poll_codec: canonical_codec
  "\<lambda>w. oc_encode_poll w version" version OC_MSG_POLL
  oc_decode_poll payload_poll "\<lambda>_. None" wf_poll fits_poll for version
  by unfold_locales
    (unfold codec_defs, (rule frame_emits, (rule wire_writes poll_option.loop_wr_step)+; simp), simp,
      simp add: wire_reads poll_option.enc_reads, auto simp: wire_binds split: if_splits)

interpretation edit_poll_codec: canonical_codec
  "\<lambda>w. oc_encode_edit_poll w version" version OC_MSG_EDIT_POLL
  oc_decode_edit_poll payload_edit_poll "\<lambda>_. None" wf_edit_poll fits_edit_poll for version
  by unfold_locales
    (unfold codec_defs, (rule frame_emits, (rule wire_writes fstr.loop_wr_step)+; simp), simp,
      simp add: wire_reads fstr.enc_reads, auto simp: wire_binds split: if_splits)

interpretation list_poll_voters_codec: canonical_codec
  "\<lambda>w. oc_encode_list_poll_voters w version" version OC_MSG_LIST_POLL_VOTERS
  oc_decode_list_poll_voters payload_list_poll_voters "\<lambda>_. None" "\<lambda>_. True" "\<lambda>_. True" for version
  by unfold_locales
    (unfold codec_defs, rule frame_emits, (rule wire_writes)+, simp, simp, simp,
      simp add: wire_reads, auto simp: wire_binds split: if_splits)

interpretation reaction_entry: wire_field r_reaction_entry w_reaction_entry enc_reaction_entry "\<lambda>_. True" fits_reaction_entry
  by (rule wire_fieldI, unfold entry_defs, (rule writes_fits, (rule wire_writes)+; simp),
      simp add: wire_reads, auto simp: wire_binds split: if_splits)

lemma decode_reactions_payload:
  "length (reactions_entries m) \<le> 0xFFFF \<Longrightarrow> list_all fits_reaction_entry (reactions_entries m) \<Longrightarrow>
    oc_decode_reactions (rbuf_at [] (payload_reactions m)) cap
      = Inr (m\<lparr>reactions_entries := take cap (reactions_entries m)\<rparr>, of_nat (length (reactions_entries m)))"
  by (simp add: codec_defs wire_reads reaction_entry.enc_reads)

interpretation reactions_codec: frame_codec
  "\<lambda>w. oc_encode_reactions w version" version OC_MSG_REACTIONS
  "\<lambda>p. map_sum id fst (oc_decode_reactions p cap)" payload_reactions "\<lambda>_. None"
  "\<lambda>m. length (reactions_entries m) \<le> min cap 0xFFFF" "\<lambda>m. list_all fits_reaction_entry (reactions_entries m)" for version cap
  by unfold_locales
    (unfold oc_encode_reactions_def payload_reactions_def Let_def,
      (rule frame_emits, (rule wire_writes reaction_entry.loop_wr_step)+; simp),
      simp, fold payload_reactions_def, simp add: decode_reactions_payload)

interpretation cursor: wire_field r_cursor w_cursor enc_cursor "\<lambda>_. True" "\<lambda>_. True"
  by (rule wire_fieldI, unfold entry_defs, (rule writes_fits, (rule wire_writes)+; simp),
      simp add: wire_reads, auto simp: wire_binds split: if_splits)

lemma decode_backfill_request_payload:
  "length (backfill_request_cursors m) \<le> 0xFFFF \<Longrightarrow> True \<Longrightarrow>
    oc_decode_backfill_request (rbuf_at [] (payload_backfill_request m)) cap
      = Inr (m\<lparr>backfill_request_cursors := take cap (backfill_request_cursors m)\<rparr>, of_nat (length (backfill_request_cursors m)))"
  by (simp add: codec_defs wire_reads cursor.enc_reads)

interpretation backfill_request_codec: frame_codec
  "\<lambda>w. oc_encode_backfill_request w version" version OC_MSG_BACKFILL_REQUEST
  "\<lambda>p. map_sum id fst (oc_decode_backfill_request p cap)" payload_backfill_request "\<lambda>_. None"
  "\<lambda>m. length (backfill_request_cursors m) \<le> min cap 0xFFFF" "\<lambda>m. True" for version cap
  by unfold_locales
    (unfold oc_encode_backfill_request_def payload_backfill_request_def Let_def,
      (rule frame_emits, (rule wire_writes cursor.loop_wr_step)+; simp),
      simp, fold payload_backfill_request_def, simp add: decode_backfill_request_payload)

interpretation search_codec: canonical_codec
  "\<lambda>w. oc_encode_search w version" version OC_MSG_SEARCH
  oc_decode_search payload_search "\<lambda>_. None" "\<lambda>_. True" fits_search for version
  by unfold_locales
    (unfold codec_defs, rule frame_emits, (rule wire_writes)+, simp, simp, simp,
      simp add: wire_reads, auto simp: wire_binds split: if_splits)

interpretation search_result_entry: wire_field r_search_result_entry w_search_result_entry enc_search_result_entry "\<lambda>_. True" fits_search_result_entry
  by (rule wire_fieldI, unfold entry_defs, (rule writes_fits, (rule wire_writes)+; simp),
      simp add: wire_reads, auto simp: wire_binds split: if_splits)

interpretation search_result_entry_ok: wire_field "r_loop_ok r_search_result_entry n" "w_loop w_search_result_entry" "enc_list enc_search_result_entry"
  "\<lambda>xs. length xs = n \<and> list_all (\<lambda>_. True) xs" "list_all fits_search_result_entry" for n
  by (rule search_result_entry.loop_ok_field)

lemma decode_search_results_payload:
  "length (search_results_entries m) \<le> 0xFFFF \<Longrightarrow> list_all fits_search_result_entry (search_results_entries m) \<Longrightarrow>
    oc_decode_search_results (rbuf_at [] (payload_search_results m)) cap
      = Inr (m\<lparr>search_results_entries := take cap (search_results_entries m)\<rparr>, of_nat (length (search_results_entries m)))"
  by (simp add: codec_defs wire_reads search_result_entry.enc_reads)

interpretation search_results_codec: frame_codec
  "\<lambda>w. oc_encode_search_results w version" version OC_MSG_SEARCH_RESULTS
  "\<lambda>p. map_sum id fst (oc_decode_search_results p cap)" payload_search_results "\<lambda>_. None"
  "\<lambda>m. length (search_results_entries m) \<le> min cap 0xFFFF" "\<lambda>m. list_all fits_search_result_entry (search_results_entries m)" for version cap
  by unfold_locales
    (unfold oc_encode_search_results_def payload_search_results_def Let_def,
      (rule frame_emits, (rule wire_writes search_result_entry.loop_wr_step)+; simp),
      simp, fold payload_search_results_def, simp add: decode_search_results_payload)

interpretation upload_begin_codec: canonical_codec
  "\<lambda>w. oc_encode_upload_begin w version" version OC_MSG_UPLOAD_BEGIN
  oc_decode_upload_begin payload_upload_begin "\<lambda>_. None" wf_upload_begin fits_upload_begin for version
  by unfold_locales
    (unfold codec_defs, rule frame_emits, (rule wire_writes)+, simp, simp, simp,
      simp add: wire_reads, auto simp: wire_binds split: if_splits)

interpretation upload_ready_codec: canonical_codec
  "\<lambda>w. oc_encode_upload_ready w version" version OC_MSG_UPLOAD_READY
  oc_decode_upload_ready payload_upload_ready "\<lambda>_. None" "\<lambda>_. True" "\<lambda>_. True" for version
  by unfold_locales
    (unfold codec_defs, rule frame_emits, (rule wire_writes)+, simp, simp, simp,
      simp add: wire_reads, auto simp: wire_binds split: if_splits)

interpretation upload_chunk_codec: canonical_codec
  "\<lambda>w. oc_encode_upload_chunk w version" version OC_MSG_UPLOAD_CHUNK
  oc_decode_upload_chunk payload_upload_chunk "\<lambda>_. None" "\<lambda>_. True" fits_upload_chunk for version
  by unfold_locales
    (unfold codec_defs, rule frame_emits, (rule wire_writes)+, simp, simp, simp,
      simp add: wire_reads, auto simp: wire_binds split: if_splits)

interpretation upload_ack_codec: canonical_codec
  "\<lambda>w. oc_encode_upload_ack w version" version OC_MSG_UPLOAD_ACK
  oc_decode_upload_ack payload_upload_ack "\<lambda>_. None" "\<lambda>_. True" "\<lambda>_. True" for version
  by unfold_locales
    (unfold codec_defs, rule frame_emits, (rule wire_writes)+, simp, simp, simp,
      simp add: wire_reads, auto simp: wire_binds split: if_splits)

interpretation upload_end_codec: canonical_codec
  "\<lambda>w. oc_encode_upload_end w version" version OC_MSG_UPLOAD_END
  oc_decode_upload_end payload_upload_end "\<lambda>_. None" "\<lambda>_. True" "\<lambda>_. True" for version
  by unfold_locales
    (unfold codec_defs, rule frame_emits, (rule wire_writes)+, simp, simp, simp,
      simp add: wire_reads, auto simp: wire_binds split: if_splits)

interpretation upload_ok_codec: canonical_codec
  "\<lambda>w. oc_encode_upload_ok w version" version OC_MSG_UPLOAD_OK
  oc_decode_upload_ok payload_upload_ok "\<lambda>_. None" "\<lambda>_. True" fits_upload_ok for version
  by unfold_locales
    (unfold codec_defs, rule frame_emits, (rule wire_writes)+, simp, simp, simp,
      simp add: wire_reads, auto simp: wire_binds split: if_splits)

interpretation download_begin_codec: canonical_codec
  "\<lambda>w. oc_encode_download_begin w version" version OC_MSG_DOWNLOAD_BEGIN
  oc_decode_download_begin payload_download_begin "\<lambda>_. None" "\<lambda>_. True" "\<lambda>_. True" for version
  by unfold_locales
    (unfold codec_defs, rule frame_emits, (rule wire_writes)+, simp, simp, simp,
      simp add: wire_reads, auto simp: wire_binds split: if_splits)

interpretation download_info_codec: canonical_codec
  "\<lambda>w. oc_encode_download_info w version" version OC_MSG_DOWNLOAD_INFO
  oc_decode_download_info payload_download_info "\<lambda>_. None" "\<lambda>_. True" fits_download_info for version
  by unfold_locales
    (unfold codec_defs, rule frame_emits, (rule wire_writes)+, simp, simp, simp,
      simp add: wire_reads, auto simp: wire_binds split: if_splits)

interpretation download_chunk_codec: canonical_codec
  "\<lambda>w. oc_encode_download_chunk w version" version OC_MSG_DOWNLOAD_CHUNK
  oc_decode_download_chunk payload_download_chunk "\<lambda>_. None" "\<lambda>_. True" fits_download_chunk for version
  by unfold_locales
    (unfold codec_defs, rule frame_emits, (rule wire_writes)+, simp, simp, simp,
      simp add: wire_reads, auto simp: wire_binds split: if_splits)

interpretation download_end_codec: canonical_codec
  "\<lambda>w. oc_encode_download_end w version" version OC_MSG_DOWNLOAD_END
  oc_decode_download_end payload_download_end "\<lambda>_. None" "\<lambda>_. True" "\<lambda>_. True" for version
  by unfold_locales
    (unfold codec_defs, rule frame_emits, (rule wire_writes)+, simp, simp, simp,
      simp add: wire_reads, auto simp: wire_binds split: if_splits)

interpretation transfer_cancel_codec: canonical_codec
  "\<lambda>w. oc_encode_transfer_cancel w version" version OC_MSG_TRANSFER_CANCEL
  oc_decode_transfer_cancel payload_transfer_cancel "\<lambda>_. None" "\<lambda>_. True" "\<lambda>_. True" for version
  by unfold_locales
    (unfold codec_defs, rule frame_emits, (rule wire_writes)+, simp, simp, simp,
      simp add: wire_reads, auto simp: wire_binds split: if_splits)

interpretation file_entry_codec: canonical_codec
  "\<lambda>w. oc_encode_file_entry w version" version OC_MSG_FILE_ENTRY
  oc_decode_file_entry payload_file_entry "\<lambda>_. None" "\<lambda>_. True" fits_file_entry for version
  by unfold_locales
    (unfold codec_defs, rule frame_emits, (rule wire_writes)+, simp, simp, simp,
      simp add: wire_reads, auto simp: wire_binds split: if_splits)

text \<open>The encoders of messages with fixed arrays and lists are all or nothing whatever the message holds.\<close>

lemma content_atomic:
  shows "frame_atomic (\<lambda>w. oc_encode_post_poll w version)"
    "frame_atomic (\<lambda>w. oc_encode_vote w version)"
    "frame_atomic (\<lambda>w. oc_encode_poll w version)"
    "frame_atomic (\<lambda>w. oc_encode_edit_poll w version)"
    "frame_atomic (\<lambda>w. oc_encode_reactions w version)"
    "frame_atomic (\<lambda>w. oc_encode_backfill_request w version)"
    "frame_atomic (\<lambda>w. oc_encode_search_results w version)"
    "frame_atomic (\<lambda>w. oc_encode_upload_begin w version)"
  by (unfold codec_defs,
      (rule frame_atomicI, (rule early_all_or_nothing)?, rule bracket_all_or_nothing, (rule any_writes | simp only: entry_defs)+)+)

section \<open>Round trips\<close>

text \<open>
  C24: round trips of 21 message types about content: POST_POLL, VOTE, POLL, EDIT_POLL, LIST_POLL_VOTERS, REACTIONS,
  BACKFILL_REQUEST, SEARCH, SEARCH_RESULTS, UPLOAD_BEGIN, UPLOAD_READY, UPLOAD_CHUNK, UPLOAD_ACK, UPLOAD_END, UPLOAD_OK,
  DOWNLOAD_BEGIN, DOWNLOAD_INFO, DOWNLOAD_CHUNK, DOWNLOAD_END, TRANSFER_CANCEL and FILE_ENTRY. A frame that one of these
  encoders appended, whatever follows it, parses to its version and type and decodes to the message that was encoded.
  Polls and votes have at most ten options and idempotency keys 16 bytes, as their C arrays; REACTIONS, BACKFILL_REQUEST
  and SEARCH_RESULTS have at most as many entries as the array the reader passes and as the 16-bit count can say. The other
  message types about content, such as POLL_VOTERS and LIST_REACTIONS, are not modelled.
\<close>

theorem content_frames_roundtrip:
  "frame_roundtrips (\<lambda>w. oc_encode_post_poll w version) version OC_MSG_POST_POLL
       oc_decode_post_poll wf_post_poll \<and>
   frame_roundtrips (\<lambda>w. oc_encode_vote w version) version OC_MSG_VOTE
       oc_decode_vote wf_vote \<and>
   frame_roundtrips (\<lambda>w. oc_encode_poll w version) version OC_MSG_POLL
       oc_decode_poll wf_poll \<and>
   frame_roundtrips (\<lambda>w. oc_encode_edit_poll w version) version OC_MSG_EDIT_POLL
       oc_decode_edit_poll wf_edit_poll \<and>
   frame_roundtrips (\<lambda>w. oc_encode_list_poll_voters w version) version OC_MSG_LIST_POLL_VOTERS
       oc_decode_list_poll_voters (\<lambda>_. True) \<and>
   frame_roundtrips (\<lambda>w. oc_encode_reactions w version) version OC_MSG_REACTIONS
       (\<lambda>p. map_sum id fst (oc_decode_reactions p cap)) (\<lambda>m. length (reactions_entries m) \<le> min cap 0xFFFF) \<and>
   frame_roundtrips (\<lambda>w. oc_encode_backfill_request w version) version OC_MSG_BACKFILL_REQUEST
       (\<lambda>p. map_sum id fst (oc_decode_backfill_request p cap)) (\<lambda>m. length (backfill_request_cursors m) \<le> min cap 0xFFFF) \<and>
   frame_roundtrips (\<lambda>w. oc_encode_search w version) version OC_MSG_SEARCH
       oc_decode_search (\<lambda>_. True) \<and>
   frame_roundtrips (\<lambda>w. oc_encode_search_results w version) version OC_MSG_SEARCH_RESULTS
       (\<lambda>p. map_sum id fst (oc_decode_search_results p cap)) (\<lambda>m. length (search_results_entries m) \<le> min cap 0xFFFF) \<and>
   frame_roundtrips (\<lambda>w. oc_encode_upload_begin w version) version OC_MSG_UPLOAD_BEGIN
       oc_decode_upload_begin wf_upload_begin \<and>
   frame_roundtrips (\<lambda>w. oc_encode_upload_ready w version) version OC_MSG_UPLOAD_READY
       oc_decode_upload_ready (\<lambda>_. True) \<and>
   frame_roundtrips (\<lambda>w. oc_encode_upload_chunk w version) version OC_MSG_UPLOAD_CHUNK
       oc_decode_upload_chunk (\<lambda>_. True) \<and>
   frame_roundtrips (\<lambda>w. oc_encode_upload_ack w version) version OC_MSG_UPLOAD_ACK
       oc_decode_upload_ack (\<lambda>_. True) \<and>
   frame_roundtrips (\<lambda>w. oc_encode_upload_end w version) version OC_MSG_UPLOAD_END
       oc_decode_upload_end (\<lambda>_. True) \<and>
   frame_roundtrips (\<lambda>w. oc_encode_upload_ok w version) version OC_MSG_UPLOAD_OK
       oc_decode_upload_ok (\<lambda>_. True) \<and>
   frame_roundtrips (\<lambda>w. oc_encode_download_begin w version) version OC_MSG_DOWNLOAD_BEGIN
       oc_decode_download_begin (\<lambda>_. True) \<and>
   frame_roundtrips (\<lambda>w. oc_encode_download_info w version) version OC_MSG_DOWNLOAD_INFO
       oc_decode_download_info (\<lambda>_. True) \<and>
   frame_roundtrips (\<lambda>w. oc_encode_download_chunk w version) version OC_MSG_DOWNLOAD_CHUNK
       oc_decode_download_chunk (\<lambda>_. True) \<and>
   frame_roundtrips (\<lambda>w. oc_encode_download_end w version) version OC_MSG_DOWNLOAD_END
       oc_decode_download_end (\<lambda>_. True) \<and>
   frame_roundtrips (\<lambda>w. oc_encode_transfer_cancel w version) version OC_MSG_TRANSFER_CANCEL
       oc_decode_transfer_cancel (\<lambda>_. True) \<and>
   frame_roundtrips (\<lambda>w. oc_encode_file_entry w version) version OC_MSG_FILE_ENTRY
       oc_decode_file_entry (\<lambda>_. True)"
  by (intro conjI
      post_poll_codec.roundtrips vote_codec.roundtrips poll_codec.roundtrips
        edit_poll_codec.roundtrips list_poll_voters_codec.roundtrips reactions_codec.roundtrips
        backfill_request_codec.roundtrips search_codec.roundtrips
        search_results_codec.roundtrips upload_begin_codec.roundtrips
        upload_ready_codec.roundtrips upload_chunk_codec.roundtrips upload_ack_codec.roundtrips
        upload_end_codec.roundtrips upload_ok_codec.roundtrips download_begin_codec.roundtrips
        download_info_codec.roundtrips download_chunk_codec.roundtrips
        download_end_codec.roundtrips transfer_cancel_codec.roundtrips file_entry_codec.roundtrips)

end
