(* ===== verification/Framebuf.thy ===== *)
theory Framebuf
  imports Wire
begin

text \<open>
  The incremental frame reassembler of \<^verbatim>\<open>shared/framebuf.c\<close>: bytes arrive in reads of any size
  and leave as whole frames. The buffer's first \<^verbatim>\<open>len\<close> bytes are the list \<open>fb_buf\<close>. The loop around
  it, push what was read and take frames until there is none, is that of \<^verbatim>\<open>read_some\<close> in
  \<^verbatim>\<open>daemon/ioloop.c\<close>. The reference is \<open>split_frames\<close>, which cuts a whole stream at once; the
  theorems say that reassembly from any reads gives what the reference gives on the stream.
\<close>

section \<open>The reassembler\<close>

abbreviation OC_READ_CHUNK :: nat where "OC_READ_CHUNK \<equiv> 16384"

record oc_framebuf =
  fb_buf :: "u8 list"
  fb_cap :: nat
  fb_pos :: nat

datatype fb_status = FB_MORE | FB_FRAME "u8 list" | FB_ERR oc_result

definition oc_framebuf_init :: oc_framebuf where
  "oc_framebuf_init = \<lparr>fb_buf = [], fb_cap = OC_MAX_FRAME_SIZE + OC_READ_CHUNK, fb_pos = 0\<rparr>"

definition compact :: "oc_framebuf \<Rightarrow> oc_framebuf" where
  "compact fb =
     (if fb_pos fb = 0 then fb
      else fb\<lparr>fb_buf := drop (fb_pos fb) (fb_buf fb), fb_pos := 0\<rparr>)"

text \<open>\<^verbatim>\<open>oc_framebuf_push\<close> returns whether the bytes were taken.\<close>

definition oc_framebuf_push :: "oc_framebuf \<Rightarrow> u8 list \<Rightarrow> bool \<times> oc_framebuf" where
  "oc_framebuf_push fb data =
     (let fb = compact fb
      in if length data > fb_cap fb - length (fb_buf fb) then (False, fb)
         else (True, fb\<lparr>fb_buf := fb_buf fb @ data\<rparr>))"

definition oc_framebuf_next :: "oc_framebuf \<Rightarrow> fb_status \<times> oc_framebuf" where
  "oc_framebuf_next fb =
     (let avail = length (fb_buf fb) - fb_pos fb
      in if avail < OC_HEADER_SIZE then (FB_MORE, fb)
         else
           let p = drop (fb_pos fb) (fb_buf fb);
               len = rd32 p
           in if unat len < OC_LENGTH_MIN then (FB_ERR OC_E_MALFORMED, fb)
              else
                let total = unat len + 4
                in if total > OC_MAX_FRAME_SIZE then (FB_ERR OC_E_TOO_LARGE, fb)
                   else if avail < total then (FB_MORE, fb)
                   else (FB_FRAME (take total p), fb\<lparr>fb_pos := fb_pos fb + total\<rparr>))"

lemma next_advances:
  "oc_framebuf_next fb = (FB_FRAME f, fb') \<Longrightarrow>
    length (fb_buf fb') - fb_pos fb' < length (fb_buf fb) - fb_pos fb"
  by (auto simp: oc_framebuf_next_def Let_def split: if_splits)

text \<open>
  The reading loop: take frames until the buffer yields none, and do so after each read.
  It ends early when the buffer refuses a read (\<open>OC_E_OVERFLOW\<close> here) or a frame.
\<close>

function fb_drain :: "oc_framebuf \<Rightarrow> u8 list list \<times> oc_result option \<times> oc_framebuf" where
  "fb_drain fb =
     (case oc_framebuf_next fb of
        (FB_MORE, fb') \<Rightarrow> ([], None, fb')
      | (FB_ERR e, fb') \<Rightarrow> ([], Some e, fb')
      | (FB_FRAME f, fb') \<Rightarrow> (let (fs, e, fb'') = fb_drain fb' in (f # fs, e, fb'')))"
  by pat_completeness auto
termination
  by (relation "measure (\<lambda>fb. length (fb_buf fb) - fb_pos fb)") (auto dest: next_advances [OF sym])

declare fb_drain.simps [simp del]

fun read_some :: "oc_framebuf \<Rightarrow> u8 list list \<Rightarrow> u8 list list \<times> oc_result option \<times> oc_framebuf" where
  "read_some fb [] = ([], None, fb)"
| "read_some fb (chunk # chunks) =
     (let (taken, fb) = oc_framebuf_push fb chunk
      in if \<not> taken then ([], Some OC_E_OVERFLOW, fb)
         else
           let (fs, e, fb) = fb_drain fb
           in if e \<noteq> None then (fs, e, fb)
              else let (fs', e', fb) = read_some fb chunks in (fs @ fs', e', fb))"

section \<open>The reference: cutting a whole stream\<close>

function split_frames :: "u8 list \<Rightarrow> u8 list list \<times> oc_result option \<times> u8 list" where
  "split_frames bs =
     (if length bs < OC_HEADER_SIZE then ([], None, bs)
      else if unat (rd32 bs) < OC_LENGTH_MIN then ([], Some OC_E_MALFORMED, bs)
      else if unat (rd32 bs) + 4 > OC_MAX_FRAME_SIZE then ([], Some OC_E_TOO_LARGE, bs)
      else if length bs < unat (rd32 bs) + 4 then ([], None, bs)
      else (let (fs, e, rest) = split_frames (drop (unat (rd32 bs) + 4) bs)
            in (take (unat (rd32 bs) + 4) bs # fs, e, rest)))"
  by pat_completeness auto
termination
  by (relation "measure length") auto

declare split_frames.simps [simp del]

section \<open>Reassembly agrees with the reference\<close>

definition fb_rest :: "oc_framebuf \<Rightarrow> u8 list" where
  "fb_rest fb = drop (fb_pos fb) (fb_buf fb)"

definition fb_ok :: "oc_framebuf \<Rightarrow> bool" where
  "fb_ok fb \<longleftrightarrow> fb_pos fb \<le> length (fb_buf fb) \<and> length (fb_buf fb) \<le> fb_cap fb \<and>
     fb_cap fb = OC_MAX_FRAME_SIZE + OC_READ_CHUNK"

lemma length_fb_rest [simp]: "length (fb_rest fb) = length (fb_buf fb) - fb_pos fb"
  by (simp add: fb_rest_def)

lemma init_ok: "fb_ok oc_framebuf_init" "fb_rest oc_framebuf_init = []"
  by (simp_all add: fb_ok_def oc_framebuf_init_def fb_rest_def)

lemma compact_rest [simp]: "fb_buf (compact fb) = fb_rest fb" "fb_pos (compact fb) = 0"
    "fb_cap (compact fb) = fb_cap fb"
  by (simp_all add: compact_def fb_rest_def)

lemma push_taken:
  assumes "fb_ok fb" and "length (fb_rest fb) + length data \<le> fb_cap fb"
  shows "\<exists>fb'. oc_framebuf_push fb data = (True, fb') \<and> fb_ok fb' \<and> fb_rest fb' = fb_rest fb @ data"
  using assms by (auto simp: oc_framebuf_push_def Let_def fb_ok_def fb_rest_def)

lemma next_ok: "fb_ok fb \<Longrightarrow> oc_framebuf_next fb = (st, fb') \<Longrightarrow> fb_ok fb'"
  by (auto simp: oc_framebuf_next_def fb_ok_def Let_def split: if_splits)

lemma drain_splits:
  "fb_ok fb \<Longrightarrow> fb_drain fb = (fs, e, fb') \<Longrightarrow>
    split_frames (fb_rest fb) = (fs, e, fb_rest fb') \<and> fb_ok fb'"
proof (induction fb arbitrary: fs e fb' rule: fb_drain.induct)
  case (1 fb)
  have more: "oc_framebuf_next fb = (FB_MORE, q) \<Longrightarrow>
      q = fb \<and> split_frames (fb_rest fb) = ([], None, fb_rest fb)" for q
    by (subst split_frames.simps)
      (auto simp: oc_framebuf_next_def Let_def fb_rest_def [symmetric] split: if_splits)
  have err: "oc_framebuf_next fb = (FB_ERR r, q) \<Longrightarrow>
      q = fb \<and> split_frames (fb_rest fb) = ([], Some r, fb_rest fb)" for q r
    by (subst split_frames.simps)
      (auto simp: oc_framebuf_next_def Let_def fb_rest_def [symmetric] split: if_splits)
  have frame: "oc_framebuf_next fb = (FB_FRAME f, q) \<Longrightarrow> split_frames (fb_rest fb) =
      (let (fs, e, rest) = split_frames (fb_rest q) in (f # fs, e, rest))" for q f
    by (subst (1) split_frames.simps)
      (auto simp: oc_framebuf_next_def Let_def fb_rest_def add.commute split: if_splits)
  obtain st q where st: "oc_framebuf_next fb = (st, q)" by fastforce
  have q: "fb_ok q" using next_ok "1.prems"(1) st by blast
  show ?case
  proof (cases st)
    case FB_MORE
    with st more "1.prems" show ?thesis by (auto simp: fb_drain.simps [of fb])
  next
    case (FB_ERR r)
    with st err "1.prems" show ?thesis by (auto simp: fb_drain.simps [of fb])
  next
    case (FB_FRAME f)
    obtain fs1 e1 q1 where d: "fb_drain q = (fs1, e1, q1)" by (metis prod.exhaust)
    from "1.prems"(2) st FB_FRAME d have "fs = f # fs1" "e = e1" "fb' = q1"
      by (auto simp: fb_drain.simps [of fb])
    with "1.IH" [OF st [symmetric] FB_FRAME q d] frame [of f q] st FB_FRAME show ?thesis by simp
  qed
qed

text \<open>Cutting a stream in pieces: what is left over after a piece goes before the next.\<close>

lemma rd32_append: "OC_HEADER_SIZE \<le> length bs \<Longrightarrow> rd32 (bs @ cs) = rd32 bs"
  by (induction bs rule: rd32.induct) auto

lemma split_append:
  "split_frames bs = (fs, None, rest) \<Longrightarrow>
    split_frames (bs @ cs) = (let (fs', e, rest') = split_frames (rest @ cs) in (fs @ fs', e, rest'))"
proof (induction bs arbitrary: fs rest rule: split_frames.induct)
  case (1 bs)
  let ?n = "unat (rd32 bs) + 4"
  show ?case
  proof (cases "length bs < OC_HEADER_SIZE \<or> unat (rd32 bs) < OC_LENGTH_MIN \<or>
      ?n > OC_MAX_FRAME_SIZE \<or> length bs < ?n")
    case True
    with "1.prems" have "fs = []" "rest = bs"
      by (auto simp: split_frames.simps [of bs] split: if_splits)
    then show ?thesis by (simp add: case_prod_beta)
  next
    case False
    obtain fs1 e1 rest1 where tl: "split_frames (drop ?n bs) = (fs1, e1, rest1)"
      by (metis prod.exhaust)
    with "1.prems" False have fs: "fs = take ?n bs # fs1" "e1 = None" "rest = rest1"
      by (auto simp: split_frames.simps [of bs])
    have "rd32 (bs @ cs) = rd32 bs" using False by (simp add: rd32_append)
    with False have "split_frames (bs @ cs) =
        (let (fs, e, rest) = split_frames (drop ?n bs @ cs) in (take ?n bs # fs, e, rest))"
      by (subst split_frames.simps) (simp add: not_less)
    also have "split_frames (drop ?n bs @ cs) =
        (let (fs', e, rest') = split_frames (rest1 @ cs) in (fs1 @ fs', e, rest'))"
      using "1.IH" [of fs1 rest1] False tl fs by simp
    finally show ?thesis by (simp add: fs case_prod_beta Let_def)
  qed
qed

lemma split_append_err:
  "split_frames bs = (fs, Some e, rest) \<Longrightarrow> split_frames (bs @ cs) = (fs, Some e, rest @ cs)"
proof (induction bs arbitrary: fs rest rule: split_frames.induct)
  case (1 bs)
  let ?n = "unat (rd32 bs) + 4"
  from "1.prems" have head: "\<not> length bs < OC_HEADER_SIZE"
    by (auto simp: split_frames.simps [of bs])
  then have rd: "rd32 (bs @ cs) = rd32 bs" by (simp add: rd32_append)
  show ?case
  proof (cases "unat (rd32 bs) < OC_LENGTH_MIN \<or> ?n > OC_MAX_FRAME_SIZE")
    case True
    with "1.prems" head rd show ?thesis
      by (auto simp: split_frames.simps [of bs] split_frames.simps [of "bs @ cs"])
  next
    case False
    with "1.prems" head have long: "\<not> length bs < ?n"
      by (auto simp: split_frames.simps [of bs] split: if_splits)
    obtain fs1 e1 rest1 where tl: "split_frames (drop ?n bs) = (fs1, e1, rest1)"
      by (metis prod.exhaust)
    with "1.prems" False head long have fs: "fs = take ?n bs # fs1" "e1 = Some e" "rest = rest1"
      by (auto simp: split_frames.simps [of bs])
    with "1.IH" [of fs1 rest1] False head long tl
    have "split_frames (drop ?n bs @ cs) = (fs1, Some e, rest1 @ cs)" by simp
    with False head long rd show ?thesis
      by (subst split_frames.simps) (simp add: fs not_less)
  qed
qed

lemma split_rest_short:
  "split_frames bs = (fs, None, rest) \<Longrightarrow> length rest < OC_MAX_FRAME_SIZE"
proof (induction bs arbitrary: fs rest rule: split_frames.induct)
  case (1 bs)
  show ?case
  proof (cases "length bs < OC_HEADER_SIZE \<or> unat (rd32 bs) < OC_LENGTH_MIN \<or>
      unat (rd32 bs) + 4 > OC_MAX_FRAME_SIZE \<or> length bs < unat (rd32 bs) + 4")
    case True
    with "1.prems" show ?thesis
      by (auto simp: split_frames.simps [of bs]
          split: if_splits)
  next
    case False
    with "1.prems" "1.IH" show ?thesis
      by (auto simp: split_frames.simps [of bs] split: prod.splits)
  qed
qed

lemma split_rest_idle: "split_frames bs = (fs, None, rest) \<Longrightarrow> split_frames rest = ([], None, rest)"
proof (induction bs arbitrary: fs rest rule: split_frames.induct)
  case (1 bs)
  show ?case
  proof (cases "length bs < OC_HEADER_SIZE \<or> unat (rd32 bs) < OC_LENGTH_MIN \<or>
      unat (rd32 bs) + 4 > OC_MAX_FRAME_SIZE \<or> length bs < unat (rd32 bs) + 4")
    case True
    with "1.prems" have "rest = bs" "fs = []"
      by (auto simp: split_frames.simps [of bs] split: if_splits)
    with "1.prems" show ?thesis by simp
  next
    case False
    with "1.prems" "1.IH" show ?thesis
      by (auto simp: split_frames.simps [of bs] split: prod.splits)
  qed
qed

lemma read_some_splits:
  "fb_ok fb \<Longrightarrow> list_all (\<lambda>c. length c \<le> OC_READ_CHUNK) chunks \<Longrightarrow>
    split_frames (fb_rest fb) = ([], None, fb_rest fb) \<Longrightarrow> read_some fb chunks = (fs, e, fb') \<Longrightarrow>
    \<exists>rest. split_frames (fb_rest fb @ concat chunks) = (fs, e, rest)"
proof (induction chunks arbitrary: fb fs)
  case Nil
  then show ?case by simp
next
  case (Cons c cs)
  from Cons.prems split_rest_short have "length (fb_rest fb) + length c \<le> fb_cap fb"
    by (fastforce simp: fb_ok_def)
  with push_taken [OF Cons.prems(1)] obtain q where
    q: "oc_framebuf_push fb c = (True, q)" "fb_ok q" "fb_rest q = fb_rest fb @ c" by blast
  obtain fs1 e1 q1 where d: "fb_drain q = (fs1, e1, q1)" by (metis prod.exhaust)
  from drain_splits [OF q(2) d] q have
    sp: "split_frames (fb_rest fb @ c) = (fs1, e1, fb_rest q1)" and q1: "fb_ok q1" by auto
  show ?case
  proof (cases e1)
    case (Some r)
    with Cons.prems(4) q d have "fs = fs1" "e = Some r" by auto
    with split_append_err [of "fb_rest fb @ c" fs1 r] sp Some show ?thesis by auto
  next
    case None
    obtain fs2 e2 q2 where r: "read_some q1 cs = (fs2, e2, q2)" by (metis prod.exhaust)
    with Cons.prems(4) q d None have fs: "fs = fs1 @ fs2" "e = e2" "fb' = q2" by auto
    have "split_frames (fb_rest q1) = ([], None, fb_rest q1)"
      using split_rest_idle sp None by blast
    with Cons.IH [OF q1 _ this r [unfolded fs(2) [symmetric] fs(3) [symmetric]]] Cons.prems(2)
    obtain rest where "split_frames (fb_rest q1 @ concat cs) = (fs2, e, rest)"
      by auto
    with split_append [OF sp [unfolded None], of "concat cs"] show ?thesis
      by (simp add: fs)
  qed
qed

lemma split_verdicts:
  "split_frames bs = (fs, Some e, rest) \<Longrightarrow> e = OC_E_MALFORMED \<or> e = OC_E_TOO_LARGE"
proof (induction bs arbitrary: fs rest rule: split_frames.induct)
  case (1 bs)
  show ?case
  proof (cases "length bs < OC_HEADER_SIZE \<or> unat (rd32 bs) < OC_LENGTH_MIN \<or>
      unat (rd32 bs) + 4 > OC_MAX_FRAME_SIZE \<or> length bs < unat (rd32 bs) + 4")
    case True
    with "1.prems" show ?thesis by (auto simp: split_frames.simps [of bs] split: if_splits)
  next
    case False
    with "1.prems" "1.IH" show ?thesis
      by (auto simp: split_frames.simps [of bs] split: prod.splits)
  qed
qed

lemma split_frames_parse:
  "split_frames bs = (fs, e, rest) \<Longrightarrow> f \<in> set fs \<Longrightarrow>
    \<exists>hdr p. oc_parse_frame f = Inr (hdr, p) \<and> length f = unat (hdr_length hdr) + 4"
proof (induction bs arbitrary: fs rest rule: split_frames.induct)
  case (1 bs)
  let ?n = "unat (rd32 bs) + 4"
  show ?case
  proof (cases "length bs < OC_HEADER_SIZE \<or> unat (rd32 bs) < OC_LENGTH_MIN \<or>
      ?n > OC_MAX_FRAME_SIZE \<or> length bs < ?n")
    case True
    with "1.prems" show ?thesis by (auto simp: split_frames.simps [of bs] split: if_splits)
  next
    case False
    obtain fs1 e1 rest1 where tl: "split_frames (drop ?n bs) = (fs1, e1, rest1)"
      by (metis prod.exhaust)
    with "1.prems"(1) False have fs: "fs = take ?n bs # fs1" "e = e1" "rest = rest1"
      by (auto simp: split_frames.simps [of bs])
    have "rd32 (take ?n bs @ drop ?n bs) = rd32 (take ?n bs)"
      by (rule rd32_append) (use False in \<open>simp\<close>)
    then have "oc_parse_frame (take ?n bs) =
        Inr (\<lparr>hdr_length = rd32 bs, hdr_version = rd16 (drop 4 (take ?n bs)),
              hdr_msg_type = rd16 (drop 6 (take ?n bs))\<rparr>,
             oc_rbuf_init (take (unat (rd32 bs) - 4) (drop OC_HEADER_SIZE (take ?n bs))))"
      using False
      by (simp add: oc_parse_frame_def Let_def not_less)
    then have "\<exists>hdr p. oc_parse_frame (take ?n bs) = Inr (hdr, p) \<and>
        length (take ?n bs) = unat (hdr_length hdr) + 4"
      using False by auto
    with "1.IH" [of fs1 rest1] False tl "1.prems"(2) fs show ?thesis by auto
  qed
qed

text \<open>
  C15: reassembly does not depend on how the stream was cut: reading any chunks of at most
  \<^verbatim>\<open>OC_READ_CHUNK\<close> bytes, draining after each, yields exactly the frames of the whole stream and
  the same verdict; the buffer never refuses a chunk, and every frame it yields parses with
  a length field that says its own size.
\<close>

theorem framebuf_reassembles:
  assumes "list_all (\<lambda>c. length c \<le> OC_READ_CHUNK) chunks"
    and "read_some oc_framebuf_init chunks = (fs, e, fb)"
  shows "(\<exists>rest. split_frames (concat chunks) = (fs, e, rest)) \<and> e \<noteq> Some OC_E_OVERFLOW \<and>
    list_all (\<lambda>f. \<exists>hdr p. oc_parse_frame f = Inr (hdr, p) \<and> length f = unat (hdr_length hdr) + 4) fs"
proof -
  have "split_frames [] = ([], None, [])"
    by (simp add: split_frames.simps)
  then obtain rest where "split_frames (concat chunks) = (fs, e, rest)"
    using read_some_splits [OF init_ok(1) assms(1) _ assms(2)] init_ok(2) by auto
  with split_verdicts split_frames_parse show ?thesis by (fastforce simp: list_all_iff)
qed

theorem framebuf_reassembles_witness:
  "fst (read_some oc_framebuf_init [[0, 0, 0], [4, 0, 1, 0, 9, 0]]) = [[0, 0, 0, 4, 0, 1, 0, 9]] \<and>
    list_all (\<lambda>f. \<exists>hdr p. oc_parse_frame f = Inr (hdr, p) \<and> length f = unat (hdr_length hdr) + 4)
      [[0, 0, 0, 4, 0, 1, 0, 9]]"
proof -
  have run: "read_some oc_framebuf_init [[0, 0, 0], [4, 0, 1, 0, 9, 0]] =
    ([[0, 0, 0, 4, 0, 1, 0, 9]], None, \<lparr>fb_buf = [0, 0, 0, 4, 0, 1, 0, 9, 0], fb_cap = 82944, fb_pos = 8\<rparr>)"
    by (simp add: oc_framebuf_init_def oc_framebuf_push_def compact_def oc_framebuf_next_def
        fb_drain.simps)
  show ?thesis
    using framebuf_reassembles [OF _ run] run by simp
qed

definition frame_fits :: "u16 \<times> u16 \<times> u8 list \<Rightarrow> bool" where
  "frame_fits = (\<lambda>(v, t, payload). OC_HEADER_SIZE + length payload \<le> OC_MAX_FRAME_SIZE)"

definition sent_frame :: "u16 \<times> u16 \<times> u8 list \<Rightarrow> u8 list" where
  "sent_frame = (\<lambda>(v, t, payload). frame_bytes v t payload)"

lemma split_sent_frame:
  assumes "frame_fits m"
  shows "split_frames (sent_frame m @ bs) = (let (fs, e, rest) = split_frames bs in (sent_frame m # fs, e, rest))"
proof -
  obtain v t payload where m: "m = (v, t, payload)" by (metis prod.exhaust)
  let ?f = "frame_bytes v t payload"
  have n: "unat (of_nat (4 + length payload) :: u32) = 4 + length payload"
    using assms by (intro unat_of_nat32) (simp add: m frame_fits_def)
  have rd: "rd32 (?f @ bs) = of_nat (4 + length payload)"
    by (simp only: frame_bytes_def append_assoc rd32_be32)
  have "take (8 + length payload) (?f @ bs) = ?f" "drop (8 + length payload) (?f @ bs) = bs"
    by simp_all
  then show ?thesis
    using assms n
    by (subst split_frames.simps)
      (simp add: m sent_frame_def frame_fits_def rd)
qed

lemma split_sent_frames:
  "list_all frame_fits ms \<Longrightarrow> split_frames (concat (map sent_frame ms)) = (map sent_frame ms, None, [])"
proof (induction ms)
  case Nil
  show ?case by (simp add: split_frames.simps)
next
  case (Cons m ms)
  then show ?case by (simp add: split_sent_frame)
qed

lemma reads_sent:
  assumes "list_all frame_fits ms" and "list_all (\<lambda>c. length c \<le> OC_READ_CHUNK) chunks"
    and "concat chunks = concat (map sent_frame ms)"
  shows "\<exists>fb. read_some oc_framebuf_init chunks = (map sent_frame ms, None, fb)"
proof -
  obtain fs e fb where r: "read_some oc_framebuf_init chunks = (fs, e, fb)" by (metis prod.exhaust)
  have "split_frames [] = ([], None, [])"
    by (simp add: split_frames.simps)
  then obtain rest where "split_frames (concat chunks) = (fs, e, rest)"
    using read_some_splits [OF init_ok(1) assms(2) _ r] init_ok(2) by auto
  with split_sent_frames [OF assms(1)] assms(3) r show ?thesis by auto
qed

text \<open>
  C16: whatever frames a sender encodes, and however the network cuts the bytes into reads,
  the receiver gets back exactly those frames, in order, and no error.
\<close>

theorem sent_frames_arrive:
  assumes "list_all frame_fits ms" and "list_all (\<lambda>c. length c \<le> OC_READ_CHUNK) chunks"
    and "concat chunks = concat (map sent_frame ms)"
  shows "\<exists>fb. read_some oc_framebuf_init chunks = (map sent_frame ms, None, fb)"
  by (rule reads_sent [OF assms])

theorem sent_frames_arrive_witness:
  "\<exists>fb. read_some oc_framebuf_init [[0, 0], [0, 5, 0, 1, 0, 32, 7, 0, 0, 0], [4, 0, 1, 0, 9]] =
    ([[0, 0, 0, 5, 0, 1, 0, 32, 7], [0, 0, 0, 4, 0, 1, 0, 9]], None, fb)"
proof -
  have frames: "map sent_frame [(1, 32, [7]), (1, 9, [])] =
      [[0, 0, 0, 5, 0, 1, 0, 32, 7], [0, 0, 0, 4, 0, 1, 0, 9]]"
    by code_simp
  show ?thesis
    using sent_frames_arrive [of "[(1, 32, [7]), (1, 9, [])]"
        "[[0, 0], [0, 5, 0, 1, 0, 32, 7, 0, 0, 0], [4, 0, 1, 0, 9]]"]
    unfolding frames
    by (simp add: frame_fits_def)
qed

end
