(* ===== verification/Websocket.thy ===== *)
theory Websocket
  imports Framebuf
begin

text \<open>
  The WebSocket side of the daemon's I/O threads: the frame header parser \<^verbatim>\<open>oc_ws_parse\<close> of
  \<^verbatim>\<open>daemon/http.c\<close>, and \<^verbatim>\<open>ws_bytes\<close> of \<^verbatim>\<open>daemon/ioloop.c\<close>, which gathers WebSocket frames, unmasks
  them and hands the payload of the binary ones to the frame reassembler. A browser's side
  is \<open>ws_client_frame\<close>, the masked frame of RFC 6455; the theorems say that the parser reads it
  back from any stream it starts, and that a stream of protocol frames comes out of
  \<^verbatim>\<open>ws_bytes\<close> however the browser cut it into payloads that fit one read.

  Allocation failures and a full event queue end the connection in C and are not modelled.
\<close>

section \<open>The parser\<close>

record oc_ws_frame =
  ws_opcode :: u8
  ws_fin :: bool
  ws_mask_off :: nat
  ws_payload_off :: nat
  ws_len :: nat
  ws_whole :: nat

datatype ws_status = OC_WS_REFUSE | OC_WS_MORE | OC_WS_FRAME oc_ws_frame

definition oc_ws_parse :: "u8 list \<Rightarrow> nat \<Rightarrow> ws_status" where
  "oc_ws_parse buf max_len =
     (if length buf < 2 then OC_WS_MORE
      else
        let b0 = buf ! 0; b1 = buf ! 1
        in if b0 AND 0x70 \<noteq> 0 then OC_WS_REFUSE
           else if b1 AND 0x80 = 0 then OC_WS_REFUSE
           else
             let short = unat (b1 AND 0x7f)
             in if short = 126 \<and> length buf < 4 \<or> short = 127 \<and> length buf < 10 then OC_WS_MORE
                else
                  let len = (if short = 126 then unat (rd16 (drop 2 buf))
                             else if short = 127 then unat (rd64 (drop 2 buf)) else short);
                      hdr = (if short = 126 then 4 else if short = 127 then 10 else 2);
                      whole = hdr + 4 + len
                  in if len > max_len then OC_WS_REFUSE
                     else if length buf < whole then OC_WS_MORE
                     else OC_WS_FRAME
                       \<lparr>ws_opcode = b0 AND 0x0f, ws_fin = (b0 AND 0x80 \<noteq> 0), ws_mask_off = hdr,
                        ws_payload_off = hdr + 4, ws_len = len, ws_whole = whole\<rparr>)"

text \<open>\<^verbatim>\<open>payload[i] ^= mask[i & 3]\<close>, over the whole payload.\<close>

definition ws_unmask :: "u8 list \<Rightarrow> u8 list \<Rightarrow> u8 list" where
  "ws_unmask key payload = map (\<lambda>i. payload ! i XOR key ! (i mod 4)) [0..<length payload]"

section \<open>The connection\<close>

abbreviation IO_WS_MAX_FRAME :: nat where "IO_WS_MAX_FRAME \<equiv> OC_MAX_FRAME_SIZE + 64"

record io_conn =
  c_win :: "u8 list"
  c_wcap :: nat
  c_fb :: oc_framebuf
  c_posted :: "u8 list list"
  c_pongs :: "u8 list list"
  c_finished :: bool

function grow :: "nat \<Rightarrow> nat \<Rightarrow> nat" where
  "grow nc need = (if nc = 0 \<or> need \<le> nc then nc else grow (nc * 2) need)"
  by pat_completeness auto
termination by (relation "measure (\<lambda>(nc, need). need - nc)") auto

declare grow.simps [simp del]

text \<open>One WebSocket frame from the front of the gathered bytes, as the loop's body takes it.\<close>

definition ws_take :: "io_conn \<Rightarrow> oc_ws_frame \<Rightarrow> io_conn" where
  "ws_take c wsf =
     (let op = ws_opcode wsf;
          key = take 4 (drop (ws_mask_off wsf) (c_win c));
          payload = ws_unmask key (take (ws_len wsf) (drop (ws_payload_off wsf) (c_win c)));
          rest = drop (ws_whole wsf) (c_win c)
      in if op = 2 \<or> op = 0 then
           let (taken, fb) = (if ws_len wsf > 0 then oc_framebuf_push (c_fb c) payload
                              else (True, c_fb c))
           in if \<not> taken then c\<lparr>c_fb := fb, c_finished := True\<rparr>
              else
                let (fs, e, fb) = fb_drain fb;
                    c = c\<lparr>c_fb := fb, c_posted := c_posted c @ fs\<rparr>
                in if e \<noteq> None then c\<lparr>c_finished := True\<rparr> else c\<lparr>c_win := rest\<rparr>
         else if op = 9 then c\<lparr>c_pongs := c_pongs c @ [payload], c_win := rest\<rparr>
         else if op = 10 then c\<lparr>c_win := rest\<rparr>
         else c\<lparr>c_finished := True\<rparr>)"

lemma ws_take_shrinks:
  "\<not> c_finished c \<Longrightarrow> \<not> c_finished (ws_take c wsf) \<Longrightarrow> c_win (ws_take c wsf) = drop (ws_whole wsf) (c_win c)"
  by (auto simp: ws_take_def Let_def split: if_splits prod.splits)

lemma ws_whole_pos: "oc_ws_parse buf n = OC_WS_FRAME wsf \<Longrightarrow> 6 \<le> ws_whole wsf \<and> ws_whole wsf \<le> length buf"
  by (auto simp: oc_ws_parse_def Let_def split: if_splits)

function ws_loop :: "io_conn \<Rightarrow> io_conn" where
  "ws_loop c =
     (case oc_ws_parse (c_win c) IO_WS_MAX_FRAME of
        OC_WS_MORE \<Rightarrow> c
      | OC_WS_REFUSE \<Rightarrow> c\<lparr>c_finished := True\<rparr>
      | OC_WS_FRAME wsf \<Rightarrow>
          let c' = ws_take c wsf
          in if c_finished c \<or> c_finished c' then c' else ws_loop c')"
  by pat_completeness auto
termination
proof (relation "measure (\<lambda>c. length (c_win c))")
  fix c wsf c'
  assume "oc_ws_parse (c_win c) IO_WS_MAX_FRAME = OC_WS_FRAME wsf" "c' = ws_take c wsf"
    "\<not> (c_finished c \<or> c_finished c')"
  then show "(c', c) \<in> measure (\<lambda>c. length (c_win c))"
    using ws_take_shrinks [of c wsf] ws_whole_pos [of "c_win c" IO_WS_MAX_FRAME wsf] by auto
qed simp

declare ws_loop.simps [simp del]

definition ws_bytes :: "io_conn \<Rightarrow> u8 list \<Rightarrow> io_conn" where
  "ws_bytes c chunk =
     (let need = length (c_win c) + length chunk
      in if need > c_wcap c then
           let nc = grow (if c_wcap c \<noteq> 0 then c_wcap c else 4096) need
           in if nc > IO_WS_MAX_FRAME * 2 then c\<lparr>c_finished := True\<rparr>
              else ws_loop (c\<lparr>c_wcap := nc, c_win := c_win c @ chunk\<rparr>)
         else ws_loop (c\<lparr>c_win := c_win c @ chunk\<rparr>))"

section \<open>What a browser sends\<close>

definition ws_length_bytes :: "nat \<Rightarrow> u8 list" where
  "ws_length_bytes n =
     (if n < 126 then [0x80 OR of_nat n]
      else if n \<le> 0xFFFF then (0x80 OR 126) # be16 (of_nat n)
      else (0x80 OR 127) # be64 (of_nat n))"

definition ws_masked :: "u8 list \<Rightarrow> u8 list \<Rightarrow> u8 list" where
  "ws_masked key payload = map (\<lambda>(i, b). b XOR key ! (i mod 4)) (enumerate 0 payload)"

definition ws_client_frame :: "bool \<Rightarrow> u8 \<Rightarrow> u8 list \<Rightarrow> u8 list \<Rightarrow> u8 list" where
  "ws_client_frame fin op key payload =
     [(if fin then 0x80 else 0) OR op] @ ws_length_bytes (length payload) @ key @ ws_masked key payload"

section \<open>The parser reads what a browser sends\<close>

lemma length_ws_masked [simp]: "length (ws_masked key payload) = length payload"
  by (simp add: ws_masked_def)

lemma length_ws_unmask [simp]: "length (ws_unmask key payload) = length payload"
  by (simp add: ws_unmask_def)

lemma ws_unmask_masked [simp]: "ws_unmask key (ws_masked key payload) = payload"
  by (rule nth_equalityI) (simp_all add: ws_unmask_def ws_masked_def nth_enumerate_eq ac_simps)

definition ws_hdr :: "nat \<Rightarrow> nat" where
  "ws_hdr n = (if n < 126 then 2 else if n \<le> 0xFFFF then 4 else 10)"

definition ws_client_header :: "bool \<Rightarrow> u8 \<Rightarrow> nat \<Rightarrow> oc_ws_frame" where
  "ws_client_header fin op n =
     \<lparr>ws_opcode = op, ws_fin = fin, ws_mask_off = ws_hdr n, ws_payload_off = ws_hdr n + 4, ws_len = n,
      ws_whole = ws_hdr n + 4 + n\<rparr>"

lemma opcode_bits:
  fixes op :: u8
  assumes "op AND 0x0f = op"
  shows "((if fin then 0x80 else 0) OR op) AND 0x70 = 0"
    and "((if fin then 0x80 else 0) OR op) AND 0x0f = op"
    and "((if fin then 0x80 else 0) OR op) AND 0x80 \<noteq> 0 \<longleftrightarrow> fin"
proof -
  have "op AND 0x70 = op AND (0x0f AND 0x70)" "op AND 0x80 = op AND (0x0f AND 0x80)"
    using assms by (metis and.assoc)+
  then show "((if fin then 0x80 else 0) OR op) AND 0x70 = 0"
    and "((if fin then 0x80 else 0) OR op) AND 0x0f = op"
    and "((if fin then 0x80 else 0) OR op) AND 0x80 \<noteq> 0 \<longleftrightarrow> fin"
    using assms by (auto simp: bit.conj_disj_distrib2)
qed

lemma low_seven_bits: "(x :: u8) AND 0x7f = take_bit 7 x"
  by (simp add: take_bit_eq_mask mask_eq_exp_minus_1)

lemma short_length_bits:
  assumes "n < 128"
  shows "((0x80 :: u8) OR of_nat n) AND 0x80 \<noteq> 0" and "unat (((0x80 :: u8) OR of_nat n) AND 0x7f) = n"
proof -
  have "((0x80 :: u8) OR of_nat n) AND 0x80 = 0x80" by (simp add: bit.conj_disj_distrib2)
  then show "((0x80 :: u8) OR of_nat n) AND 0x80 \<noteq> 0" by simp
  have "unat (take_bit 7 (of_nat n :: u8)) = n"
    using assms by (simp add: unsigned_take_bit_eq unsigned_of_nat take_bit_nat_eq_self)
  then show "unat (((0x80 :: u8) OR of_nat n) AND 0x7f) = n"
    by (simp add: bit.conj_disj_distrib2 low_seven_bits)
qed

lemma unat_of_nat64 [simp]: "n < 2 ^ 64 \<Longrightarrow> unat (of_nat n :: u64) = n"
  by (simp add: unsigned_of_nat take_bit_nat_eq_self)

lemma ws_parse_client:
  assumes "op AND 0x0f = op" and "length key = 4" and "length payload \<le> max_len" and "max_len < 2 ^ 64"
  shows "oc_ws_parse (ws_client_frame fin op key payload @ rest) max_len =
    OC_WS_FRAME (ws_client_header fin op (length payload))"
proof -
  let ?n = "length payload"
  let ?b0 = "(if fin then 0x80 else 0) OR op"
  consider "?n < 126" | "126 \<le> ?n" "?n \<le> 0xFFFF" | "0xFFFF < ?n" by linarith
  then show ?thesis
  proof cases
    case 1
    then have "ws_client_frame fin op key payload @ rest =
        ?b0 # (0x80 OR of_nat ?n) # key @ ws_masked key payload @ rest"
      by (simp add: ws_client_frame_def ws_length_bytes_def)
    with 1 assms short_length_bits [of ?n] opcode_bits [OF assms(1), of fin] show ?thesis
      by (simp add: oc_ws_parse_def ws_client_header_def ws_hdr_def Let_def)
  next
    case 2
    then have "ws_client_frame fin op key payload @ rest =
        ?b0 # (0x80 OR of_nat 126) # be16 (of_nat ?n) @ key @ ws_masked key payload @ rest"
      by (simp add: ws_client_frame_def ws_length_bytes_def)
    with 2 assms short_length_bits [of 126] opcode_bits [OF assms(1), of fin] show ?thesis
      by (simp add: oc_ws_parse_def ws_client_header_def ws_hdr_def Let_def)
  next
    case 3
    then have "ws_client_frame fin op key payload @ rest =
        ?b0 # (0x80 OR of_nat 127) # be64 (of_nat ?n) @ key @ ws_masked key payload @ rest"
      by (simp add: ws_client_frame_def ws_length_bytes_def)
    with 3 assms short_length_bits [of 127] opcode_bits [OF assms(1), of fin] show ?thesis
      by (simp add: oc_ws_parse_def ws_client_header_def ws_hdr_def Let_def)
  qed
qed

lemma length_ws_client_frame:
  "length key = 4 \<Longrightarrow>
    length (ws_client_frame fin op key payload) = ws_hdr (length payload) + 4 + length payload"
  by (simp add: ws_client_frame_def ws_length_bytes_def ws_hdr_def)

lemma ws_client_parts:
  assumes "length key = 4"
  shows "take 4 (drop (ws_hdr (length payload)) (ws_client_frame fin op key payload @ rest)) = key"
    and "take (length payload) (drop (ws_hdr (length payload) + 4) (ws_client_frame fin op key payload @ rest))
      = ws_masked key payload"
    and "drop (ws_hdr (length payload) + 4 + length payload) (ws_client_frame fin op key payload @ rest) = rest"
  subgoal using assms by (auto simp: ws_client_frame_def ws_length_bytes_def ws_hdr_def)
  subgoal using assms by (auto simp: ws_client_frame_def ws_length_bytes_def ws_hdr_def)
  subgoal using assms by (simp add: length_ws_client_frame)
  done

text \<open>
  C35: \<^verbatim>\<open>oc_ws_parse\<close> reads the header of any masked client frame at the front of a stream: the
  opcode and FIN flag it was sent with, and offsets at which the mask and the masked payload
  lie, so that unmasking gives the payload that was sent and the rest of the stream follows.
\<close>

theorem ws_parse_roundtrip:
  assumes "op AND 0x0f = op" and "length key = 4" and "length payload \<le> max_len" and "max_len < 2 ^ 64"
  shows "\<exists>wsf. oc_ws_parse (ws_client_frame fin op key payload @ rest) max_len = OC_WS_FRAME wsf \<and>
    ws_opcode wsf = op \<and> ws_fin wsf = fin \<and>
    ws_unmask (take 4 (drop (ws_mask_off wsf) (ws_client_frame fin op key payload @ rest)))
      (take (ws_len wsf) (drop (ws_payload_off wsf) (ws_client_frame fin op key payload @ rest))) = payload \<and>
    drop (ws_whole wsf) (ws_client_frame fin op key payload @ rest) = rest"
  using assms
  by (simp add: ws_parse_client ws_client_header_def ws_client_parts del: take_append drop_append)

theorem ws_parse_roundtrip_witness:
  "\<exists>wsf. oc_ws_parse (ws_client_frame True 2 [1, 2, 3, 4] [10, 20, 30, 40, 50] @ [7]) 1000 = OC_WS_FRAME wsf \<and>
    ws_opcode wsf = 2 \<and> drop (ws_whole wsf) (ws_client_frame True 2 [1, 2, 3, 4] [10, 20, 30, 40, 50] @ [7]) = [7]"
  using ws_parse_roundtrip [of 2 "[1, 2, 3, 4]" "[10, 20, 30, 40, 50]" 1000 True "[7]"]
  by auto

lemma ws_parse_prefix:
  assumes "op AND 0x0f = op" and "length key = 4" and "length payload \<le> max_len" and "max_len < 2 ^ 64"
    and "k < length (ws_client_frame fin op key payload)"
  shows "oc_ws_parse (take k (ws_client_frame fin op key payload)) max_len = OC_WS_MORE"
proof -
  let ?n = "length payload"
  let ?b0 = "(if fin then 0x80 else 0) OR op"
  show ?thesis
  proof (cases "k < 2")
    case True
    then have "length (take k (ws_client_frame fin op key payload)) < 2" by simp
    then show ?thesis by (simp only: oc_ws_parse_def if_True)
  next
    case False
    then obtain i where k: "k = Suc (Suc i)" by (metis One_nat_def less_2_cases_iff not0_implies_Suc)
    consider "?n < 126" | "126 \<le> ?n" "?n \<le> 0xFFFF" | "0xFFFF < ?n" by linarith
    then show ?thesis
    proof cases
      case 1
      then have "ws_client_frame fin op key payload =
          ?b0 # (0x80 OR of_nat ?n) # key @ ws_masked key payload"
        by (simp add: ws_client_frame_def ws_length_bytes_def)
      with 1 k assms short_length_bits [of ?n] opcode_bits [OF assms(1), of fin] show ?thesis
        by (simp add: oc_ws_parse_def Let_def)
    next
      case 2
      then have f: "ws_client_frame fin op key payload =
          ?b0 # (0x80 OR of_nat 126) # be16 (of_nat ?n) @ key @ ws_masked key payload"
        by (simp add: ws_client_frame_def ws_length_bytes_def)
      have "2 \<le> i \<Longrightarrow> take i (be16 (of_nat ?n) @ key @ ws_masked key payload) =
          be16 (of_nat ?n) @ take (i - 2) (key @ ws_masked key payload)" by simp
      with f 2 k assms short_length_bits [of 126] opcode_bits [OF assms(1), of fin] show ?thesis
        by (cases "2 \<le> i") (simp_all add: oc_ws_parse_def Let_def)
    next
      case 3
      then have f: "ws_client_frame fin op key payload =
          ?b0 # (0x80 OR of_nat 127) # be64 (of_nat ?n) @ key @ ws_masked key payload"
        by (simp add: ws_client_frame_def ws_length_bytes_def)
      have "8 \<le> i \<Longrightarrow> take i (be64 (of_nat ?n) @ key @ ws_masked key payload) =
          be64 (of_nat ?n) @ take (i - 8) (key @ ws_masked key payload)" by simp
      with f 3 k assms short_length_bits [of 127] opcode_bits [OF assms(1), of fin] show ?thesis
        by (cases "8 \<le> i") (simp_all add: oc_ws_parse_def Let_def)
    qed
  qed
qed

section \<open>A stream of frames over WebSocket\<close>

text \<open>A data frame whose payload fits one read.\<close>

definition ws_data :: "bool \<times> u8 \<times> u8 list \<times> u8 list \<Rightarrow> bool" where
  "ws_data = (\<lambda>(fin, op, key, payload).
     (op = 2 \<or> op = 0) \<and> length key = 4 \<and> length payload \<le> OC_READ_CHUNK)"

definition ws_sent :: "bool \<times> u8 \<times> u8 list \<times> u8 list \<Rightarrow> u8 list" where
  "ws_sent = (\<lambda>(fin, op, key, payload). ws_client_frame fin op key payload)"

definition ws_payload :: "bool \<times> u8 \<times> u8 list \<times> u8 list \<Rightarrow> u8 list" where
  "ws_payload = (\<lambda>(fin, op, key, payload). payload)"

text \<open>The connection's reassembler has seen the payload bytes \<open>P\<close>, and posted their frames.\<close>

definition ws_at :: "io_conn \<Rightarrow> u8 list \<Rightarrow> bool" where
  "ws_at c P \<longleftrightarrow> \<not> c_finished c \<and> fb_ok (c_fb c) \<and>
     split_frames P = (c_posted c, None, fb_rest (c_fb c))"

lemma ws_take_data:
  assumes m: "ws_data m" and at: "ws_at c P" and win: "c_win c = ws_sent m @ rest"
    and legal: "split_frames (P @ ws_payload m @ Q) = (fs, None, r)"
    and wsf: "wsf = ws_client_header (fst m) (fst (snd m)) (length (ws_payload m))"
  shows "ws_at (ws_take c wsf) (P @ ws_payload m) \<and> c_win (ws_take c wsf) = rest \<and>
    c_wcap (ws_take c wsf) = c_wcap c"
proof -
  obtain fin op key payload where m': "m = (fin, op, key, payload)" by (metis prod.exhaust)
  have k: "length key = 4" and op: "op = 2 \<or> op = 0" and len: "length payload \<le> OC_READ_CHUNK"
    using m by (auto simp: m' ws_data_def)
  have short: "length (fb_rest (c_fb c)) < OC_MAX_FRAME_SIZE"
    using at unfolding ws_at_def by (blast intro: split_rest_short)
  have "length (fb_rest (c_fb c)) + length payload \<le> fb_cap (c_fb c)"
    using short len at unfolding ws_at_def fb_ok_def by linarith
  moreover have okc: "fb_ok (c_fb c)" using at by (simp add: ws_at_def)
  ultimately obtain fbp where "oc_framebuf_push (c_fb c) payload = (True, fbp)" "fb_ok fbp"
    "fb_rest fbp = fb_rest (c_fb c) @ payload" using push_taken by blast
  with okc obtain fb1 where fb1: "(if payload \<noteq> [] then oc_framebuf_push (c_fb c) payload else (True, c_fb c))
      = (True, fb1)" "fb_ok fb1" "fb_rest fb1 = fb_rest (c_fb c) @ payload"
    by (cases "payload = []") auto
  obtain fs1 e1 fb2 where d: "fb_drain fb1 = (fs1, e1, fb2)" by (metis prod.exhaust)
  from drain_splits [OF fb1(2) d] have sp: "split_frames (fb_rest (c_fb c) @ payload) = (fs1, e1, fb_rest fb2)"
    and ok2: "fb_ok fb2" by (auto simp: fb1(3))
  have P: "split_frames (P @ payload) = (c_posted c @ fs1, e1, fb_rest fb2)"
    using split_append [of P "c_posted c" "fb_rest (c_fb c)" payload] at sp by (simp add: ws_at_def)
  have e1: "e1 = None"
  proof (cases e1)
    case (Some e)
    with split_append_err [OF P [unfolded Some], of Q] legal show ?thesis
      by (simp add: m' ws_payload_def)
  qed simp
  have parts: "take 4 (drop (ws_mask_off wsf) (c_win c)) = key"
    "take (length payload) (drop (ws_payload_off wsf) (c_win c)) = ws_masked key payload"
    "drop (ws_whole wsf) (c_win c) = rest" "ws_opcode wsf = op" "ws_len wsf = length payload"
    using ws_client_parts [OF k, of payload fin op rest]
    by (simp_all add: wsf win m' ws_sent_def ws_payload_def ws_client_header_def
        del: take_append drop_append)
  have "ws_take c wsf = c\<lparr>c_fb := fb2, c_posted := c_posted c @ fs1, c_win := rest\<rparr>"
    using op fb1(1) d e1 by (auto simp: ws_take_def Let_def parts split: if_splits)
  with P e1 ok2 at show ?thesis by (simp add: ws_at_def m' ws_payload_def)
qed

lemma ws_loop_stream:
  "list_all ws_data ms \<Longrightarrow> ws_at c P \<Longrightarrow> c_win c @ future = concat (map ws_sent ms) \<Longrightarrow>
    split_frames (P @ concat (map ws_payload ms)) = (fs, None, r) \<Longrightarrow>
    \<exists>done todo. ms = done @ todo \<and> ws_at (ws_loop c) (P @ concat (map ws_payload done)) \<and>
      c_win (ws_loop c) @ future = concat (map ws_sent todo) \<and> c_wcap (ws_loop c) = c_wcap c \<and>
      length (c_win (ws_loop c)) < OC_READ_CHUNK + 14 \<and>
      (todo \<noteq> [] \<longrightarrow> length (c_win (ws_loop c)) < length (ws_sent (hd todo)))"
proof (induction ms arbitrary: c P)
  case Nil
  then have "c_win c = []" by simp
  then have "ws_loop c = c" by (simp add: ws_loop.simps oc_ws_parse_def)
  with Nil \<open>c_win c = []\<close> show ?case by auto
next
  case (Cons m ms)
  obtain fin op key payload where m: "m = (fin, op, key, payload)" by (metis prod.exhaust)
  have k: "length key = 4" and op: "op AND 0x0f = op" and len: "length payload \<le> OC_READ_CHUNK"
    using Cons.prems(1) by (auto simp: m ws_data_def)
  have max: "length payload \<le> IO_WS_MAX_FRAME" "IO_WS_MAX_FRAME < 2 ^ 64"
    using len by simp_all
  have short: "length (ws_sent m) \<le> OC_READ_CHUNK + 14"
    using k len by (simp add: m ws_sent_def length_ws_client_frame ws_hdr_def)
  show ?case
  proof (cases "length (c_win c) < length (ws_sent m)")
    case True
    from Cons.prems(3) have "c_win c = take (length (c_win c)) (ws_sent m @ concat (map ws_sent ms))"
      by (metis append_eq_conv_conj concat.simps(2) list.simps(9))
    then have "c_win c = take (length (c_win c)) (ws_sent m)" using True by simp
    then have "oc_ws_parse (c_win c) IO_WS_MAX_FRAME = OC_WS_MORE"
      using ws_parse_prefix [OF op k max, of "length (c_win c)" fin] True by (simp add: m ws_sent_def)
    then have "ws_loop c = c" by (simp add: ws_loop.simps)
    with Cons.prems True short show ?thesis by (intro exI [of _ "[]"] exI [of _ "m # ms"]) auto
  next
    case False
    define rest where "rest = drop (length (ws_sent m)) (c_win c)"
    from Cons.prems(3) have "take (length (ws_sent m)) (c_win c @ future) = ws_sent m"
      "drop (length (ws_sent m)) (c_win c @ future) = concat (map ws_sent ms)"
      by simp_all
    with False have win: "c_win c = ws_sent m @ rest" and rest: "rest @ future = concat (map ws_sent ms)"
      unfolding rest_def by (simp_all, metis append_take_drop_id)
    let ?h = "ws_client_header fin op (length payload)"
    have parse: "oc_ws_parse (c_win c) IO_WS_MAX_FRAME = OC_WS_FRAME ?h"
      using ws_parse_client [OF op k max, of fin rest] by (simp add: win m ws_sent_def)
    have at: "ws_at (ws_take c ?h) (P @ payload)" and win': "c_win (ws_take c ?h) = rest"
      and cap: "c_wcap (ws_take c ?h) = c_wcap c"
      using ws_take_data [OF _ Cons.prems(2) win, of "concat (map ws_payload ms)" fs r ?h] Cons.prems
      by (auto simp: m ws_payload_def)
    then have step: "ws_loop c = ws_loop (ws_take c ?h)"
      using parse Cons.prems(2) by (subst ws_loop.simps) (auto simp: ws_at_def Let_def)
    have "\<exists>done todo. ms = done @ todo \<and>
        ws_at (ws_loop (ws_take c ?h)) ((P @ payload) @ concat (map ws_payload done)) \<and>
        c_win (ws_loop (ws_take c ?h)) @ future = concat (map ws_sent todo) \<and>
        c_wcap (ws_loop (ws_take c ?h)) = c_wcap (ws_take c ?h) \<and>
        length (c_win (ws_loop (ws_take c ?h))) < OC_READ_CHUNK + 14 \<and>
        (todo \<noteq> [] \<longrightarrow> length (c_win (ws_loop (ws_take c ?h))) < length (ws_sent (hd todo)))"
      by (rule Cons.IH [OF _ at]) (use Cons.prems rest win' in \<open>simp_all add: m ws_payload_def\<close>)
    then obtain d t where "ms = d @ t"
      "ws_at (ws_loop c) (P @ payload @ concat (map ws_payload d))"
      "c_win (ws_loop c) @ future = concat (map ws_sent t)" "c_wcap (ws_loop c) = c_wcap c"
      "length (c_win (ws_loop c)) < OC_READ_CHUNK + 14"
      "t \<noteq> [] \<longrightarrow> length (c_win (ws_loop c)) < length (ws_sent (hd t))"
      using step cap by auto
    then show ?thesis by (intro exI [of _ "m # d"] exI [of _ t]) (simp add: m ws_payload_def)
  qed
qed

lemma grow_bound: "0 < nc \<Longrightarrow> grow nc need \<le> max nc (2 * need)"
proof (induction nc need rule: grow.induct)
  case (1 nc need)
  show ?case
  proof (cases "need \<le> nc")
    case True
    then show ?thesis by (simp add: grow.simps)
  next
    case False
    with 1 have "grow nc need = grow (nc * 2) need" "grow (nc * 2) need \<le> max (nc * 2) (2 * need)"
      by (simp_all add: grow.simps [of nc])
    with False show ?thesis by auto
  qed
qed

definition ws_fresh :: io_conn where
  "ws_fresh = \<lparr>c_win = [], c_wcap = 0, c_fb = oc_framebuf_init, c_posted = [], c_pongs = [],
     c_finished = False\<rparr>"

lemma ws_bytes_loops:
  assumes "length (c_win c) < OC_READ_CHUNK + 14" and "length chunk \<le> OC_READ_CHUNK"
    and "c_wcap c \<le> IO_WS_MAX_FRAME * 2"
  shows "\<exists>cap \<le> IO_WS_MAX_FRAME * 2. ws_bytes c chunk = ws_loop (c\<lparr>c_wcap := cap, c_win := c_win c @ chunk\<rparr>)"
proof -
  let ?need = "length (c_win c) + length chunk"
  let ?nc = "grow (if c_wcap c \<noteq> 0 then c_wcap c else 4096) ?need"
  have "?nc \<le> max (if c_wcap c \<noteq> 0 then c_wcap c else 4096) (2 * ?need)" by (rule grow_bound) simp
  with assms have nc: "?nc \<le> IO_WS_MAX_FRAME * 2"
    by (simp split: if_splits)
  show ?thesis
  proof (cases "?need > c_wcap c")
    case True
    with nc show ?thesis by (intro exI [of _ ?nc]) (simp add: ws_bytes_def Let_def)
  next
    case False
    with assms(3) show ?thesis by (intro exI [of _ "c_wcap c"]) (simp add: ws_bytes_def Let_def)
  qed
qed

lemma ws_stream:
  "list_all ws_data ms \<Longrightarrow> list_all (\<lambda>c. length c \<le> OC_READ_CHUNK) chunks \<Longrightarrow> ws_at c P \<Longrightarrow>
    c_win c @ concat chunks = concat (map ws_sent ms) \<Longrightarrow>
    split_frames (P @ concat (map ws_payload ms)) = (fs, None, r) \<Longrightarrow>
    length (c_win c) < OC_READ_CHUNK + 14 \<Longrightarrow> c_wcap c \<le> IO_WS_MAX_FRAME * 2 \<Longrightarrow>
    (ms \<noteq> [] \<longrightarrow> length (c_win c) < length (ws_sent (hd ms))) \<Longrightarrow>
    ws_at (foldl ws_bytes c chunks) (P @ concat (map ws_payload ms))"
proof (induction chunks arbitrary: c P ms)
  case Nil
  then have "ms = []" by (cases ms) auto
  with Nil show ?case by simp
next
  case (Cons chunk chunks)
  obtain cap where cap: "cap \<le> IO_WS_MAX_FRAME * 2"
    "ws_bytes c chunk = ws_loop (c\<lparr>c_wcap := cap, c_win := c_win c @ chunk\<rparr>)"
    using ws_bytes_loops [of c chunk] Cons.prems by auto
  let ?c = "c\<lparr>c_wcap := cap, c_win := c_win c @ chunk\<rparr>"
  have "ws_at ?c P" using Cons.prems(3) by (simp add: ws_at_def)
  from ws_loop_stream [OF Cons.prems(1) this, of "concat chunks" fs r] Cons.prems obtain d t where
    dt: "ms = d @ t" "ws_at (ws_loop ?c) (P @ concat (map ws_payload d))"
    "c_win (ws_loop ?c) @ concat chunks = concat (map ws_sent t)" "c_wcap (ws_loop ?c) = cap"
    "length (c_win (ws_loop ?c)) < OC_READ_CHUNK + 14"
    "t \<noteq> [] \<longrightarrow> length (c_win (ws_loop ?c)) < length (ws_sent (hd t))"
    by auto
  have "ws_at (foldl ws_bytes (ws_loop ?c) chunks)
      ((P @ concat (map ws_payload d)) @ concat (map ws_payload t))"
    by (rule Cons.IH) (use Cons.prems dt cap in auto)
  then show ?case by (simp add: cap(2) dt(1))
qed

text \<open>
  C10: protocol frames sent over a WebSocket arrive whole and in order: however the browser
  cuts the stream of frames into binary and continuation frames (each payload at most one
  read long, any masks, any FIN flags) and however the network cuts those into reads, the
  connection stays open and the frames posted to the loop are exactly the frames sent.
\<close>

theorem ws_frames_arrive:
  assumes "list_all ws_data ms" and "list_all frame_fits fs"
    and "concat (map ws_payload ms) = concat (map sent_frame fs)"
    and "list_all (\<lambda>c. length c \<le> OC_READ_CHUNK) chunks" and "concat chunks = concat (map ws_sent ms)"
  shows "\<not> c_finished (foldl ws_bytes ws_fresh chunks) \<and>
    c_posted (foldl ws_bytes ws_fresh chunks) = map sent_frame fs"
proof -
  have at: "ws_at ws_fresh []"
    using init_ok by (simp add: ws_at_def ws_fresh_def split_frames.simps)
  have pos: "0 < length (ws_sent m)" for m
    by (cases m) (simp add: ws_sent_def ws_client_frame_def)
  have "ws_at (foldl ws_bytes ws_fresh chunks) ([] @ concat (map ws_payload ms))"
    by (rule ws_stream [OF assms(1,4) at])
      (use assms split_sent_frames [OF assms(2)] pos in \<open>simp_all add: ws_fresh_def\<close>)
  then show ?thesis
    using split_sent_frames [OF assms(2)] assms(3) by (simp add: ws_at_def)
qed

theorem ws_frames_arrive_witness:
  "c_posted (foldl ws_bytes ws_fresh
      [[2, 131, 1, 2, 3, 4, 1, 2, 3, 0], [133, 5, 6, 7, 8, 1, 6, 6, 8, 12]])
    = [[0, 0, 0, 4, 0, 1, 0, 9]]"
proof -
  have first: "ws_sent (False, 2, [1, 2, 3, 4], [0, 0, 0]) = [2, 131, 1, 2, 3, 4, 1, 2, 3]"
    by code_simp
  have second: "ws_sent (False, 0, [5, 6, 7, 8], [4, 0, 1, 0, 9]) = [0, 133, 5, 6, 7, 8, 1, 6, 6, 8, 12]"
    by code_simp
  have frame: "map sent_frame [(1, 9, [])] = [[0, 0, 0, 4, 0, 1, 0, 9]]"
    by code_simp
  show ?thesis
    using ws_frames_arrive [of "[(False, 2, [1, 2, 3, 4], [0, 0, 0]), (False, 0, [5, 6, 7, 8], [4, 0, 1, 0, 9])]"
        "[(1, 9, [])]" "[[2, 131, 1, 2, 3, 4, 1, 2, 3, 0], [133, 5, 6, 7, 8, 1, 6, 6, 8, 12]]"]
    unfolding frame
    by (simp add: first second frame [simplified] ws_data_def ws_payload_def frame_fits_def)
qed

text \<open>
  C38: a payload longer than one read can end a connection whose stream is legal: when a data
  frame's payload and the part of a protocol frame still waiting exceed the reassembler's
  buffer together, the connection is finished and none of the frames is posted, although
  the WebSocket frame is within \<^verbatim>\<open>IO_WS_MAX_FRAME\<close> and the stream only holds whole, valid frames.
\<close>

theorem ws_long_payload_ends_connection:
  assumes at: "ws_at c P" and win: "c_win c = ws_client_frame fin op key payload @ rest"
    and op: "op = 2 \<or> op = 0" and key: "length key = 4" and len: "length payload \<le> IO_WS_MAX_FRAME"
    and legal: "split_frames (P @ payload) = (fs, None, r)"
    and long: "OC_MAX_FRAME_SIZE + OC_READ_CHUNK < length (fb_rest (c_fb c)) + length payload"
  shows "c_finished (ws_loop c) \<and> c_posted (ws_loop c) = c_posted c"
proof -
  let ?h = "ws_client_header fin op (length payload)"
  have op': "op AND 0x0f = op" using op by auto
  have max: "IO_WS_MAX_FRAME < 2 ^ 64" by simp
  have parse: "oc_ws_parse (c_win c) IO_WS_MAX_FRAME = OC_WS_FRAME ?h"
    using ws_parse_client [OF op' key len max, of fin rest] by (simp add: win)
  have parts: "take 4 (drop (ws_mask_off ?h) (c_win c)) = key"
    "take (length payload) (drop (ws_payload_off ?h) (c_win c)) = ws_masked key payload"
    "ws_opcode ?h = op" "ws_len ?h = length payload"
    using ws_client_parts [OF key, of payload fin op rest]
    by (simp_all add: win ws_client_header_def del: take_append drop_append)
  have ok: "fb_ok (c_fb c)" using at by (simp add: ws_at_def)
  then have fit: "length (fb_rest (c_fb c)) \<le> fb_cap (c_fb c)"
    and cap: "fb_cap (c_fb c) = OC_MAX_FRAME_SIZE + OC_READ_CHUNK"
    unfolding fb_ok_def length_fb_rest by linarith+
  have "payload \<noteq> []" using long fit cap by auto
  moreover have "length payload > fb_cap (c_fb c) - length (fb_rest (c_fb c))"
    using long fit cap by linarith
  then have "oc_framebuf_push (c_fb c) payload = (False, compact (c_fb c))"
    by (simp only: oc_framebuf_push_def Let_def compact_rest if_True)
  ultimately have "ws_take c ?h = c\<lparr>c_fb := compact (c_fb c), c_finished := True\<rparr>"
    using op by (auto simp: ws_take_def Let_def parts)
  then show ?thesis
    using parse by (subst (1 2) ws_loop.simps) (simp add: Let_def)
qed

definition ws_torn_stream :: "u8 list" where
  "ws_torn_stream = concat (map sent_frame [(0, 0, replicate 66552 0), (0, 0, replicate 59432 0)])"

lemma ws_torn_prefix:
  "split_frames (take 60000 ws_torn_stream) = ([], None, take 60000 ws_torn_stream)"
proof -
  let ?rest = "be16 0 @ be16 0 @ replicate 66552 0 @ sent_frame (0, 0, replicate 59432 0)"
  have stream: "ws_torn_stream = be32 66556 @ ?rest"
    by (simp add: ws_torn_stream_def sent_frame_def frame_bytes_def)
  have "take 60000 ws_torn_stream = be32 66556 @ take 59996 ?rest" unfolding stream by simp
  then have "rd32 (take 60000 ws_torn_stream) = 66556" by simp
  moreover have "length (take 60000 ws_torn_stream) = 60000"
    by (simp add: ws_torn_stream_def sent_frame_def)
  ultimately show ?thesis
    by (subst split_frames.simps)
      simp
qed

theorem ws_long_payload_ends_connection_witness:
  "c_finished (ws_loop (ws_fresh
     \<lparr>c_fb := oc_framebuf_init\<lparr>fb_buf := take 60000 ws_torn_stream\<rparr>,
      c_win := ws_client_frame True 2 [1, 2, 3, 4] (drop 60000 ws_torn_stream)\<rparr>))"
proof -
  have len: "length ws_torn_stream = 126000"
    by (simp add: ws_torn_stream_def sent_frame_def)
  have "split_frames ws_torn_stream =
      (map sent_frame [(0, 0, replicate 66552 0), (0, 0, replicate 59432 0)], None, [])"
    unfolding ws_torn_stream_def
    by (rule split_sent_frames) (simp add: frame_fits_def)
  then show ?thesis
    using ws_long_payload_ends_connection [of _ "take 60000 ws_torn_stream" True 2 "[1, 2, 3, 4]"
        "drop 60000 ws_torn_stream" "[]"] ws_torn_prefix len
    by (simp add: ws_at_def ws_fresh_def fb_ok_def fb_rest_def oc_framebuf_init_def)
qed

end
