(* ===== verification/Open_Addressing.thy ===== *)
theory Open_Addressing
  imports OC_Prelude
begin

text \<open>
  Open addressing with linear probing and backward-shift deletion, the scheme
  \<^verbatim>\<open>daemon/idmap.c\<close> and \<^verbatim>\<open>daemon/srccount.c\<close> share. A table is a list of keys and a list of values; a slot
  is free when its key is \<open>emp\<close> (0 for \<^verbatim>\<open>idmap\<close>, the empty string for \<^verbatim>\<open>srccount\<close>); \<open>home\<close> is the hash.
  The two loops of the C code are here, \<open>probe\<close> (look for a key from its home slot) and
  \<open>shift_back\<close> (close the gap a removed key leaves). In C they run until they meet a free slot;
  the fuel is the number of slots, and the lemmas say that it is never used up in a table
  that has a free slot.

  The correctness of a table is \<open>tab_ok\<close>: no key twice, and no free slot between a key's home
  and the slot it sits in. The lemmas give what a probe finds, and that insertion and
  deletion keep the table correct and change its map at the one key.
\<close>

section \<open>The loops\<close>

definition next_slot :: "nat \<Rightarrow> nat \<Rightarrow> nat" where
  "next_slot cap i = (i + 1) AND (cap - 1)"

fun probe :: "'k \<Rightarrow> 'k list \<Rightarrow> nat \<Rightarrow> 'k \<Rightarrow> nat \<Rightarrow> nat \<Rightarrow> nat option" where
  "probe emp keys cap key 0 i = None"
| "probe emp keys cap key (Suc fuel) i =
     (if keys ! i = key \<or> keys ! i = emp then Some i
      else probe emp keys cap key fuel (next_slot cap i))"

definition slot_between :: "nat \<Rightarrow> nat \<Rightarrow> nat \<Rightarrow> bool" where
  "slot_between hole hm j = (if hole \<le> j then hole < hm \<and> hm \<le> j else hole < hm \<or> hm \<le> j)"

fun shift_back ::
  "'k \<Rightarrow> ('k \<Rightarrow> nat) \<Rightarrow> nat \<Rightarrow> nat \<Rightarrow> 'k list \<Rightarrow> 'v list \<Rightarrow> nat \<Rightarrow> nat \<Rightarrow> ('k list \<times> 'v list \<times> nat) option" where
  "shift_back emp home cap 0 keys vals hole j = None"
| "shift_back emp home cap (Suc fuel) keys vals hole j =
     (if keys ! j = emp then Some (keys, vals, hole)
      else if slot_between hole (home (keys ! j)) j
      then shift_back emp home cap fuel keys vals hole (next_slot cap j)
      else shift_back emp home cap fuel (keys[hole := keys ! j]) (vals[hole := vals ! j]) j
             (next_slot cap j))"

section \<open>Correct tables\<close>

text \<open>The way round from \<open>a\<close> to \<open>b\<close>.\<close>

definition dist :: "nat \<Rightarrow> nat \<Rightarrow> nat \<Rightarrow> nat" where
  "dist cap a b = (if a \<le> b then b - a else b + cap - a)"

definition unique_keys :: "'k \<Rightarrow> 'k list \<Rightarrow> bool" where
  "unique_keys emp keys \<longleftrightarrow> distinct (filter (\<lambda>k. k \<noteq> emp) keys)"

definition tab_ok :: "'k \<Rightarrow> ('k \<Rightarrow> nat) \<Rightarrow> 'k list \<Rightarrow> nat \<Rightarrow> bool" where
  "tab_ok emp home keys cap \<longleftrightarrow>
     length keys = cap \<and> unique_keys emp keys \<and>
     (\<forall>s<cap. keys ! s \<noteq> emp \<longrightarrow>
        (\<forall>i<cap. dist cap (home (keys ! s)) i \<le> dist cap (home (keys ! s)) s \<longrightarrow> keys ! i \<noteq> emp))"

definition tab_map :: "'k \<Rightarrow> 'k list \<Rightarrow> 'v list \<Rightarrow> 'k \<Rightarrow> 'v option" where
  "tab_map emp keys vals = map_of (filter (\<lambda>(k, v). k \<noteq> emp) (zip keys vals))"

definition occupied :: "'k \<Rightarrow> 'k list \<Rightarrow> nat" where
  "occupied emp keys = card {s. s < length keys \<and> keys ! s \<noteq> emp}"

lemma tab_ok_path:
  "tab_ok emp home keys cap \<Longrightarrow> u < cap \<Longrightarrow> keys ! u \<noteq> emp \<Longrightarrow> i < cap \<Longrightarrow>
    dist cap (home (keys ! u)) i \<le> dist cap (home (keys ! u)) u \<Longrightarrow> keys ! i \<noteq> emp"
  unfolding tab_ok_def by blast

lemma tab_ok_basics: "tab_ok emp home keys cap \<Longrightarrow> length keys = cap \<and> unique_keys emp keys"
  unfolding tab_ok_def by blast

lemma next_slot_mod:
  assumes "cap = 2 ^ e"
  shows "next_slot cap i = (i + 1) mod cap"
  using assms by (simp add: next_slot_def take_bit_eq_mask [symmetric] mask_eq_exp_minus_1 [symmetric]
      take_bit_eq_mod flip: One_nat_def)

lemma next_slot_less: "cap = 2 ^ e \<Longrightarrow> next_slot cap i < cap"
  by (simp add: next_slot_mod)

lemma next_slot_eq: "cap = 2 ^ e \<Longrightarrow> i < cap \<Longrightarrow> next_slot cap i = (if Suc i = cap then 0 else Suc i)"
  by (simp add: next_slot_mod)

lemma dist_self [simp]: "dist cap a a = 0"
  by (simp add: dist_def)

lemma dist_less: "a < cap \<Longrightarrow> b < cap \<Longrightarrow> dist cap a b < cap"
  by (auto simp: dist_def)

lemma dist_zero: "a < cap \<Longrightarrow> b < cap \<Longrightarrow> dist cap a b = 0 \<longleftrightarrow> a = b"
  by (auto simp: dist_def)

lemma dist_next:
  "cap = 2 ^ e \<Longrightarrow> i < cap \<Longrightarrow> t < cap \<Longrightarrow> t \<noteq> i \<Longrightarrow> Suc (dist cap (next_slot cap i) t) = dist cap i t"
  by (auto simp: next_slot_eq dist_def)

lemma slot_between_dist:
  "hole < cap \<Longrightarrow> hm < cap \<Longrightarrow> j < cap \<Longrightarrow>
    slot_between hole hm j \<longleftrightarrow> 0 < dist cap hole hm \<and> dist cap hole hm \<le> dist cap hole j"
  by (auto simp: slot_between_def dist_def)

text \<open>Whether the path from \<open>a\<close> to \<open>b\<close> passes \<open>c\<close>.\<close>

lemma path_avoids:
  "hole < cap \<Longrightarrow> a < cap \<Longrightarrow> j < cap \<Longrightarrow> 0 < dist cap hole a \<Longrightarrow> dist cap hole a \<le> dist cap hole j \<Longrightarrow>
    \<not> dist cap a hole \<le> dist cap a j"
  by (auto simp: dist_def split: if_splits)

lemma path_meets:
  "hole < cap \<Longrightarrow> a < cap \<Longrightarrow> j < cap \<Longrightarrow> \<not> (0 < dist cap hole a \<and> dist cap hole a \<le> dist cap hole j) \<Longrightarrow>
    dist cap a hole \<le> dist cap a j"
  by (auto simp: dist_def split: if_splits)

lemma path_passes_first:
  "hole < cap \<Longrightarrow> a < cap \<Longrightarrow> j < cap \<Longrightarrow> s < cap \<Longrightarrow> dist cap a hole \<le> dist cap a s \<Longrightarrow>
    dist cap hole j \<le> dist cap hole s \<Longrightarrow> dist cap a j \<le> dist cap a s"
  by (auto simp: dist_def split: if_splits)

section \<open>What a table maps\<close>

lemma unique_keys_nth:
  "unique_keys emp keys \<longleftrightarrow>
    (\<forall>i<length keys. \<forall>j<length keys. keys ! i \<noteq> emp \<longrightarrow> keys ! i = keys ! j \<longrightarrow> i = j)"
proof (induction keys)
  case Nil
  show ?case by (simp add: unique_keys_def)
next
  case (Cons k keys)
  have "unique_keys emp (k # keys) \<longleftrightarrow> (k \<noteq> emp \<longrightarrow> k \<notin> set keys) \<and> unique_keys emp keys"
    by (auto simp: unique_keys_def)
  also have "\<dots> \<longleftrightarrow> (\<forall>i<length (k # keys). \<forall>j<length (k # keys).
      (k # keys) ! i \<noteq> emp \<longrightarrow> (k # keys) ! i = (k # keys) ! j \<longrightarrow> i = j)"
    unfolding Cons.IH by (simp add: All_less_Suc2 in_set_conv_nth) metis
  finally show ?case .
qed

lemma tab_map_iff:
  assumes "unique_keys emp keys" and "length vals = length keys"
  shows "tab_map emp keys vals k = Some v \<longleftrightarrow>
    k \<noteq> emp \<and> (\<exists>s<length keys. keys ! s = k \<and> vals ! s = v)"
proof -
  have "map fst (filter (\<lambda>(k, v). k \<noteq> emp) (zip keys vals)) = filter (\<lambda>k. k \<noteq> emp) keys"
    using assms(2) [symmetric] by (induction keys vals rule: list_induct2) auto
  then have "distinct (map fst (filter (\<lambda>(k, v). k \<noteq> emp) (zip keys vals)))"
    using assms(1) by (simp add: unique_keys_def)
  then have "tab_map emp keys vals k = Some v \<longleftrightarrow> (k, v) \<in> set (filter (\<lambda>(k, v). k \<noteq> emp) (zip keys vals))"
    unfolding tab_map_def by (rule map_of_eq_Some_iff)
  also have "\<dots> \<longleftrightarrow> k \<noteq> emp \<and> (\<exists>s<length keys. keys ! s = k \<and> vals ! s = v)"
    using assms(2) by (auto simp: in_set_zip)
  finally show ?thesis .
qed

lemma tab_map_eqI:
  assumes "unique_keys emp keys" "length vals = length keys"
    and "\<And>k v. m k = Some v \<longleftrightarrow> k \<noteq> emp \<and> (\<exists>s<length keys. keys ! s = k \<and> vals ! s = v)"
  shows "tab_map emp keys vals = m"
proof
  fix k
  show "tab_map emp keys vals k = m k"
    using tab_map_iff [OF assms(1,2), of k] assms(3) [of k]
    by (cases "tab_map emp keys vals k"; cases "m k") (auto, metis option.inject)
qed

lemma tab_map_at:
  "unique_keys emp keys \<Longrightarrow> length vals = length keys \<Longrightarrow> s < length keys \<Longrightarrow> keys ! s \<noteq> emp \<Longrightarrow>
    tab_map emp keys vals (keys ! s) = Some (vals ! s)"
  by (subst tab_map_iff) auto

lemma tab_map_none:
  "unique_keys emp keys \<Longrightarrow> length vals = length keys \<Longrightarrow>
    tab_map emp keys vals k = None \<longleftrightarrow> k = emp \<or> k \<notin> set keys"
  using tab_map_iff [of emp keys vals k] by (cases "tab_map emp keys vals k") (auto simp: in_set_conv_nth)

section \<open>Probing\<close>

lemma probe_first:
  "cap = 2 ^ e \<Longrightarrow> i < cap \<Longrightarrow> t < cap \<Longrightarrow> keys ! t = key \<or> keys ! t = emp \<Longrightarrow> dist cap i t < fuel \<Longrightarrow>
    \<exists>s<cap. probe emp keys cap key fuel i = Some s \<and> (keys ! s = key \<or> keys ! s = emp) \<and>
      (\<forall>r<cap. dist cap i r < dist cap i s \<longrightarrow> keys ! r \<noteq> key \<and> keys ! r \<noteq> emp)"
proof (induction fuel arbitrary: i)
  case 0
  then show ?case by simp
next
  case (Suc fuel)
  show ?case
  proof (cases "keys ! i = key \<or> keys ! i = emp")
    case True
    with Suc.prems(2) show ?thesis by (intro exI [of _ i]) auto
  next
    case False
    let ?i = "next_slot cap i"
    have i': "?i < cap" using Suc.prems(1) by (rule next_slot_less)
    have step: "r < cap \<Longrightarrow> r \<noteq> i \<Longrightarrow> Suc (dist cap ?i r) = dist cap i r" for r
      using dist_next [OF Suc.prems(1,2)] by blast
    have "t \<noteq> i" using False Suc.prems(4) by auto
    with step [of t] Suc.prems(3,5) have "dist cap ?i t < fuel" by auto
    from Suc.IH [OF Suc.prems(1) i' Suc.prems(3,4) this] obtain s where
      s: "s < cap" "probe emp keys cap key fuel ?i = Some s" "keys ! s = key \<or> keys ! s = emp"
        "\<forall>r<cap. dist cap ?i r < dist cap ?i s \<longrightarrow> keys ! r \<noteq> key \<and> keys ! r \<noteq> emp" by blast
    have "keys ! r \<noteq> key \<and> keys ! r \<noteq> emp" if "r < cap" "dist cap i r < dist cap i s" for r
      using that False s(3,4) step [of r] step [of s] s(1) by (cases "r = i"; cases "s = i") auto
    with s False show ?thesis by (intro exI [of _ s]) simp
  qed
qed

text \<open>
  A probe from a key's home finds the slot of the key when the table has it, and the free
  slot that ends its cluster when it does not.
\<close>

lemma probe_spec:
  assumes ok: "tab_ok emp home keys cap" and cap: "cap = 2 ^ e" and key: "key \<noteq> emp"
    and home: "home key < cap" and free: "t < cap" "keys ! t = emp"
  obtains s where "s < cap" "probe emp keys cap key cap (home key) = Some s"
    "key \<in> set keys \<longrightarrow> keys ! s = key" "key \<notin> set keys \<longrightarrow> keys ! s = emp"
    "\<forall>r<cap. dist cap (home key) r < dist cap (home key) s \<longrightarrow> keys ! r \<noteq> emp"
proof -
  have len: "length keys = cap" using ok by (simp add: tab_ok_def)
  obtain s where s: "s < cap" "probe emp keys cap key cap (home key) = Some s"
      "keys ! s = key \<or> keys ! s = emp"
      "\<forall>r<cap. dist cap (home key) r < dist cap (home key) s \<longrightarrow> keys ! r \<noteq> key \<and> keys ! r \<noteq> emp"
    using probe_first [OF cap home free(1), of keys key emp cap] free(2) dist_less [OF home free(1)]
    by auto
  have "keys ! s = key" if "key \<in> set keys"
  proof -
    from that len obtain u where u: "u < cap" "keys ! u = key" by (auto simp: in_set_conv_nth)
    have "dist cap (home key) s \<le> dist cap (home key) u"
      using s(4) u by (metis not_le)
    with ok u key s(1) have "keys ! s \<noteq> emp" by (auto simp: tab_ok_def)
    with s(3) show ?thesis by blast
  qed
  moreover have "keys ! s = emp" if "key \<notin> set keys"
    using that s(1,3) len by (auto simp: in_set_conv_nth)
  ultimately show thesis using that s by blast
qed

section \<open>Insertion and replacement\<close>

lemma dist_inj: "a < cap \<Longrightarrow> i < cap \<Longrightarrow> j < cap \<Longrightarrow> dist cap a i = dist cap a j \<longleftrightarrow> i = j"
  by (auto simp: dist_def split: if_splits)

lemma unique_keys_insert:
  assumes "unique_keys emp keys" "keys ! s = emp" "key \<notin> set keys"
  shows "unique_keys emp (keys[s := key])"
  unfolding unique_keys_nth
proof (intro allI impI)
  fix i j
  assume ij: "i < length (keys[s := key])" "j < length (keys[s := key])"
    "keys[s := key] ! i \<noteq> emp" "keys[s := key] ! i = keys[s := key] ! j"
  from assms(3) have "k < length keys \<Longrightarrow> keys ! k \<noteq> key" for k by auto
  with ij assms(1,2) show "i = j"
    by (cases "i = s"; cases "j = s") (auto simp: unique_keys_nth)
qed

lemma insert_ok:
  assumes ok: "tab_ok emp home keys cap" and s: "s < cap" "keys ! s = emp"
    and key: "key \<notin> set keys" "key \<noteq> emp"
    and path: "\<forall>r<cap. dist cap (home key) r < dist cap (home key) s \<longrightarrow> keys ! r \<noteq> emp"
    and home: "home key < cap"
  shows "tab_ok emp home (keys[s := key]) cap"
  unfolding tab_ok_def
proof (intro conjI allI impI)
  show len: "length (keys[s := key]) = cap" using ok by (simp add: tab_ok_def)
  show "unique_keys emp (keys[s := key])"
    using ok s key by (simp add: tab_ok_def unique_keys_insert)
  fix u i
  assume u: "u < cap" "keys[s := key] ! u \<noteq> emp" and i: "i < cap"
    and le: "dist cap (home (keys[s := key] ! u)) i \<le> dist cap (home (keys[s := key] ! u)) u"
  show "keys[s := key] ! i \<noteq> emp"
  proof (cases "i = s")
    case True
    with len i key show ?thesis by simp
  next
    case False
    show ?thesis
    proof (cases "u = s")
      case True
      with le len u have "dist cap (home key) i \<le> dist cap (home key) s" by simp
      with dist_inj [OF home i s(1)] False have "dist cap (home key) i < dist cap (home key) s" by simp
      with path i False show ?thesis by simp
    next
      case False
      with le u have "keys ! u \<noteq> emp" "dist cap (home (keys ! u)) i \<le> dist cap (home (keys ! u)) u"
        by simp_all
      from tab_ok_path [OF ok u(1) this(1) i this(2)] \<open>i \<noteq> s\<close> show ?thesis by simp
    qed
  qed
qed

lemma insert_map:
  assumes uq: "unique_keys emp keys" and len: "length vals = length keys" and s: "s < length keys" "keys ! s = emp"
    and key: "key \<notin> set keys" "key \<noteq> emp"
  shows "tab_map emp (keys[s := key]) (vals[s := v]) = (tab_map emp keys vals)(key \<mapsto> v)"
proof (rule tab_map_eqI)
  show "unique_keys emp (keys[s := key])" using uq s key by (simp add: unique_keys_insert)
  show "length (vals[s := v]) = length (keys[s := key])" using len by simp
  fix k w
  have at: "keys[s := key] ! u = k \<and> vals[s := v] ! u = w \<longleftrightarrow>
      (if u = s then key = k \<and> v = w else keys ! u = k \<and> vals ! u = w)" for u
    using s(1) len by simp
  have "u < length keys \<Longrightarrow> keys ! u \<noteq> key" for u using key(1) by auto
  then have "(\<exists>u<length keys. if u = s then key = k \<and> v = w else keys ! u = k \<and> vals ! u = w) \<longleftrightarrow>
      (if k = key then v = w else \<exists>u<length keys. keys ! u = k \<and> vals ! u = w)" if "k \<noteq> emp"
    using s that by metis
  then show "((tab_map emp keys vals)(key \<mapsto> v)) k = Some w \<longleftrightarrow>
      k \<noteq> emp \<and> (\<exists>u<length (keys[s := key]). keys[s := key] ! u = k \<and> vals[s := v] ! u = w)"
    using key(2) tab_map_iff [OF uq len, of k w] by (auto simp: at split: if_splits)
qed

lemma insert_occupied:
  assumes "s < length keys" "keys ! s = emp" "key \<noteq> emp"
  shows "occupied emp (keys[s := key]) = Suc (occupied emp keys)"
proof -
  have "{u. u < length (keys[s := key]) \<and> keys[s := key] ! u \<noteq> emp} =
      insert s {u. u < length keys \<and> keys ! u \<noteq> emp}"
    using assms by (auto simp: nth_list_update split: if_splits)
  then show ?thesis using assms by (simp add: occupied_def)
qed

lemma replace_map:
  assumes uq: "unique_keys emp keys" and len: "length vals = length keys" and s: "s < length keys" "keys ! s = key"
    and key: "key \<noteq> emp"
  shows "tab_map emp keys (vals[s := v]) = (tab_map emp keys vals)(key \<mapsto> v)"
proof (rule tab_map_eqI [OF uq])
  show "length (vals[s := v]) = length keys" using len by simp
  fix k w
  have only: "u < length keys \<Longrightarrow> keys ! u = key \<Longrightarrow> u = s" for u
    using uq s key unfolding unique_keys_nth by metis
  have at: "vals[s := v] ! u = w \<longleftrightarrow> (if u = s then v = w else vals ! u = w)" for u
    using s(1) len by simp
  have "(\<exists>u<length keys. keys ! u = k \<and> (if u = s then v = w else vals ! u = w)) \<longleftrightarrow>
      (if k = key then v = w else \<exists>u<length keys. keys ! u = k \<and> vals ! u = w)"
    using s only by metis
  then show "((tab_map emp keys vals)(key \<mapsto> v)) k = Some w \<longleftrightarrow>
      k \<noteq> emp \<and> (\<exists>u<length keys. keys ! u = k \<and> vals[s := v] ! u = w)"
    using key tab_map_iff [OF uq len, of k w] by (auto simp: at split: if_splits)
qed

section \<open>Deletion\<close>

text \<open>
  While the gap is being closed, \<open>hole\<close> counts as free: every other key's path is unbroken
  but for the hole, and no key already passed (between the hole and \<open>j\<close>) needs the hole.
\<close>

definition gap_ok :: "'k \<Rightarrow> ('k \<Rightarrow> nat) \<Rightarrow> 'k list \<Rightarrow> nat \<Rightarrow> nat \<Rightarrow> nat \<Rightarrow> bool" where
  "gap_ok emp home keys cap hole j \<longleftrightarrow>
     (\<forall>u<cap. u \<noteq> hole \<longrightarrow> keys ! u \<noteq> emp \<longrightarrow>
        (\<forall>i<cap. i \<noteq> hole \<longrightarrow> dist cap (home (keys ! u)) i \<le> dist cap (home (keys ! u)) u \<longrightarrow> keys ! i \<noteq> emp) \<and>
        (dist cap hole u < dist cap hole j \<longrightarrow>
          \<not> dist cap (home (keys ! u)) hole \<le> dist cap (home (keys ! u)) u))"

definition entries :: "'k \<Rightarrow> 'k list \<Rightarrow> 'v list \<Rightarrow> nat \<Rightarrow> ('k \<times> 'v) set" where
  "entries emp keys vals hole =
     {(keys ! u, vals ! u) | u. u < length keys \<and> u \<noteq> hole \<and> keys ! u \<noteq> emp}"

lemma gap_okD:
  assumes "gap_ok emp home keys cap hole j" "u < cap" "u \<noteq> hole" "keys ! u \<noteq> emp"
  shows "i < cap \<Longrightarrow> i \<noteq> hole \<Longrightarrow> dist cap (home (keys ! u)) i \<le> dist cap (home (keys ! u)) u \<Longrightarrow>
      keys ! i \<noteq> emp"
    and "dist cap hole u < dist cap hole j \<Longrightarrow>
      \<not> dist cap (home (keys ! u)) hole \<le> dist cap (home (keys ! u)) u"
  using assms unfolding gap_ok_def by blast+

lemma gap_closed:
  assumes gap: "gap_ok emp home keys cap hole j" and len: "length keys = cap"
    and uq: "unique_keys emp (keys[hole := emp])"
    and h: "hole < cap" and j: "j < cap" "j \<noteq> hole" "keys ! j = emp"
    and home: "\<And>k. k \<noteq> emp \<Longrightarrow> home k < cap"
  shows "tab_ok emp home (keys[hole := emp]) cap"
  unfolding tab_ok_def
proof (intro conjI allI impI)
  show "length (keys[hole := emp]) = cap" using len by simp
  show "unique_keys emp (keys[hole := emp])" by (rule uq)
  fix u i
  assume u: "u < cap" "keys[hole := emp] ! u \<noteq> emp" and i: "i < cap"
    and le: "dist cap (home (keys[hole := emp] ! u)) i \<le> dist cap (home (keys[hole := emp] ! u)) u"
  have uh: "u \<noteq> hole" using u(2) h len by auto
  then have ku: "keys ! u \<noteq> emp" and le': "dist cap (home (keys ! u)) i \<le> dist cap (home (keys ! u)) u"
    using u(2) le by simp_all
  have "i \<noteq> hole"
  proof
    assume ih: "i = hole"
    have "dist cap hole j \<le> dist cap hole u"
      using gap_okD(2) [OF gap u(1) uh ku] le' ih by (metis leI)
    from path_passes_first [OF h home [OF ku] j(1) u(1) le' [unfolded ih] this] j
    show False using gap_okD(1) [OF gap u(1) uh ku j(1,2)] by blast
  qed
  with gap_okD(1) [OF gap u(1) uh ku i this le'] show "keys[hole := emp] ! i \<noteq> emp" by simp
qed

lemma gap_pass:
  assumes gap: "gap_ok emp home keys cap hole j" and cap: "cap = 2 ^ e"
    and h: "hole < cap" and j: "j < cap" "j \<noteq> hole" "keys ! j \<noteq> emp" "next_slot cap j \<noteq> hole"
    and between: "slot_between hole (home (keys ! j)) j" and home: "home (keys ! j) < cap"
  shows "gap_ok emp home keys cap hole (next_slot cap j)"
  unfolding gap_ok_def
proof (intro allI impI conjI)
  fix u
  assume u: "u < cap" "u \<noteq> hole" "keys ! u \<noteq> emp"
  show "keys ! i \<noteq> emp" if "i < cap" "i \<noteq> hole"
    "dist cap (home (keys ! u)) i \<le> dist cap (home (keys ! u)) u" for i
    using gap_okD(1) [OF gap u that] .
  assume lt: "dist cap hole u < dist cap hole (next_slot cap j)"
  have "dist cap hole (next_slot cap j) = Suc (dist cap hole j)"
    using cap h j by (auto simp: next_slot_eq dist_def)
  with lt have "u = j \<or> dist cap hole u < dist cap hole j"
    using dist_inj [OF h u(1) j(1)] by auto
  then show "\<not> dist cap (home (keys ! u)) hole \<le> dist cap (home (keys ! u)) u"
  proof
    assume "u = j"
    with between slot_between_dist [OF h home j(1)] path_avoids [OF h home j(1)] show ?thesis by simp
  next
    assume "dist cap hole u < dist cap hole j"
    with gap_okD(2) [OF gap u] show ?thesis by blast
  qed
qed

lemma gap_move:
  assumes gap: "gap_ok emp home keys cap hole j" and cap: "cap = 2 ^ e" and len: "length keys = cap"
    and h: "hole < cap" and j: "j < cap" "j \<noteq> hole" "keys ! j \<noteq> emp"
    and between: "\<not> slot_between hole (home (keys ! j)) j" and home: "home (keys ! j) < cap"
  shows "gap_ok emp home (keys[hole := keys ! j]) cap j (next_slot cap j)"
proof -
  have near: "dist cap j u < dist cap j (next_slot cap j) \<Longrightarrow> u = j" if "u < cap" for u
    using cap j(1) that by (auto simp: next_slot_eq dist_def split: if_splits)
  have meets: "dist cap (home (keys ! j)) hole \<le> dist cap (home (keys ! j)) j"
    using between slot_between_dist [OF h home j(1)] path_meets [OF h home j(1)] by blast
  show ?thesis
    unfolding gap_ok_def
  proof (intro allI impI conjI)
    fix u
    assume u: "u < cap" "u \<noteq> j" "keys[hole := keys ! j] ! u \<noteq> emp"
    {
      fix i
      assume i: "i < cap" "i \<noteq> j" and le: "dist cap (home (keys[hole := keys ! j] ! u)) i
          \<le> dist cap (home (keys[hole := keys ! j] ! u)) u"
      show "keys[hole := keys ! j] ! i \<noteq> emp"
      proof (cases "i = hole")
        case True
        with len i j show ?thesis by simp
      next
        case False
        show ?thesis
        proof (cases "u = hole")
          case True
          with le len h have "dist cap (home (keys ! j)) i \<le> dist cap (home (keys ! j)) j"
            using meets by simp
          with gap_okD(1) [OF gap j i(1) False] False show ?thesis by simp
        next
          case False
          with u le have "keys ! u \<noteq> emp"
            "dist cap (home (keys ! u)) i \<le> dist cap (home (keys ! u)) u" by simp_all
          with gap_okD(1) [OF gap u(1) False _ i(1) \<open>i \<noteq> hole\<close>] \<open>i \<noteq> hole\<close> show ?thesis by simp
        qed
      qed
    }
    assume "dist cap j u < dist cap j (next_slot cap j)"
    with near u show "\<not> dist cap (home (keys[hole := keys ! j] ! u)) j
        \<le> dist cap (home (keys[hole := keys ! j] ! u)) u" by blast
  qed
qed

lemma unique_keys_move:
  assumes uq: "unique_keys emp (keys[hole := emp])" and h: "hole < length keys" "j < length keys" "j \<noteq> hole"
  shows "unique_keys emp (keys[hole := keys ! j, j := emp])"
  unfolding unique_keys_nth
proof (intro allI impI)
  have same: "i = k" if "i < length keys" "k < length keys" "i \<noteq> hole" "k \<noteq> hole" "keys ! i \<noteq> emp"
    "keys ! i = keys ! k" for i k
    using uq that unfolding unique_keys_nth by (metis length_list_update nth_list_update_neq)
  fix i k
  let ?new = "keys[hole := keys ! j, j := emp]"
  have at: "u < length keys \<Longrightarrow> ?new ! u = (if u = j then emp else if u = hole then keys ! j else keys ! u)" for u
    using h by simp
  assume i: "i < length ?new" and k: "k < length ?new" and ne: "?new ! i \<noteq> emp" and eq: "?new ! i = ?new ! k"
  have ij: "i \<noteq> j" "k \<noteq> j" using ne eq at [of i] at [of k] i k by auto
  let ?old = "\<lambda>u. if u = hole then j else u"
  have "keys ! ?old i = keys ! ?old k" "keys ! ?old i \<noteq> emp"
    using ne eq at [of i] at [of k] i k ij by (simp_all split: if_splits)
  then have "?old i = ?old k" using same [of "?old i" "?old k"] i k h by (simp split: if_splits)
  then show "i = k" using ij by (simp split: if_splits)
qed

lemma entries_move:
  assumes "length vals = length keys" "hole < length keys" "j < length keys" "j \<noteq> hole" "keys ! j \<noteq> emp"
  shows "entries emp (keys[hole := keys ! j]) (vals[hole := vals ! j]) j = entries emp keys vals hole"
    (is "?l = ?r")
proof
  have at: "keys[hole := keys ! j] ! u = (if u = hole then keys ! j else keys ! u)"
    "vals[hole := vals ! j] ! u = (if u = hole then vals ! j else vals ! u)" if "u < length keys" for u
    using that assms by (simp_all add: nth_list_update)
  show "?l \<subseteq> ?r"
  proof
    fix x assume "x \<in> ?l"
    then obtain u where u: "u < length keys" "u \<noteq> j" "keys[hole := keys ! j] ! u \<noteq> emp"
      "x = (keys[hole := keys ! j] ! u, vals[hole := vals ! j] ! u)"
      by (auto simp: entries_def)
    then show "x \<in> ?r"
      using at [OF u(1)] assms unfolding entries_def by (cases "u = hole") auto
  qed
  show "?r \<subseteq> ?l"
  proof
    fix x assume "x \<in> ?r"
    then obtain u where u: "u < length keys" "u \<noteq> hole" "keys ! u \<noteq> emp" "x = (keys ! u, vals ! u)"
      by (auto simp: entries_def)
    let ?u = "if u = j then hole else u"
    have "?u < length keys" "?u \<noteq> j" using u assms by auto
    with at [OF this(1)] u show "x \<in> ?l"
      unfolding entries_def using assms by (intro CollectI exI [of _ ?u]) auto
  qed
qed

lemma occupied_entries:
  assumes "unique_keys emp (keys[hole := emp])"
  shows "occupied emp (keys[hole := emp]) = card (entries emp keys vals hole)"
proof -
  let ?S = "{u. u < length keys \<and> u \<noteq> hole \<and> keys ! u \<noteq> emp}"
  have "u < length keys \<Longrightarrow> keys[hole := emp] ! u \<noteq> emp \<longleftrightarrow> u \<noteq> hole \<and> keys ! u \<noteq> emp" for u
    by (cases "u = hole") simp_all
  then have "{u. u < length (keys[hole := emp]) \<and> keys[hole := emp] ! u \<noteq> emp} = ?S"
    by auto
  moreover have "entries emp keys vals hole = (\<lambda>u. (keys ! u, vals ! u)) ` ?S"
    by (auto simp: entries_def)
  moreover have "inj_on (\<lambda>u. (keys ! u, vals ! u)) ?S"
  proof (rule inj_onI)
    fix u v
    assume u: "u \<in> ?S" and v: "v \<in> ?S" and eq: "(keys ! u, vals ! u) = (keys ! v, vals ! v)"
    from u v have "keys[hole := emp] ! u = keys ! u" "keys[hole := emp] ! v = keys ! v" by simp_all
    with u v eq show "u = v"
      using assms [unfolded unique_keys_nth, rule_format, of u v] by simp
  qed
  ultimately show ?thesis by (simp add: occupied_def card_image)
qed

lemma shift_back_spec:
  "cap = 2 ^ e \<Longrightarrow> (\<And>k. k \<noteq> emp \<Longrightarrow> home k < cap) \<Longrightarrow> length keys = cap \<Longrightarrow> length vals = cap \<Longrightarrow>
    hole < cap \<Longrightarrow> j < cap \<Longrightarrow> j \<noteq> hole \<Longrightarrow> gap_ok emp home keys cap hole j \<Longrightarrow>
    unique_keys emp (keys[hole := emp]) \<Longrightarrow> t < cap \<Longrightarrow> t \<noteq> hole \<Longrightarrow> keys ! t = emp \<Longrightarrow>
    dist cap hole j \<le> dist cap hole t \<Longrightarrow> dist cap j t < fuel \<Longrightarrow>
    \<exists>keys' vals' hole'. shift_back emp home cap fuel keys vals hole j = Some (keys', vals', hole') \<and>
      length keys' = cap \<and> length vals' = cap \<and> hole' < cap \<and>
      tab_ok emp home (keys'[hole' := emp]) cap \<and>
      entries emp keys' vals' hole' = entries emp keys vals hole"
proof (induction fuel arbitrary: keys vals hole j)
  case 0
  then show ?case by simp
next
  case (Suc fuel)
  show ?case
  proof (cases "keys ! j = emp")
    case True
    with gap_closed [of emp home keys cap hole j] Suc.prems show ?thesis by simp
  next
    case False
    let ?j = "next_slot cap j"
    have tj: "t \<noteq> j" using False Suc.prems(12) by blast
    have j': "?j < cap" using Suc.prems(1) by (rule next_slot_less)
    have fuel: "dist cap ?j t < fuel"
      using dist_next [OF Suc.prems(1,6,10) tj] Suc.prems(14) by simp
    have home: "home (keys ! j) < cap" using Suc.prems(2) False by blast
    show ?thesis
    proof (cases "slot_between hole (home (keys ! j)) j")
      case True
      have "dist cap hole j < dist cap hole t"
        using Suc.prems(13) dist_inj [OF Suc.prems(5,6,10)] tj by simp
      then have jh: "?j \<noteq> hole" and le: "dist cap hole ?j \<le> dist cap hole t"
        using Suc.prems(1,5,6,10) by (auto simp: next_slot_eq dist_def split: if_splits)
      from Suc.IH [OF Suc.prems(1,2,3,4,5) j' jh gap_pass [OF Suc.prems(8,1,5,6,7) False jh True home]
          Suc.prems(9,10,11,12) le fuel] True False show ?thesis by simp
    next
      case notb: False
      let ?keys = "keys[hole := keys ! j]" and ?vals = "vals[hole := vals ! j]"
      have jj: "?j \<noteq> j" using Suc.prems(1,5,6,7) by (auto simp: next_slot_eq)
      have le: "dist cap j ?j \<le> dist cap j t"
        using Suc.prems(1,6,10) tj by (auto simp: next_slot_eq dist_def split: if_splits)
      have "\<exists>keys' vals' hole'. shift_back emp home cap fuel ?keys ?vals j ?j = Some (keys', vals', hole') \<and>
          length keys' = cap \<and> length vals' = cap \<and> hole' < cap \<and>
          tab_ok emp home (keys'[hole' := emp]) cap \<and>
          entries emp keys' vals' hole' = entries emp ?keys ?vals j"
        by (rule Suc.IH [OF Suc.prems(1,2) _ _ Suc.prems(6) j' jj
              gap_move [OF Suc.prems(8,1,3,5,6,7) False notb home] _ Suc.prems(10) tj _ le fuel])
          (use Suc.prems unique_keys_move [of emp keys hole j] in simp_all)
      with entries_move [of vals keys hole j emp] Suc.prems False notb show ?thesis by simp
    qed
  qed
qed

text \<open>Removing the key of slot \<open>i\<close>: the shift ends, the table is correct again, and only that key is gone.\<close>

lemma tab_map_entries:
  assumes "unique_keys emp (keys[hole := emp])" "length vals = length keys"
  shows "tab_map emp (keys[hole := emp]) (vals[hole := nul]) k = Some v \<longleftrightarrow> (k, v) \<in> entries emp keys vals hole"
proof -
  have at: "u < length keys \<Longrightarrow> k \<noteq> emp \<and> keys[hole := emp] ! u = k \<and> vals[hole := nul] ! u = v \<longleftrightarrow>
      k \<noteq> emp \<and> u \<noteq> hole \<and> keys ! u = k \<and> vals ! u = v" for u
    by (cases "u = hole") auto
  have "tab_map emp (keys[hole := emp]) (vals[hole := nul]) k = Some v \<longleftrightarrow>
      (\<exists>u<length keys. k \<noteq> emp \<and> keys[hole := emp] ! u = k \<and> vals[hole := nul] ! u = v)"
    using tab_map_iff [OF assms(1), of "vals[hole := nul]" k v] assms(2) by auto
  also have "\<dots> \<longleftrightarrow> (\<exists>u<length keys. k \<noteq> emp \<and> u \<noteq> hole \<and> keys ! u = k \<and> vals ! u = v)"
    using at by blast
  also have "\<dots> \<longleftrightarrow> (k, v) \<in> entries emp keys vals hole" by (auto simp: entries_def)
  finally show ?thesis .
qed

lemma unique_keys_remove: "unique_keys emp keys \<Longrightarrow> unique_keys emp (keys[i := emp])"
  unfolding unique_keys_nth by (metis length_list_update nth_list_update nth_list_update_neq)

lemma gap_opened:
  assumes ok: "tab_ok emp home keys cap" and cap: "cap = 2 ^ e" and i: "i < cap"
  shows "gap_ok emp home keys cap i (next_slot cap i)"
  unfolding gap_ok_def
proof (intro allI impI conjI)
  fix u
  assume u: "u < cap" "u \<noteq> i" "keys ! u \<noteq> emp"
  show "keys ! r \<noteq> emp" if "r < cap" "dist cap (home (keys ! u)) r \<le> dist cap (home (keys ! u)) u" for r
    using tab_ok_path [OF ok u(1,3) that] .
  assume "dist cap i u < dist cap i (next_slot cap i)"
  then have "u = i" using cap i u(1) by (auto simp: next_slot_eq dist_def split: if_splits)
  then show "\<not> dist cap (home (keys ! u)) i \<le> dist cap (home (keys ! u)) u" using u(2) by blast
qed

lemma delete_spec:
  assumes ok: "tab_ok emp home keys cap" and cap: "cap = 2 ^ e" and home: "\<And>k. k \<noteq> emp \<Longrightarrow> home k < cap"
    and len: "length vals = cap" and i: "i < cap" "keys ! i \<noteq> emp" and t: "t < cap" "keys ! t = emp"
  obtains keys' vals' hole' where
    "shift_back emp home cap cap keys vals i (next_slot cap i) = Some (keys', vals', hole')"
    "hole' < cap" "length vals' = cap" "tab_ok emp home (keys'[hole' := emp]) cap"
    "tab_map emp (keys'[hole' := emp]) (vals'[hole' := nul]) = (tab_map emp keys vals)(keys ! i := None)"
    "Suc (occupied emp (keys'[hole' := emp])) = occupied emp keys"
proof -
  have lk: "length keys = cap" and uq: "unique_keys emp keys" using tab_ok_basics [OF ok] by auto
  have it: "t \<noteq> i" using i t by auto
  let ?j = "next_slot cap i"
  have j: "?j < cap" using cap by (rule next_slot_less)
  have "dist cap i ?j \<le> dist cap i t" "?j \<noteq> i"
    using cap i(1) t(1) it by (auto simp: next_slot_eq dist_def split: if_splits)
  with shift_back_spec [OF cap home lk len i(1) j _ gap_opened [OF ok cap i(1)]
      unique_keys_remove [OF uq] t(1) it t(2) _ dist_less [OF j t(1)]]
  obtain keys' vals' hole' where r:
    "shift_back emp home cap cap keys vals i ?j = Some (keys', vals', hole')"
    "length keys' = cap" "length vals' = cap" "hole' < cap" "tab_ok emp home (keys'[hole' := emp]) cap"
    "entries emp keys' vals' hole' = entries emp keys vals i" by blast
  have uq': "unique_keys emp (keys'[hole' := emp])" using tab_ok_basics [OF r(5)] by blast
  have "tab_map emp (keys'[hole' := emp]) (vals'[hole' := nul]) = tab_map emp (keys[i := emp]) (vals[i := nul])"
  proof
    fix k
    have "tab_map emp (keys'[hole' := emp]) (vals'[hole' := nul]) k = Some v \<longleftrightarrow>
        tab_map emp (keys[i := emp]) (vals[i := nul]) k = Some v" for v
      using tab_map_entries [OF uq', of vals' nul k v] r(2,3,6)
        tab_map_entries [OF unique_keys_remove [OF uq, of i], of vals nul k v] lk len by simp
    then show "tab_map emp (keys'[hole' := emp]) (vals'[hole' := nul]) k =
        tab_map emp (keys[i := emp]) (vals[i := nul]) k"
      by (metis not_Some_eq)
  qed
  also have "\<dots> = (tab_map emp keys vals)(keys ! i := None)"
  proof
    fix k
    have "tab_map emp (keys[i := emp]) (vals[i := nul]) k = Some v \<longleftrightarrow>
        ((tab_map emp keys vals)(keys ! i := None)) k = Some v" for v
    proof -
      have "u = i" if "u < length keys" "keys ! u = keys ! i" for u
        using uq that i lk unfolding unique_keys_nth by metis
      then show ?thesis
        using tab_map_entries [OF unique_keys_remove [OF uq, of i], of vals nul k v] len lk
          tab_map_iff [OF uq, of vals k v] i by (auto simp: entries_def)
    qed
    then show "tab_map emp (keys[i := emp]) (vals[i := nul]) k = ((tab_map emp keys vals)(keys ! i := None)) k"
      by (metis not_Some_eq)
  qed
  finally have m: "tab_map emp (keys'[hole' := emp]) (vals'[hole' := nul]) = (tab_map emp keys vals)(keys ! i := None)" .
  have "occupied emp (keys'[hole' := emp]) = occupied emp (keys[i := emp])"
    using occupied_entries [OF uq', of vals'] occupied_entries [OF unique_keys_remove [OF uq, of i], of vals] r(6)
    by simp
  moreover have "Suc (occupied emp (keys[i := emp])) = occupied emp keys"
    using insert_occupied [of i "keys[i := emp]" emp "keys ! i"] i lk by simp
  ultimately show thesis using that r m by simp
qed

lemma free_slot:
  assumes "occupied emp keys < length keys"
  obtains t where "t < length keys" "keys ! t = emp"
proof -
  have "{s. s < length keys \<and> keys ! s \<noteq> emp} \<noteq> {..<length keys}"
    using assms unfolding occupied_def by (metis card_lessThan less_irrefl)
  then show thesis using that by auto
qed

section \<open>Tables at most half full\<close>

text \<open>A power of two has one bit, and a number whose predecessor shares no bit with it is one.\<close>

lemma pow2_test: "0 < x \<Longrightarrow> x AND (x - 1) = (0 :: nat) \<Longrightarrow> \<exists>e. x = 2 ^ e"
proof (induction x rule: less_induct)
  case (less x)
  show ?case
  proof (cases "even x")
    case True
    then obtain y where y: "x = 2 * y" by blast
    with less.prems have "0 < y" by simp
    then have p: "x - 1 = Suc (2 * (y - 1))" using y by simp
    have "x AND (x - 1) = 2 * (y AND (y - 1))"
      unfolding p unfolding y by (subst and_nat_unfold) (use \<open>0 < y\<close> in simp)
    with less.prems have "y AND (y - 1) = 0" by simp
    with less.IH [of y] \<open>0 < y\<close> y obtain e where "y = 2 ^ e" by auto
    with y show ?thesis by (intro exI [of _ "Suc e"]) simp
  next
    case False
    then obtain y where y: "x = 2 * y + 1" by (metis oddE)
    have "x AND (x - 1) = 2 * y"
      unfolding y by (subst and_nat_unfold) simp
    with less.prems have "y = 0" by simp
    with y show ?thesis by (intro exI [of _ 0]) simp
  qed
qed

definition table_inv :: "'k \<Rightarrow> (nat \<Rightarrow> 'k \<Rightarrow> nat) \<Rightarrow> 'k list \<Rightarrow> 'v list \<Rightarrow> nat \<Rightarrow> nat \<Rightarrow> bool" where
  "table_inv emp home keys vals cap n \<longleftrightarrow> (\<exists>e>0. cap = 2 ^ e) \<and> length vals = cap \<and>
     tab_ok emp (home cap) keys cap \<and> n = occupied emp keys \<and> n \<le> cap div 2"

lemma table_invD:
  assumes "table_inv emp home keys vals cap n"
  obtains e t where "cap = 2 ^ e" "0 < cap" "length vals = cap" "length keys = cap"
    "tab_ok emp (home cap) keys cap" "unique_keys emp keys" "t < cap" "keys ! t = emp"
proof -
  obtain e where e: "cap = 2 ^ e" "e > 0" using assms by (auto simp: table_inv_def)
  have ok: "tab_ok emp (home cap) keys cap" and len: "length vals = cap"
    using assms by (auto simp: table_inv_def)
  have "occupied emp keys \<le> cap div 2" using assms by (simp add: table_inv_def)
  also have "\<dots> < length keys" using tab_ok_basics [OF ok] e by simp
  finally obtain t where "t < length keys" "keys ! t = emp" by (rule free_slot)
  with that [OF e(1) _ len _ ok] tab_ok_basics [OF ok] e show thesis by simp
qed

lemma table_probe:
  assumes "table_inv emp home keys vals cap n" and key: "key \<noteq> emp"
    and home: "\<And>k. home cap k < cap"
  obtains i where "i < cap" "probe emp keys cap key cap (home cap key) = Some i"
    "key \<in> set keys \<longrightarrow> keys ! i = key" "key \<notin> set keys \<longrightarrow> keys ! i = emp"
    "\<forall>r<cap. dist cap (home cap key) r < dist cap (home cap key) i \<longrightarrow> keys ! r \<noteq> emp"
proof -
  obtain e t where *: "cap = 2 ^ e" "tab_ok emp (home cap) keys cap" "t < cap" "keys ! t = emp"
    using assms(1) by (elim table_invD) blast
  from probe_spec [OF *(2,1) key home *(3,4)] show thesis using that by blast
qed

lemma table_empty:
  assumes "cap = 2 ^ e" "e > 0"
  shows "table_inv emp home (replicate cap emp) (replicate cap nul) cap 0"
    and "tab_map emp (replicate cap emp) (replicate cap nul) = Map.empty"
  using assms by (auto simp: table_inv_def tab_ok_def unique_keys_def occupied_def tab_map_def zip_replicate)

lemma table_insert:
  assumes inv: "table_inv emp home keys vals cap n" and i: "i < cap" "keys ! i = emp"
    and key: "key \<notin> set keys" "key \<noteq> emp" and room: "n < cap div 2"
    and path: "\<forall>r<cap. dist cap (home cap key) r < dist cap (home cap key) i \<longrightarrow> keys ! r \<noteq> emp"
    and home: "\<And>k. home cap k < cap"
  shows "table_inv emp home (keys[i := key]) (vals[i := v]) cap (Suc n)"
    and "tab_map emp (keys[i := key]) (vals[i := v]) = (tab_map emp keys vals)(key \<mapsto> v)"
proof -
  obtain e where e: "e > 0" "cap = 2 ^ e" and n: "n = occupied emp keys" and lv: "length vals = cap"
    and ok: "tab_ok emp (home cap) keys cap" using inv by (auto simp: table_inv_def)
  have lk: "length keys = cap" and uq: "unique_keys emp keys" using tab_ok_basics [OF ok] by auto
  have "tab_ok emp (home cap) (keys[i := key]) cap"
    by (rule insert_ok [OF ok i key path home])
  moreover have "occupied emp (keys[i := key]) = Suc n"
    using insert_occupied [of i keys emp key] i lk key n by simp
  ultimately show "table_inv emp home (keys[i := key]) (vals[i := v]) cap (Suc n)"
    using e lv room by (auto simp: table_inv_def)
  show "tab_map emp (keys[i := key]) (vals[i := v]) = (tab_map emp keys vals)(key \<mapsto> v)"
    using insert_map [OF uq _ _ i(2) key] i lk lv by simp
qed

lemma table_replace:
  assumes inv: "table_inv emp home keys vals cap n" and i: "i < cap" "keys ! i = key" and key: "key \<noteq> emp"
  shows "table_inv emp home keys (vals[i := v]) cap n"
    and "tab_map emp keys (vals[i := v]) = (tab_map emp keys vals)(key \<mapsto> v)"
proof -
  show "table_inv emp home keys (vals[i := v]) cap n" using inv by (simp add: table_inv_def)
  obtain "unique_keys emp keys" "length vals = length keys" "length keys = cap"
    using inv by (elim table_invD) simp
  then show "tab_map emp keys (vals[i := v]) = (tab_map emp keys vals)(key \<mapsto> v)"
    using replace_map i key by metis
qed

lemma table_delete:
  assumes inv: "table_inv emp home keys vals cap n" and i: "i < cap" "keys ! i \<noteq> emp"
    and home: "\<And>k. home cap k < cap"
  obtains keys' vals' hole where
    "shift_back emp (home cap) cap cap keys vals i (next_slot cap i) = Some (keys', vals', hole)"
    "table_inv emp home (keys'[hole := emp]) (vals'[hole := nul]) cap (n - 1)"
    "tab_map emp (keys'[hole := emp]) (vals'[hole := nul]) = (tab_map emp keys vals)(keys ! i := None)"
proof -
  obtain e t where e: "cap = 2 ^ e" and t: "t < cap" "keys ! t = emp" and lv: "length vals = cap"
    and ok: "tab_ok emp (home cap) keys cap"
    using inv by (elim table_invD) blast
  from delete_spec [OF ok e home lv i t, where nul = nul] obtain keys' vals' hole where
    d: "shift_back emp (home cap) cap cap keys vals i (next_slot cap i) = Some (keys', vals', hole)"
      "length vals' = cap" "tab_ok emp (home cap) (keys'[hole := emp]) cap"
      "tab_map emp (keys'[hole := emp]) (vals'[hole := nul]) = (tab_map emp keys vals)(keys ! i := None)"
      "Suc (occupied emp (keys'[hole := emp])) = occupied emp keys"
    by metis
  have "table_inv emp home (keys'[hole := emp]) (vals'[hole := nul]) cap (n - 1)"
    using inv d(2,3,5) by (auto simp: table_inv_def)
  with that d show thesis by blast
qed

end
