(* ===== verification/Idmap.thy ===== *)
theory Idmap
  imports Open_Addressing
begin

text \<open>
  The fixed-capacity id map of \<^verbatim>\<open>daemon/idmap.c\<close>, which the net loop uses to find connections and
  users. A \<^verbatim>\<open>NULL\<close> value is \<open>None\<close>. The outer \<open>option\<close> of a result is the end of the probing loop:
  \<open>None\<close> would be a loop that never ends. The theorems say that on a map built by
  \<^verbatim>\<open>oc_idmap_init\<close> and the operations every call ends, and that it behaves as a finite map:
  \<open>bounded_map\<close> is that contract, and \<open>idmap\<close> its instance.
\<close>

section \<open>The map\<close>

record 'v oc_idmap =
  idm_keys :: "u64 list"
  idm_vals :: "'v option list"
  idm_cap :: nat
  idm_n :: nat

definition slot_of :: "nat \<Rightarrow> u64 \<Rightarrow> nat" where
  "slot_of cap key = unat (drop_bit 32 (key * 0x9E3779B97F4A7C15)) AND (cap - 1)"

definition oc_idmap_free :: "'v oc_idmap \<Rightarrow> 'v oc_idmap" where
  "oc_idmap_free m = \<lparr>idm_keys = [], idm_vals = [], idm_cap = 0, idm_n = 0\<rparr>"

definition oc_idmap_init :: "nat \<Rightarrow> int \<times> 'v oc_idmap" where
  "oc_idmap_init cap =
     (if cap < 2 \<or> cap AND (cap - 1) \<noteq> 0
      then (-1, \<lparr>idm_keys = [], idm_vals = [], idm_cap = 0, idm_n = 0\<rparr>)
      else (0, \<lparr>idm_keys = replicate cap 0, idm_vals = replicate cap None, idm_cap = cap, idm_n = 0\<rparr>))"

definition oc_idmap_get :: "'v oc_idmap \<Rightarrow> u64 \<Rightarrow> 'v option option" where
  "oc_idmap_get m key =
     (if key = 0 \<or> idm_cap m = 0 then Some None
      else map_option (\<lambda>i. if idm_keys m ! i = key then idm_vals m ! i else None)
             (probe 0 (idm_keys m) (idm_cap m) key (idm_cap m) (slot_of (idm_cap m) key)))"

definition oc_idmap_put :: "'v oc_idmap \<Rightarrow> u64 \<Rightarrow> 'v \<Rightarrow> (int \<times> 'v oc_idmap) option" where
  "oc_idmap_put m key val =
     (if key = 0 \<or> idm_cap m = 0 then Some (-1, m)
      else map_option (\<lambda>i.
             if idm_keys m ! i = key then (0, m\<lparr>idm_vals := (idm_vals m)[i := Some val]\<rparr>)
             else if idm_n m \<ge> idm_cap m div 2 then (-1, m)
             else (0, m\<lparr>idm_keys := (idm_keys m)[i := key], idm_vals := (idm_vals m)[i := Some val],
                        idm_n := idm_n m + 1\<rparr>))
             (probe 0 (idm_keys m) (idm_cap m) key (idm_cap m) (slot_of (idm_cap m) key)))"

definition oc_idmap_del :: "'v oc_idmap \<Rightarrow> u64 \<Rightarrow> 'v oc_idmap option" where
  "oc_idmap_del m key =
     (if key = 0 \<or> idm_cap m = 0 then Some m
      else case probe 0 (idm_keys m) (idm_cap m) key (idm_cap m) (slot_of (idm_cap m) key) of
          None \<Rightarrow> None
        | Some i \<Rightarrow>
            if idm_keys m ! i = 0 then Some m
            else map_option (\<lambda>(keys, vals, hole).
                   m\<lparr>idm_keys := keys[hole := 0], idm_vals := vals[hole := None], idm_n := idm_n m - 1\<rparr>)
                   (shift_back 0 (slot_of (idm_cap m)) (idm_cap m) (idm_cap m) (idm_keys m) (idm_vals m)
                      i (next_slot (idm_cap m) i)))"

section \<open>What it represents\<close>

definition idmap_inv :: "'v oc_idmap \<Rightarrow> bool" where
  "idmap_inv m \<longleftrightarrow> (\<exists>e>0. idm_cap m = 2 ^ e) \<and> length (idm_vals m) = idm_cap m \<and>
     tab_ok 0 (slot_of (idm_cap m)) (idm_keys m) (idm_cap m) \<and>
     (\<forall>key. tab_map 0 (idm_keys m) (idm_vals m) key \<noteq> Some None) \<and>
     idm_n m = occupied 0 (idm_keys m) \<and> idm_n m \<le> idm_cap m div 2"

definition idmap_abs :: "'v oc_idmap \<Rightarrow> u64 \<Rightarrow> 'v option" where
  "idmap_abs m key = Option.bind (tab_map 0 (idm_keys m) (idm_vals m) key) (\<lambda>v. v)"

lemma slot_of_less: "cap = 2 ^ e \<Longrightarrow> slot_of cap key < cap"
  by (simp add: slot_of_def take_bit_eq_mask [symmetric] mask_eq_exp_minus_1 [symmetric]
      flip: One_nat_def)

lemma idmap_invD:
  assumes "idmap_inv m"
  obtains e t where "idm_cap m = 2 ^ e" "0 < idm_cap m" "length (idm_vals m) = idm_cap m"
    "length (idm_keys m) = idm_cap m" "tab_ok 0 (slot_of (idm_cap m)) (idm_keys m) (idm_cap m)"
    "unique_keys 0 (idm_keys m)" "t < idm_cap m" "idm_keys m ! t = 0"
proof -
  obtain e where e: "idm_cap m = 2 ^ e" "e > 0" using assms by (auto simp: idmap_inv_def)
  have ok: "tab_ok 0 (slot_of (idm_cap m)) (idm_keys m) (idm_cap m)"
    and len: "length (idm_vals m) = idm_cap m" using assms by (auto simp: idmap_inv_def)
  have "occupied 0 (idm_keys m) \<le> idm_cap m div 2" using assms by (simp add: idmap_inv_def)
  also have "\<dots> < length (idm_keys m)" using tab_ok_basics [OF ok] e by simp
  finally obtain t where "t < length (idm_keys m)" "idm_keys m ! t = 0" by (rule free_slot)
  with that [OF e(1) _ len _ ok] tab_ok_basics [OF ok] e show thesis by simp
qed

lemma idmap_abs_dom:
  assumes "idmap_inv m" "key \<noteq> 0"
  shows "idmap_abs m key = None \<longleftrightarrow> key \<notin> set (idm_keys m)"
proof -
  obtain "unique_keys 0 (idm_keys m)" "length (idm_vals m) = length (idm_keys m)"
    using assms(1) by (elim idmap_invD) simp
  note none = tab_map_none [OF this, of key]
  have "tab_map 0 (idm_keys m) (idm_vals m) key \<noteq> Some None"
    using assms(1) by (simp add: idmap_inv_def)
  with none assms(2) show ?thesis
    by (cases "tab_map 0 (idm_keys m) (idm_vals m) key") (auto simp: idmap_abs_def)
qed

lemma idmap_probe:
  assumes "idmap_inv m" "key \<noteq> 0"
  obtains i where "i < idm_cap m"
    "probe 0 (idm_keys m) (idm_cap m) key (idm_cap m) (slot_of (idm_cap m) key) = Some i"
    "key \<in> set (idm_keys m) \<longrightarrow> idm_keys m ! i = key" "key \<notin> set (idm_keys m) \<longrightarrow> idm_keys m ! i = 0"
    "\<forall>r<idm_cap m. dist (idm_cap m) (slot_of (idm_cap m) key) r
       < dist (idm_cap m) (slot_of (idm_cap m) key) i \<longrightarrow> idm_keys m ! r \<noteq> 0"
  using assms(1)
proof (rule idmap_invD)
  fix e t
  assume *: "idm_cap m = 2 ^ e" "tab_ok 0 (slot_of (idm_cap m)) (idm_keys m) (idm_cap m)"
    "t < idm_cap m" "idm_keys m ! t = 0"
  from probe_spec [OF *(2,1) assms(2) slot_of_less [OF *(1)] *(3,4)] show thesis using that by blast
qed

lemma idmap_get_abs:
  assumes inv: "idmap_inv m" and key: "key \<noteq> 0"
  shows "oc_idmap_get m key = Some (idmap_abs m key)"
proof -
  obtain "unique_keys 0 (idm_keys m)" "length (idm_vals m) = length (idm_keys m)"
    and len: "length (idm_keys m) = idm_cap m" "0 < idm_cap m"
    using inv by (elim idmap_invD) simp
  from tab_map_at [OF this(1,2)] have at: "i < idm_cap m \<Longrightarrow> idm_keys m ! i \<noteq> 0 \<Longrightarrow>
      tab_map 0 (idm_keys m) (idm_vals m) (idm_keys m ! i) = Some (idm_vals m ! i)" for i using len by simp
  from inv key show ?thesis
  proof (rule idmap_probe)
    fix i
    assume i: "i < idm_cap m"
      "probe 0 (idm_keys m) (idm_cap m) key (idm_cap m) (slot_of (idm_cap m) key) = Some i"
      "key \<in> set (idm_keys m) \<longrightarrow> idm_keys m ! i = key" "key \<notin> set (idm_keys m) \<longrightarrow> idm_keys m ! i = 0"
    show ?thesis
    proof (cases "key \<in> set (idm_keys m)")
      case True
      with i at [OF i(1)] key len show ?thesis by (simp add: oc_idmap_get_def idmap_abs_def)
    next
      case False
      with i key len idmap_abs_dom [OF inv key] show ?thesis by (simp add: oc_idmap_get_def)
    qed
  qed
qed

lemma abs_update:
  "tab_map 0 (idm_keys m') (idm_vals m') = (tab_map 0 (idm_keys m) (idm_vals m))(key \<mapsto> Some val) \<Longrightarrow>
    idmap_abs m' = (idmap_abs m)(key \<mapsto> val)"
  by (rule ext) (simp add: idmap_abs_def)

lemma idmap_put_abs:
  assumes inv: "idmap_inv m" and key: "key \<noteq> 0"
    and room: "key \<in> dom (idmap_abs m) \<or> idm_n m < idm_cap m div 2"
  shows "\<exists>m'. oc_idmap_put m key val = Some (0, m') \<and> idmap_inv m' \<and>
    idmap_abs m' = (idmap_abs m)(key \<mapsto> val) \<and> idm_cap m' = idm_cap m \<and>
    idm_n m' = (if key \<in> dom (idmap_abs m) then idm_n m else Suc (idm_n m))"
proof -
  obtain e where e: "e > 0" "idm_cap m = 2 ^ e" using inv by (auto simp: idmap_inv_def)
  obtain uq: "unique_keys 0 (idm_keys m)" and lv: "length (idm_vals m) = length (idm_keys m)"
    and lk: "length (idm_keys m) = idm_cap m" and ok: "tab_ok 0 (slot_of (idm_cap m)) (idm_keys m) (idm_cap m)"
    using inv by (elim idmap_invD) simp
  from inv key show ?thesis
  proof (rule idmap_probe)
    fix i
    assume i: "i < idm_cap m"
      "probe 0 (idm_keys m) (idm_cap m) key (idm_cap m) (slot_of (idm_cap m) key) = Some i"
      "key \<in> set (idm_keys m) \<longrightarrow> idm_keys m ! i = key" "key \<notin> set (idm_keys m) \<longrightarrow> idm_keys m ! i = 0"
      and path: "\<forall>r<idm_cap m. dist (idm_cap m) (slot_of (idm_cap m) key) r
       < dist (idm_cap m) (slot_of (idm_cap m) key) i \<longrightarrow> idm_keys m ! r \<noteq> 0"
    show ?thesis
    proof (cases "key \<in> set (idm_keys m)")
      case True
      let ?m = "m\<lparr>idm_vals := (idm_vals m)[i := Some val]\<rparr>"
      have put: "oc_idmap_put m key val = Some (0, ?m)"
        using True i key e by (simp add: oc_idmap_put_def)
      have map: "tab_map 0 (idm_keys ?m) (idm_vals ?m) = (tab_map 0 (idm_keys m) (idm_vals m))(key \<mapsto> Some val)"
        using replace_map [OF uq lv, of i key "Some val"] True i key lk by simp
      have "idmap_inv ?m" using inv map by (simp add: idmap_inv_def)
      moreover have "key \<in> dom (idmap_abs m)" using True idmap_abs_dom [OF inv key] by auto
      ultimately show ?thesis using put abs_update [OF map] by simp
    next
      case False
      then have new: "key \<notin> dom (idmap_abs m)" using idmap_abs_dom [OF inv key] by auto
      let ?m = "m\<lparr>idm_keys := (idm_keys m)[i := key], idm_vals := (idm_vals m)[i := Some val], idm_n := idm_n m + 1\<rparr>"
      have free: "idm_keys m ! i = 0" using False i by blast
      have put: "oc_idmap_put m key val = Some (0, ?m)"
        using free new room i key e by (simp add: oc_idmap_put_def)
      have map: "tab_map 0 (idm_keys ?m) (idm_vals ?m) = (tab_map 0 (idm_keys m) (idm_vals m))(key \<mapsto> Some val)"
        using insert_map [OF uq lv _ free False key] i lk by simp
      have "tab_ok 0 (slot_of (idm_cap m)) ((idm_keys m)[i := key]) (idm_cap m)"
        by (rule insert_ok [OF ok i(1) free False key path slot_of_less [OF e(2)]])
      moreover have "occupied 0 ((idm_keys m)[i := key]) = Suc (occupied 0 (idm_keys m))"
        by (rule insert_occupied) (use i lk free key in simp_all)
      ultimately have "idmap_inv ?m"
        using inv map lk lv room new e by (auto simp: idmap_inv_def)
      then show ?thesis using put abs_update [OF map] new by simp
    qed
  qed
qed

lemma idmap_put_full:
  assumes inv: "idmap_inv m" and key: "key \<noteq> 0"
    and full: "key \<notin> dom (idmap_abs m)" "idm_cap m div 2 \<le> idm_n m"
  shows "oc_idmap_put m key val = Some (-1, m)"
  using inv key
proof (rule idmap_probe)
  fix i
  assume i: "probe 0 (idm_keys m) (idm_cap m) key (idm_cap m) (slot_of (idm_cap m) key) = Some i"
    "key \<notin> set (idm_keys m) \<longrightarrow> idm_keys m ! i = 0"
  have "key \<notin> set (idm_keys m)" using full(1) idmap_abs_dom [OF inv key] by auto
  with i key full(2) show ?thesis by (simp add: oc_idmap_put_def)
qed

lemma idmap_del_abs:
  assumes inv: "idmap_inv m" and key: "key \<noteq> 0"
  shows "\<exists>m'. oc_idmap_del m key = Some m' \<and> idmap_inv m' \<and> idmap_abs m' = (idmap_abs m)(key := None) \<and>
    idm_cap m' = idm_cap m \<and> idm_n m' = (if key \<in> dom (idmap_abs m) then idm_n m - 1 else idm_n m)"
proof -
  obtain e t where e: "idm_cap m = 2 ^ e" "0 < idm_cap m" and t: "t < idm_cap m" "idm_keys m ! t = 0"
    and lv: "length (idm_vals m) = idm_cap m" and ok: "tab_ok 0 (slot_of (idm_cap m)) (idm_keys m) (idm_cap m)"
    using inv by (elim idmap_invD) blast
  from inv key show ?thesis
  proof (rule idmap_probe)
    fix i
    assume i: "i < idm_cap m"
      "probe 0 (idm_keys m) (idm_cap m) key (idm_cap m) (slot_of (idm_cap m) key) = Some i"
      "key \<in> set (idm_keys m) \<longrightarrow> idm_keys m ! i = key" "key \<notin> set (idm_keys m) \<longrightarrow> idm_keys m ! i = 0"
    show ?thesis
    proof (cases "key \<in> set (idm_keys m)")
      case False
      then have "idmap_abs m key = None" using idmap_abs_dom [OF inv key] by auto
      moreover from this have "(idmap_abs m)(key := None) = idmap_abs m" by (simp add: fun_upd_idem)
      ultimately show ?thesis using False i key e inv by (auto simp: oc_idmap_del_def)
    next
      case True
      then have at: "idm_keys m ! i = key" and dom: "key \<in> dom (idmap_abs m)"
        using i idmap_abs_dom [OF inv key] by auto
      obtain keys' vals' hole where d:
        "shift_back 0 (slot_of (idm_cap m)) (idm_cap m) (idm_cap m) (idm_keys m) (idm_vals m) i
           (next_slot (idm_cap m) i) = Some (keys', vals', hole)"
        "length vals' = idm_cap m" "tab_ok 0 (slot_of (idm_cap m)) (keys'[hole := 0]) (idm_cap m)"
        "tab_map 0 (keys'[hole := 0]) (vals'[hole := None]) = (tab_map 0 (idm_keys m) (idm_vals m))(key := None)"
        "Suc (occupied 0 (keys'[hole := 0])) = occupied 0 (idm_keys m)"
        using at key delete_spec [OF ok e(1) slot_of_less [OF e(1)] lv i(1) _ t, where nul = None]
        by metis
      let ?m = "m\<lparr>idm_keys := keys'[hole := 0], idm_vals := vals'[hole := None], idm_n := idm_n m - 1\<rparr>"
      have del: "oc_idmap_del m key = Some ?m" using d(1) i(2) at key e by (simp add: oc_idmap_del_def)
      have "idmap_inv ?m" using inv d(2-5) by (auto simp: idmap_inv_def)
      moreover have "idmap_abs ?m = (idmap_abs m)(key := None)"
        using d(4) by (auto simp: idmap_abs_def fun_eq_iff)
      ultimately show ?thesis using del dom by simp
    qed
  qed
qed

lemma idmap_init_ok:
  assumes "oc_idmap_init cap = (0, m)"
  shows "idmap_inv m \<and> idmap_abs m = Map.empty \<and> idm_n m = 0 \<and> idm_cap m = cap"
proof -
  have cap: "2 \<le> cap" "cap AND (cap - 1) = 0"
    and m: "m = \<lparr>idm_keys = replicate cap 0, idm_vals = replicate cap None, idm_cap = cap, idm_n = 0\<rparr>"
    using assms by (auto simp: oc_idmap_init_def split: if_splits)
  then obtain e where e: "cap = 2 ^ e" using pow2_test [of cap] by auto
  with cap(1) have "e > 0" by (cases e) simp_all
  moreover have map: "tab_map 0 (replicate cap (0 :: u64)) (replicate cap (None :: 'a option)) = Map.empty"
    by (simp add: tab_map_def zip_replicate)
  moreover have "tab_ok 0 (slot_of cap) (replicate cap 0) cap"
    by (simp add: tab_ok_def unique_keys_def)
  ultimately show ?thesis
    using e by (auto simp: m idmap_inv_def idmap_abs_def occupied_def fun_eq_iff)
qed

lemma idmap_n_pos:
  assumes "idmap_inv m" "key \<noteq> 0" "key \<in> dom (idmap_abs m)"
  shows "0 < idm_n m"
proof -
  have "key \<in> set (idm_keys m)" using idmap_abs_dom [OF assms(1,2)] assms(3) by auto
  then have "{s. s < length (idm_keys m) \<and> idm_keys m ! s \<noteq> 0} \<noteq> {}"
    using assms(2) by (auto simp: in_set_conv_nth)
  then show ?thesis using assms(1) by (simp add: idmap_inv_def occupied_def card_gt_0_iff)
qed

section \<open>The contract\<close>

text \<open>
  A map with room for a bounded number of keys: what \<open>get\<close> returns is what \<open>put\<close> and \<open>del\<close> made
  of it, an insertion is refused only when the bound is reached, and every call ends.
\<close>

locale bounded_map =
  fixes inv :: "'t \<Rightarrow> bool"
    and abs :: "'t \<Rightarrow> 'k \<Rightarrow> 'v option"
    and key_ok :: "'k \<Rightarrow> bool"
    and room :: "'t \<Rightarrow> nat"
    and get :: "'t \<Rightarrow> 'k \<Rightarrow> 'v option option"
    and put :: "'t \<Rightarrow> 'k \<Rightarrow> 'v \<Rightarrow> (int \<times> 't) option"
    and del :: "'t \<Rightarrow> 'k \<Rightarrow> 't option"
  assumes get_abs: "inv m \<Longrightarrow> key_ok k \<Longrightarrow> get m k = Some (abs m k)"
    and put_abs: "inv m \<Longrightarrow> key_ok k \<Longrightarrow> k \<in> dom (abs m) \<or> 0 < room m \<Longrightarrow>
      \<exists>m'. put m k v = Some (0, m') \<and> inv m' \<and> abs m' = (abs m)(k \<mapsto> v) \<and>
        room m' = room m - (if k \<in> dom (abs m) then 0 else 1)"
    and put_full: "inv m \<Longrightarrow> key_ok k \<Longrightarrow> k \<notin> dom (abs m) \<Longrightarrow> room m = 0 \<Longrightarrow> put m k v = Some (-1, m)"
    and del_abs: "inv m \<Longrightarrow> key_ok k \<Longrightarrow>
      \<exists>m'. del m k = Some m' \<and> inv m' \<and> abs m' = (abs m)(k := None) \<and>
        room m' = room m + (if k \<in> dom (abs m) then 1 else 0)"
begin

lemma put_get:
  assumes "inv m" "key_ok k" "key_ok k'" "k \<in> dom (abs m) \<or> 0 < room m"
  shows "\<exists>m'. put m k v = Some (0, m') \<and> inv m' \<and> get m' k' = Some (if k' = k then Some v else abs m k')"
  using put_abs [OF assms(1,2,4), of v] get_abs [OF _ assms(3)] by auto

lemma del_get:
  assumes "inv m" "key_ok k" "key_ok k'"
  shows "\<exists>m'. del m k = Some m' \<and> inv m' \<and> get m' k' = Some (if k' = k then None else abs m k')"
  using del_abs [OF assms(1,2)] get_abs [OF _ assms(3)] by auto

lemma del_makes_room:
  assumes "inv m" "key_ok k" "k \<in> dom (abs m)" "key_ok k'"
  shows "\<exists>m' m''. del m k = Some m' \<and> put m' k' v = Some (0, m'') \<and> inv m''"
proof -
  from del_abs [OF assms(1,2)] assms(3) obtain m' where "del m k = Some m'" "inv m'" "0 < room m'" by auto
  with put_abs [of m' k' v] assms(4) show ?thesis by blast
qed

end

interpretation idmap: bounded_map idmap_inv idmap_abs "\<lambda>k. k \<noteq> 0" "\<lambda>m. idm_cap m div 2 - idm_n m"
  oc_idmap_get oc_idmap_put oc_idmap_del
proof
  fix m :: "'a oc_idmap" and k :: u64 and v
  assume m: "idmap_inv m" and k: "k \<noteq> 0"
  show "oc_idmap_get m k = Some (idmap_abs m k)" by (rule idmap_get_abs [OF m k])
  show "\<exists>m'. oc_idmap_put m k v = Some (0, m') \<and> idmap_inv m' \<and> idmap_abs m' = (idmap_abs m)(k \<mapsto> v) \<and>
      idm_cap m' div 2 - idm_n m' = idm_cap m div 2 - idm_n m - (if k \<in> dom (idmap_abs m) then 0 else 1)"
    if "k \<in> dom (idmap_abs m) \<or> 0 < idm_cap m div 2 - idm_n m"
    using idmap_put_abs [OF m k, of v] that by (auto split: if_splits)
  show "oc_idmap_put m k v = Some (-1, m)" if "k \<notin> dom (idmap_abs m)" "idm_cap m div 2 - idm_n m = 0"
    using idmap_put_full [OF m k that(1)] that(2) by simp
  show "\<exists>m'. oc_idmap_del m k = Some m' \<and> idmap_inv m' \<and> idmap_abs m' = (idmap_abs m)(k := None) \<and>
      idm_cap m' div 2 - idm_n m' = idm_cap m div 2 - idm_n m + (if k \<in> dom (idmap_abs m) then 1 else 0)"
    using idmap_del_abs [OF m k] idmap_n_pos [OF m k] m by (auto simp: idmap_inv_def split: if_splits)
qed

section \<open>Whole histories\<close>

datatype 'v idmap_op = Put u64 'v | Del u64

fun op_key :: "'v idmap_op \<Rightarrow> u64" where
  "op_key (Put key val) = key"
| "op_key (Del key) = key"

fun idmap_run :: "'v oc_idmap \<Rightarrow> 'v idmap_op list \<Rightarrow> 'v oc_idmap option" where
  "idmap_run m [] = Some m"
| "idmap_run m (Put key val # ops) =
     (case oc_idmap_put m key val of None \<Rightarrow> None | Some (rc, m) \<Rightarrow> idmap_run m ops)"
| "idmap_run m (Del key # ops) =
     (case oc_idmap_del m key of None \<Rightarrow> None | Some m \<Rightarrow> idmap_run m ops)"

text \<open>The same history on a map that takes no new key once it holds \<open>limit\<close> of them.\<close>

fun spec_run :: "nat \<Rightarrow> (u64 \<Rightarrow> 'v option) \<Rightarrow> 'v idmap_op list \<Rightarrow> u64 \<Rightarrow> 'v option" where
  "spec_run limit f [] = f"
| "spec_run limit f (Put key val # ops) =
     spec_run limit (if key \<in> dom f \<or> card (dom f) < limit then f(key \<mapsto> val) else f) ops"
| "spec_run limit f (Del key # ops) = spec_run limit (f(key := None)) ops"

lemma idmap_run_spec:
  "idmap_inv m \<Longrightarrow> finite (dom (idmap_abs m)) \<Longrightarrow> idm_n m = card (dom (idmap_abs m)) \<Longrightarrow>
    \<forall>op \<in> set ops. op_key op \<noteq> 0 \<Longrightarrow>
    \<exists>m'. idmap_run m ops = Some m' \<and> idmap_inv m' \<and>
      idmap_abs m' = spec_run (idm_cap m div 2) (idmap_abs m) ops"
proof (induction ops arbitrary: m)
  case Nil
  then show ?case by simp
next
  case (Cons op ops)
  show ?case
  proof (cases op)
    case (Put key val)
    with Cons.prems have key: "key \<noteq> 0" by simp
    show ?thesis
    proof (cases "key \<in> dom (idmap_abs m) \<or> idm_n m < idm_cap m div 2")
      case True
      with idmap_put_abs [OF Cons.prems(1) key, of val] obtain m' where
        m': "oc_idmap_put m key val = Some (0, m')" "idmap_inv m'" "idmap_abs m' = (idmap_abs m)(key \<mapsto> val)"
          "idm_cap m' = idm_cap m" "idm_n m' = (if key \<in> dom (idmap_abs m) then idm_n m else Suc (idm_n m))"
        by blast
      have n: "idm_n m' = card (dom (idmap_abs m'))" and fin: "finite (dom (idmap_abs m'))"
        using m'(3,5) Cons.prems(2,3) by (auto simp: card_insert_if)
      have cond: "key \<in> dom (idmap_abs m) \<or> card (dom (idmap_abs m)) < idm_cap m div 2"
        using True Cons.prems(3) by simp
      from Cons.IH [OF m'(2) fin n] Cons.prems(4) obtain m'' where
        "idmap_run m' ops = Some m''" "idmap_inv m''"
        "idmap_abs m'' = spec_run (idm_cap m div 2) ((idmap_abs m)(key \<mapsto> val)) ops"
        unfolding m'(3,4) by (auto simp del: fun_upd_apply)
      moreover have "idmap_run m (op # ops) = idmap_run m' ops"
        "spec_run (idm_cap m div 2) (idmap_abs m) (op # ops)
          = spec_run (idm_cap m div 2) ((idmap_abs m)(key \<mapsto> val)) ops"
        using cond by (simp_all only: Put idmap_run.simps m'(1) option.case prod.case spec_run.simps if_True)
      ultimately show ?thesis by metis
    next
      case False
      then have "oc_idmap_put m key val = Some (-1, m)"
        using idmap_put_full [OF Cons.prems(1) key] by auto
      moreover have "\<not> (key \<in> dom (idmap_abs m) \<or> card (dom (idmap_abs m)) < idm_cap m div 2)"
        using False Cons.prems(3) by simp
      ultimately show ?thesis
        using Cons.IH [OF Cons.prems(1-3)] Cons.prems(4) Put by simp
    qed
  next
    case (Del key)
    with Cons.prems have key: "key \<noteq> 0" by simp
    from idmap_del_abs [OF Cons.prems(1) key] obtain m' where
      m': "oc_idmap_del m key = Some m'" "idmap_inv m'" "idmap_abs m' = (idmap_abs m)(key := None)"
        "idm_cap m' = idm_cap m" "idm_n m' = (if key \<in> dom (idmap_abs m) then idm_n m - 1 else idm_n m)"
      by blast
    have n: "idm_n m' = card (dom (idmap_abs m'))" and fin: "finite (dom (idmap_abs m'))"
      using m'(3,5) Cons.prems(2,3) by (auto simp: card_Diff_singleton_if)
    from Cons.IH [OF m'(2) fin n] Cons.prems(4) show ?thesis
      by (simp add: Del m' del: fun_upd_apply)
  qed
qed

text \<open>
  C9: the id map refines a finite map that holds at most half its capacity: after
  \<^verbatim>\<open>oc_idmap_init\<close> and any history of puts and deletes with non-zero ids, every probing loop
  has ended, and a lookup of any id returns what the finite map holds for it. In
  particular deleting, with its backward shift, never hides another id.
\<close>

theorem idmap_refines_map:
  assumes "oc_idmap_init cap = (0, m)" and "\<forall>op \<in> set ops. op_key op \<noteq> 0"
  shows "\<exists>m'. idmap_run m ops = Some m' \<and>
    (\<forall>key. key \<noteq> 0 \<longrightarrow> oc_idmap_get m' key = Some (spec_run (cap div 2) Map.empty ops key))"
proof -
  from idmap_init_ok [OF assms(1)] have m: "idmap_inv m" "idmap_abs m = Map.empty" "idm_n m = 0" "idm_cap m = cap"
    by auto
  then obtain m' where "idmap_run m ops = Some m'" "idmap_inv m'" "idmap_abs m' = spec_run (cap div 2) Map.empty ops"
    using idmap_run_spec [OF m(1) _ _ assms(2)] by auto
  with idmap_get_abs show ?thesis by fastforce
qed

theorem idmap_refines_map_witness:
  "\<exists>m'. idmap_run (snd (oc_idmap_init 4)) [Put 1 (10 :: nat), Put 2 20, Del 1, Put 3 30] = Some m' \<and>
    oc_idmap_get m' 3 = Some (Some 30)"
  using idmap_refines_map [of 4 "snd (oc_idmap_init 4)" "[Put 1 (10 :: nat), Put 2 20, Del 1, Put 3 30]"]
  by (auto simp: oc_idmap_init_def)

end
