(* ===== verification/Ctext.thy ===== *)
theory Ctext
  imports OC_Prelude
begin

text \<open>
  C text. A NUL-terminated string is a \<open>string\<close> without its terminator, a pointer that may be
  \<^verbatim>\<open>NULL\<close> a \<open>string option\<close>, and a byte a \<open>char\<close>. \<open>snprintf_s cap s\<close> is what
  \<^verbatim>\<open>snprintf(out, cap, "%s", s)\<close> leaves in a buffer of \<open>cap\<close> bytes.
\<close>

definition char_between :: "char \<Rightarrow> char \<Rightarrow> char \<Rightarrow> bool" where
  "char_between lo hi c \<longleftrightarrow> (of_char lo :: nat) \<le> of_char c \<and> (of_char c :: nat) \<le> of_char hi"

definition ascii_lower :: "char \<Rightarrow> char" where
  "ascii_lower c = (if char_between (CHR ''A'') (CHR ''Z'') c then char_of (of_char c + 32 :: nat) else c)"

definition snprintf_s :: "nat \<Rightarrow> string \<Rightarrow> string" where
  "snprintf_s cap s = take (cap - 1) s"

definition text_or_empty :: "string option \<Rightarrow> string" where
  "text_or_empty s = (case s of None \<Rightarrow> '''' | Some t \<Rightarrow> t)"

lemma length_snprintf_s: "0 < cap \<Longrightarrow> length (snprintf_s cap s) < cap"
  by (simp add: snprintf_s_def)

lemma snprintf_s_short: "length s < cap \<Longrightarrow> snprintf_s cap s = s"
  by (simp add: snprintf_s_def)

lemma snprintf_s_idem [simp]: "snprintf_s cap (snprintf_s cap s) = snprintf_s cap s"
  by (simp add: snprintf_s_def)

text \<open>Comparison without ASCII case, over two strings that may end at different places.\<close>

fun ieq :: "string \<Rightarrow> string \<Rightarrow> bool" where
  "ieq (a # as) (b # bs) = (if ascii_lower a \<noteq> ascii_lower b then False else ieq as bs)"
| "ieq as bs = (as = [] \<and> bs = [])"

lemma ieq_map: "ieq a b \<longleftrightarrow> map ascii_lower a = map ascii_lower b"
  by (induction a b rule: ieq.induct) auto

section \<open>Searching and printing\<close>

fun starts_with :: "string \<Rightarrow> string \<Rightarrow> bool" where
  "starts_with s [] = True"
| "starts_with [] (c # cs) = False"
| "starts_with (d # ds) (c # cs) = (d = c \<and> starts_with ds cs)"

fun strstr :: "string \<Rightarrow> string \<Rightarrow> bool" where
  "strstr [] needle = (needle = [])"
| "strstr (c # cs) needle = (starts_with (c # cs) needle \<or> strstr cs needle)"

definition digit_char :: "nat \<Rightarrow> char" where
  "digit_char d = char_of (48 + d)"

text \<open>\<^verbatim>\<open>%u\<close>, and \<^verbatim>\<open>%02u\<close> of a number below 100.\<close>

fun dec_string :: "nat \<Rightarrow> string" where
  "dec_string n = (if n < 10 then [digit_char n] else dec_string (n div 10) @ [digit_char (n mod 10)])"

declare dec_string.simps [simp del]

definition dec2_string :: "nat \<Rightarrow> string" where
  "dec2_string n = (if n < 10 then CHR ''0'' # dec_string n else dec_string n)"

end
