(* ===== verification/Srccount.thy ===== *)
theory Srccount
  imports Open_Addressing Ctext
begin

text \<open>
  The connections each peer address holds (\<^verbatim>\<open>daemon/srccount.c\<close>): a map from an address, as text, to a
  count, on the same open addressing as the id map. An address is counted under its
  \<^verbatim>\<open>oc_source_key\<close>. The two text conversions of \<^verbatim>\<open>arpa/inet.h\<close> are the fields of \<open>inet\<close>, and
  a C string is a \<open>string\<close> with no terminator. A count is an \<open>int\<close> without a bound: it never exceeds the
  number of increments. The outer \<open>option\<close> of a result is the end of a probing loop. The theorems say that
  the counts are those of the history of increments and decrements, and which addresses share one.
\<close>

section \<open>The key of an address\<close>

record inet =
  inet_pton6 :: "string \<Rightarrow> u8 list option"
  inet_ntop4 :: "u8 list \<Rightarrow> string"
  inet_ntop6 :: "u8 list \<Rightarrow> string option"

abbreviation OC_SRC_LEN :: nat where
  "OC_SRC_LEN \<equiv> 46"

abbreviation mapped :: "u8 list" where
  "mapped \<equiv> [0, 0, 0, 0, 0, 0, 0, 0, 0, 0, 0xff, 0xff]"

text \<open>\<^verbatim>\<open>inet_ntop\<close> writes nothing where the text does not fit.\<close>

definition oc_source_key :: "inet \<Rightarrow> string \<Rightarrow> nat \<Rightarrow> string" where
  "oc_source_key inet addr cap =
     (case (if CHR '':'' \<in> set addr then inet_pton6 inet addr else None) of
        None \<Rightarrow> snprintf_s cap addr
      | Some b \<Rightarrow>
          if take 12 b = mapped
          then let t = inet_ntop4 inet (drop 12 b) in if length t < cap then t else ''''
          else case inet_ntop6 inet (take 8 b @ replicate 8 0) of
              Some a \<Rightarrow> snprintf_s cap (a @ ''/64'')
            | None \<Rightarrow> snprintf_s cap addr)"

section \<open>The counts\<close>

record oc_srccount =
  sc_keys :: "string list"
  sc_counts :: "int list"
  sc_cap :: nat
  sc_n :: nat

definition src_slot_of :: "nat \<Rightarrow> string \<Rightarrow> nat" where
  "src_slot_of cap src =
     unat (foldl (\<lambda>h c. (h XOR of_char c) * 1099511628211) (1469598103934665603 :: u64) src) AND (cap - 1)"

definition oc_srccount_free :: "oc_srccount \<Rightarrow> oc_srccount" where
  "oc_srccount_free m = \<lparr>sc_keys = [], sc_counts = [], sc_cap = 0, sc_n = 0\<rparr>"

definition oc_srccount_init :: "nat \<Rightarrow> int \<times> oc_srccount" where
  "oc_srccount_init cap =
     (if cap < 2 \<or> cap AND (cap - 1) \<noteq> 0
      then (-1, \<lparr>sc_keys = [], sc_counts = [], sc_cap = 0, sc_n = 0\<rparr>)
      else (0, \<lparr>sc_keys = replicate cap '''', sc_counts = replicate cap 0, sc_cap = cap, sc_n = 0\<rparr>))"

definition src_find :: "oc_srccount \<Rightarrow> string \<Rightarrow> nat option" where
  "src_find m src = probe '''' (sc_keys m) (sc_cap m) src (sc_cap m) (src_slot_of (sc_cap m) src)"

definition oc_srccount_get :: "inet \<Rightarrow> oc_srccount \<Rightarrow> string \<Rightarrow> int option" where
  "oc_srccount_get inet m src =
     (let key = oc_source_key inet src OC_SRC_LEN in
      if key = '''' \<or> sc_cap m = 0 then Some 0
      else map_option (\<lambda>i. if sc_keys m ! i \<noteq> '''' then sc_counts m ! i else 0) (src_find m key))"

definition oc_srccount_inc :: "inet \<Rightarrow> oc_srccount \<Rightarrow> string \<Rightarrow> (int \<times> oc_srccount) option" where
  "oc_srccount_inc inet m src =
     (if length src \<ge> OC_SRC_LEN then Some (-1, m)
      else let key = oc_source_key inet src OC_SRC_LEN in
      if key = '''' \<or> sc_cap m = 0 then Some (-1, m)
      else map_option (\<lambda>i.
        if sc_keys m ! i = '''' \<and> sc_n m \<ge> sc_cap m div 2 then (-1, m)
        else let m = (if sc_keys m ! i = ''''
                      then m\<lparr>sc_keys := (sc_keys m)[i := key], sc_counts := (sc_counts m)[i := 0], sc_n := sc_n m + 1\<rparr>
                      else m);
                 c = sc_counts m ! i + 1
             in (c, m\<lparr>sc_counts := (sc_counts m)[i := c]\<rparr>)) (src_find m key))"

definition oc_srccount_dec :: "inet \<Rightarrow> oc_srccount \<Rightarrow> string \<Rightarrow> oc_srccount option" where
  "oc_srccount_dec inet m src =
     (let key = oc_source_key inet src OC_SRC_LEN in
      if key = '''' \<or> sc_cap m = 0 then Some m
      else case src_find m key of None \<Rightarrow> None
      | Some i \<Rightarrow>
          if sc_keys m ! i = '''' then Some m
          else let c = sc_counts m ! i - 1; counts = (sc_counts m)[i := c] in
          if c > 0 then Some (m\<lparr>sc_counts := counts\<rparr>)
          else map_option (\<lambda>(keys, counts, hole).
                 m\<lparr>sc_keys := keys[hole := ''''], sc_counts := counts[hole := 0], sc_n := sc_n m - 1\<rparr>)
                 (shift_back '''' (src_slot_of (sc_cap m)) (sc_cap m) (sc_cap m) (sc_keys m) counts
                    i (next_slot (sc_cap m) i)))"

section \<open>What it represents\<close>

definition src_table :: "oc_srccount \<Rightarrow> bool" where
  "src_table m = table_inv '''' src_slot_of (sc_keys m) (sc_counts m) (sc_cap m) (sc_n m)"

definition src_map :: "oc_srccount \<Rightarrow> string \<Rightarrow> int option" where
  "src_map m = tab_map '''' (sc_keys m) (sc_counts m)"

definition src_inv :: "oc_srccount \<Rightarrow> bool" where
  "src_inv m \<longleftrightarrow> src_table m \<and> (\<forall>key c. src_map m key = Some c \<longrightarrow> 0 < c)"

definition src_abs :: "oc_srccount \<Rightarrow> string \<Rightarrow> nat" where
  "src_abs m key = (case src_map m key of None \<Rightarrow> 0 | Some c \<Rightarrow> nat c)"

lemma src_slot_of_less: "cap = 2 ^ e \<Longrightarrow> src_slot_of cap key < cap"
  by (simp add: src_slot_of_def take_bit_eq_mask [symmetric] mask_eq_exp_minus_1 [symmetric]
      flip: One_nat_def)

lemma src_home: "src_table m \<Longrightarrow> src_slot_of (sc_cap m) key < sc_cap m"
  by (auto simp: src_table_def table_inv_def intro: src_slot_of_less)

lemma src_find_cases:
  assumes "src_table m" "key \<noteq> ''''"
  obtains (held) i c where "i < sc_cap m" "src_find m key = Some i" "sc_keys m ! i = key"
      "sc_counts m ! i = c" "src_map m key = Some c"
    | (free) i where "i < sc_cap m" "src_find m key = Some i" "sc_keys m ! i = ''''" "key \<notin> set (sc_keys m)"
      "src_map m key = None"
      "\<forall>r < sc_cap m. dist (sc_cap m) (src_slot_of (sc_cap m) key) r
         < dist (sc_cap m) (src_slot_of (sc_cap m) key) i \<longrightarrow> sc_keys m ! r \<noteq> ''''"
proof -
  note inv = assms(1) [unfolded src_table_def]
  obtain uq: "unique_keys '''' (sc_keys m)" and len: "length (sc_counts m) = length (sc_keys m)"
    "length (sc_keys m) = sc_cap m" using inv by (elim table_invD) simp
  show thesis
    using inv assms(2)
  proof (rule table_probe)
    show "src_slot_of (sc_cap m) k < sc_cap m" for k by (rule src_home [OF assms(1)])
    fix i
    assume i: "i < sc_cap m"
      "probe '''' (sc_keys m) (sc_cap m) key (sc_cap m) (src_slot_of (sc_cap m) key) = Some i"
      "key \<in> set (sc_keys m) \<longrightarrow> sc_keys m ! i = key" "key \<notin> set (sc_keys m) \<longrightarrow> sc_keys m ! i = ''''"
      "\<forall>r < sc_cap m. dist (sc_cap m) (src_slot_of (sc_cap m) key) r
         < dist (sc_cap m) (src_slot_of (sc_cap m) key) i \<longrightarrow> sc_keys m ! r \<noteq> ''''"
    show thesis
    proof (cases "key \<in> set (sc_keys m)")
      case True
      with i(3) assms(2) have "src_map m key = Some (sc_counts m ! i)"
        using tab_map_at [OF uq len(1), of i] i(1) len(2) by (simp add: src_map_def)
      with True i show thesis by (intro held [of i]) (simp_all add: src_find_def)
    next
      case False
      then have "src_map m key = None" using tab_map_none [OF uq len(1), of key] by (simp add: src_map_def)
      with False i show thesis by (intro free [of i]) (simp_all add: src_find_def)
    qed
  qed
qed

lemma src_table_cap: "src_table m \<Longrightarrow> sc_cap m \<noteq> 0"
  by (auto simp: src_table_def elim!: table_invD)

lemma src_get_abs:
  assumes inv: "src_inv m"
  shows "oc_srccount_get inet m src =
    Some (let key = oc_source_key inet src OC_SRC_LEN in if key = '''' then 0 else int (src_abs m key))"
proof (cases "oc_source_key inet src OC_SRC_LEN = ''''")
  case True
  then show ?thesis by (simp add: oc_srccount_get_def)
next
  case False
  have t: "src_table m" and pos: "\<And>key c. src_map m key = Some c \<Longrightarrow> 0 < c"
    using inv by (auto simp: src_inv_def)
  from t False show ?thesis
  proof (cases rule: src_find_cases)
    case (held i c)
    with pos [OF held(5)] False src_table_cap [OF t] show ?thesis
      by (simp add: oc_srccount_get_def src_abs_def)
  next
    case (free i)
    with False src_table_cap [OF t] show ?thesis by (simp add: oc_srccount_get_def src_abs_def)
  qed
qed

text \<open>An increment sets the count of the key, whether its slot was held or free.\<close>

lemma src_set:
  assumes inv: "src_inv m" and c: "0 < c"
    and m': "src_table m'" "src_map m' = (src_map m)(key \<mapsto> c)"
  shows "src_inv m' \<and> src_abs m' = (src_abs m)(key := nat c)"
  using assms by (auto simp: src_inv_def src_abs_def fun_eq_iff)

lemma src_inc_abs:
  assumes inv: "src_inv m" and len: "length src < OC_SRC_LEN"
    and key: "key = oc_source_key inet src OC_SRC_LEN" "key \<noteq> ''''"
    and room: "0 < src_abs m key \<or> sc_n m < sc_cap m div 2"
  shows "\<exists>m'. oc_srccount_inc inet m src = Some (int (src_abs m key) + 1, m') \<and> src_inv m' \<and>
    src_abs m' = (src_abs m)(key := src_abs m key + 1) \<and> sc_cap m' = sc_cap m \<and>
    sc_n m' = (if 0 < src_abs m key then sc_n m else Suc (sc_n m))"
proof -
  have t: "src_table m" and pos: "\<And>key c. src_map m key = Some c \<Longrightarrow> 0 < c"
    using inv by (auto simp: src_inv_def)
  note ti = t [unfolded src_table_def]
  from t key(2) show ?thesis
  proof (cases rule: src_find_cases)
    case (held i c)
    let ?m = "m\<lparr>sc_counts := (sc_counts m)[i := c + 1]\<rparr>"
    have abs: "src_abs m key = nat c" "0 < c" using held pos by (auto simp: src_abs_def)
    note r = table_replace [OF ti held(1,3) key(2), of "c + 1"]
    have "src_table ?m" "src_map ?m = (src_map m)(key \<mapsto> c + 1)" using r by (simp_all add: src_table_def src_map_def)
    from src_set [OF inv _ this] have "src_inv ?m \<and> src_abs ?m = (src_abs m)(key := nat c + 1)"
      using abs by (simp add: nat_add_distrib)
    moreover have "oc_srccount_inc inet m src = Some (int (src_abs m key) + 1, ?m)"
      using held key len abs src_table_cap [OF t] by (simp add: oc_srccount_inc_def Let_def)
    ultimately show ?thesis using abs by simp
  next
    case (free i)
    let ?m = "m\<lparr>sc_keys := (sc_keys m)[i := key], sc_counts := (sc_counts m)[i := 1], sc_n := sc_n m + 1\<rparr>"
    have abs: "src_abs m key = 0" using free by (simp add: src_abs_def)
    have n: "sc_n m < sc_cap m div 2" using room abs by simp
    have "i < length (sc_counts m)" using ti free(1) by (simp add: table_inv_def)
    then have inc: "oc_srccount_inc inet m src = Some (int (src_abs m key) + 1, ?m)"
      using free key len abs n src_table_cap [OF t] by (simp add: oc_srccount_inc_def Let_def)
    note r = table_insert [OF ti free(1,3,4) key(2) n free(6) src_home [OF t], where v = 1]
    have "src_table ?m" "src_map ?m = (src_map m)(key \<mapsto> 1)" using r by (simp_all add: src_table_def src_map_def)
    from src_set [OF inv _ this] show ?thesis using inc abs by simp
  qed
qed

lemma src_inc_full:
  assumes inv: "src_inv m" and key: "key = oc_source_key inet src OC_SRC_LEN" "key \<noteq> ''''"
    and full: "src_abs m key = 0" "sc_cap m div 2 \<le> sc_n m"
  shows "oc_srccount_inc inet m src = Some (-1, m)"
proof -
  have t: "src_table m" and pos: "\<And>key c. src_map m key = Some c \<Longrightarrow> 0 < c"
    using inv by (auto simp: src_inv_def)
  from t key(2) show ?thesis
  proof (cases rule: src_find_cases)
    case (held i c)
    with full(1) pos [OF held(5)] show ?thesis by (simp add: src_abs_def)
  next
    case (free i)
    with full(2) key show ?thesis by (simp add: oc_srccount_inc_def Let_def)
  qed
qed

lemma src_dec_abs:
  assumes inv: "src_inv m" and key: "key = oc_source_key inet src OC_SRC_LEN" "key \<noteq> ''''"
  shows "\<exists>m'. oc_srccount_dec inet m src = Some m' \<and> src_inv m' \<and>
    src_abs m' = (src_abs m)(key := src_abs m key - 1) \<and> sc_cap m' = sc_cap m \<and>
    sc_n m' = (if src_abs m key = 1 then sc_n m - 1 else sc_n m)"
proof -
  have t: "src_table m" and pos: "\<And>key c. src_map m key = Some c \<Longrightarrow> 0 < c"
    using inv by (auto simp: src_inv_def)
  note ti = t [unfolded src_table_def]
  from t key(2) show ?thesis
  proof (cases rule: src_find_cases)
    case (free i)
    then have "src_abs m key = 0" by (simp add: src_abs_def)
    moreover from this have "(src_abs m)(key := src_abs m key - 1) = src_abs m" by (simp add: fun_upd_idem)
    ultimately show ?thesis
      using free key inv src_table_cap [OF t] by (simp add: oc_srccount_dec_def Let_def)
  next
    case (held i c)
    have abs: "src_abs m key = nat c" "0 < c" using held pos by (auto simp: src_abs_def)
    note r = table_replace [OF ti held(1,3) key(2), of "c - 1"]
    show ?thesis
    proof (cases "c = 1")
      case False
      let ?m = "m\<lparr>sc_counts := (sc_counts m)[i := c - 1]\<rparr>"
      have "src_table ?m" "src_map ?m = (src_map m)(key \<mapsto> c - 1)" using r by (simp_all add: src_table_def src_map_def)
      from src_set [OF inv _ this] have "src_inv ?m \<and> src_abs ?m = (src_abs m)(key := nat c - 1)"
        using abs False by (simp add: nat_diff_distrib')
      moreover have "oc_srccount_dec inet m src = Some ?m"
        using held key abs False src_table_cap [OF t] by (simp add: oc_srccount_dec_def Let_def)
      moreover have "nat c \<noteq> 1" using False abs by simp
      ultimately show ?thesis using abs by simp
    next
      case True
      have ne: "sc_keys m ! i \<noteq> ''''" using held key by simp
      from table_delete [OF r(1) held(1) ne src_home [OF t], where nul = 0] obtain keys' counts' hole where
        d: "shift_back '''' (src_slot_of (sc_cap m)) (sc_cap m) (sc_cap m) (sc_keys m) ((sc_counts m)[i := c - 1]) i
            (next_slot (sc_cap m) i) = Some (keys', counts', hole)"
          "table_inv '''' src_slot_of (keys'[hole := '''']) (counts'[hole := 0]) (sc_cap m) (sc_n m - 1)"
          "tab_map '''' (keys'[hole := '''']) (counts'[hole := 0]) = (src_map m)(key := None)"
        using held(3) r(2) by (auto simp: src_map_def)
      let ?m = "m\<lparr>sc_keys := keys'[hole := ''''], sc_counts := counts'[hole := 0], sc_n := sc_n m - 1\<rparr>"
      have "oc_srccount_dec inet m src = Some ?m"
        using d(1) held key ne True src_table_cap [OF t] by (simp add: oc_srccount_dec_def Let_def)
      moreover have "src_map ?m = (src_map m)(key := None)" using d(3) by (simp add: src_map_def)
      moreover from this have "src_abs ?m = (src_abs m)(key := 0)" by (auto simp: src_abs_def fun_eq_iff)
      ultimately show ?thesis
        using d(2) inv abs True by (auto simp: src_inv_def src_table_def split: if_splits)
    qed
  qed
qed

lemma src_init_ok:
  assumes "oc_srccount_init cap = (0, m)"
  shows "src_inv m \<and> src_abs m = (\<lambda>_. 0) \<and> sc_n m = 0 \<and> sc_cap m = cap"
proof -
  have cap: "2 \<le> cap" "cap AND (cap - 1) = 0"
    and m: "m = \<lparr>sc_keys = replicate cap '''', sc_counts = replicate cap 0, sc_cap = cap, sc_n = 0\<rparr>"
    using assms by (auto simp: oc_srccount_init_def split: if_splits)
  then obtain e where e: "cap = 2 ^ e" using pow2_test [of cap] by auto
  with cap(1) have "e > 0" by (cases e) simp_all
  note empty = table_empty [OF e this]
  show ?thesis
    unfolding m src_inv_def src_table_def src_map_def src_abs_def by (simp add: empty)
qed

section \<open>Whole histories\<close>

datatype src_op = Inc string | Dec string

fun src_run :: "inet \<Rightarrow> oc_srccount \<Rightarrow> src_op list \<Rightarrow> oc_srccount option" where
  "src_run inet m [] = Some m"
| "src_run inet m (Inc src # ops) =
     (case oc_srccount_inc inet m src of None \<Rightarrow> None | Some (rc, m) \<Rightarrow> src_run inet m ops)"
| "src_run inet m (Dec src # ops) =
     (case oc_srccount_dec inet m src of None \<Rightarrow> None | Some m \<Rightarrow> src_run inet m ops)"

text \<open>
  The same history on a function from keys to counts that takes no new key once \<open>limit\<close> of them are held.
\<close>

definition counted :: "nat \<Rightarrow> (string \<Rightarrow> nat) \<Rightarrow> string \<Rightarrow> string \<Rightarrow> bool" where
  "counted limit f src key \<longleftrightarrow> length src < OC_SRC_LEN \<and> key \<noteq> '''' \<and> (0 < f key \<or> card {k. 0 < f k} < limit)"

fun src_spec :: "inet \<Rightarrow> nat \<Rightarrow> (string \<Rightarrow> nat) \<Rightarrow> src_op list \<Rightarrow> string \<Rightarrow> nat" where
  "src_spec inet limit f [] = f"
| "src_spec inet limit f (Inc src # ops) =
     (let key = oc_source_key inet src OC_SRC_LEN in
      src_spec inet limit (if counted limit f src key then f(key := f key + 1) else f) ops)"
| "src_spec inet limit f (Dec src # ops) =
     (let key = oc_source_key inet src OC_SRC_LEN in src_spec inet limit (f(key := f key - 1)) ops)"

definition src_state :: "oc_srccount \<Rightarrow> bool" where
  "src_state m \<longleftrightarrow> src_inv m \<and> finite {k. 0 < src_abs m k} \<and> sc_n m = card {k. 0 < src_abs m k} \<and>
     src_abs m '''' = 0"

lemma held_update:
  "{k. 0 < (f(key := c)) k} = (if 0 < c then insert key {k. 0 < f k} else {k. 0 < f k} - {key})" for c :: nat
  by auto

lemma src_inc_step:
  assumes m: "src_state m" and key: "key = oc_source_key inet src OC_SRC_LEN"
  shows "\<exists>rc m'. oc_srccount_inc inet m src = Some (rc, m') \<and> src_state m' \<and> sc_cap m' = sc_cap m \<and>
    src_abs m' = (if counted (sc_cap m div 2) (src_abs m) src key
                  then (src_abs m)(key := src_abs m key + 1) else src_abs m)"
proof (cases "length src < OC_SRC_LEN \<and> key \<noteq> ''''")
  case False
  with m key show ?thesis by (auto simp: counted_def oc_srccount_inc_def Let_def)
next
  case True
  have inv: "src_inv m" and n: "sc_n m = card {k. 0 < src_abs m k}" "finite {k. 0 < src_abs m k}"
    using m by (auto simp: src_state_def)
  show ?thesis
  proof (cases "0 < src_abs m key \<or> sc_n m < sc_cap m div 2")
    case room: True
    with src_inc_abs [OF inv _ key] True obtain m' where
      m': "oc_srccount_inc inet m src = Some (int (src_abs m key) + 1, m')" "src_inv m'"
        "src_abs m' = (src_abs m)(key := src_abs m key + 1)" "sc_cap m' = sc_cap m"
        "sc_n m' = (if 0 < src_abs m key then sc_n m else Suc (sc_n m))" by blast
    have "{k. 0 < src_abs m' k} = insert key {k. 0 < src_abs m k}" using m'(3) held_update [of "src_abs m"] by simp
    with m' m True have "src_state m'" by (auto simp: src_state_def card_insert_if)
    moreover have "counted (sc_cap m div 2) (src_abs m) src key" using True room n by (simp add: counted_def)
    ultimately show ?thesis using m' by simp
  next
    case full: False
    then have "oc_srccount_inc inet m src = Some (-1, m)" using src_inc_full [OF inv key] True by simp
    with full m True n show ?thesis by (simp add: counted_def)
  qed
qed

lemma src_dec_step:
  assumes m: "src_state m" and key: "key = oc_source_key inet src OC_SRC_LEN"
  shows "\<exists>m'. oc_srccount_dec inet m src = Some m' \<and> src_state m' \<and> sc_cap m' = sc_cap m \<and>
    src_abs m' = (src_abs m)(key := src_abs m key - 1)"
proof (cases "key = ''''")
  case True
  with m have "(src_abs m)(key := src_abs m key - 1) = src_abs m" by (simp add: src_state_def fun_upd_idem)
  with True m key show ?thesis by (simp add: oc_srccount_dec_def)
next
  case False
  have inv: "src_inv m" and n: "sc_n m = card {k. 0 < src_abs m k}" "finite {k. 0 < src_abs m k}"
    using m by (auto simp: src_state_def)
  from src_dec_abs [OF inv key False] obtain m' where
    m': "oc_srccount_dec inet m src = Some m'" "src_inv m'"
      "src_abs m' = (src_abs m)(key := src_abs m key - 1)" "sc_cap m' = sc_cap m"
      "sc_n m' = (if src_abs m key = 1 then sc_n m - 1 else sc_n m)" by blast
  have "{k. 0 < src_abs m' k} = (if 1 < src_abs m key then {k. 0 < src_abs m k} else {k. 0 < src_abs m k} - {key})"
    using m'(3) by auto
  then have "finite {k. 0 < src_abs m' k} \<and> sc_n m' = card {k. 0 < src_abs m' k}"
    using m'(5) n by (auto simp: card_Diff_singleton_if)
  with m' m have "src_state m'" by (auto simp: src_state_def)
  with m' show ?thesis by simp
qed

lemma src_run_spec:
  "src_state m \<Longrightarrow> \<exists>m'. src_run inet m ops = Some m' \<and> src_state m' \<and>
    src_abs m' = src_spec inet (sc_cap m div 2) (src_abs m) ops"
proof (induction ops arbitrary: m)
  case Nil
  then show ?case by simp
next
  case (Cons op ops)
  show ?case
  proof (cases op)
    case (Inc src)
    from src_inc_step [OF Cons.prems refl, of inet src] Cons.IH Inc show ?thesis
      by (fastforce simp: Let_def split: if_splits)
  next
    case (Dec src)
    from src_dec_step [OF Cons.prems refl, of inet src] Cons.IH Dec show ?thesis
      by (fastforce simp: Let_def)
  qed
qed

text \<open>
  C21: after any history of increments and decrements on a map made by \<^verbatim>\<open>oc_srccount_init\<close>, every call has
  ended and \<^verbatim>\<open>oc_srccount_get\<close> returns for an address the increments counted under its key less the
  decrements. A count has no bound here, while the code's \<^verbatim>\<open>int\<close> ends at 2147483647. An increment is not counted only for an empty key, for a text longer than an address, and for
  a new key in a map that holds \<open>cap / 2\<close> of them.
\<close>

theorem srccount_counts:
  assumes "oc_srccount_init cap = (0, m)"
  shows "\<exists>m'. src_run inet m ops = Some m' \<and> (\<forall>src. oc_srccount_get inet m' src =
    Some (int (src_spec inet (cap div 2) (\<lambda>_. 0) ops (oc_source_key inet src OC_SRC_LEN))))"
proof -
  note m = src_init_ok [OF assms]
  then have "src_state m" by (simp add: src_state_def)
  from src_run_spec [OF this, of inet ops] m obtain m' where
    m': "src_run inet m ops = Some m'" "src_inv m'" "src_abs m' '''' = 0"
      "src_abs m' = src_spec inet (cap div 2) (\<lambda>_. 0) ops"
    by (auto simp: src_state_def)
  then show ?thesis using src_get_abs [OF m'(2)] by (auto simp: Let_def)
qed

definition no_inet :: inet where
  "no_inet = \<lparr>inet_pton6 = \<lambda>_. None, inet_ntop4 = \<lambda>_. '''', inet_ntop6 = \<lambda>_. None\<rparr>"

theorem srccount_counts_witness:
  "\<exists>m'. src_run no_inet (snd (oc_srccount_init 2)) [Inc ''10.0.0.1'', Inc ''10.0.0.1'', Dec ''10.0.0.1''] = Some m' \<and>
    oc_srccount_get no_inet m' ''10.0.0.1'' = Some 1"
proof -
  have init: "oc_srccount_init 2 = (0, snd (oc_srccount_init 2))" by (simp add: oc_srccount_init_def)
  from srccount_counts [OF init, of no_inet "[Inc ''10.0.0.1'', Inc ''10.0.0.1'', Dec ''10.0.0.1'']"] obtain m' where
    m': "src_run no_inet (snd (oc_srccount_init 2)) [Inc ''10.0.0.1'', Inc ''10.0.0.1'', Dec ''10.0.0.1''] = Some m'"
      "oc_srccount_get no_inet m' ''10.0.0.1'' = Some (int (src_spec no_inet 1 (\<lambda>_. 0)
         [Inc ''10.0.0.1'', Inc ''10.0.0.1'', Dec ''10.0.0.1''] (oc_source_key no_inet ''10.0.0.1'' OC_SRC_LEN)))"
    by auto
  then show ?thesis
    by (simp add: Let_def counted_def oc_source_key_def snprintf_s_def no_inet_def)
qed

section \<open>Which addresses share a count\<close>

definition net64 :: "u8 list \<Rightarrow> u8 list" where
  "net64 b = take 8 b @ replicate 8 0"

text \<open>What is used of the text of a network: it exists, it is read back, and it leaves room for \<^verbatim>\<open>/64\<close>.\<close>

definition net_text :: "inet \<Rightarrow> u8 list \<Rightarrow> bool" where
  "net_text inet b \<longleftrightarrow> (case inet_ntop6 inet (net64 b) of None \<Rightarrow> False
     | Some s \<Rightarrow> inet_pton6 inet s = Some (net64 b) \<and> length s < 42)"

text \<open>
  C34: two IPv6 addresses, neither an IPv4-mapped one, are counted under one key exactly when they are in
  the same /64.
\<close>

theorem source_key_by_64:
  assumes "CHR '':'' \<in> set a" "inet_pton6 inet a = Some x" "length x = 16" "take 12 x \<noteq> mapped" "net_text inet x"
    and "CHR '':'' \<in> set b" "inet_pton6 inet b = Some y" "length y = 16" "take 12 y \<noteq> mapped" "net_text inet y"
  shows "oc_source_key inet a OC_SRC_LEN = oc_source_key inet b OC_SRC_LEN \<longleftrightarrow> take 8 x = take 8 y"
proof -
  have key: "\<exists>s. oc_source_key inet c OC_SRC_LEN = s @ ''/64'' \<and> inet_ntop6 inet (net64 z) = Some s \<and>
      inet_pton6 inet s = Some (net64 z)"
    if "CHR '':'' \<in> set c" "inet_pton6 inet c = Some z" "take 12 z \<noteq> mapped" "net_text inet z" for c z
    using that by (auto simp: oc_source_key_def net_text_def net64_def snprintf_s_def
        split: option.splits)
  from key [OF assms(1,2,4,5)] key [OF assms(6,7,9,10)] assms(3,8) show ?thesis
    by (auto simp: net64_def)
qed

text \<open>An instance: the addresses \<^verbatim>\<open>1::1\<close> and \<^verbatim>\<open>1::2\<close>, in the network \<^verbatim>\<open>1::\<close>.\<close>

definition one_net :: inet where
  "one_net = \<lparr>inet_pton6 = (\<lambda>s. if s = ''1::'' then Some ([0, 1] @ replicate 14 0)
       else if s = ''1::1'' then Some ([0, 1] @ replicate 13 0 @ [1])
       else if s = ''1::2'' then Some ([0, 1] @ replicate 13 0 @ [2]) else None),
     inet_ntop4 = \<lambda>_. '''',
     inet_ntop6 = (\<lambda>b. if b = [0, 1] @ replicate 14 0 then Some ''1::'' else None)\<rparr>"

theorem source_key_by_64_witness:
  "oc_source_key one_net ''1::1'' OC_SRC_LEN = oc_source_key one_net ''1::2'' OC_SRC_LEN"
  using source_key_by_64 [of "''1::1''" one_net "[0, 1] @ replicate 13 0 @ [1]"
      "''1::2''" "[0, 1] @ replicate 13 0 @ [2]"]
  by (simp add: one_net_def net_text_def net64_def numeral_eq_Suc)

end
