(* ===== verification/Mention.thy ===== *)
theory Mention
  imports Ctext
begin

text \<open>
  The text scanners of \<^verbatim>\<open>shared/mention.c\<close>, which the daemon and the clients share: mentions
  (\<^verbatim>\<open>@name\<close>), channel references (\<^verbatim>\<open>#name\<close>) and keyword alerts. The loops are modelled with their
  positions; the theorems say that a scan finds every place the rules of \<^verbatim>\<open>mention.h\<close> describe, in
  order and none twice, and that a keyword match is the first whole-word occurrence.
\<close>

section \<open>Names\<close>

definition name_byte :: "char \<Rightarrow> bool" where
  "name_byte c \<longleftrightarrow> char_between (CHR ''a'') (CHR ''z'') c \<or> char_between (CHR ''A'') (CHR ''Z'') c \<or>
     char_between (CHR ''0'') (CHR ''9'') c \<or> c = CHR ''.'' \<or> c = CHR ''_'' \<or> c = CHR ''-''"

abbreviation OC_MENTION_NAME_MAX :: nat where "OC_MENTION_NAME_MAX \<equiv> 64"

abbreviation OC_MENTION_MAX :: nat where "OC_MENTION_MAX \<equiv> 32"

datatype mention_kind = OC_MENTION_USER | OC_MENTION_HERE | OC_MENTION_CHANNEL | OC_MENTION_EVERYONE

record oc_mention =
  mn_start :: nat
  mn_len :: nat
  mn_kind :: mention_kind
  mn_name :: string

record oc_chanref =
  cr_start :: nat
  cr_len :: nat
  cr_name :: string

text \<open>The two inner loops: to the end of the name bytes, and back over trailing punctuation.\<close>

function name_end :: "string \<Rightarrow> nat \<Rightarrow> nat" where
  "name_end body j = (if j < length body \<and> name_byte (body ! j) then name_end body (j + 1) else j)"
  by pat_completeness auto
termination by (relation "measure (\<lambda>(body, j). length body - j)") auto

definition name_punct :: "char \<Rightarrow> bool" where
  "name_punct c \<longleftrightarrow> c = CHR ''.'' \<or> c = CHR ''-'' \<or> c = CHR ''_''"

fun name_trim :: "string \<Rightarrow> nat \<Rightarrow> nat \<Rightarrow> nat" where
  "name_trim body i j = (if j > i + 1 \<and> name_punct (body ! (j - 1)) then name_trim body i (j - 1) else j)"

declare name_end.simps [simp del] name_trim.simps [simp del]

section \<open>The scan\<close>

text \<open>
  The loop that \<^verbatim>\<open>oc_mention_scan\<close> and \<^verbatim>\<open>oc_chanref_scan\<close> share: \<open>guard\<close> are the tests that
  \<^verbatim>\<open>continue\<close>, \<open>entry\<close> fills the slot. The result is how many were found and the slots written.
\<close>

function scan_loop ::
    "(string \<Rightarrow> nat \<Rightarrow> bool) \<Rightarrow> (string \<Rightarrow> nat \<Rightarrow> nat \<Rightarrow> 'm) \<Rightarrow> string \<Rightarrow> nat \<Rightarrow> nat \<Rightarrow> nat \<Rightarrow> nat \<times> 'm list" where
  "scan_loop guard entry body cap i found =
     (if i \<ge> length body then (found, [])
      else if \<not> guard body i then scan_loop guard entry body cap (i + 1) found
      else
        let j = name_trim body i (name_end body (i + 1)); nlen = j - (i + 1)
        in if nlen = 0 \<or> nlen \<ge> OC_MENTION_NAME_MAX
           then scan_loop guard entry body cap ((if j > i then j - 1 else i) + 1) found
           else
             let (n, out) = scan_loop guard entry body cap (j - 1 + 1) (found + 1)
             in (n, if found < cap then entry body i nlen # out else out))"
  by pat_completeness auto
termination by (relation "measure (\<lambda>(_, _, body, _, i, _). length body - i)") auto

declare scan_loop.simps [simp del]

definition after_name :: "string \<Rightarrow> nat \<Rightarrow> bool" where
  "after_name body i \<longleftrightarrow> i > 0 \<and> name_byte (body ! (i - 1))"

definition mention_entry :: "string \<Rightarrow> nat \<Rightarrow> nat \<Rightarrow> oc_mention" where
  "mention_entry body i nlen =
     (let name = take nlen (drop (i + 1) body)
      in \<lparr>mn_start = i, mn_len = nlen + 1,
          mn_kind = (if ieq name ''here'' then OC_MENTION_HERE
                     else if ieq name ''channel'' then OC_MENTION_CHANNEL
                     else if ieq name ''everyone'' then OC_MENTION_EVERYONE
                     else OC_MENTION_USER),
          mn_name = name\<rparr>)"

definition oc_mention_scan :: "string \<Rightarrow> nat \<Rightarrow> nat \<times> oc_mention list" where
  "oc_mention_scan body cap =
     scan_loop (\<lambda>body i. body ! i = CHR ''@'' \<and> \<not> after_name body i) mention_entry body cap 0 0"

definition chanref_entry :: "string \<Rightarrow> nat \<Rightarrow> nat \<Rightarrow> oc_chanref" where
  "chanref_entry body i nlen =
     \<lparr>cr_start = i, cr_len = nlen + 1, cr_name = take nlen (drop (i + 1) body)\<rparr>"

definition oc_chanref_scan :: "string \<Rightarrow> nat \<Rightarrow> nat \<times> oc_chanref list" where
  "oc_chanref_scan body cap =
     scan_loop (\<lambda>body i. body ! i = CHR ''#'' \<and> \<not> after_name body i \<and>
         \<not> (i + 1 < length body \<and> (body ! (i + 1) = CHR ''#'' \<or> body ! (i + 1) = CHR '' '')))
       chanref_entry body cap 0 0"

definition oc_mention_targets :: "string \<Rightarrow> string \<Rightarrow> bool" where
  "oc_mention_targets body name =
     list_ex (\<lambda>m. mn_kind m \<noteq> OC_MENTION_USER \<or> name \<noteq> '''' \<and> ieq (mn_name m) name)
       (snd (oc_mention_scan body 32))"

section \<open>Keywords\<close>

definition kw_wordish :: "char \<Rightarrow> bool" where
  "kw_wordish c \<longleftrightarrow> char_between (CHR ''a'') (CHR ''z'') c \<or> char_between (CHR ''A'') (CHR ''Z'') c \<or>
     char_between (CHR ''0'') (CHR ''9'') c \<or> c = CHR ''_''"

fun kw_same :: "string \<Rightarrow> string \<Rightarrow> bool" where
  "kw_same body [] = True"
| "kw_same [] (t # ts) = False"
| "kw_same (b # bs) (t # ts) = (ascii_lower b = ascii_lower t \<and> kw_same bs ts)"

function kw_loop :: "string \<Rightarrow> string \<Rightarrow> nat \<Rightarrow> (nat \<times> nat) option" where
  "kw_loop body trm i =
     (let tl = length trm
      in if i + tl > length body then None
         else if i > 0 \<and> kw_wordish (body ! (i - 1)) then kw_loop body trm (i + 1)
         else if \<not> kw_same (drop i body) trm then kw_loop body trm (i + 1)
         else if i + tl < length body \<and> kw_wordish (body ! (i + tl)) then kw_loop body trm (i + 1)
         else Some (i, tl))"
  by pat_completeness auto
termination by (relation "measure (\<lambda>(body, trm, i). Suc (length body) - i)") auto

declare kw_loop.simps [simp del]

definition oc_keyword_match :: "string \<Rightarrow> string \<Rightarrow> (nat \<times> nat) option" where
  "oc_keyword_match body trm =
     (if trm = '''' \<or> length trm > length body then None else kw_loop body trm 0)"

section \<open>What the scans find\<close>

text \<open>
  The rules, by themselves: the name at a sigil is the longest run of name bytes after it, less its
  trailing punctuation.
\<close>

definition strip_punct :: "string \<Rightarrow> string" where
  "strip_punct s = rev (dropWhile name_punct (rev s))"

definition name_at :: "string \<Rightarrow> nat \<Rightarrow> string" where
  "name_at body i = strip_punct (takeWhile name_byte (drop (i + 1) body))"

definition named_at :: "string \<Rightarrow> nat \<Rightarrow> bool" where
  "named_at body i \<longleftrightarrow> 0 < length (name_at body i) \<and> length (name_at body i) < OC_MENTION_NAME_MAX"

lemma strip_punct_append: "\<exists>t. s = strip_punct s @ t"
proof -
  have "rev s = takeWhile name_punct (rev s) @ dropWhile name_punct (rev s)" by simp
  then have "s = rev (dropWhile name_punct (rev s)) @ rev (takeWhile name_punct (rev s))"
    by (metis rev_append rev_rev_ident)
  then show ?thesis by (auto simp: strip_punct_def)
qed

lemma name_at_take: "take (length (name_at body i)) (drop (i + 1) body) = name_at body i"
proof -
  obtain t where "takeWhile name_byte (drop (i + 1) body) = name_at body i @ t"
    using strip_punct_append by (auto simp: name_at_def)
  moreover have "takeWhile name_byte (drop (i + 1) body) @ dropWhile name_byte (drop (i + 1) body) = drop (i + 1) body"
    by simp
  ultimately show ?thesis by (metis append.assoc append_eq_conv_conj)
qed

lemma name_end_eq: "j \<le> length body \<Longrightarrow> name_end body j = j + length (takeWhile name_byte (drop j body))"
proof (induction body j rule: name_end.induct)
  case (1 body j)
  show ?case
  proof (cases "j < length body \<and> name_byte (body ! j)")
    case True
    then have "drop j body = body ! j # drop (j + 1) body" by (simp add: Cons_nth_drop_Suc)
    then have "takeWhile name_byte (drop j body) = body ! j # takeWhile name_byte (drop (j + 1) body)"
      using True by simp
    with 1 True show ?thesis by (subst name_end.simps) simp
  next
    case False
    then have "takeWhile name_byte (drop j body) = []"
      using 1(2) by (cases "j < length body") (auto simp: Cons_nth_drop_Suc [symmetric])
    with False show ?thesis by (subst name_end.simps) auto
  qed
qed

lemma name_trim_eq:
  "j \<le> length body \<Longrightarrow> i + 1 \<le> j \<Longrightarrow>
    name_trim body i j = i + 1 + length (strip_punct (take (j - (i + 1)) (drop (i + 1) body)))"
proof (induction body i j rule: name_trim.induct)
  case (1 body i j)
  show ?case
  proof (cases "j > i + 1")
    case False
    with 1(3) show ?thesis by (subst name_trim.simps) (simp add: strip_punct_def)
  next
    case True
    let ?xs = "take (j - 1 - (i + 1)) (drop (i + 1) body)"
    have "take (j - (i + 1)) (drop (i + 1) body) = ?xs @ [body ! (j - 1)]"
      using True 1(2) take_Suc_conv_app_nth [of "j - 1 - (i + 1)" "drop (i + 1) body"]
      by (cases j) (simp_all add: Suc_diff_Suc)
    then have strip: "strip_punct (take (j - (i + 1)) (drop (i + 1) body)) =
        (if name_punct (body ! (j - 1)) then strip_punct ?xs else ?xs @ [body ! (j - 1)])"
      by (simp add: strip_punct_def)
    show ?thesis
    proof (cases "name_punct (body ! (j - 1))")
      case True': True
      have "name_trim body i (j - 1) = i + 1 + length (strip_punct ?xs)"
        using 1(1) [OF conjI [OF True True']] 1(2) True by simp
      then show ?thesis using True True' strip by (subst name_trim.simps) simp
    next
      case False
      then show ?thesis using True strip 1(2) by (subst name_trim.simps) simp
    qed
  qed
qed

lemma name_trim_name:
  assumes "i < length body"
  shows "name_trim body i (name_end body (i + 1)) = i + 1 + length (name_at body i)"
proof -
  let ?run = "takeWhile name_byte (drop (i + 1) body)"
  have e: "name_end body (i + 1) = i + 1 + length ?run" using name_end_eq [of "i + 1" body] assms by simp
  have "length ?run \<le> length (drop (i + 1) body)" by (rule length_takeWhile_le)
  then have "name_end body (i + 1) \<le> length body" using assms e by simp
  with name_trim_eq [of "name_end body (i + 1)" body i] e
  show ?thesis by (simp add: name_at_def takeWhile_eq_take [symmetric])
qed

lemma name_at_bytes:
  assumes "k < length (name_at body i)"
  shows "name_byte (body ! (i + 1 + k))" "i + 1 + k < length body"
proof -
  obtain t where run: "takeWhile name_byte (drop (i + 1) body) = name_at body i @ t"
    using strip_punct_append by (auto simp: name_at_def)
  then have len: "k < length (takeWhile name_byte (drop (i + 1) body))" using assms by simp
  also have "\<dots> \<le> length (drop (i + 1) body)" by (rule length_takeWhile_le)
  finally show le: "i + 1 + k < length body" by simp
  have "name_byte (takeWhile name_byte (drop (i + 1) body) ! k)" using len by (metis nth_mem set_takeWhileD)
  then show "name_byte (body ! (i + 1 + k))" using len le by (simp add: takeWhile_nth)
qed

lemma filter_upt_skip:
  assumes "i \<le> j" "\<And>k. i \<le> k \<Longrightarrow> k < j \<Longrightarrow> k < n \<Longrightarrow> \<not> P k"
  shows "filter P [i..<n] = filter P [j..<n]"
proof (cases "j \<le> n")
  case True
  then have "[i..<n] = [i..<j] @ [j..<n]" using assms(1) by (metis le_add_diff_inverse upt_add_eq_append)
  moreover have "filter P [i..<j] = []" using assms True by (auto simp: filter_empty_conv)
  ultimately show ?thesis by simp
next
  case False
  then show ?thesis using assms by (auto simp: filter_empty_conv)
qed

lemma scan_loop_eq:
  assumes sigil: "\<And>k. k < length body \<Longrightarrow> guard body k \<Longrightarrow> \<not> name_byte (body ! k)"
  shows "i \<le> length body \<Longrightarrow> scan_loop guard entry body cap i found =
    (let places = filter (\<lambda>i. guard body i \<and> named_at body i) [i..<length body]
     in (found + length places, map (\<lambda>i. entry body i (length (name_at body i))) (take (cap - found) places)))"
proof (induction "length body - i" arbitrary: i found rule: less_induct)
  case (less i found)
  let ?P = "\<lambda>i. guard body i \<and> named_at body i"
  let ?j = "name_trim body i (name_end body (i + 1))"
  show ?case
  proof (cases "i < length body")
    case False
    with less.prems show ?thesis by (subst scan_loop.simps) simp
  next
    case i: True
    then have upt: "[i..<length body] = i # [Suc i..<length body]" by (simp add: upt_conv_Cons)
    show ?thesis
    proof (cases "guard body i")
      case False
      then show ?thesis using less.hyps [of "i + 1" found] i upt by (subst scan_loop.simps) simp
    next
      case g: True
      define n where "n = length (name_at body i)"
      have j: "?j = i + 1 + n" unfolding n_def by (rule name_trim_name [OF i])
      have len: "i + 1 + n \<le> length body"
        using name_at_bytes(2) [of "n - 1" body i] i by (cases n) (auto simp: n_def)
      have "\<not> guard body k" if "i + 1 \<le> k" "k < i + 1 + n" "k < length body" for k
        using name_at_bytes(1) [of "k - (i + 1)" body i] sigil [of k] that by (auto simp: n_def)
      then have skip: "filter ?P [Suc i..<length body] = filter ?P [Suc (i + n)..<length body]"
        by (intro filter_upt_skip) auto
      note IH = less.hyps [of "i + 1 + n", OF _ len]
      show ?thesis
      proof (cases "n = 0 \<or> n \<ge> OC_MENTION_NAME_MAX")
        case True
        then have "scan_loop guard entry body cap i found = scan_loop guard entry body cap (i + 1 + n) found"
          using i g j by (subst scan_loop.simps) (simp add: Let_def)
        moreover have "\<not> named_at body i" using True by (auto simp: named_at_def n_def)
        ultimately show ?thesis using IH [of found] i by (simp add: upt skip)
      next
        case False
        then have "scan_loop guard entry body cap i found =
            (let (m, out) = scan_loop guard entry body cap (i + 1 + n) (found + 1)
             in (m, if found < cap then entry body i n # out else out))"
          using i g j by (subst scan_loop.simps) (simp add: Let_def split: prod.split)
        moreover have "named_at body i" using False by (auto simp: named_at_def n_def)
        ultimately show ?thesis
          using IH [of "found + 1"] i g by (auto simp: upt skip Let_def take_Cons' n_def)
      qed
    qed
  qed
qed

text \<open>
  C31: the mention scanner is complete and exact: it reports how many mentions the text has, and writes the
  first \<open>cap\<close> of them in order, where a mention is an \<^verbatim>\<open>@\<close> that does not follow a name byte and whose
  name (the longest run of name bytes, less its trailing punctuation) has between 1 and 63 bytes.
\<close>

theorem mention_scan_exact:
  "oc_mention_scan body cap =
    (let places = filter (\<lambda>i. body ! i = CHR ''@'' \<and> \<not> after_name body i \<and> named_at body i) [0..<length body]
     in (length places, map (\<lambda>i. mention_entry body i (length (name_at body i))) (take cap places)))"
  unfolding oc_mention_scan_def
  by (subst scan_loop_eq) (auto simp: name_byte_def char_between_def conj_assoc)

lemma chanref_scan_exact:
  "oc_chanref_scan body cap =
    (let places = filter (\<lambda>i. body ! i = CHR ''#'' \<and> \<not> after_name body i \<and>
         \<not> (i + 1 < length body \<and> (body ! (i + 1) = CHR ''#'' \<or> body ! (i + 1) = CHR '' '')) \<and>
         named_at body i) [0..<length body]
     in (length places, map (\<lambda>i. chanref_entry body i (length (name_at body i))) (take cap places)))"
  unfolding oc_chanref_scan_def
  by (subst scan_loop_eq) (auto simp: name_byte_def char_between_def conj_assoc)

lemma mention_entry_name: "mn_name (mention_entry body i (length (name_at body i))) = name_at body i"
  using name_at_take [of body i] by (simp add: mention_entry_def Let_def)

section \<open>What a keyword match is\<close>

definition kw_at :: "string \<Rightarrow> string \<Rightarrow> nat \<Rightarrow> bool" where
  "kw_at body trm i \<longleftrightarrow> i + length trm \<le> length body \<and>
     map ascii_lower (take (length trm) (drop i body)) = map ascii_lower trm \<and>
     \<not> (i > 0 \<and> kw_wordish (body ! (i - 1))) \<and>
     \<not> (i + length trm < length body \<and> kw_wordish (body ! (i + length trm)))"

lemma kw_same_eq: "kw_same body trm \<longleftrightarrow>
    length trm \<le> length body \<and> map ascii_lower (take (length trm) body) = map ascii_lower trm"
  by (induction body trm rule: kw_same.induct) auto

lemma kw_loop_find:
  "kw_loop body trm i = map_option (\<lambda>i. (i, length trm)) (find (kw_at body trm) [i..<Suc (length body)])"
proof (induction body trm i rule: kw_loop.induct)
  case (1 body trm i)
  show ?case
  proof (cases "i + length trm \<le> length body")
    case False
    then have "find (kw_at body trm) [i..<Suc (length body)] = None"
      by (auto simp: find_None_iff kw_at_def)
    with False show ?thesis by (subst kw_loop.simps) (simp add: Let_def)
  next
    case True
    then have upt: "[i..<Suc (length body)] = i # [i + 1..<Suc (length body)]" by (subst upt_conv_Cons) simp_all
    have at: "kw_at body trm i \<longleftrightarrow> \<not> (i > 0 \<and> kw_wordish (body ! (i - 1))) \<and> kw_same (drop i body) trm \<and>
        \<not> (i + length trm < length body \<and> kw_wordish (body ! (i + length trm)))"
      using True by (auto simp: kw_same_eq kw_at_def)
    show ?thesis
      unfolding kw_loop.simps [of body trm i] upt
      using 1 True by (auto simp: Let_def at simp del: upt_Suc)
  qed
qed

text \<open>
  C32: a keyword match is the first place where the text holds the whole term, without regard to ASCII case, with
  no letter, digit or underscore on either side; a search finds it whenever there is one, and an empty
  term matches nothing.
\<close>

theorem keyword_match_first:
  "oc_keyword_match body trm =
    (if trm = '''' then None
     else map_option (\<lambda>i. (i, length trm)) (find (kw_at body trm) [0..<Suc (length body)]))"
proof -
  have "find (kw_at body trm) [0..<Suc (length body)] = None" if "length trm > length body"
    using that by (auto simp: find_None_iff kw_at_def)
  then show ?thesis by (simp add: oc_keyword_match_def kw_loop_find del: upt_Suc)
qed

end
