(* ===== verification/Notify.thy ===== *)
theory Notify
  imports OC_Prelude
begin

text \<open>
  The notification rule of \<^verbatim>\<open>shared/notify.c\<close>: the daily window, the schedule and the decision. Flags are
  \<open>bool\<close>, minutes and modes \<open>int\<close>. The theorem on windows says that the three comparisons of
  \<^verbatim>\<open>oc_notify_in_window\<close> are one cyclic interval of the day.
\<close>

abbreviation OC_DND_OFF :: int where "OC_DND_OFF \<equiv> 0"
abbreviation OC_DND_EVERY_DAY :: int where "OC_DND_EVERY_DAY \<equiv> 1"
abbreviation OC_DND_WEEKDAYS :: int where "OC_DND_WEEKDAYS \<equiv> 2"
abbreviation OC_DND_CUSTOM :: int where "OC_DND_CUSTOM \<equiv> 3"
abbreviation OC_NOTIFY_ALL :: u8 where "OC_NOTIFY_ALL \<equiv> 0"
abbreviation OC_NOTIFY_MENTIONS :: u8 where "OC_NOTIFY_MENTIONS \<equiv> 1"
abbreviation OC_NOTIFY_NONE :: u8 where "OC_NOTIFY_NONE \<equiv> 2"

definition oc_notify_in_window :: "int \<Rightarrow> int \<Rightarrow> int \<Rightarrow> bool" where
  "oc_notify_in_window start_min end_min now_min =
     (if start_min = end_min then False
      else if start_min < end_min then now_min \<ge> start_min \<and> now_min < end_min
      else now_min \<ge> start_min \<or> now_min < end_min)"

definition oc_notify_quiet ::
    "int \<Rightarrow> int \<Rightarrow> int \<Rightarrow> bool \<Rightarrow> bool \<Rightarrow> int \<Rightarrow> int \<Rightarrow> int \<Rightarrow> int \<Rightarrow> bool" where
  "oc_notify_quiet mode base_start base_end day_present day_enabled day_start day_end local_min weekday =
     (if mode = OC_DND_OFF then False
      else if mode = OC_DND_WEEKDAYS \<and> (weekday = 0 \<or> weekday = 6) then True
      else if mode = OC_DND_CUSTOM then
        if \<not> day_present \<or> \<not> day_enabled then True
        else \<not> oc_notify_in_window day_start day_end local_min
      else \<not> oc_notify_in_window base_start base_end local_min)"

definition oc_notify_decide ::
    "bool \<Rightarrow> bool \<Rightarrow> bool \<Rightarrow> u8 \<Rightarrow> bool \<Rightarrow> bool \<Rightarrow> bool \<Rightarrow> bool \<Rightarrow> bool \<Rightarrow> bool" where
  "oc_notify_decide own muted vip level mentioned keyword_hit thread_reply quiet paused =
     (if own then False
      else if muted then False
      else if vip then True
      else if quiet \<or> paused then False
      else if level = OC_NOTIFY_ALL then True
      else if level = OC_NOTIFY_MENTIONS then mentioned \<or> keyword_hit \<or> thread_reply
      else False)"

section \<open>Windows\<close>

lemma mod_day:
  assumes "-1440 < x" "x < 1440"
  shows "x mod 1440 = (if 0 \<le> x then x else x + 1440 :: int)"
proof (cases "0 \<le> x")
  case False
  have "x mod 1440 = (x + 1440) mod 1440" by simp
  also have "\<dots> = x + 1440" using False assms by (intro mod_pos_pos_trivial) linarith+
  finally show ?thesis using False by simp
qed (use assms in simp)

lemma window_cyclic:
  assumes "0 \<le> s" "s < 1440" "0 \<le> e" "e < 1440" "0 \<le> t" "t < 1440"
  shows "oc_notify_in_window s e t \<longleftrightarrow> (t - s) mod 1440 < (e - s) mod 1440"
  using assms by (auto simp: oc_notify_in_window_def mod_day)

lemma window_complement:
  "s \<noteq> e \<Longrightarrow> oc_notify_in_window e s t \<longleftrightarrow> \<not> oc_notify_in_window s e t"
  by (auto simp: oc_notify_in_window_def)

text \<open>
  C33: on any weekday the quiet minutes of a schedule are exactly those outside the cyclic interval of the
  day from the first to the last allowed minute, whether or not it wraps past midnight; the weekend of
  a weekdays schedule and a day a custom schedule does not enable are quiet throughout.
\<close>

theorem quiet_outside_window:
  assumes "0 \<le> base_start" "base_start < 1440" "0 \<le> base_end" "base_end < 1440"
    and "0 \<le> day_start" "day_start < 1440" "0 \<le> day_end" "day_end < 1440"
    and "0 \<le> local_min" "local_min < 1440"
  shows "oc_notify_quiet mode base_start base_end day_present day_enabled day_start day_end local_min weekday \<longleftrightarrow>
    (if mode = OC_DND_OFF then False
     else if mode = OC_DND_CUSTOM then
       \<not> (day_present \<and> day_enabled \<and> (local_min - day_start) mod 1440 < (day_end - day_start) mod 1440)
     else \<not> (\<not> (mode = OC_DND_WEEKDAYS \<and> weekday \<in> {0, 6}) \<and>
             (local_min - base_start) mod 1440 < (base_end - base_start) mod 1440))"
  unfolding oc_notify_quiet_def
  using window_cyclic [OF assms(1-4,9,10)] window_cyclic [OF assms(5-10)] by auto

theorem quiet_outside_window_witness:
  "oc_notify_quiet OC_DND_WEEKDAYS 1320 360 False False 0 0 720 3"
  using quiet_outside_window [of 1320 360 0 0 720 OC_DND_WEEKDAYS False False 3] by simp

section \<open>Decisions\<close>

lemma decide_own [simp]: "\<not> oc_notify_decide True muted vip level mentioned keyword_hit thread_reply quiet paused"
  by (simp add: oc_notify_decide_def)

lemma decide_muted [simp]: "\<not> oc_notify_decide own True vip level mentioned keyword_hit thread_reply quiet paused"
  by (simp add: oc_notify_decide_def)

lemma decide_reasons_mono:
  "oc_notify_decide own muted vip level mentioned keyword_hit thread_reply quiet paused \<Longrightarrow>
    (vip \<longrightarrow> vip') \<Longrightarrow> (mentioned \<longrightarrow> mentioned') \<Longrightarrow> (keyword_hit \<longrightarrow> keyword_hit') \<Longrightarrow>
    (thread_reply \<longrightarrow> thread_reply') \<Longrightarrow> (quiet' \<longrightarrow> quiet) \<Longrightarrow> (paused' \<longrightarrow> paused) \<Longrightarrow>
    oc_notify_decide own muted vip' level mentioned' keyword_hit' thread_reply' quiet' paused'"
  by (auto simp: oc_notify_decide_def split: if_splits)

end
