(* ===== verification/Array_Lists.thy ===== *)
theory Array_Lists
  imports Main "HOL-Library.Multiset"
begin

text \<open>
  The loops over counted arrays that the sources repeat, on lists: find the first entry with a key and
  update it, remove it keeping the order (\<^verbatim>\<open>memmove\<close>), remove it by moving the last entry into its place,
  update it or append a new one, and sweep out, from the back, the entries a list answer did not
  mention. \<open>keyed\<close> says that no two entries share a key; every one of them keeps it.
\<close>

fun upd_first :: "('a \<Rightarrow> bool) \<Rightarrow> ('a \<Rightarrow> 'a) \<Rightarrow> 'a list \<Rightarrow> 'a list" where
  "upd_first P f [] = []"
| "upd_first P f (x # xs) = (if P x then f x # xs else x # upd_first P f xs)"

fun remove_first :: "('a \<Rightarrow> bool) \<Rightarrow> 'a list \<Rightarrow> 'a list" where
  "remove_first P [] = []"
| "remove_first P (x # xs) = (if P x then xs else x # remove_first P xs)"

text \<open>\<^verbatim>\<open>a[i] = a[--n]\<close>, at a position and at the first entry with a property.\<close>

definition swap_remove :: "nat \<Rightarrow> 'a list \<Rightarrow> 'a list" where
  "swap_remove i xs = butlast (xs[i := last xs])"

fun first_index :: "('a \<Rightarrow> bool) \<Rightarrow> 'a list \<Rightarrow> nat option" where
  "first_index P [] = None"
| "first_index P (x # xs) = (if P x then Some 0 else map_option Suc (first_index P xs))"

definition swap_remove_first :: "('a \<Rightarrow> bool) \<Rightarrow> 'a list \<Rightarrow> 'a list" where
  "swap_remove_first P xs = (case first_index P xs of None \<Rightarrow> xs | Some i \<Rightarrow> swap_remove i xs)"

definition upsert :: "('a \<Rightarrow> bool) \<Rightarrow> ('a \<Rightarrow> 'a) \<Rightarrow> 'a \<Rightarrow> 'a list \<Rightarrow> 'a list" where
  "upsert P f new xs = (if list_ex P xs then upd_first P f xs else xs @ [new])"

text \<open>\<^verbatim>\<open>for (i = n; i-- > 0; ) if (stale(a[i])) a[i] = a[--n];\<close>\<close>

fun sweep_down :: "('a \<Rightarrow> bool) \<Rightarrow> nat \<Rightarrow> 'a list \<Rightarrow> 'a list" where
  "sweep_down stale 0 xs = xs"
| "sweep_down stale (Suc i) xs = sweep_down stale i (if stale (xs ! i) then swap_remove i xs else xs)"

text \<open>A bounded array that drops its oldest entry when it is full.\<close>

definition push_bounded :: "nat \<Rightarrow> 'a \<Rightarrow> 'a list \<Rightarrow> 'a list" where
  "push_bounded n x xs = (if length xs = n then drop 1 xs else xs) @ [x]"

definition keyed :: "('a \<Rightarrow> 'k) \<Rightarrow> 'a list \<Rightarrow> bool" where
  "keyed k xs \<longleftrightarrow> distinct (map k xs)"

section \<open>Updating\<close>

lemma length_upd_first [simp]: "length (upd_first P f xs) = length xs"
  by (induction xs) auto

lemma set_upd_first: "set (upd_first P f xs) \<subseteq> set xs \<union> f ` {x \<in> set xs. P x}"
  by (induction xs) auto

lemma upd_first_all:
  "list_all Q xs \<Longrightarrow> (\<And>x. Q x \<Longrightarrow> P x \<Longrightarrow> Q (f x)) \<Longrightarrow> list_all Q (upd_first P f xs)"
  by (induction xs) auto

lemma upd_first_same: "(\<And>x. P x \<Longrightarrow> g (f x) = g x) \<Longrightarrow> map g (upd_first P f xs) = map g xs"
  by (induction xs) auto

lemma upd_first_none: "\<not> list_ex P xs \<Longrightarrow> upd_first P f xs = xs"
  by (induction xs) auto

lemma upd_first_map: "keyed k xs \<Longrightarrow>
    upd_first (\<lambda>x. k x = a) f xs = map (\<lambda>x. if k x = a then f x else x) xs"
proof (induction xs)
  case (Cons x xs)
  have "k y \<noteq> k x" if "y \<in> set xs" for y using Cons.prems that by (metis distinct.simps(2) image_eqI keyed_def list.set_map list.simps(9))
  then have "map (\<lambda>y. if k y = k x then f y else y) xs = xs" by (auto intro!: map_idI)
  with Cons show ?case by (auto simp: keyed_def)
qed simp

lemma find_upd_first:
  "(\<And>x. P x \<Longrightarrow> P (f x)) \<Longrightarrow> find P (upd_first P f xs) = map_option f (find P xs)"
  by (induction xs) auto

lemma find_upd_other:
  "(\<And>x. P x \<Longrightarrow> \<not> Q x \<and> \<not> Q (f x)) \<Longrightarrow> find Q (upd_first P f xs) = find Q xs"
  by (induction xs) auto

lemma keyed_upd_first [intro]: "keyed k xs \<Longrightarrow> (\<And>x. P x \<Longrightarrow> k (f x) = k x) \<Longrightarrow> keyed k (upd_first P f xs)"
  by (simp add: keyed_def upd_first_same)

section \<open>Removing\<close>

lemma set_remove_first: "set (remove_first P xs) \<subseteq> set xs"
  by (induction xs) auto

lemma keyed_remove_first [intro]: "keyed k xs \<Longrightarrow> keyed k (remove_first P xs)"
  using set_remove_first by (induction xs) (fastforce simp: keyed_def)+

lemma remove_first_filter: "keyed k xs \<Longrightarrow> remove_first (\<lambda>x. k x = a) xs = filter (\<lambda>x. k x \<noteq> a) xs"
proof (induction xs)
  case (Cons x xs)
  have "k y \<noteq> k x" if "y \<in> set xs" for y using Cons.prems that by (metis distinct.simps(2) image_eqI keyed_def list.set_map list.simps(9))
  then have "filter (\<lambda>y. k y \<noteq> k x) xs = xs" by (auto simp: filter_id_conv)
  with Cons show ?case by (auto simp: keyed_def)
qed simp

lemma first_index_Some: "first_index P xs = Some i \<Longrightarrow> i < length xs \<and> P (xs ! i)"
  by (induction xs arbitrary: i) (auto split: if_splits)

lemma first_index_None: "first_index P xs = None \<longleftrightarrow> \<not> list_ex P xs"
  by (induction xs) auto

lemma mset_swap_remove: "i < length xs \<Longrightarrow> mset (swap_remove i xs) = mset xs - {#xs ! i#}"
proof (cases xs rule: rev_cases)
  case (snoc ys y)
  moreover assume "i < length xs"
  ultimately show ?thesis
    by (cases "i = length ys")
      (auto simp: swap_remove_def list_update_append butlast_append nth_append mset_update)
qed simp

lemma length_swap_remove [simp]: "i < length xs \<Longrightarrow> length (swap_remove i xs) = length xs - 1"
  by (simp add: swap_remove_def)

lemma keyed_mset_eq: "mset xs = mset ys \<Longrightarrow> keyed k xs = keyed k ys"
  unfolding keyed_def by (rule mset_eq_imp_distinct_iff) simp

lemma keyed_mset: "keyed k xs \<Longrightarrow> mset ys \<subseteq># mset xs \<Longrightarrow> keyed k ys"
proof -
  assume k: "keyed k xs" and "mset ys \<subseteq># mset xs"
  then obtain zs where "mset xs = mset (ys @ zs)" by (metis mset_append ex_mset mset_subset_eq_exists_conv)
  with k have "keyed k (ys @ zs)" by (simp add: keyed_mset_eq [of xs "ys @ zs"])
  then show ?thesis by (simp add: keyed_def)
qed

lemma keyed_swap_remove [intro]: "i < length xs \<Longrightarrow> keyed k xs \<Longrightarrow> keyed k (swap_remove i xs)"
  by (rule keyed_mset [of k xs]) (simp_all add: mset_swap_remove)

lemma swap_remove_first_mset:
  "mset (swap_remove_first P xs) \<subseteq># mset xs"
  by (auto simp: swap_remove_first_def mset_swap_remove dest: first_index_Some split: option.split)

lemma set_swap_remove_first: "set (swap_remove_first P xs) \<subseteq> set xs"
  using swap_remove_first_mset by (metis set_mset_mset set_mset_mono)

lemma keyed_swap_remove_first [intro]: "keyed k xs \<Longrightarrow> keyed k (swap_remove_first P xs)"
  by (rule keyed_mset [OF _ swap_remove_first_mset])

lemma swap_remove_first_gone:
  assumes "keyed k xs"
  shows "mset (swap_remove_first (\<lambda>x. k x = a) xs) = filter_mset (\<lambda>x. k x \<noteq> a) (mset xs)"
proof (cases "first_index (\<lambda>x. k x = a) xs")
  case None
  then have "\<forall>x \<in> set xs. k x \<noteq> a" by (auto simp: first_index_None list_ex_iff)
  then have "filter_mset (\<lambda>x. k x \<noteq> a) (mset xs) = mset xs" by (simp add: filter_mset_eq_conv)
  with None show ?thesis by (simp add: swap_remove_first_def)
next
  case (Some i)
  then have i: "i < length xs" "k (xs ! i) = a" using first_index_Some [OF Some] by auto
  have "filter_mset (\<lambda>x. k x \<noteq> a) (mset xs) = mset xs - {#xs ! i#}"
  proof -
    have "xs = take i xs @ xs ! i # drop (Suc i) xs" by (simp add: i id_take_nth_drop)
    then obtain ys zs where xs: "xs = ys @ xs ! i # zs" by blast
    then have "\<forall>y \<in> set ys \<union> set zs. k y \<noteq> a"
      using assms i(2) unfolding keyed_def by (metis (no_types, lifting) UnE disjoint_insert(1) distinct.simps(2) distinct_append image_eqI list.set_map list.simps(15) list.simps(9) map_append)
    then have "filter (\<lambda>x. k x \<noteq> a) (ys @ xs ! i # zs) = ys @ zs" using i(2) by (auto simp: filter_id_conv)
    then show ?thesis using xs by (metis add_mset_remove_trivial mset.simps(2) mset_append mset_filter union_mset_add_mset_right)
  qed
  then show ?thesis using i Some by (simp add: swap_remove_first_def mset_swap_remove)
qed

section \<open>Adding\<close>

lemma keyed_upsert [intro]:
  "keyed k xs \<Longrightarrow> (\<And>x. k x = a \<Longrightarrow> k (f x) = a) \<Longrightarrow> k new = a \<Longrightarrow> keyed k (upsert (\<lambda>x. k x = a) f new xs)"
  by (cases "list_ex (\<lambda>x. k x = a) xs") (auto simp: upsert_def keyed_def list_ex_iff upd_first_same [of "\<lambda>x. k x = a" k f])

lemma find_upsert:
  "(\<And>x. P x \<Longrightarrow> P (f x)) \<Longrightarrow> P new \<Longrightarrow>
    find P (upsert P f new xs) = Some (case find P xs of None \<Rightarrow> new | Some x \<Rightarrow> f x)"
  by (induction xs) (auto simp: upsert_def find_upd_first split: option.splits)

lemma length_push_bounded: "length xs \<le> n \<Longrightarrow> 0 < n \<Longrightarrow> length (push_bounded n x xs) \<le> n"
  by (auto simp: push_bounded_def)

lemma set_push_bounded: "set (push_bounded n x xs) \<subseteq> insert x (set xs)"
  by (auto simp: push_bounded_def dest: in_set_dropD)

section \<open>Sweeping\<close>

text \<open>What a sweep leaves is what was not stale, once each, in an order it does not keep.\<close>

lemma sweep_down_part:
  "i \<le> length xs \<Longrightarrow> list_all (\<lambda>x. \<not> stale x) (drop i xs) \<Longrightarrow>
    mset (sweep_down stale i xs) = filter_mset (\<lambda>x. \<not> stale x) (mset xs)"
proof (induction stale i xs rule: sweep_down.induct)
  case (1 stale xs)
  then have "filter_mset (\<lambda>x. \<not> stale x) (mset xs) = mset xs" by (simp add: filter_mset_eq_conv list_all_iff)
  then show ?case by simp
next
  case (2 stale i xs)
  have i: "i < length xs" using "2.prems"(1) by simp
  have drop: "drop i xs = xs ! i # drop (Suc i) xs" using i by (simp add: Cons_nth_drop_Suc)
  show ?case
  proof (cases "stale (xs ! i)")
    case False
    with 2 drop i show ?thesis by simp
  next
    case True
    have "set (drop i (swap_remove i xs)) \<subseteq> set (drop (Suc i) xs)"
    proof (cases xs rule: rev_cases)
      case (snoc ys y)
      then show ?thesis using i
        by (cases "i = length ys")
          (auto simp: swap_remove_def list_update_append butlast_append drop_update_cancel
            upd_conv_take_nth_drop dest: in_set_dropD)
    qed (use i in simp)
    then have "list_all (\<lambda>x. \<not> stale x) (drop i (swap_remove i xs))"
      using "2.prems"(2) by (auto simp: list_all_iff)
    moreover have "i \<le> length (swap_remove i xs)" using i by simp
    moreover have "filter_mset (\<lambda>x. \<not> stale x) (mset (swap_remove i xs)) = filter_mset (\<lambda>x. \<not> stale x) (mset xs)"
      using i True by (simp add: mset_swap_remove)
    ultimately show ?thesis using "2.IH" True by simp
  qed
qed

lemma sweep_down_mset: "mset (sweep_down stale (length xs) xs) = filter_mset (\<lambda>x. \<not> stale x) (mset xs)"
  by (rule sweep_down_part) simp_all

lemma sweep_down_set: "set (sweep_down stale (length xs) xs) = {x \<in> set xs. \<not> stale x}"
  by (metis (no_types) sweep_down_mset set_mset_filter set_mset_mset)

lemma keyed_sweep_down [intro]: "keyed k xs \<Longrightarrow> keyed k (sweep_down stale (length xs) xs)"
  by (rule keyed_mset [of k xs]) (simp_all add: sweep_down_mset)

end
