(* ===== verification/Client_Data.thy ===== *)
theory Client_Data
  imports Mention Notify Array_Lists
begin

text \<open>
  The data of the client's view-model (\<^verbatim>\<open>client/core/model.h\<close>) that conversations are made of: messages, channels,
  people, groups, threads, and the events that change them (\<^verbatim>\<open>client/core/event.h\<close>). An array with its count is a
  list, a heap string that may be \<^verbatim>\<open>NULL\<close> a \<open>string option\<close>, a \<^verbatim>\<open>uint8_t\<close> used as a flag a \<open>bool\<close>. The capacity of the
  reaction array stays, since it is a \<^verbatim>\<open>uint8_t\<close> that wraps around. The two unread counts of a channel are \<open>int\<close>
  without a bound, where the code has \<^verbatim>\<open>int\<close>. An event carries the fields that its
  arm of \<^verbatim>\<open>oc_model_apply\<close> reads.
\<close>

section \<open>Messages\<close>

record oc_reaction =
  rx_emoji :: string
  rx_count :: u32
  rx_mine :: bool

record oc_attachment =
  at_id :: u64
  at_filename :: string
  at_mime :: string
  at_size :: u64
  at_reclaimed :: u8
  at_media_kind :: u8
  at_duration_ms :: u32
  at_width :: u16
  at_height :: u16
  at_poster_id :: u64

record oc_msg_unfurl =
  uf_url :: string
  uf_title :: string
  uf_descr :: "string option"

record oc_msg_forward =
  fw_src_channel :: u64
  fw_src_message :: u64
  fw_src_author :: u64
  fw_excerpt :: "string option"
  fw_attach_name :: string
  fw_n_attach :: u16
  fw_src_action :: bool

record oc_msg_action =
  ac_present :: bool
  ac_start :: nat
  ac_len :: nat
  ac_actor_name :: string

record oc_poll_view =
  pv_flags :: u8
  pv_close_at_ms :: u64
  pv_voters :: u32
  pv_mine :: u16
  pv_labels :: "string list"
  pv_counts :: "u32 list"

record oc_msg =
  ms_body :: "string option"
  ms_author_name :: string
  ms_author_id :: u64
  ms_message_id :: u64
  ms_server_time :: u64
  ms_reactions :: "oc_reaction list"
  ms_cap_reactions :: u8
  ms_attach :: "oc_attachment list"
  ms_edited :: bool
  ms_deleted :: bool
  ms_reply_count :: u32
  ms_pinned :: bool
  ms_pinned_by :: u64
  ms_pinned_at :: u64
  ms_saved :: bool
  ms_saved_at :: u64
  ms_collapsed :: bool
  ms_kind :: u8
  ms_broadcast_stored :: bool
  ms_unfurls :: "oc_msg_unfurl list"
  ms_forward :: "oc_msg_forward option"
  ms_action :: oc_msg_action
  ms_poll :: "oc_poll_view option"

text \<open>What \<^verbatim>\<open>memset\<close> leaves.\<close>

definition no_action :: oc_msg_action where
  "no_action = \<lparr>ac_present = False, ac_start = 0, ac_len = 0, ac_actor_name = ''''\<rparr>"

definition zero_msg :: oc_msg where
  "zero_msg = \<lparr>ms_body = None, ms_author_name = '''', ms_author_id = 0, ms_message_id = 0, ms_server_time = 0,
     ms_reactions = [], ms_cap_reactions = 0, ms_attach = [], ms_edited = False, ms_deleted = False,
     ms_reply_count = 0, ms_pinned = False, ms_pinned_by = 0, ms_pinned_at = 0, ms_saved = False,
     ms_saved_at = 0, ms_collapsed = False, ms_kind = 0, ms_broadcast_stored = False, ms_unfurls = [],
     ms_forward = None, ms_action = no_action, ms_poll = None\<rparr>"

section \<open>Channels, people, groups, threads\<close>

record oc_read_cursor_view =
  rc_user_id :: u64
  rc_message_id :: u64

record oc_channel =
  ch_channel_id :: u64
  ch_name :: "string option"
  ch_msgs :: "oc_msg list"
  ch_topic :: "string option"
  ch_description :: "string option"
  ch_description_known :: bool
  ch_archived :: bool
  ch_e2e :: bool
  ch_forgotten :: bool
  ch_info_seq :: u32
  ch_created_at :: u64
  ch_preview :: string
  ch_preview_author :: u64
  ch_preview_action :: bool
  ch_high_water :: u64
  ch_read_marker :: u64
  ch_unread :: int
  ch_priority_unread :: int
  ch_last_message_at :: u64
  ch_srv_unread :: u32
  ch_joined :: u8
  ch_kind :: u8
  ch_is_public :: u8
  ch_peer_id :: u64
  ch_peers :: "u64 list"
  ch_notify_level :: u8
  ch_muted :: bool
  ch_readers :: "oc_read_cursor_view list"
  ch_groups :: "u64 list"

definition zero_channel :: oc_channel where
  "zero_channel = \<lparr>ch_channel_id = 0, ch_name = None, ch_msgs = [], ch_topic = None, ch_description = None,
     ch_description_known = False, ch_archived = False, ch_e2e = False, ch_forgotten = False, ch_info_seq = 0,
     ch_created_at = 0, ch_preview = '''', ch_preview_author = 0, ch_preview_action = False, ch_high_water = 0,
     ch_read_marker = 0, ch_unread = 0, ch_priority_unread = 0, ch_last_message_at = 0, ch_srv_unread = 0,
     ch_joined = 0, ch_kind = 0, ch_is_public = 0, ch_peer_id = 0, ch_peers = [], ch_notify_level = 0,
     ch_muted = False, ch_readers = [], ch_groups = []\<rparr>"

record oc_member =
  mb_user_id :: u64
  mb_name :: string
  mb_label :: string
  mb_role :: u8
  mb_disabled :: bool
  mb_status_emoji :: string
  mb_status_text :: string
  mb_status_expires :: u64
  mb_title :: string
  mb_timezone :: string
  mb_avatar_id :: u64
  mb_full_name :: string
  mb_pronouns :: string
  mb_voice_id :: string
  mb_phone :: string

record oc_group_view =
  gv_id :: u64
  gv_created_by :: u64
  gv_handle :: string
  gv_name :: string
  gv_description :: string
  gv_members :: "u64 list"

record oc_thread_notice =
  tn_channel_id :: u64
  tn_message_id :: u64
  tn_parent_id :: u64
  tn_author_id :: u64
  tn_mentioned :: bool
  tn_keyword_hit :: bool
  tn_action :: bool
  tn_body :: string

record oc_thread_view =
  tv_root_id :: u64
  tv_channel_id :: u64
  tv_root_author :: u64
  tv_root_at :: u64
  tv_last_reply_at :: u64
  tv_reply_count :: u32
  tv_unread :: u32
  tv_following :: bool
  tv_preview :: "string option"
  tv_action :: bool
  tv_gen :: u32

record oc_pinned_row =
  pr_message_id :: u64
  pr_author_id :: u64
  pr_server_time :: u64
  pr_pinned_by :: u64
  pr_pinned_at :: u64
  pr_body :: "string option"
  pr_attach_name :: string
  pr_action :: bool

record oc_saved_view =
  sv_message_id :: u64
  sv_channel_id :: u64
  sv_author_id :: u64
  sv_server_time :: u64
  sv_saved_at :: u64
  sv_body :: "string option"
  sv_attach_name :: string
  sv_action :: bool

section \<open>The conversations of the model\<close>

record oc_chat =
  m_user_id :: u64
  m_ws_sender :: u64
  m_channels :: "oc_channel list"
  m_users :: "oc_member list"
  m_groups :: "(oc_group_view \<times> u64) list"
  m_groups_gen :: u64
  m_kw_terms :: "string list"
  m_pri_people :: "u64 list"
  m_notify_default :: u8
  m_thread_open :: bool
  m_thread_channel :: u64
  m_thread_parent :: u64
  m_thread_msgs :: "oc_msg list"
  m_thread_replay :: bool
  m_notices :: "oc_thread_notice list"
  m_threads :: "oc_thread_view list"
  m_thread_gen :: u32
  m_threads_loading :: bool
  m_listen_channel :: u64
  m_listen_queue :: "u64 list"
  m_listen_skipped :: u32
  m_pinlist_open :: bool
  m_pinlist_channel :: u64
  m_pinlist_loading :: bool
  m_pins :: "oc_pinned_row list"
  m_saved_open :: bool
  m_saved_loading :: bool
  m_saved :: "oc_saved_view list"

definition chat_init :: oc_chat where
  "chat_init = \<lparr>m_user_id = 0, m_ws_sender = 0, m_channels = [], m_users = [], m_groups = [], m_groups_gen = 0,
     m_kw_terms = [], m_pri_people = [], m_notify_default = 0, m_thread_open = False, m_thread_channel = 0,
     m_thread_parent = 0, m_thread_msgs = [], m_thread_replay = False, m_notices = [], m_threads = [],
     m_thread_gen = 0, m_threads_loading = False, m_listen_channel = 0, m_listen_queue = [], m_listen_skipped = 0,
     m_pinlist_open = False, m_pinlist_channel = 0, m_pinlist_loading = False, m_pins = [],
     m_saved_open = False, m_saved_loading = False, m_saved = []\<rparr>"

section \<open>Events\<close>

record ev_action =
  ea_known :: bool
  ea_action :: bool
  ea_start :: nat
  ea_len :: nat
  ea_actor_name :: string

record ev_channel =
  ec_channel_id :: u64
  ec_joined :: u8
  ec_kind :: u8
  ec_is_public :: u8
  ec_user_id :: u64
  ec_peers :: "u64 list"
  ec_server_time :: u64
  ec_count :: u32
  ec_body :: "string option"
  ec_archived :: bool
  ec_e2e :: bool
  ec_created_at :: u64
  ec_preview :: "string option"
  ec_preview_author :: u64
  ec_action :: bool
  ec_topic :: "string option"

record ev_message =
  em_channel_id :: u64
  em_author_id :: u64
  em_author_name :: string
  em_message_id :: u64
  em_server_time :: u64
  em_kind :: u8
  em_broadcast_stored :: bool
  em_body :: "string option"
  em_action :: ev_action

record ev_reply =
  er_channel_id :: u64
  er_parent_id :: u64
  er_message_id :: u64
  er_author_id :: u64
  er_server_time :: u64
  er_count :: u32
  er_participant :: bool
  er_broadcast_stored :: bool
  er_body :: "string option"
  er_action :: ev_action

record ev_attach =
  eh_message_id :: u64
  eh_attachment :: oc_attachment

record ev_thread =
  et_message_id :: u64
  et_channel_id :: u64
  et_author_id :: u64
  et_server_time :: u64
  et_last_reply_at :: u64
  et_reply_count :: u32
  et_unread_count :: u32
  et_following :: bool
  et_body :: "string option"
  et_action :: bool

datatype (plugins only: size code) chat_ev =
    OC_EV_CHANNEL ev_channel
  | OC_EV_CHANNEL_DESCRIPTION u64 "string option"
  | OC_EV_MESSAGE ev_message
  | OC_EV_COLLAPSED u64 bool
  | OC_EV_SAVED_UPDATED u64 u8 u64
  | OC_EV_PIN u64 u64 u8 u64 u64
  | OC_EV_REACTION u64 u64 u64 string u32 u8
  | OC_EV_ACTION u64 u64 ev_action
  | OC_EV_POLL u64 u64 "oc_poll_view option"
  | OC_EV_FORWARD u64 u64 oc_msg_forward
  | OC_EV_UNFURL u64 u64 "string option" "string option" "string option"
  | OC_EV_EDIT u64 u64 "string option" ev_action
  | OC_EV_DELETE u64 u64
  | OC_EV_RESTORE u64 u64 "string option" bool ev_action
  | OC_EV_THREAD_REPLY ev_reply
  | OC_EV_THREAD_END u64
  | OC_EV_THREAD_META u64 u32
  | OC_EV_ATTACHMENT ev_attach
  | OC_EV_READ_CURSOR u64 u64 u64
  | OC_EV_READ_STATE u64
  | OC_EV_DND u8
  | OC_EV_NOTIFY_PREF u64 u8 bool
  | OC_EV_GROUP "oc_group_view option"
  | OC_EV_GROUP_DELETED u64
  | OC_EV_GROUPS_END
  | OC_EV_CHANNEL_GROUPS u64 "u64 list"
  | OC_EV_THREAD_SUMMARY ev_thread
  | OC_EV_THREADS_END
  | OC_EV_PINNED_MSG u64 oc_pinned_row
  | OC_EV_PINS_END u64
  | OC_EV_SAVED_MSG oc_saved_view
  | OC_EV_SAVED_END

end
