(* ===== verification/Client_Chat.thy ===== *)
theory Client_Chat
  imports Client_Data
begin

text \<open>
  The reducers of \<^verbatim>\<open>client/core/model.c\<close> that fold what the daemon sends about conversations into the view-model,
  and \<open>oc_chat_apply\<close>, their arms of \<^verbatim>\<open>oc_model_apply\<close>. \<open>flat cap text\<close> stands for \<^verbatim>\<open>oc_rt_flatten_at\<close> with the
  device's clock: an excerpt of a body that holds a table, a time or a spoiler. A result \<open>None\<close> is a
  \<^verbatim>\<open>realloc\<close> to zero bytes, after which the array a message still points to has been freed; nothing else
  about memory is modelled.
\<close>

section \<open>One message\<close>

definition msg_tombstone :: "oc_msg \<Rightarrow> oc_msg" where
  "msg_tombstone msg = msg\<lparr>ms_deleted := True, ms_reactions := [], ms_cap_reactions := 0, ms_attach := [],
     ms_unfurls := [], ms_pinned := False, ms_pinned_by := 0, ms_pinned_at := 0, ms_saved := False,
     ms_saved_at := 0, ms_action := no_action, ms_poll := None\<rparr>"

definition msg_set_action :: "ev_action \<Rightarrow> oc_msg \<Rightarrow> oc_msg" where
  "msg_set_action e msg =
     (if \<not> ea_known e then msg
      else
        let msg = msg\<lparr>ms_action := no_action\<rparr>
        in case ms_body msg of
            None \<Rightarrow> msg
          | Some body \<Rightarrow>
              if \<not> ea_action e \<or> ms_deleted msg then msg
              else
                let blen = length body
                in if ea_len e = 0 \<or> ea_start e > blen \<or> ea_len e > blen - ea_start e then msg
                   else msg\<lparr>ms_action := \<lparr>ac_present = True, ac_start = ea_start e, ac_len = ea_len e,
                                          ac_actor_name = snprintf_s 64 (ea_actor_name e)\<rparr>\<rparr>)"

definition msg_untombstone :: "string option \<Rightarrow> oc_msg \<Rightarrow> oc_msg" where
  "msg_untombstone body msg =
     (if \<not> ms_deleted msg then msg else msg\<lparr>ms_deleted := False, ms_body := body\<rparr>)"

definition msg_set_saved :: "u8 \<Rightarrow> u64 \<Rightarrow> oc_msg \<Rightarrow> oc_msg" where
  "msg_set_saved op saved_at msg =
     msg\<lparr>ms_saved := (op = 1), ms_saved_at := (if op = 1 then saved_at else 0)\<rparr>"

definition msg_set_pinned :: "u8 \<Rightarrow> u64 \<Rightarrow> u64 \<Rightarrow> oc_msg \<Rightarrow> oc_msg" where
  "msg_set_pinned op user_id server_time msg =
     msg\<lparr>ms_pinned := (op = 1), ms_pinned_by := (if op = 1 then user_id else 0),
         ms_pinned_at := (if op = 1 then server_time else 0)\<rparr>"

text \<open>
  The array grows by doubling its capacity, a \<^verbatim>\<open>uint8_t\<close>; \<^verbatim>\<open>realloc\<close> to a capacity of zero is \<open>None\<close>.
\<close>

definition grow_reactions :: "oc_msg \<Rightarrow> oc_msg option" where
  "grow_reactions msg =
     (if length (ms_reactions msg) \<noteq> unat (ms_cap_reactions msg) then Some msg
      else
        let cap = (if ms_cap_reactions msg \<noteq> 0 then ms_cap_reactions msg * 2 else 4)
        in if cap = 0 then None else Some (msg\<lparr>ms_cap_reactions := cap\<rparr>))"

definition msg_apply_reaction :: "string \<Rightarrow> u32 \<Rightarrow> u8 \<Rightarrow> bool \<Rightarrow> oc_msg \<Rightarrow> oc_msg option" where
  "msg_apply_reaction emoji cnt op is_me msg =
     (if emoji = '''' then Some msg
      else
        let same = (\<lambda>r. rx_emoji r = emoji);
            mine = (\<lambda>r. if is_me then r\<lparr>rx_mine := (op = 1)\<rparr> else r)
        in if cnt = 0 then Some (msg\<lparr>ms_reactions := swap_remove_first same (ms_reactions msg)\<rparr>)
           else if list_ex same (ms_reactions msg) then
             Some (msg\<lparr>ms_reactions := upd_first same (\<lambda>r. mine (r\<lparr>rx_count := cnt\<rparr>)) (ms_reactions msg)\<rparr>)
           else
             map_option (\<lambda>msg. msg\<lparr>ms_reactions := ms_reactions msg @
                 [mine \<lparr>rx_emoji = snprintf_s 40 emoji, rx_count = cnt, rx_mine = False\<rparr>]\<rparr>)
               (grow_reactions msg))"

abbreviation OC_POLL_HAS_MINE :: u8 where "OC_POLL_HAS_MINE \<equiv> 4"

definition msg_set_poll :: "oc_poll_view option \<Rightarrow> oc_msg \<Rightarrow> oc_msg" where
  "msg_set_poll poll msg =
     (case poll of
        None \<Rightarrow> msg
      | Some pv \<Rightarrow>
          if ms_deleted msg then msg
          else
            let had = (case ms_poll msg of None \<Rightarrow> 0 | Some p \<Rightarrow> pv_mine p);
                p = (if pv_flags pv AND OC_POLL_HAS_MINE = 0 then pv\<lparr>pv_mine := had\<rparr> else pv)
            in msg\<lparr>ms_poll := Some (p\<lparr>pv_flags := pv_flags p AND NOT OC_POLL_HAS_MINE\<rparr>)\<rparr>)"

abbreviation OC_MAX_ATTACH :: nat where "OC_MAX_ATTACH \<equiv> 16"

definition msg_add_attach :: "oc_attachment \<Rightarrow> oc_msg \<Rightarrow> oc_msg" where
  "msg_add_attach a msg =
     (if list_ex (\<lambda>b. at_id b = at_id a) (ms_attach msg) then msg
      else if length (ms_attach msg) \<ge> OC_MAX_ATTACH then msg
      else msg\<lparr>ms_attach := ms_attach msg @
        [a\<lparr>at_filename := snprintf_s 128 (at_filename a), at_mime := snprintf_s 64 (at_mime a)\<rparr>]\<rparr>)"

definition msg_add_unfurl :: "string \<Rightarrow> string \<Rightarrow> string option \<Rightarrow> oc_msg \<Rightarrow> oc_msg" where
  "msg_add_unfurl url title descr msg =
     (let new = \<lparr>uf_url = url, uf_title = title, uf_descr = descr\<rparr>
      in if ms_deleted msg then msg
         else if list_ex (\<lambda>u. uf_url u = url) (ms_unfurls msg)
         then msg\<lparr>ms_unfurls := upd_first (\<lambda>u. uf_url u = url) (\<lambda>_. new) (ms_unfurls msg)\<rparr>
         else if length (ms_unfurls msg) \<ge> 3 then msg
         else msg\<lparr>ms_unfurls := ms_unfurls msg @ [new]\<rparr>)"

definition msg_set_forward :: "oc_msg_forward \<Rightarrow> oc_msg \<Rightarrow> oc_msg" where
  "msg_set_forward fw msg = (if ms_deleted msg then msg else msg\<lparr>ms_forward := Some fw\<rparr>)"

definition msg_edit :: "string option \<Rightarrow> ev_action \<Rightarrow> oc_msg \<Rightarrow> oc_msg" where
  "msg_edit body act msg = msg_set_action act (msg\<lparr>ms_body := body, ms_edited := True, ms_unfurls := []\<rparr>)"

definition msg_restore :: "string option \<Rightarrow> bool \<Rightarrow> ev_action \<Rightarrow> oc_msg \<Rightarrow> oc_msg" where
  "msg_restore body stored act msg =
     (msg_set_action act (msg_untombstone body msg))\<lparr>ms_broadcast_stored := stored\<rparr>"

section \<open>Who a message is about\<close>

definition oc_model_is_workspace_sender :: "'a oc_chat_scheme \<Rightarrow> u64 \<Rightarrow> bool" where
  "oc_model_is_workspace_sender m user_id \<longleftrightarrow> user_id \<noteq> 0 \<and> user_id = m_ws_sender m"

definition oc_model_user_name :: "'a oc_chat_scheme \<Rightarrow> u64 \<Rightarrow> string" where
  "oc_model_user_name m user_id =
     (if oc_model_is_workspace_sender m user_id then ''Workspace''
      else case find (\<lambda>u. mb_user_id u = user_id) (m_users m) of None \<Rightarrow> '''' | Some u \<Rightarrow> mb_label u)"

definition oc_model_in_group :: "oc_group_view \<Rightarrow> u64 \<Rightarrow> bool" where
  "oc_model_in_group g user_id = list_ex (\<lambda>u. u = user_id) (gv_members g)"

text \<open>The loop of \<^verbatim>\<open>oc_model_mentions_me_in\<close> over the mentions; \<open>bc\<close> is its local of that name.\<close>

fun mentions_loop :: "'a oc_chat_scheme \<Rightarrow> string \<Rightarrow> bool \<Rightarrow> bool \<Rightarrow> oc_mention list \<Rightarrow> bool" where
  "mentions_loop m me stored bc [] = (bc \<and> stored)"
| "mentions_loop m me stored bc (mm # mms) =
     (if mn_kind mm \<noteq> OC_MENTION_USER then mentions_loop m me stored True mms
      else if me \<noteq> '''' \<and> ieq (mn_name mm) me then True
      else if list_ex (\<lambda>(g, _). oc_model_in_group g (m_user_id m) \<and> ieq (mn_name mm) (gv_handle g)) (m_groups m)
      then True
      else mentions_loop m me stored bc mms)"

definition oc_model_mentions_me_in :: "'a oc_chat_scheme \<Rightarrow> bool \<Rightarrow> string \<Rightarrow> bool" where
  "oc_model_mentions_me_in m broadcast_stored body =
     mentions_loop m (oc_model_user_name m (m_user_id m)) broadcast_stored False
       (snd (oc_mention_scan body OC_MENTION_MAX))"

definition oc_model_keyword_hit :: "'a oc_chat_scheme \<Rightarrow> string \<Rightarrow> bool" where
  "oc_model_keyword_hit m body =
     (body \<noteq> '''' \<and> list_ex (\<lambda>t. oc_keyword_match body t \<noteq> None) (m_kw_terms m))"

definition oc_model_is_priority :: "'a oc_chat_scheme \<Rightarrow> u64 \<Rightarrow> bool" where
  "oc_model_is_priority m user_id = (user_id \<noteq> 0 \<and> list_ex (\<lambda>u. u = user_id) (m_pri_people m))"

section \<open>Excerpts\<close>

definition preview_set :: "(nat \<Rightarrow> string \<Rightarrow> string) \<Rightarrow> nat \<Rightarrow> string option \<Rightarrow> string" where
  "preview_set flat cap text =
     (case text of
        None \<Rightarrow> ''''
      | Some t \<Rightarrow>
          if \<not> CHR ''|'' \<in> set t \<and> \<not> strstr t ''<time:'' \<and> \<not> strstr t ''```spoiler'' \<and> \<not> strstr t ''>!''
          then snprintf_s cap t
          else flat cap t)"

definition oc_model_format_duration :: "u32 \<Rightarrow> nat \<Rightarrow> string" where
  "oc_model_format_duration ms cap =
     (let s = unat ((ms + 500) div 1000)
      in if s \<ge> 3600
         then snprintf_s cap (dec_string (s div 3600) @ '':'' @ dec2_string ((s div 60) mod 60) @ '':'' @ dec2_string (s mod 60))
         else snprintf_s cap (dec_string (s div 60) @ '':'' @ dec2_string (s mod 60)))"

definition oc_model_line ::
    "(nat \<Rightarrow> string \<Rightarrow> string) \<Rightarrow> 'a oc_chat_scheme \<Rightarrow> u64 \<Rightarrow> string \<Rightarrow> bool \<Rightarrow> string option \<Rightarrow> nat \<Rightarrow> string" where
  "oc_model_line flat m author_id name action text cap =
     (let text = text_or_empty text
      in if \<not> action then preview_set flat cap (Some text)
         else
           let who = (if name \<noteq> '''' then name else oc_model_user_name m author_id);
               n = length who + 1
           in if n < cap then who @ '' '' @ preview_set flat (cap - n) (Some text)
              else snprintf_s cap (who @ '' ''))"

definition oc_model_msg_preview ::
    "(nat \<Rightarrow> string \<Rightarrow> string) \<Rightarrow> 'a oc_chat_scheme \<Rightarrow> oc_msg \<Rightarrow> nat \<Rightarrow> string" where
  "oc_model_msg_preview flat m msg cap =
     (if ac_present (ms_action msg) \<and> ms_body msg \<noteq> None then
        oc_model_line flat m (ms_author_id msg)
          (if ac_actor_name (ms_action msg) \<noteq> '''' then ac_actor_name (ms_action msg) else ms_author_name msg)
          True (map_option (drop (ac_start (ms_action msg))) (ms_body msg)) cap
      else if ms_body msg \<noteq> None \<and> ms_body msg \<noteq> Some '''' then preview_set flat cap (ms_body msg)
      else case ms_attach msg of
          [] \<Rightarrow> ''''
        | a # _ \<Rightarrow>
            if at_media_kind a = 1
            then snprintf_s cap ([CHR 0xF0, CHR 0x9F, CHR 0x8E, CHR 0xA5] @ '' Video message ('' @
                   oc_model_format_duration (at_duration_ms a) 16 @ '')'')
            else snprintf_s cap ([CHR 0xF0, CHR 0x9F, CHR 0x93, CHR 0x8E] @ '' '' @ at_filename a))"

text \<open>Whether an event's action lies within the body, as the message and notice arms ask before an excerpt.\<close>

definition action_within :: "ev_action \<Rightarrow> string \<Rightarrow> bool" where
  "action_within e body \<longleftrightarrow> ea_known e \<and> ea_action e \<and> ea_len e \<noteq> 0 \<and> ea_start e \<le> length body \<and>
     ea_len e \<le> length body - ea_start e"

definition excerpt_of :: "ev_action \<Rightarrow> string \<Rightarrow> string" where
  "excerpt_of e body = (if action_within e body then drop (ea_start e) body else body)"

section \<open>One channel\<close>

definition oc_model_channel :: "'a oc_chat_scheme \<Rightarrow> u64 \<Rightarrow> oc_channel option" where
  "oc_model_channel m channel_id = find (\<lambda>c. ch_channel_id c = channel_id) (m_channels m)"

definition upd_channel :: "u64 \<Rightarrow> (oc_channel \<Rightarrow> oc_channel) \<Rightarrow> 'a oc_chat_scheme \<Rightarrow> 'a oc_chat_scheme" where
  "upd_channel channel_id f m =
     m\<lparr>m_channels := upd_first (\<lambda>c. ch_channel_id c = channel_id) f (m_channels m)\<rparr>"

definition upd_msg :: "u64 \<Rightarrow> (oc_msg \<Rightarrow> oc_msg) \<Rightarrow> oc_channel \<Rightarrow> oc_channel" where
  "upd_msg message_id f c = c\<lparr>ch_msgs := upd_first (\<lambda>g. ms_message_id g = message_id) f (ch_msgs c)\<rparr>"

definition upd_thread_msg :: "u64 \<Rightarrow> (oc_msg \<Rightarrow> oc_msg) \<Rightarrow> 'a oc_chat_scheme \<Rightarrow> 'a oc_chat_scheme" where
  "upd_thread_msg message_id f m =
     m\<lparr>m_thread_msgs := upd_first (\<lambda>g. ms_message_id g = message_id) f (m_thread_msgs m)\<rparr>"

definition channel_ensure :: "u64 \<Rightarrow> 'a oc_chat_scheme \<Rightarrow> 'a oc_chat_scheme" where
  "channel_ensure channel_id m =
     (if oc_model_channel m channel_id \<noteq> None then m
      else m\<lparr>m_channels := m_channels m @
        [zero_channel\<lparr>ch_channel_id := channel_id, ch_notify_level := m_notify_default m\<rparr>]\<rparr>)"

text \<open>\<^verbatim>\<open>while (at > 0 && msgs[at - 1].message_id > message_id) at--;\<close>\<close>

fun insert_at :: "u64 \<Rightarrow> oc_msg list \<Rightarrow> nat \<Rightarrow> nat" where
  "insert_at message_id msgs 0 = 0"
| "insert_at message_id msgs (Suc n) =
     (if ms_message_id (msgs ! n) > message_id then insert_at message_id msgs n else Suc n)"

definition channel_append :: "ev_message \<Rightarrow> oc_channel \<Rightarrow> bool \<times> oc_channel" where
  "channel_append e c =
     (let message_id = em_message_id e; older = (message_id \<noteq> 0 \<and> message_id \<le> ch_high_water c)
      in if older \<and> list_ex (\<lambda>g. ms_message_id g = message_id) (ch_msgs c) then (False, c)
         else
           let n = length (ch_msgs c);
               at = (if older then insert_at message_id (ch_msgs c) n else n);
               msg = zero_msg\<lparr>ms_body := em_body e, ms_author_name := snprintf_s 64 (em_author_name e),
                       ms_author_id := em_author_id e, ms_message_id := message_id,
                       ms_server_time := em_server_time e, ms_kind := em_kind e,
                       ms_broadcast_stored := em_broadcast_stored e\<rparr>
           in (True, c\<lparr>ch_msgs := take at (ch_msgs c) @ msg # drop at (ch_msgs c),
                       ch_high_water := (if message_id > ch_high_water c then message_id else ch_high_water c)\<rparr>))"

definition reader_advance :: "u64 \<Rightarrow> u64 \<Rightarrow> oc_channel \<Rightarrow> oc_channel" where
  "reader_advance user_id message_id c =
     c\<lparr>ch_readers := upsert (\<lambda>r. rc_user_id r = user_id)
         (\<lambda>r. if message_id > rc_message_id r then r\<lparr>rc_message_id := message_id\<rparr> else r)
         \<lparr>rc_user_id = user_id, rc_message_id = message_id\<rparr> (ch_readers c)\<rparr>"

definition oc_model_mark_read :: "u64 \<Rightarrow> 'a oc_chat_scheme \<Rightarrow> 'a oc_chat_scheme" where
  "oc_model_mark_read channel_id m =
     upd_channel channel_id
       (\<lambda>c. c\<lparr>ch_read_marker := ch_high_water c, ch_unread := 0, ch_priority_unread := 0\<rparr>) m"

text \<open>
  Whether a message would notify, with the schedule and the pause left out, and whether it would count in the
  badge: the computation both the live count and \<^verbatim>\<open>oc_model_set_read_marker\<close> make. \<open>author\<close> is a parameter because the
  live count takes it from the event.
\<close>

definition msg_mentioned :: "'a oc_chat_scheme \<Rightarrow> oc_msg \<Rightarrow> bool" where
  "msg_mentioned m msg =
     (case ms_body msg of None \<Rightarrow> False | Some body \<Rightarrow> oc_model_mentions_me_in m (ms_broadcast_stored msg) body)"

definition msg_keyword :: "'a oc_chat_scheme \<Rightarrow> oc_msg \<Rightarrow> bool" where
  "msg_keyword m msg = (case ms_body msg of None \<Rightarrow> False | Some body \<Rightarrow> oc_model_keyword_hit m body)"

definition would_notify :: "'a oc_chat_scheme \<Rightarrow> oc_channel \<Rightarrow> u64 \<Rightarrow> oc_msg \<Rightarrow> bool" where
  "would_notify m c author msg =
     oc_notify_decide (author = m_user_id m \<or> oc_model_is_workspace_sender m author) (ch_muted c)
       (oc_model_is_priority m author) (ch_notify_level c) (msg_mentioned m msg) (msg_keyword m msg)
       False False False"

definition counts_in_badge :: "'a oc_chat_scheme \<Rightarrow> u64 \<Rightarrow> oc_msg \<Rightarrow> bool" where
  "counts_in_badge m author msg \<longleftrightarrow>
     msg_mentioned m msg \<or> msg_keyword m msg \<or> oc_model_is_priority m author"

text \<open>The counting loop of \<^verbatim>\<open>oc_model_set_read_marker\<close>: \<open>n\<close> and \<open>pri\<close>.\<close>

fun count_unread :: "'a oc_chat_scheme \<Rightarrow> oc_channel \<Rightarrow> u64 \<Rightarrow> oc_msg list \<Rightarrow> int \<times> int" where
  "count_unread m c marker [] = (0, 0)"
| "count_unread m c marker (msg # msgs) =
     (let (n, pri) = count_unread m c marker msgs
      in if ms_message_id msg \<le> marker \<or> ms_deleted msg then (n, pri)
         else if would_notify m c (ms_author_id msg) msg
         then (n + 1, if counts_in_badge m (ms_author_id msg) msg then pri + 1 else pri)
         else (n, pri))"

definition oc_model_set_read_marker :: "u64 \<Rightarrow> u64 \<Rightarrow> 'a oc_chat_scheme \<Rightarrow> 'a oc_chat_scheme" where
  "oc_model_set_read_marker channel_id message_id m =
     upd_channel channel_id (\<lambda>c.
       let (n, pri) = count_unread m c message_id (ch_msgs c)
       in c\<lparr>ch_read_marker := message_id, ch_unread := n, ch_priority_unread := pri,
             ch_srv_unread := of_int n\<rparr>) m"

definition oc_model_badge :: "oc_channel \<Rightarrow> int \<times> bool" where
  "oc_model_badge c =
     (if \<not> ch_muted c \<and> ch_unread c > 0
      then let n = (if ch_kind c = 1 then ch_unread c else ch_priority_unread c) in (n, n = 0)
      else (0, False))"

section \<open>The arms of the switch\<close>

definition channel_info :: "(nat \<Rightarrow> string \<Rightarrow> string) \<Rightarrow> ev_channel \<Rightarrow> oc_channel \<Rightarrow> oc_channel" where
  "channel_info flat e c =
     (let c = c\<lparr>ch_info_seq := ch_info_seq c + 1, ch_joined := ec_joined e, ch_kind := ec_kind e,
                 ch_is_public := ec_is_public e\<rparr>;
          c = (if ec_user_id e \<noteq> 0 then c\<lparr>ch_peer_id := ec_user_id e\<rparr> else c);
          c = c\<lparr>ch_peers := take 9 (ec_peers e)\<rparr>;
          c = (if ec_server_time e \<noteq> 0 then c\<lparr>ch_last_message_at := ec_server_time e\<rparr> else c);
          c = (if ec_count e \<noteq> 0
               then c\<lparr>ch_srv_unread := ec_count e,
                      ch_unread := (if ch_unread c = 0 then sint (ec_count e) else ch_unread c)\<rparr>
               else c);
          c = (if ec_body e \<noteq> None then c\<lparr>ch_name := ec_body e\<rparr> else c);
          c = c\<lparr>ch_archived := ec_archived e\<rparr>;
          c = (if ec_e2e e then c\<lparr>ch_e2e := True\<rparr> else c);
          c = (if ec_created_at e \<noteq> 0 then c\<lparr>ch_created_at := ec_created_at e\<rparr> else c);
          c = (if ec_preview e \<noteq> None
               then c\<lparr>ch_preview := preview_set flat 128 (ec_preview e),
                      ch_preview_author := ec_preview_author e, ch_preview_action := ec_action e\<rparr>
               else c)
      in c\<lparr>ch_topic := (if ec_topic e = Some '''' then None else ec_topic e)\<rparr>)"

definition channel_description :: "string option \<Rightarrow> oc_channel \<Rightarrow> oc_channel" where
  "channel_description body c =
     c\<lparr>ch_description := (if body = Some '''' then None else body), ch_description_known := True\<rparr>"

abbreviation OC_LISTEN_QUEUE_MAX :: nat where "OC_LISTEN_QUEUE_MAX \<equiv> 64"

abbreviation OC_MSG_KIND_MESSAGE :: u8 where "OC_MSG_KIND_MESSAGE \<equiv> 0"

text \<open>
  A message into its channel: the excerpt first, then the append; then the action and the counts, which the code
  takes from the last message of the array.
\<close>

definition channel_message ::
    "(nat \<Rightarrow> string \<Rightarrow> string) \<Rightarrow> 'a oc_chat_scheme \<Rightarrow> ev_message \<Rightarrow> oc_channel \<Rightarrow> bool \<times> oc_channel" where
  "channel_message flat m e c =
     (let c = (case em_body e of
                 None \<Rightarrow> c
               | Some body \<Rightarrow>
                   if em_message_id e \<ge> ch_high_water c
                   then c\<lparr>ch_preview := preview_set flat 128 (Some (excerpt_of (em_action e) body)),
                          ch_preview_author := em_author_id e,
                          ch_preview_action := action_within (em_action e) body\<rparr>
                   else c);
          (appended, c) = channel_append e c
      in if \<not> appended then (False, c)
         else
           let c = c\<lparr>ch_msgs := butlast (ch_msgs c) @ [msg_set_action (em_action e) (last (ch_msgs c))]\<rparr>;
               msg = last (ch_msgs c);
               c = (if em_message_id e > ch_read_marker c \<and> would_notify m c (em_author_id e) msg
                    then c\<lparr>ch_unread := ch_unread c + 1,
                           ch_priority_unread := (if counts_in_badge m (em_author_id e) msg
                             then ch_priority_unread c + 1 else ch_priority_unread c)\<rparr>
                    else c)
           in (True, c))"

definition listen_push :: "u64 \<Rightarrow> 'a oc_chat_scheme \<Rightarrow> 'a oc_chat_scheme" where
  "listen_push message_id m =
     m\<lparr>m_listen_queue := push_bounded OC_LISTEN_QUEUE_MAX message_id (m_listen_queue m),
        m_listen_skipped := (if length (m_listen_queue m) = OC_LISTEN_QUEUE_MAX
          then m_listen_skipped m + 1 else m_listen_skipped m)\<rparr>"

definition ev_message_arm ::
    "(nat \<Rightarrow> string \<Rightarrow> string) \<Rightarrow> ev_message \<Rightarrow> 'a oc_chat_scheme \<Rightarrow> 'a oc_chat_scheme" where
  "ev_message_arm flat e m =
     (let m = channel_ensure (em_channel_id e) m
      in case oc_model_channel m (em_channel_id e) of
          None \<Rightarrow> m
        | Some c \<Rightarrow>
            let (appended, c') = channel_message flat m e c;
                m = upd_channel (em_channel_id e) (\<lambda>_. c') m
            in if appended \<and> m_listen_channel m = em_channel_id e \<and> em_author_id e \<noteq> m_user_id m \<and>
                  em_kind e = OC_MSG_KIND_MESSAGE
               then listen_push (em_message_id e) m else m)"

definition upd_everywhere :: "u64 \<Rightarrow> (oc_msg \<Rightarrow> oc_msg) \<Rightarrow> 'a oc_chat_scheme \<Rightarrow> 'a oc_chat_scheme" where
  "upd_everywhere message_id f m =
     upd_thread_msg message_id f (m\<lparr>m_channels := map (upd_msg message_id f) (m_channels m)\<rparr>)"

definition upd_both :: "u64 \<Rightarrow> u64 \<Rightarrow> (oc_msg \<Rightarrow> oc_msg) \<Rightarrow> 'a oc_chat_scheme \<Rightarrow> 'a oc_chat_scheme" where
  "upd_both channel_id message_id f m =
     upd_thread_msg message_id f (upd_channel channel_id (upd_msg message_id f) m)"

definition ev_saved_arm :: "u64 \<Rightarrow> u8 \<Rightarrow> u64 \<Rightarrow> 'a oc_chat_scheme \<Rightarrow> 'a oc_chat_scheme" where
  "ev_saved_arm message_id op saved_at m =
     (let m = upd_everywhere message_id (msg_set_saved op saved_at) m
      in if m_saved_open m \<and> op = 0
         then m\<lparr>m_saved := remove_first (\<lambda>s. sv_message_id s = message_id) (m_saved m)\<rparr> else m)"

definition ev_pin_arm :: "u64 \<Rightarrow> u64 \<Rightarrow> u8 \<Rightarrow> u64 \<Rightarrow> u64 \<Rightarrow> 'a oc_chat_scheme \<Rightarrow> 'a oc_chat_scheme" where
  "ev_pin_arm channel_id message_id op user_id server_time m =
     (let m = upd_both channel_id message_id (msg_set_pinned op user_id server_time) m
      in if m_pinlist_open m \<and> m_pinlist_channel m = channel_id \<and> op \<noteq> 1
         then m\<lparr>m_pins := remove_first (\<lambda>p. pr_message_id p = message_id) (m_pins m)\<rparr> else m)"

text \<open>The channel's list only, and \<open>None\<close> when the reaction array was lost.\<close>

definition ev_reaction_arm ::
    "u64 \<Rightarrow> u64 \<Rightarrow> u64 \<Rightarrow> string \<Rightarrow> u32 \<Rightarrow> u8 \<Rightarrow> 'a oc_chat_scheme \<Rightarrow> 'a oc_chat_scheme option" where
  "ev_reaction_arm channel_id message_id user_id emoji cnt op m =
     (case oc_model_channel m channel_id of
        None \<Rightarrow> Some m
      | Some c \<Rightarrow>
          (case find (\<lambda>g. ms_message_id g = message_id) (ch_msgs c) of
             None \<Rightarrow> Some m
           | Some msg \<Rightarrow>
               map_option (\<lambda>msg'. upd_channel channel_id (upd_msg message_id (\<lambda>_. msg')) m)
                 (msg_apply_reaction emoji cnt op (user_id = m_user_id m) msg)))"

definition action_preview :: "(nat \<Rightarrow> string \<Rightarrow> string) \<Rightarrow> u64 \<Rightarrow> oc_channel \<Rightarrow> oc_channel" where
  "action_preview flat message_id c =
     (case first_index (\<lambda>g. ms_message_id g = message_id) (ch_msgs c) of
        None \<Rightarrow> c
      | Some i \<Rightarrow>
          let msg = ch_msgs c ! i
          in case ms_body msg of
              None \<Rightarrow> c
            | Some body \<Rightarrow>
                if i + 1 = length (ch_msgs c) \<and> ch_preview_author c = ms_author_id msg
                then c\<lparr>ch_preview := preview_set flat 128
                         (Some (if ac_present (ms_action msg) then drop (ac_start (ms_action msg)) body else body)),
                       ch_preview_action := ac_present (ms_action msg)\<rparr>
                else c)"

definition ev_action_arm ::
    "(nat \<Rightarrow> string \<Rightarrow> string) \<Rightarrow> u64 \<Rightarrow> u64 \<Rightarrow> ev_action \<Rightarrow> 'a oc_chat_scheme \<Rightarrow> 'a oc_chat_scheme" where
  "ev_action_arm flat channel_id message_id act m =
     upd_thread_msg message_id (msg_set_action act)
       (upd_channel channel_id (\<lambda>c. action_preview flat message_id (upd_msg message_id (msg_set_action act) c)) m)"

text \<open>The first message with the id, in the first channel that holds one.\<close>

definition holds_msg :: "u64 \<Rightarrow> oc_channel \<Rightarrow> bool" where
  "holds_msg message_id c = list_ex (\<lambda>g. ms_message_id g = message_id) (ch_msgs c)"

definition bump_reply_count :: "u64 \<Rightarrow> u32 \<Rightarrow> 'a oc_chat_scheme \<Rightarrow> 'a oc_chat_scheme" where
  "bump_reply_count message_id cnt m =
     m\<lparr>m_channels := upd_first (holds_msg message_id)
         (upd_msg message_id (\<lambda>g. if cnt > ms_reply_count g then g\<lparr>ms_reply_count := cnt\<rparr> else g))
         (m_channels m)\<rparr>"

definition attach_preview ::
    "(nat \<Rightarrow> string \<Rightarrow> string) \<Rightarrow> 'a oc_chat_scheme \<Rightarrow> u64 \<Rightarrow> oc_channel \<Rightarrow> oc_channel" where
  "attach_preview flat m message_id c =
     (case find (\<lambda>g. ms_message_id g = message_id) (ch_msgs c) of
        None \<Rightarrow> c
      | Some msg \<Rightarrow>
          if (ms_body msg = None \<or> ms_body msg = Some '''') \<and> length (ms_attach msg) = 1 \<and>
             ms_message_id msg \<ge> ch_high_water c \<and> ch_preview_author c = ms_author_id msg
          then c\<lparr>ch_preview := oc_model_msg_preview flat m msg 128\<rparr> else c)"

definition attach_to_msg ::
    "(nat \<Rightarrow> string \<Rightarrow> string) \<Rightarrow> ev_attach \<Rightarrow> 'a oc_chat_scheme \<Rightarrow> 'a oc_chat_scheme" where
  "attach_to_msg flat e m =
     (let message_id = eh_message_id e; add = msg_add_attach (eh_attachment e)
      in if list_ex (holds_msg message_id) (m_channels m)
         then m\<lparr>m_channels := upd_first (holds_msg message_id)
                 (\<lambda>c. attach_preview flat m message_id (upd_msg message_id add c)) (m_channels m)\<rparr>
         else upd_thread_msg message_id add m)"

section \<open>Threads\<close>

abbreviation OC_MAX_THREAD_NOTICES :: nat where "OC_MAX_THREAD_NOTICES \<equiv> 32"

definition notice_push ::
    "(nat \<Rightarrow> string \<Rightarrow> string) \<Rightarrow> ev_reply \<Rightarrow> 'a oc_chat_scheme \<Rightarrow> 'a oc_chat_scheme" where
  "notice_push flat e m =
     (let n = \<lparr>tn_channel_id = er_channel_id e, tn_message_id = er_message_id e, tn_parent_id = er_parent_id e,
               tn_author_id = er_author_id e, tn_mentioned = False, tn_keyword_hit = False, tn_action = False,
               tn_body = ''''\<rparr>;
          n = (case er_body e of
                 None \<Rightarrow> n
               | Some body \<Rightarrow>
                   n\<lparr>tn_mentioned := oc_model_mentions_me_in m (er_broadcast_stored e) body,
                     tn_keyword_hit := oc_model_keyword_hit m body,
                     tn_action := action_within (er_action e) body,
                     tn_body := preview_set flat 256 (Some (excerpt_of (er_action e) body))\<rparr>)
      in m\<lparr>m_notices := push_bounded OC_MAX_THREAD_NOTICES n (m_notices m)\<rparr>)"

definition thread_append :: "ev_reply \<Rightarrow> 'a oc_chat_scheme \<Rightarrow> 'a oc_chat_scheme" where
  "thread_append e m =
     (if list_ex (\<lambda>g. ms_message_id g = er_message_id e) (m_thread_msgs m) then m
      else m\<lparr>m_thread_msgs := m_thread_msgs m @
        [zero_msg\<lparr>ms_body := er_body e, ms_author_id := er_author_id e, ms_message_id := er_message_id e,
                  ms_server_time := er_server_time e\<rparr>]\<rparr>)"

definition ev_thread_reply_arm ::
    "(nat \<Rightarrow> string \<Rightarrow> string) \<Rightarrow> ev_reply \<Rightarrow> 'a oc_chat_scheme \<Rightarrow> 'a oc_chat_scheme" where
  "ev_thread_reply_arm flat e m =
     (let m = bump_reply_count (er_parent_id e) (er_count e) m;
          m = (if er_participant e \<and> er_author_id e \<noteq> m_user_id m \<and> \<not> m_thread_replay m
               then let m = notice_push flat e m
                    in m\<lparr>m_threads := upd_first (\<lambda>t. tv_root_id t = er_parent_id e)
                           (\<lambda>t. t\<lparr>tv_unread := tv_unread t + 1\<rparr>) (m_threads m)\<rparr>
               else m)
      in if m_thread_open m \<and> er_parent_id e = m_thread_parent m
         then let before = length (m_thread_msgs m); m = thread_append e m
              in if length (m_thread_msgs m) > before
                 then m\<lparr>m_thread_msgs := butlast (m_thread_msgs m) @
                        [(msg_set_action (er_action e) (last (m_thread_msgs m)))
                           \<lparr>ms_broadcast_stored := er_broadcast_stored e\<rparr>]\<rparr>
                 else m
         else m)"

definition oc_model_close_thread :: "'a oc_chat_scheme \<Rightarrow> 'a oc_chat_scheme" where
  "oc_model_close_thread m =
     m\<lparr>m_thread_msgs := [], m_thread_open := False, m_thread_parent := 0, m_thread_channel := 0,
        m_thread_replay := False\<rparr>"

definition oc_model_open_thread :: "u64 \<Rightarrow> u64 \<Rightarrow> 'a oc_chat_scheme \<Rightarrow> 'a oc_chat_scheme" where
  "oc_model_open_thread channel_id parent_id m =
     (oc_model_close_thread m)\<lparr>m_thread_open := True, m_thread_channel := channel_id,
        m_thread_parent := parent_id, m_thread_replay := True\<rparr>"

definition thread_apply :: "ev_thread \<Rightarrow> 'a oc_chat_scheme \<Rightarrow> 'a oc_chat_scheme" where
  "thread_apply e m =
     (let t = \<lparr>tv_root_id = et_message_id e, tv_channel_id = et_channel_id e, tv_root_author = et_author_id e,
               tv_root_at = et_server_time e, tv_last_reply_at = et_last_reply_at e,
               tv_reply_count = et_reply_count e, tv_unread = et_unread_count e,
               tv_following = et_following e, tv_preview = et_body e, tv_action = et_action e,
               tv_gen = m_thread_gen m\<rparr>;
          same = (\<lambda>t. tv_root_id t = et_message_id e);
          threads = upsert same (\<lambda>_. t) t (m_threads m)
      in m\<lparr>m_threads := (if et_following e then threads else swap_remove_first same threads)\<rparr>)"

definition oc_model_threads_begin :: "'a oc_chat_scheme \<Rightarrow> 'a oc_chat_scheme" where
  "oc_model_threads_begin m = m\<lparr>m_thread_gen := m_thread_gen m + 1, m_threads_loading := True\<rparr>"

definition ev_threads_end_arm :: "'a oc_chat_scheme \<Rightarrow> 'a oc_chat_scheme" where
  "ev_threads_end_arm m =
     m\<lparr>m_threads_loading := False,
        m_threads := sweep_down (\<lambda>t. tv_gen t \<noteq> m_thread_gen m) (length (m_threads m)) (m_threads m)\<rparr>"

definition oc_model_thread_unread :: "'a oc_chat_scheme \<Rightarrow> u32" where
  "oc_model_thread_unread m = sum_list (map tv_unread (m_threads m))"

section \<open>Groups\<close>

definition group_upsert :: "oc_group_view option \<Rightarrow> 'a oc_chat_scheme \<Rightarrow> 'a oc_chat_scheme" where
  "group_upsert g m =
     (case g of
        None \<Rightarrow> m
      | Some g \<Rightarrow>
          m\<lparr>m_groups := upsert (\<lambda>(h, _). gv_id h = gv_id g) (\<lambda>_. (g, m_groups_gen m)) (g, m_groups_gen m) (m_groups m)\<rparr>)"

definition group_drop :: "u64 \<Rightarrow> 'a oc_chat_scheme \<Rightarrow> 'a oc_chat_scheme" where
  "group_drop group_id m =
     m\<lparr>m_groups := swap_remove_first (\<lambda>(h, _). gv_id h = group_id) (m_groups m),
        m_channels := map (\<lambda>c. c\<lparr>ch_groups := swap_remove_first (\<lambda>g. g = group_id) (ch_groups c)\<rparr>) (m_channels m)\<rparr>"

lemma length_swap_remove_first:
  "length (swap_remove_first P xs) = (if list_ex P xs then length xs - 1 else length xs)"
proof (cases "first_index P xs")
  case None
  then show ?thesis using first_index_None [of P xs] by (simp add: swap_remove_first_def)
next
  case (Some i)
  then have "list_ex P xs" using first_index_None [of P xs] by auto
  with Some first_index_Some [OF Some] show ?thesis by (simp add: swap_remove_first_def)
qed

function groups_sweep :: "nat \<Rightarrow> 'a oc_chat_scheme \<Rightarrow> 'a oc_chat_scheme" where
  "groups_sweep i m =
     (if i \<ge> length (m_groups m) then m
      else let (g, gen) = m_groups m ! i
           in if gen \<noteq> m_groups_gen m then groups_sweep i (group_drop (gv_id g) m)
              else groups_sweep (i + 1) m)"
  by pat_completeness auto
termination
proof (relation "measure (\<lambda>(i, m). length (m_groups m) - i)")
  fix i and m :: "'a oc_chat_scheme" and x g gen
  assume i: "\<not> length (m_groups m) \<le> i" and x: "x = m_groups m ! i" "(g, gen) = x"
  have "list_ex (\<lambda>(h, _). gv_id h = gv_id g) (m_groups m)"
    using i x unfolding list_ex_iff by (metis (mono_tags, lifting) case_prod_conv leI nth_mem)
  with i show "((i, group_drop (gv_id g) m), i, m) \<in> measure (\<lambda>(i, m). length (m_groups m) - i)"
    by (auto simp: group_drop_def length_swap_remove_first)
qed auto

declare groups_sweep.simps [simp del]

definition ev_groups_end_arm :: "'a oc_chat_scheme \<Rightarrow> 'a oc_chat_scheme" where
  "ev_groups_end_arm m =
     (let m = groups_sweep 0 m in m\<lparr>m_groups_gen := m_groups_gen m + 1\<rparr>)"

section \<open>The switch\<close>

definition ev_dnd_arm :: "u8 \<Rightarrow> 'a oc_chat_scheme \<Rightarrow> 'a oc_chat_scheme" where
  "ev_dnd_arm op m =
     m\<lparr>m_notify_default := op, m_channels := map (\<lambda>c. c\<lparr>ch_notify_level := op\<rparr>) (m_channels m)\<rparr>"

definition ev_read_cursor_arm :: "u64 \<Rightarrow> u64 \<Rightarrow> u64 \<Rightarrow> 'a oc_chat_scheme \<Rightarrow> 'a oc_chat_scheme" where
  "ev_read_cursor_arm channel_id user_id message_id m =
     (if user_id = m_user_id m then oc_model_set_read_marker channel_id message_id m
      else upd_channel channel_id (reader_advance user_id message_id) m)"

abbreviation OC_MAX_CHANNEL_GROUPS :: nat where "OC_MAX_CHANNEL_GROUPS \<equiv> 32"

definition ev_channel_arm :: "(nat \<Rightarrow> string \<Rightarrow> string) \<Rightarrow> ev_channel \<Rightarrow> 'a oc_chat_scheme \<Rightarrow> 'a oc_chat_scheme" where
  "ev_channel_arm flat e m = upd_channel (ec_channel_id e) (channel_info flat e) (channel_ensure (ec_channel_id e) m)"

definition ev_collapsed_arm :: "u64 \<Rightarrow> bool \<Rightarrow> 'a oc_chat_scheme \<Rightarrow> 'a oc_chat_scheme" where
  "ev_collapsed_arm mid op m = upd_everywhere mid (\<lambda>g. g\<lparr>ms_collapsed := op\<rparr>) m"

definition ev_poll_arm :: "u64 \<Rightarrow> u64 \<Rightarrow> oc_poll_view option \<Rightarrow> 'a oc_chat_scheme \<Rightarrow> 'a oc_chat_scheme" where
  "ev_poll_arm cid mid poll m = upd_both cid mid (msg_set_poll poll) m"

definition ev_forward_arm :: "u64 \<Rightarrow> u64 \<Rightarrow> oc_msg_forward \<Rightarrow> 'a oc_chat_scheme \<Rightarrow> 'a oc_chat_scheme" where
  "ev_forward_arm cid mid fw m = upd_channel cid (upd_msg mid (msg_set_forward fw)) m"

definition ev_unfurl_arm ::
    "u64 \<Rightarrow> u64 \<Rightarrow> string option \<Rightarrow> string option \<Rightarrow> string option \<Rightarrow> 'a oc_chat_scheme \<Rightarrow> 'a oc_chat_scheme" where
  "ev_unfurl_arm cid mid url title descr m =
     (case (url, title) of
        (Some u, Some t) \<Rightarrow> upd_channel cid (upd_msg mid (msg_add_unfurl u t descr)) m
      | _ \<Rightarrow> m)"

definition ev_edit_arm :: "u64 \<Rightarrow> u64 \<Rightarrow> string option \<Rightarrow> ev_action \<Rightarrow> 'a oc_chat_scheme \<Rightarrow> 'a oc_chat_scheme" where
  "ev_edit_arm cid mid body act m = upd_channel cid (upd_msg mid (msg_edit body act)) m"

definition ev_delete_arm :: "u64 \<Rightarrow> u64 \<Rightarrow> 'a oc_chat_scheme \<Rightarrow> 'a oc_chat_scheme" where
  "ev_delete_arm cid mid m = upd_both cid mid msg_tombstone m"

definition ev_restore_arm ::
    "u64 \<Rightarrow> u64 \<Rightarrow> string option \<Rightarrow> bool \<Rightarrow> ev_action \<Rightarrow> 'a oc_chat_scheme \<Rightarrow> 'a oc_chat_scheme" where
  "ev_restore_arm cid mid body stored act m = upd_both cid mid (msg_restore body stored act) m"

definition ev_thread_end_arm :: "u64 \<Rightarrow> 'a oc_chat_scheme \<Rightarrow> 'a oc_chat_scheme" where
  "ev_thread_end_arm pid m = (if pid = m_thread_parent m then m\<lparr>m_thread_replay := False\<rparr> else m)"

definition ev_notify_pref_arm :: "u64 \<Rightarrow> u8 \<Rightarrow> bool \<Rightarrow> 'a oc_chat_scheme \<Rightarrow> 'a oc_chat_scheme" where
  "ev_notify_pref_arm cid op muted m = upd_channel cid (\<lambda>c. c\<lparr>ch_notify_level := op, ch_muted := muted\<rparr>) m"

definition ev_channel_groups_arm :: "u64 \<Rightarrow> u64 list \<Rightarrow> 'a oc_chat_scheme \<Rightarrow> 'a oc_chat_scheme" where
  "ev_channel_groups_arm cid gs m = upd_channel cid (\<lambda>c. c\<lparr>ch_groups := take OC_MAX_CHANNEL_GROUPS gs\<rparr>) m"

definition ev_pinned_msg_arm :: "u64 \<Rightarrow> oc_pinned_row \<Rightarrow> 'a oc_chat_scheme \<Rightarrow> 'a oc_chat_scheme" where
  "ev_pinned_msg_arm cid row m =
     (if \<not> m_pinlist_open m \<or> m_pinlist_channel m \<noteq> cid then m
      else m\<lparr>m_pins := m_pins m @ [row\<lparr>pr_attach_name := snprintf_s 128 (pr_attach_name row)\<rparr>]\<rparr>)"

definition ev_pins_end_arm :: "u64 \<Rightarrow> 'a oc_chat_scheme \<Rightarrow> 'a oc_chat_scheme" where
  "ev_pins_end_arm cid m = (if m_pinlist_open m \<and> m_pinlist_channel m = cid then m\<lparr>m_pinlist_loading := False\<rparr> else m)"

definition ev_saved_msg_arm :: "oc_saved_view \<Rightarrow> 'a oc_chat_scheme \<Rightarrow> 'a oc_chat_scheme" where
  "ev_saved_msg_arm sv m =
     (if \<not> m_saved_open m \<or> \<not> m_saved_loading m then m
      else m\<lparr>m_saved := m_saved m @ [sv\<lparr>sv_attach_name := snprintf_s 128 (sv_attach_name sv)\<rparr>]\<rparr>)"

definition ev_saved_end_arm :: "'a oc_chat_scheme \<Rightarrow> 'a oc_chat_scheme" where
  "ev_saved_end_arm m = (if m_saved_open m then m\<lparr>m_saved_loading := False\<rparr> else m)"

lemmas small_arms = ev_channel_arm_def ev_collapsed_arm_def ev_poll_arm_def ev_forward_arm_def ev_unfurl_arm_def
  ev_edit_arm_def ev_delete_arm_def ev_restore_arm_def ev_thread_end_arm_def ev_notify_pref_arm_def
  ev_channel_groups_arm_def ev_pinned_msg_arm_def ev_pins_end_arm_def ev_saved_msg_arm_def ev_saved_end_arm_def

fun oc_chat_apply :: "(nat \<Rightarrow> string \<Rightarrow> string) \<Rightarrow> chat_ev \<Rightarrow> 'a oc_chat_scheme \<Rightarrow> 'a oc_chat_scheme option" where
  "oc_chat_apply flat (OC_EV_CHANNEL e) m = Some (ev_channel_arm flat e m)"
| "oc_chat_apply flat (OC_EV_CHANNEL_DESCRIPTION cid body) m = Some (upd_channel cid (channel_description body) m)"
| "oc_chat_apply flat (OC_EV_MESSAGE e) m = Some (ev_message_arm flat e m)"
| "oc_chat_apply flat (OC_EV_COLLAPSED mid op) m = Some (ev_collapsed_arm mid op m)"
| "oc_chat_apply flat (OC_EV_SAVED_UPDATED mid op saved_at) m = Some (ev_saved_arm mid op saved_at m)"
| "oc_chat_apply flat (OC_EV_PIN cid mid op uid t) m = Some (ev_pin_arm cid mid op uid t m)"
| "oc_chat_apply flat (OC_EV_REACTION cid mid uid emoji cnt op) m = ev_reaction_arm cid mid uid emoji cnt op m"
| "oc_chat_apply flat (OC_EV_ACTION cid mid act) m = Some (ev_action_arm flat cid mid act m)"
| "oc_chat_apply flat (OC_EV_POLL cid mid poll) m = Some (ev_poll_arm cid mid poll m)"
| "oc_chat_apply flat (OC_EV_FORWARD cid mid fw) m = Some (ev_forward_arm cid mid fw m)"
| "oc_chat_apply flat (OC_EV_UNFURL cid mid url title descr) m = Some (ev_unfurl_arm cid mid url title descr m)"
| "oc_chat_apply flat (OC_EV_EDIT cid mid body act) m = Some (ev_edit_arm cid mid body act m)"
| "oc_chat_apply flat (OC_EV_DELETE cid mid) m = Some (ev_delete_arm cid mid m)"
| "oc_chat_apply flat (OC_EV_RESTORE cid mid body stored act) m = Some (ev_restore_arm cid mid body stored act m)"
| "oc_chat_apply flat (OC_EV_THREAD_REPLY e) m = Some (ev_thread_reply_arm flat e m)"
| "oc_chat_apply flat (OC_EV_THREAD_END pid) m = Some (ev_thread_end_arm pid m)"
| "oc_chat_apply flat (OC_EV_THREAD_META mid cnt) m = Some (bump_reply_count mid cnt m)"
| "oc_chat_apply flat (OC_EV_ATTACHMENT e) m = Some (attach_to_msg flat e m)"
| "oc_chat_apply flat (OC_EV_READ_CURSOR cid uid mid) m = Some (ev_read_cursor_arm cid uid mid m)"
| "oc_chat_apply flat (OC_EV_READ_STATE cid) m = Some (oc_model_mark_read cid m)"
| "oc_chat_apply flat (OC_EV_DND op) m = Some (ev_dnd_arm op m)"
| "oc_chat_apply flat (OC_EV_NOTIFY_PREF cid op muted) m = Some (ev_notify_pref_arm cid op muted m)"
| "oc_chat_apply flat (OC_EV_GROUP g) m = Some (group_upsert g m)"
| "oc_chat_apply flat (OC_EV_GROUP_DELETED gid) m = Some (group_drop gid m)"
| "oc_chat_apply flat OC_EV_GROUPS_END m = Some (ev_groups_end_arm m)"
| "oc_chat_apply flat (OC_EV_CHANNEL_GROUPS cid gs) m = Some (ev_channel_groups_arm cid gs m)"
| "oc_chat_apply flat (OC_EV_THREAD_SUMMARY e) m = Some (thread_apply e m)"
| "oc_chat_apply flat OC_EV_THREADS_END m = Some (ev_threads_end_arm m)"
| "oc_chat_apply flat (OC_EV_PINNED_MSG cid row) m = Some (ev_pinned_msg_arm cid row m)"
| "oc_chat_apply flat (OC_EV_PINS_END cid) m = Some (ev_pins_end_arm cid m)"
| "oc_chat_apply flat (OC_EV_SAVED_MSG sv) m = Some (ev_saved_msg_arm sv m)"
| "oc_chat_apply flat OC_EV_SAVED_END m = Some (ev_saved_end_arm m)"

end
