(* ===== verification/Client_Transcript.thy ===== *)
theory Client_Transcript
  imports Client_Chat
begin

text \<open>
  The invariant of the conversations: every transcript strictly ascending by message id below its high-water mark,
  keyed lists without duplicates, bounded arrays within their bounds, and, where \<open>sp\<close> asks for it, an action's span
  inside the body it belongs to. Every event keeps it; for the spans, every event but an edit that does not say what
  the action in its new body is. \<open>keeps_msg\<close> and \<open>keeps_channel\<close> are the contracts of the reducers
  of one message and of one channel; \<open>keeps\<close> collects them.
\<close>

named_theorems keeps \<open>a reducer keeps ids and well-formedness\<close>

section \<open>Well-formed messages\<close>

definition reactions_ok :: "oc_reaction list \<Rightarrow> u8 \<Rightarrow> bool" where
  "reactions_ok rs cap \<longleftrightarrow> keyed rx_emoji rs \<and> length rs \<le> unat cap \<and> cap \<in> {0, 4, 8, 16, 32, 64, 128}"

definition action_ok :: "string option \<Rightarrow> bool \<Rightarrow> oc_msg_action \<Rightarrow> bool" where
  "action_ok body deleted act \<longleftrightarrow> ac_present act \<longrightarrow> \<not> deleted \<and>
     (case body of None \<Rightarrow> False | Some b \<Rightarrow> 0 < ac_len act \<and> ac_start act + ac_len act \<le> length b)"

definition attach_ok :: "oc_attachment list \<Rightarrow> bool" where
  "attach_ok as \<longleftrightarrow> keyed at_id as \<and> length as \<le> OC_MAX_ATTACH"

definition unfurls_ok :: "oc_msg_unfurl list \<Rightarrow> bool" where
  "unfurls_ok us \<longleftrightarrow> keyed uf_url us \<and> length us \<le> 3"

definition msg_ok :: "bool \<Rightarrow> oc_msg \<Rightarrow> bool" where
  "msg_ok sp msg \<longleftrightarrow> reactions_ok (ms_reactions msg) (ms_cap_reactions msg) \<and>
     (sp \<longrightarrow> action_ok (ms_body msg) (ms_deleted msg) (ms_action msg)) \<and>
     attach_ok (ms_attach msg) \<and> unfurls_ok (ms_unfurls msg)"

lemma empty_ok [simp]:
  "reactions_ok [] 0" "action_ok body deleted no_action" "attach_ok []" "unfurls_ok []"
  by (simp_all add: reactions_ok_def action_ok_def no_action_def attach_ok_def unfurls_ok_def keyed_def)

definition keeps_msg :: "bool \<Rightarrow> (oc_msg \<Rightarrow> oc_msg) \<Rightarrow> bool" where
  "keeps_msg sp f \<longleftrightarrow> (\<forall>g. ms_message_id (f g) = ms_message_id g \<and> (msg_ok sp g \<longrightarrow> msg_ok sp (f g)))"

lemma keeps_msgI:
  "(\<And>g. ms_message_id (f g) = ms_message_id g) \<Longrightarrow> (\<And>g. msg_ok sp g \<Longrightarrow> msg_ok sp (f g)) \<Longrightarrow> keeps_msg sp f"
  by (simp add: keeps_msg_def)

lemma zero_msg_ok [simp]: "msg_ok sp zero_msg"
  by (simp add: msg_ok_def zero_msg_def)

lemma keeps_tombstone [keeps]: "keeps_msg sp msg_tombstone"
  by (rule keeps_msgI) (simp_all add: msg_tombstone_def msg_ok_def)

lemma set_action_simps [simp]:
  "ms_message_id (msg_set_action e g) = ms_message_id g" "ms_body (msg_set_action e g) = ms_body g"
  "ms_reactions (msg_set_action e g) = ms_reactions g" "ms_cap_reactions (msg_set_action e g) = ms_cap_reactions g"
  "ms_attach (msg_set_action e g) = ms_attach g" "ms_unfurls (msg_set_action e g) = ms_unfurls g"
  "ms_deleted (msg_set_action e g) = ms_deleted g" "ms_author_id (msg_set_action e g) = ms_author_id g"
  "ms_broadcast_stored (msg_set_action e g) = ms_broadcast_stored g"
  "ms_author_name (msg_set_action e g) = ms_author_name g" "ms_server_time (msg_set_action e g) = ms_server_time g"
  "ms_kind (msg_set_action e g) = ms_kind g"
  by (simp_all add: msg_set_action_def Let_def split: option.split)

lemma set_action_ok:
  "ea_known e \<or> action_ok (ms_body g) (ms_deleted g) (ms_action g) \<Longrightarrow>
    action_ok (ms_body g) (ms_deleted g) (ms_action (msg_set_action e g))"
  by (auto simp: msg_set_action_def action_ok_def no_action_def Let_def split: option.splits)

lemma keeps_set_action [keeps]: "keeps_msg sp (msg_set_action e)"
  by (rule keeps_msgI) (simp_all add: msg_ok_def set_action_ok)

lemma keeps_saved [keeps]: "keeps_msg sp (msg_set_saved op t)"
  by (rule keeps_msgI) (simp_all add: msg_set_saved_def msg_ok_def)

lemma keeps_pinned [keeps]: "keeps_msg sp (msg_set_pinned op u t)"
  by (rule keeps_msgI) (simp_all add: msg_set_pinned_def msg_ok_def)

lemma keeps_collapsed [keeps]: "keeps_msg sp (\<lambda>g. g\<lparr>ms_collapsed := op\<rparr>)"
  by (rule keeps_msgI) (simp_all add: msg_ok_def)

lemma keeps_stored: "keeps_msg sp (\<lambda>g. g\<lparr>ms_broadcast_stored := op\<rparr>)"
  by (rule keeps_msgI) (simp_all add: msg_ok_def)

lemma keeps_poll [keeps]: "keeps_msg sp (msg_set_poll p)"
  by (rule keeps_msgI) (auto simp: msg_set_poll_def msg_ok_def Let_def split: option.split)

lemma keeps_forward [keeps]: "keeps_msg sp (msg_set_forward fw)"
  by (rule keeps_msgI) (auto simp: msg_set_forward_def msg_ok_def)

lemma keeps_reply_count [keeps]:
  "keeps_msg sp (\<lambda>g. if cnt > ms_reply_count g then g\<lparr>ms_reply_count := cnt\<rparr> else g)"
  by (rule keeps_msgI) (simp_all add: msg_ok_def)

lemma keeps_attach [keeps]: "keeps_msg sp (msg_add_attach a)"
  by (rule keeps_msgI)
    (auto simp: msg_add_attach_def msg_ok_def attach_ok_def keyed_def list_ex_iff)

lemma keeps_unfurl [keeps]: "keeps_msg sp (msg_add_unfurl u t d)"
proof (rule keeps_msgI)
  fix g
  show "ms_message_id (msg_add_unfurl u t d g) = ms_message_id g" by (simp add: msg_add_unfurl_def Let_def)
  assume g: "msg_ok sp g"
  let ?new = "\<lparr>uf_url = u, uf_title = t, uf_descr = d\<rparr>"
  have "unfurls_ok (upd_first (\<lambda>v. uf_url v = u) (\<lambda>_. ?new) us)" if "unfurls_ok us" for us
    using that by (auto simp: unfurls_ok_def)
  moreover have "unfurls_ok (us @ [?new])"
    if "unfurls_ok us" "\<not> list_ex (\<lambda>v. uf_url v = u) us" "\<not> length us \<ge> 3" for us
    using that by (auto simp: unfurls_ok_def keyed_def list_ex_iff)
  ultimately show "msg_ok sp (msg_add_unfurl u t d g)" using g by (auto simp: msg_add_unfurl_def msg_ok_def Let_def)
qed

lemma keeps_edit: "(sp \<longrightarrow> ea_known act) \<Longrightarrow> keeps_msg sp (msg_edit body act)"
  using set_action_ok [of act "g\<lparr>ms_body := body, ms_edited := True, ms_unfurls := []\<rparr>" for g]
  by (intro keeps_msgI) (simp_all add: msg_edit_def msg_ok_def)

lemma keeps_untombstone: "keeps_msg sp (msg_untombstone body)"
  by (rule keeps_msgI) (auto simp: msg_untombstone_def msg_ok_def action_ok_def)

lemma keeps_comp: "keeps_msg sp f \<Longrightarrow> keeps_msg sp h \<Longrightarrow> keeps_msg sp (\<lambda>g. f (h g))"
  by (simp add: keeps_msg_def)

lemma keeps_restore [keeps]: "keeps_msg sp (msg_restore body stored act)"
  unfolding msg_restore_def by (intro keeps_comp [OF keeps_stored] keeps_comp [OF keeps_set_action] keeps_untombstone)

section \<open>Reactions\<close>

text \<open>The capacity wraps to zero exactly at 128, and the array is lost with it.\<close>

lemma double_cap:
  assumes "cap \<in> {0, 4, 8, 16, 32, 64, 128 :: u8}" "cap \<noteq> 128" "cap' = (if cap \<noteq> 0 then cap * 2 else 4)"
  shows "cap' \<noteq> 0" "cap' \<in> {0, 4, 8, 16, 32, 64, 128}" "unat cap < unat cap'"
  using assms by (auto split: if_splits)

lemma grow_reactions_ok:
  assumes "msg_ok sp g"
  shows "grow_reactions g = None \<longleftrightarrow> length (ms_reactions g) = 128"
    and "grow_reactions g = Some g' \<Longrightarrow> ms_message_id g' = ms_message_id g \<and> ms_reactions g' = ms_reactions g \<and>
      msg_ok sp g' \<and> length (ms_reactions g) < unat (ms_cap_reactions g')"
proof -
  let ?cap = "ms_cap_reactions g"
  have ok: "length (ms_reactions g) \<le> unat ?cap" "?cap \<in> {0, 4, 8, 16, 32, 64, 128}"
    using assms by (auto simp: msg_ok_def reactions_ok_def)
  show "grow_reactions g = None \<longleftrightarrow> length (ms_reactions g) = 128"
    using ok by (auto simp: grow_reactions_def Let_def)
  assume g': "grow_reactions g = Some g'"
  show "ms_message_id g' = ms_message_id g \<and> ms_reactions g' = ms_reactions g \<and> msg_ok sp g' \<and>
      length (ms_reactions g) < unat (ms_cap_reactions g')"
  proof (cases "length (ms_reactions g) = unat ?cap")
    case False
    then have "g' = g" using g' by (simp add: grow_reactions_def)
    with ok False assms show ?thesis by simp
  next
    case True
    define cap' where "cap' = (if ?cap \<noteq> 0 then ?cap * 2 else 4)"
    have "g' = g\<lparr>ms_cap_reactions := cap'\<rparr>" "cap' \<noteq> 0"
      using g' True by (simp_all add: grow_reactions_def Let_def cap'_def split: if_split_asm)
    moreover then have "?cap \<noteq> 128" by (auto simp: cap'_def)
    note double_cap(2,3) [OF ok(2) this cap'_def]
    moreover then have "reactions_ok (ms_reactions g) cap'"
      using assms True by (simp add: msg_ok_def reactions_ok_def)
    ultimately show ?thesis using assms True by (simp add: msg_ok_def)
  qed
qed

lemma reactions_le: "reactions_ok rs cap \<Longrightarrow> keyed rx_emoji rs' \<Longrightarrow> length rs' \<le> length rs \<Longrightarrow> reactions_ok rs' cap"
  by (auto simp: reactions_ok_def)

lemma reactions_snoc:
  "reactions_ok rs cap \<Longrightarrow> \<not> list_ex (\<lambda>s. rx_emoji s = rx_emoji r) rs \<Longrightarrow> length rs < unat cap \<Longrightarrow>
    reactions_ok (rs @ [r]) cap"
  unfolding reactions_ok_def by (auto simp: keyed_def list_ex_iff)

lemma msg_ok_reactions:
  "msg_ok sp g \<Longrightarrow> msg_ok sp (g\<lparr>ms_reactions := rs\<rparr>) = reactions_ok rs (ms_cap_reactions g)"
  by (simp add: msg_ok_def)

lemma apply_reaction_ok:
  assumes "msg_ok sp g" and emoji: "length emoji < 40" and g': "msg_apply_reaction emoji cnt op is_me g = Some g'"
  shows "ms_message_id g' = ms_message_id g \<and> msg_ok sp g'"
proof -
  let ?same = "\<lambda>r. rx_emoji r = emoji"
  have ok: "reactions_ok (ms_reactions g) (ms_cap_reactions g)" "keyed rx_emoji (ms_reactions g)"
    using assms(1) by (auto simp: msg_ok_def reactions_ok_def)
  consider "emoji = ''''" | "emoji \<noteq> ''''" "cnt = 0" | "emoji \<noteq> ''''" "cnt \<noteq> 0" "list_ex ?same (ms_reactions g)"
    | "emoji \<noteq> ''''" "cnt \<noteq> 0" "\<not> list_ex ?same (ms_reactions g)" by blast
  then show ?thesis
  proof cases
    case 1
    with g' assms(1) show ?thesis by (simp add: msg_apply_reaction_def)
  next
    case 2
    then have "g' = g\<lparr>ms_reactions := swap_remove_first ?same (ms_reactions g)\<rparr>" using g' by (simp add: msg_apply_reaction_def)
    moreover have "reactions_ok (swap_remove_first ?same (ms_reactions g)) (ms_cap_reactions g)"
      by (rule reactions_le [OF ok(1) keyed_swap_remove_first [OF ok(2)]]) (simp add: length_swap_remove_first)
    ultimately show ?thesis using assms(1) by (simp add: msg_ok_reactions)
  next
    case 3
    let ?rs = "upd_first ?same (\<lambda>r. (\<lambda>r. if is_me then r\<lparr>rx_mine := (op = 1)\<rparr> else r) (r\<lparr>rx_count := cnt\<rparr>)) (ms_reactions g)"
    have "g' = g\<lparr>ms_reactions := ?rs\<rparr>" using g' 3 by (simp add: msg_apply_reaction_def Let_def)
    moreover have "reactions_ok ?rs (ms_cap_reactions g)"
      by (rule reactions_le [OF ok(1) keyed_upd_first [OF ok(2)]]) simp_all
    ultimately show ?thesis using assms(1) by (simp only: msg_ok_reactions) simp
  next
    case 4
    let ?r = "(\<lambda>r. if is_me then r\<lparr>rx_mine := (op = 1)\<rparr> else r) \<lparr>rx_emoji = snprintf_s 40 emoji, rx_count = cnt, rx_mine = False\<rparr>"
    from 4 obtain h where h: "grow_reactions g = Some h" and g': "g' = h\<lparr>ms_reactions := ms_reactions h @ [?r]\<rparr>"
      using g' by (auto simp: msg_apply_reaction_def Let_def)
    note grown = grow_reactions_ok(2) [OF assms(1) h]
    have "rx_emoji ?r = emoji" using emoji by (simp add: snprintf_s_def)
    then have "reactions_ok (ms_reactions h @ [?r]) (ms_cap_reactions h)"
      using grown 4(3) by (intro reactions_snoc) (auto simp: msg_ok_def)
    then show ?thesis using grown g' by (simp only: msg_ok_reactions) simp
  qed
qed

section \<open>Well-formed channels\<close>

definition transcript_ok :: "bool \<Rightarrow> u64 \<Rightarrow> oc_msg list \<Rightarrow> bool" where
  "transcript_ok sp hw msgs \<longleftrightarrow> sorted_wrt (<) (map ms_message_id msgs) \<and>
     list_all (\<lambda>g. 0 < ms_message_id g \<and> ms_message_id g \<le> hw \<and> msg_ok sp g) msgs"

definition channel_ok :: "bool \<Rightarrow> oc_channel \<Rightarrow> bool" where
  "channel_ok sp c \<longleftrightarrow> transcript_ok sp (ch_high_water c) (ch_msgs c) \<and> keyed rc_user_id (ch_readers c) \<and>
     length (ch_peers c) \<le> 9 \<and> length (ch_groups c) \<le> OC_MAX_CHANNEL_GROUPS"

definition keeps_channel :: "bool \<Rightarrow> (oc_channel \<Rightarrow> oc_channel) \<Rightarrow> bool" where
  "keeps_channel sp f \<longleftrightarrow> (\<forall>c. ch_channel_id (f c) = ch_channel_id c \<and> (channel_ok sp c \<longrightarrow> channel_ok sp (f c)))"

lemma keeps_channelI:
  "(\<And>c. ch_channel_id (f c) = ch_channel_id c) \<Longrightarrow> (\<And>c. channel_ok sp c \<Longrightarrow> channel_ok sp (f c)) \<Longrightarrow> keeps_channel sp f"
  by (simp add: keeps_channel_def)

lemma keeps_channel_comp: "keeps_channel sp f \<Longrightarrow> keeps_channel sp h \<Longrightarrow> keeps_channel sp (\<lambda>c. f (h c))"
  by (simp add: keeps_channel_def)

lemma transcript_keyed: "transcript_ok sp hw msgs \<Longrightarrow> keyed ms_message_id msgs"
  by (simp add: transcript_ok_def keyed_def strict_sorted_iff)

lemma transcript_upd_first:
  assumes "transcript_ok sp hw msgs" and f: "\<And>g. P g \<Longrightarrow> g \<in> set msgs \<Longrightarrow> ms_message_id (f g) = ms_message_id g \<and> msg_ok sp (f g)"
  shows "transcript_ok sp hw (upd_first P f msgs)"
proof -
  have "map ms_message_id (upd_first P f msgs) = map ms_message_id msgs" using f by (induction msgs) auto
  moreover have "list_all Q (upd_first P f msgs)"
    if "list_all Q msgs" "\<And>g. P g \<Longrightarrow> g \<in> set msgs \<Longrightarrow> Q (f g)" for Q
    using that by (induction msgs) auto
  note this [of "\<lambda>g. 0 < ms_message_id g \<and> ms_message_id g \<le> hw \<and> msg_ok sp g"]
  ultimately show ?thesis using assms unfolding transcript_ok_def list_all_iff by auto
qed

lemma upd_msg_simps [simp]:
  "ch_channel_id (upd_msg mid f c) = ch_channel_id c" "ch_high_water (upd_msg mid f c) = ch_high_water c"
  by (simp_all add: upd_msg_def)

lemma transcript_msg_ok: "transcript_ok sp hw msgs \<Longrightarrow> g \<in> set msgs \<Longrightarrow> msg_ok sp g"
  by (simp add: transcript_ok_def list_all_iff)

lemma keeps_upd_msg [keeps]: "keeps_msg sp f \<Longrightarrow> keeps_channel sp (upd_msg mid f)"
  by (rule keeps_channelI)
    (auto simp: channel_ok_def upd_msg_def keeps_msg_def intro!: transcript_upd_first dest: transcript_msg_ok)

lemma let_field: "(\<And>c. fld c = fld a \<Longrightarrow> fld (G c) = v) \<Longrightarrow> fld (Let a G) = v"
  by (simp add: Let_def)

lemma channel_info_simps [simp]:
  "ch_channel_id (channel_info flat e c) = ch_channel_id c"
  "ch_msgs (channel_info flat e c) = ch_msgs c"
  "ch_high_water (channel_info flat e c) = ch_high_water c"
  "ch_readers (channel_info flat e c) = ch_readers c"
  "ch_groups (channel_info flat e c) = ch_groups c"
  "ch_peers (channel_info flat e c) = take 9 (ec_peers e)"
  unfolding channel_info_def
  subgoal by ((rule let_field [of ch_channel_id])+, simp add: if_distrib [of ch_channel_id] cong: if_cong)
  subgoal by ((rule let_field [of ch_msgs])+, simp add: if_distrib [of ch_msgs] cong: if_cong)
  subgoal by ((rule let_field [of ch_high_water])+, simp add: if_distrib [of ch_high_water] cong: if_cong)
  subgoal by ((rule let_field [of ch_readers])+, simp add: if_distrib [of ch_readers] cong: if_cong)
  subgoal by ((rule let_field [of ch_groups])+, simp add: if_distrib [of ch_groups] cong: if_cong)
  subgoal by ((rule let_field [of ch_peers])+, simp add: if_distrib [of ch_peers] cong: if_cong)
  done

lemma keeps_channel_info [keeps]: "keeps_channel sp (channel_info flat e)"
  by (rule keeps_channelI) (simp_all add: channel_ok_def)

lemma keeps_channel_fields [keeps]:
  "keeps_channel sp (channel_description body)"
  "keeps_channel sp (\<lambda>c. c\<lparr>ch_notify_level := op\<rparr>)"
  "keeps_channel sp (\<lambda>c. c\<lparr>ch_notify_level := op, ch_muted := muted\<rparr>)"
  "keeps_channel sp (\<lambda>c. c\<lparr>ch_groups := take OC_MAX_CHANNEL_GROUPS gs\<rparr>)"
  "keeps_channel sp (\<lambda>c. c\<lparr>ch_read_marker := ch_high_water c, ch_unread := 0, ch_priority_unread := 0\<rparr>)"
  by (auto intro!: keeps_channelI simp: channel_ok_def channel_description_def)

lemma keeps_group_gone [keeps]: "keeps_channel sp (\<lambda>c. c\<lparr>ch_groups := swap_remove_first P (ch_groups c)\<rparr>)"
  by (rule keeps_channelI) (auto simp: channel_ok_def length_swap_remove_first)

lemma keeps_recount [keeps]:
  "keeps_channel sp (\<lambda>c. let (n, pri) = count_unread m c mid (ch_msgs c)
     in c\<lparr>ch_read_marker := mid, ch_unread := n, ch_priority_unread := pri, ch_srv_unread := of_int n\<rparr>)"
  by (rule keeps_channelI) (simp_all add: channel_ok_def case_prod_beta)

lemma keeps_reader_advance [keeps]: "keeps_channel sp (reader_advance uid mid)"
  by (rule keeps_channelI) (auto simp: reader_advance_def channel_ok_def)

lemma keeps_previews [keeps]:
  "keeps_channel sp (action_preview flat mid)" "keeps_channel sp (attach_preview flat m mid)"
  by (auto intro!: keeps_channelI simp: channel_ok_def action_preview_def attach_preview_def Let_def split: option.split)


section \<open>The append\<close>

text \<open>The message \<^verbatim>\<open>channel_append\<close> stores, and the transcript it leaves.\<close>

definition new_msg :: "ev_message \<Rightarrow> oc_msg" where
  "new_msg e = zero_msg\<lparr>ms_body := em_body e, ms_author_name := snprintf_s 64 (em_author_name e),
     ms_author_id := em_author_id e, ms_message_id := em_message_id e,
     ms_server_time := em_server_time e, ms_kind := em_kind e,
     ms_broadcast_stored := em_broadcast_stored e\<rparr>"

lemma new_msg_simps [simp]:
  "ms_message_id (new_msg e) = em_message_id e" "ms_body (new_msg e) = em_body e"
  "ms_author_id (new_msg e) = em_author_id e" "ms_broadcast_stored (new_msg e) = em_broadcast_stored e"
  "\<not> ms_deleted (new_msg e)" "msg_ok sp (new_msg e)"
  by (simp_all add: new_msg_def zero_msg_def msg_ok_def)

lemma insert_at_le: "insert_at x msgs n \<le> n"
  by (induction x msgs n rule: insert_at.induct) auto

lemma insert_at_after: "insert_at x msgs n \<le> j \<Longrightarrow> j < n \<Longrightarrow> x < ms_message_id (msgs ! j)"
  by (induction x msgs n rule: insert_at.induct) (auto split: if_splits elim: less_SucE)

lemma insert_at_before: "insert_at x msgs n = Suc i \<Longrightarrow> ms_message_id (msgs ! i) \<le> x"
  by (induction x msgs n rule: insert_at.induct) (auto split: if_splits)

lemma insert_at_split:
  assumes sorted: "sorted_wrt (<) (map ms_message_id msgs)" and new: "x \<notin> ms_message_id ` set msgs"
    and at: "at = insert_at x msgs (length msgs)"
  shows "list_all (\<lambda>g. ms_message_id g < x) (take at msgs)" "list_all (\<lambda>g. x < ms_message_id g) (drop at msgs)"
proof -
  have le: "at \<le> length msgs" using insert_at_le at by blast
  have "ms_message_id (msgs ! j) < x" if j: "j < at" for j
  proof -
    obtain i where i: "at = Suc i" using j by (cases at) auto
    have "ms_message_id (msgs ! i) \<le> x" using insert_at_before at i by metis
    moreover have "ms_message_id (msgs ! j) \<le> ms_message_id (msgs ! i)"
    proof (cases "j = i")
      case False
      with j i le sorted show ?thesis by (simp add: sorted_wrt_iff_nth_less less_imp_le)
    qed simp
    moreover have "ms_message_id (msgs ! j) \<noteq> x" using new j le by auto
    ultimately show ?thesis by simp
  qed
  then show "list_all (\<lambda>g. ms_message_id g < x) (take at msgs)" using le by (simp add: list_all_length)
  show "list_all (\<lambda>g. x < ms_message_id g) (drop at msgs)"
    using insert_at_after [of x msgs "length msgs"] at by (simp add: list_all_length)
qed

text \<open>The new message goes between those with smaller and those with larger ids.\<close>

lemma channel_append_splits:
  assumes ok: "transcript_ok sp (ch_high_water c) (ch_msgs c)" and id: "em_message_id e \<noteq> 0"
    and new: "\<not> holds_msg (em_message_id e) c"
  obtains as bs where "ch_msgs c = as @ bs" "list_all (\<lambda>g. ms_message_id g < em_message_id e) as"
    "list_all (\<lambda>g. em_message_id e < ms_message_id g) bs"
    "channel_append e c = (True, c\<lparr>ch_msgs := as @ new_msg e # bs,
      ch_high_water := max (ch_high_water c) (em_message_id e)\<rparr>)"
proof (cases "em_message_id e \<le> ch_high_water c")
  case True
  let ?at = "insert_at (em_message_id e) (ch_msgs c) (length (ch_msgs c))"
  have fresh: "em_message_id e \<notin> ms_message_id ` set (ch_msgs c)" using new by (auto simp: holds_msg_def list_ex_iff)
  have eq: "channel_append e c = (True, c\<lparr>ch_msgs := take ?at (ch_msgs c) @ new_msg e # drop ?at (ch_msgs c),
      ch_high_water := max (ch_high_water c) (em_message_id e)\<rparr>)"
    using True id new by (simp add: channel_append_def holds_msg_def new_msg_def Let_def max_def)
  have sorted: "sorted_wrt (<) (map ms_message_id (ch_msgs c))" using ok by (simp add: transcript_ok_def)
  show ?thesis
    by (rule that [OF _ insert_at_split [OF sorted fresh refl] eq]) simp
next
  case False
  have eq: "channel_append e c = (True, c\<lparr>ch_msgs := ch_msgs c @ new_msg e # [],
      ch_high_water := max (ch_high_water c) (em_message_id e)\<rparr>)"
    using False id new by (simp add: channel_append_def new_msg_def Let_def max_def)
  have "list_all (\<lambda>g. ms_message_id g < em_message_id e) (ch_msgs c)"
    using ok False by (auto simp: transcript_ok_def list_all_iff)
  then show ?thesis by (intro that [OF _ _ _ eq]) simp_all
qed

lemma channel_append_held:
  "transcript_ok sp (ch_high_water c) (ch_msgs c) \<Longrightarrow> holds_msg (em_message_id e) c \<Longrightarrow> channel_append e c = (False, c)"
  by (auto simp: channel_append_def holds_msg_def transcript_ok_def list_all_iff list_ex_iff Let_def)

lemma channel_append_ok:
  assumes ok: "channel_ok sp c" and id: "em_message_id e \<noteq> 0" and res: "channel_append e c = (b, c')"
  shows "channel_ok sp c' \<and> ch_channel_id c' = ch_channel_id c \<and> (b \<longrightarrow> ch_msgs c' \<noteq> [])"
proof (cases "holds_msg (em_message_id e) c")
  case True
  then have "channel_append e c = (False, c)" using ok channel_append_held [of sp c e] by (simp add: channel_ok_def)
  then show ?thesis using res ok by simp
next
  case False
  have t: "transcript_ok sp (ch_high_water c) (ch_msgs c)" using ok by (simp add: channel_ok_def)
  obtain as bs where split: "ch_msgs c = as @ bs" "list_all (\<lambda>g. ms_message_id g < em_message_id e) as"
    "list_all (\<lambda>g. em_message_id e < ms_message_id g) bs"
    and eq: "channel_append e c = (True, c\<lparr>ch_msgs := as @ new_msg e # bs,
      ch_high_water := max (ch_high_water c) (em_message_id e)\<rparr>)"
    using channel_append_splits [OF t id False] .
  have "transcript_ok sp (max (ch_high_water c) (em_message_id e)) (as @ new_msg e # bs)"
    using t split id
    by (auto simp: transcript_ok_def sorted_wrt_append list_all_iff le_max_iff_disj word_neq_0_conv)
  then show ?thesis using res eq ok by (auto simp: channel_ok_def)
qed

end
