(* ===== verification/Machines.thy ===== *)
theory Machines
  imports Main
begin

text \<open>
  Sequences of steps of a stateful component, each of which may fail, and the contract that lifts what
  every step keeps to what a whole run keeps.
\<close>

fun run_steps :: "('e \<Rightarrow> 's \<Rightarrow> 's option) \<Rightarrow> 'e list \<Rightarrow> 's \<Rightarrow> 's option" where
  "run_steps step [] s = Some s"
| "run_steps step (e # es) s = Option.bind (step e s) (run_steps step es)"

lemma run_steps_append:
  "run_steps step (es @ fs) s = Option.bind (run_steps step es s) (run_steps step fs)"
  by (induction es arbitrary: s) (auto split: Option.bind_splits)

locale machine =
  fixes step :: "'e \<Rightarrow> 's \<Rightarrow> 's option" and ok :: "'e \<Rightarrow> bool" and inv :: "'s \<Rightarrow> bool"
  assumes step_inv: "inv s \<Longrightarrow> ok e \<Longrightarrow> step e s = Some s' \<Longrightarrow> inv s'"
begin

lemma run_inv: "inv s \<Longrightarrow> list_all ok es \<Longrightarrow> run_steps step es s = Some s' \<Longrightarrow> inv s'"
proof (induction es arbitrary: s)
  case (Cons e es)
  then show ?case by (auto simp: bind_eq_Some_conv dest: step_inv)
qed simp

end

text \<open>
  Steps that always succeed and answer: a run records the answers, and a contract on the record so far and
  the state carries over to the whole run.
\<close>

fun run_log :: "('o \<Rightarrow> 's \<Rightarrow> 'e \<times> 's) \<Rightarrow> 'o list \<Rightarrow> 's \<Rightarrow> 'e list \<times> 's" where
  "run_log step [] s = ([], s)"
| "run_log step (x # xs) s = (let (e, s) = step x s; (es, s) = run_log step xs s in (e # es, s))"

locale recorder =
  fixes step :: "'o \<Rightarrow> 's \<Rightarrow> 'e \<times> 's" and ok :: "'o \<Rightarrow> bool" and inv :: "'e list \<Rightarrow> 's \<Rightarrow> bool"
  assumes step_log: "inv log s \<Longrightarrow> ok x \<Longrightarrow> step x s = (e, s') \<Longrightarrow> inv (log @ [e]) s'"
begin

lemma run_from: "inv log s \<Longrightarrow> list_all ok xs \<Longrightarrow> run_log step xs s = (es, s') \<Longrightarrow> inv (log @ es) s'"
proof (induction xs arbitrary: log s es)
  case (Cons x xs)
  obtain e s1 where e: "step x s = (e, s1)" by (cases "step x s")
  with Cons.prems(3) obtain fs where fs: "es = e # fs" "run_log step xs s1 = (fs, s')"
    by (auto split: prod.splits)
  show ?case using Cons.IH [OF step_log [OF Cons.prems(1) _ e] _ fs(2)] Cons.prems(2) fs(1) by simp
qed simp

lemma run_inv: "inv [] s \<Longrightarrow> list_all ok xs \<Longrightarrow> run_log step xs s = (es, s') \<Longrightarrow> inv es s'"
  using run_from [of "[]"] by simp

end

end
