(* ===== verification/Client_Invariant.thy ===== *)
theory Client_Invariant
  imports Client_Transcript Machines
begin

text \<open>
  The conversations of the client keep their shape under every event: channels are kept once each, their
  transcripts ordered by message id without duplicates, the open thread, the followed threads and the groups hold no
  entry twice, and the bounded queues stay within their arrays. The contract of \<open>Machines\<close> lifts this to
  sequences of the daemon's events and the user interface's calls.
\<close>

section \<open>The invariant\<close>

definition channels_ok :: "bool \<Rightarrow> oc_channel list \<Rightarrow> bool" where
  "channels_ok sp cs \<longleftrightarrow> keyed ch_channel_id cs \<and> list_all (channel_ok sp) cs"

definition thread_ok :: "bool \<Rightarrow> oc_msg list \<Rightarrow> bool" where
  "thread_ok sp msgs \<longleftrightarrow> keyed ms_message_id msgs \<and> list_all (msg_ok sp) msgs"

definition chat_inv :: "bool \<Rightarrow> 'a oc_chat_scheme \<Rightarrow> bool" where
  "chat_inv sp m \<longleftrightarrow> channels_ok sp (m_channels m) \<and> thread_ok sp (m_thread_msgs m) \<and> keyed tv_root_id (m_threads m) \<and>
     keyed (\<lambda>x. gv_id (fst x)) (m_groups m) \<and> length (m_notices m) \<le> OC_MAX_THREAD_NOTICES \<and>
     length (m_listen_queue m) \<le> OC_LISTEN_QUEUE_MAX"

lemma chat_init_inv [simp]: "chat_inv sp chat_init"
  by (simp add: chat_inv_def chat_init_def channels_ok_def thread_ok_def keyed_def)

lemma channels_upd_first: "channels_ok sp cs \<Longrightarrow> keeps_channel sp f \<Longrightarrow> channels_ok sp (upd_first P f cs)"
  by (auto simp: channels_ok_def keeps_channel_def intro!: upd_first_all)

lemma channels_map: "channels_ok sp cs \<Longrightarrow> keeps_channel sp f \<Longrightarrow> channels_ok sp (map f cs)"
  by (auto simp: channels_ok_def keeps_channel_def keyed_def list_all_iff comp_def)

lemma zero_channel_ok [simp]: "channel_ok sp (zero_channel\<lparr>ch_channel_id := cid, ch_notify_level := lv\<rparr>)"
  by (simp add: channel_ok_def zero_channel_def transcript_ok_def keyed_def)

lemma oc_model_channel_Some:
  "oc_model_channel m cid = Some c \<Longrightarrow> c \<in> set (m_channels m) \<and> ch_channel_id c = cid"
  by (auto simp: oc_model_channel_def find_Some_iff)

lemma oc_model_channel_None: "oc_model_channel m cid = None \<longleftrightarrow> cid \<notin> ch_channel_id ` set (m_channels m)"
  by (auto simp: oc_model_channel_def find_None_iff)

lemma channel_ensure_ok [intro]: "channels_ok sp (m_channels m) \<Longrightarrow> channels_ok sp (m_channels (channel_ensure cid m))"
  by (auto simp: channel_ensure_def channels_ok_def oc_model_channel_None keyed_def)

lemma thread_upd_first: "thread_ok sp msgs \<Longrightarrow> keeps_msg sp f \<Longrightarrow> thread_ok sp (upd_first P f msgs)"
  by (auto simp: thread_ok_def keeps_msg_def intro!: upd_first_all)

lemma inv_upd_channel [intro]: "chat_inv sp m \<Longrightarrow> keeps_channel sp f \<Longrightarrow> chat_inv sp (upd_channel cid f m)"
  by (simp add: chat_inv_def upd_channel_def channels_upd_first)

lemma inv_upd_thread_msg [intro]: "chat_inv sp m \<Longrightarrow> keeps_msg sp f \<Longrightarrow> chat_inv sp (upd_thread_msg mid f m)"
  by (simp add: chat_inv_def upd_thread_msg_def thread_upd_first)

lemma inv_upd_both [intro]: "chat_inv sp m \<Longrightarrow> keeps_msg sp f \<Longrightarrow> chat_inv sp (upd_both cid mid f m)"
  unfolding upd_both_def by (intro inv_upd_thread_msg inv_upd_channel keeps_upd_msg)

lemma inv_upd_everywhere [intro]: "chat_inv sp m \<Longrightarrow> keeps_msg sp f \<Longrightarrow> chat_inv sp (upd_everywhere mid f m)"
  unfolding upd_everywhere_def by (rule inv_upd_thread_msg) (simp_all add: chat_inv_def channels_map keeps_upd_msg)

lemma inv_channel_ensure [intro]: "chat_inv sp m \<Longrightarrow> chat_inv sp (channel_ensure cid m)"
  unfolding chat_inv_def using channel_ensure_ok [of sp m cid] by (auto simp: channel_ensure_def)

lemma inv_bump [intro]: "chat_inv sp m \<Longrightarrow> chat_inv sp (bump_reply_count mid cnt m)"
  by (simp add: chat_inv_def bump_reply_count_def channels_upd_first keeps_upd_msg keeps_reply_count)

lemma inv_channel_replace:
  assumes "chat_inv sp m" "oc_model_channel m cid = Some c" "channel_ok sp c \<Longrightarrow> channel_ok sp c' \<and> ch_channel_id c' = ch_channel_id c"
  shows "chat_inv sp (upd_channel cid (\<lambda>_. c') m)"
proof -
  have c: "c \<in> set (m_channels m)" "ch_channel_id c = cid" using oc_model_channel_Some assms(2) by auto
  then have c': "channel_ok sp c'" "ch_channel_id c' = cid"
    using assms(1,3) by (auto simp: chat_inv_def channels_ok_def list_all_iff)
  then have "channels_ok sp (upd_first (\<lambda>c. ch_channel_id c = cid) (\<lambda>_. c') (m_channels m))"
    using assms(1) by (auto simp: chat_inv_def channels_ok_def intro!: upd_first_all)
  then show ?thesis using assms(1) by (simp add: chat_inv_def upd_channel_def)
qed

section \<open>Every arm keeps it\<close>

lemma inv_listen_push [intro]: "chat_inv sp m \<Longrightarrow> chat_inv sp (listen_push mid m)"
  by (simp add: chat_inv_def listen_push_def length_push_bounded)

lemma inv_notice_push [intro]: "chat_inv sp m \<Longrightarrow> chat_inv sp (notice_push flat e m)"
  by (simp add: chat_inv_def notice_push_def length_push_bounded Let_def)

lemma transcript_set_last:
  assumes "transcript_ok sp hw msgs" "msgs \<noteq> []" "keeps_msg sp f"
  shows "transcript_ok sp hw (butlast msgs @ [f (last msgs)])"
proof -
  obtain ms g where "msgs = ms @ [g]" using assms(2) by (metis rev_exhaust)
  with assms show ?thesis by (auto simp: transcript_ok_def keeps_msg_def sorted_wrt_append)
qed

lemma channel_message_ok:
  assumes id: "em_message_id e \<noteq> 0" and c: "channel_ok sp c"
  shows "channel_ok sp (snd (channel_message flat m e c)) \<and> ch_channel_id (snd (channel_message flat m e c)) = ch_channel_id c"
proof -
  define c1 where "c1 = (case em_body e of None \<Rightarrow> c | Some body \<Rightarrow>
      if em_message_id e \<ge> ch_high_water c
      then c\<lparr>ch_preview := preview_set flat 128 (Some (excerpt_of (em_action e) body)),
             ch_preview_author := em_author_id e, ch_preview_action := action_within (em_action e) body\<rparr>
      else c)"
  have c1: "channel_ok sp c1" "ch_channel_id c1 = ch_channel_id c"
    using c by (auto simp: c1_def channel_ok_def split: option.split)
  obtain b c2 where b: "channel_append e c1 = (b, c2)" by (cases "channel_append e c1")
  note appended = channel_append_ok [OF c1(1) id b]
  show ?thesis
  proof (cases b)
    case False
    then show ?thesis using appended c1 b by (simp add: channel_message_def flip: c1_def)
  next
    case True
    define c3 where "c3 = c2\<lparr>ch_msgs := butlast (ch_msgs c2) @ [msg_set_action (em_action e) (last (ch_msgs c2))]\<rparr>"
    have "channel_ok sp c3" "ch_channel_id c3 = ch_channel_id c"
      using appended True c1 transcript_set_last [OF _ _ keeps_set_action] by (auto simp: c3_def channel_ok_def)
    then show ?thesis using b True
      by (auto simp: channel_message_def channel_ok_def Let_def simp flip: c1_def c3_def)
  qed
qed

lemma inv_message [intro]: "chat_inv sp m \<Longrightarrow> em_message_id e \<noteq> 0 \<Longrightarrow> chat_inv sp (ev_message_arm flat e m)"
proof -
  assume m: "chat_inv sp m" and id: "em_message_id e \<noteq> 0"
  let ?m = "channel_ensure (em_channel_id e) m"
  have "chat_inv sp (upd_channel (em_channel_id e) (\<lambda>_. snd (channel_message flat ?m e c)) ?m)"
    if "oc_model_channel ?m (em_channel_id e) = Some c" for c
    by (rule inv_channel_replace [OF inv_channel_ensure [OF m] that channel_message_ok [OF id]])
  then show ?thesis using m
    by (auto simp: ev_message_arm_def Let_def case_prod_beta split: option.split)
qed

lemma upd_first_find: "find P xs = Some x \<Longrightarrow> upd_first P (\<lambda>_. f x) xs = upd_first P f xs"
  by (induction xs) (auto split: if_splits)

lemma inv_reaction:
  assumes m: "chat_inv sp m" and emoji: "length emoji < 40" and res: "ev_reaction_arm cid mid uid emoji cnt op m = Some m'"
  shows "chat_inv sp m'"
proof (cases "oc_model_channel m cid")
  case None
  then show ?thesis using m res by (simp add: ev_reaction_arm_def)
next
  case (Some c)
  show ?thesis
  proof (cases "find (\<lambda>g. ms_message_id g = mid) (ch_msgs c)")
    case None
    then show ?thesis using m res Some by (simp add: ev_reaction_arm_def)
  next
    case g: (Some g)
    then have id: "ms_message_id g = mid" "g \<in> set (ch_msgs c)" by (auto simp: find_Some_iff)
    obtain g' where g': "msg_apply_reaction emoji cnt op (uid = m_user_id m) g = Some g'"
      and m': "m' = upd_channel cid (upd_msg mid (\<lambda>_. g')) m"
      using res Some g by (auto simp: ev_reaction_arm_def)
    have c: "c \<in> set (m_channels m)" "ch_channel_id c = cid" using oc_model_channel_Some Some by auto
    then have ok: "channel_ok sp c" using m by (auto simp: chat_inv_def channels_ok_def list_all_iff)
    then have g'': "ms_message_id g' = mid \<and> msg_ok sp g'"
      using apply_reaction_ok [OF _ emoji g'] id by (auto simp: channel_ok_def dest: transcript_msg_ok)
    have "channel_ok sp (upd_msg mid (\<lambda>_. g') c)"
      using ok g'' unfolding upd_msg_def channel_ok_def by (auto intro!: transcript_upd_first)
    then have "chat_inv sp (upd_channel cid (\<lambda>_. upd_msg mid (\<lambda>_. g') c) m)"
      by (intro inv_channel_replace [OF m Some]) simp
    moreover have "upd_channel cid (\<lambda>_. upd_msg mid (\<lambda>_. g') c) m = m'"
      using Some by (simp add: m' upd_channel_def oc_model_channel_def upd_first_find)
    ultimately show ?thesis by simp
  qed
qed

lemma inv_action [intro]: "chat_inv sp m \<Longrightarrow> chat_inv sp (ev_action_arm flat cid mid act m)"
  unfolding ev_action_arm_def
  by (intro inv_upd_thread_msg inv_upd_channel keeps_channel_comp [OF keeps_previews(1) keeps_upd_msg] keeps_set_action)

lemma inv_attach [intro]: "chat_inv sp m \<Longrightarrow> chat_inv sp (attach_to_msg flat e m)"
proof -
  assume m: "chat_inv sp m"
  have "channels_ok sp (upd_first P (\<lambda>c. attach_preview flat m mid (upd_msg mid (msg_add_attach a) c)) (m_channels m))" for P mid a
    using m by (intro channels_upd_first keeps_channel_comp [OF keeps_previews(2) keeps_upd_msg] keeps_attach) (simp add: chat_inv_def)
  then have "chat_inv sp (m\<lparr>m_channels := upd_first P (\<lambda>c. attach_preview flat m mid (upd_msg mid (msg_add_attach a) c)) (m_channels m)\<rparr>)" for P mid a
    using m by (simp add: chat_inv_def)
  then show ?thesis using m inv_upd_thread_msg [OF m keeps_attach] by (auto simp: attach_to_msg_def Let_def)
qed

lemma inv_thread_append [intro]: "chat_inv sp m \<Longrightarrow> chat_inv sp (thread_append e m)"
  by (auto simp: chat_inv_def thread_append_def thread_ok_def keyed_def list_ex_iff msg_ok_def zero_msg_def)

lemma thread_set_last:
  assumes "thread_ok sp msgs" "msgs \<noteq> []" "keeps_msg sp f"
  shows "thread_ok sp (butlast msgs @ [f (last msgs)])"
proof -
  obtain ms g where "msgs = ms @ [g]" using assms(2) by (metis rev_exhaust)
  with assms show ?thesis by (auto simp: thread_ok_def keyed_def keeps_msg_def)
qed

lemma inv_threads:
  "chat_inv sp m \<Longrightarrow> keyed tv_root_id ts \<Longrightarrow> chat_inv sp (m\<lparr>m_threads := ts\<rparr>)"
  by (simp add: chat_inv_def)

lemma inv_thread_reply [intro]: "chat_inv sp m \<Longrightarrow> chat_inv sp (ev_thread_reply_arm flat e m)"
proof -
  assume m: "chat_inv sp m"
  define m1 where "m1 = bump_reply_count (er_parent_id e) (er_count e) m"
  define m2 where "m2 = (if er_participant e \<and> er_author_id e \<noteq> m_user_id m1 \<and> \<not> m_thread_replay m1
    then let m = notice_push flat e m1
         in m\<lparr>m_threads := upd_first (\<lambda>t. tv_root_id t = er_parent_id e) (\<lambda>t. t\<lparr>tv_unread := tv_unread t + 1\<rparr>) (m_threads m)\<rparr>
    else m1)"
  have m1: "chat_inv sp m1" using m by (auto simp: m1_def)
  then have "chat_inv sp (notice_push flat e m1)" by auto
  then have m2: "chat_inv sp m2" using m1 by (auto simp: m2_def Let_def chat_inv_def)
  define m3 where "m3 = thread_append e m2"
  have m3: "chat_inv sp m3" using m2 by (auto simp: m3_def)
  have "thread_ok sp (butlast (m_thread_msgs m3) @ [(msg_set_action (er_action e) (last (m_thread_msgs m3)))
      \<lparr>ms_broadcast_stored := er_broadcast_stored e\<rparr>])" if "m_thread_msgs m3 \<noteq> []"
    using thread_set_last [OF _ that keeps_comp [OF keeps_stored keeps_set_action]] m3 by (simp add: chat_inv_def)
  then have "chat_inv sp (m3\<lparr>m_thread_msgs := butlast (m_thread_msgs m3) @ [(msg_set_action (er_action e) (last (m_thread_msgs m3)))
      \<lparr>ms_broadcast_stored := er_broadcast_stored e\<rparr>]\<rparr>)" if "m_thread_msgs m3 \<noteq> []"
    using m3 that by (simp add: chat_inv_def)
  moreover have "ev_thread_reply_arm flat e m =
    (if m_thread_open m2 \<and> er_parent_id e = m_thread_parent m2
     then if length (m_thread_msgs m3) > length (m_thread_msgs m2)
       then m3\<lparr>m_thread_msgs := butlast (m_thread_msgs m3) @ [(msg_set_action (er_action e) (last (m_thread_msgs m3)))
         \<lparr>ms_broadcast_stored := er_broadcast_stored e\<rparr>]\<rparr>
       else m3
     else m2)"
    by (simp only: ev_thread_reply_arm_def Let_def m3_def m2_def m1_def)
  moreover have "m_thread_msgs m3 \<noteq> []" if "length (m_thread_msgs m3) > length (m_thread_msgs m2)" using that by auto
  ultimately show ?thesis using m2 m3 by presburger
qed

lemma inv_thread_apply [intro]: "chat_inv sp m \<Longrightarrow> chat_inv sp (thread_apply e m)"
  unfolding thread_apply_def Let_def
  by (rule inv_threads) (auto simp: chat_inv_def intro!: keyed_upsert keyed_swap_remove_first)

lemma inv_threads_end [intro]: "chat_inv sp m \<Longrightarrow> chat_inv sp (ev_threads_end_arm m)"
  by (auto simp: ev_threads_end_arm_def chat_inv_def)

lemma keyed_pair_upsert:
  "keyed (\<lambda>x. gv_id (fst x)) gs \<Longrightarrow>
    keyed (\<lambda>x. gv_id (fst x)) (upsert (\<lambda>(h, _). gv_id h = gv_id g) (\<lambda>_. (g, gen)) (g, gen) gs)"
  unfolding case_prod_beta by (rule keyed_upsert) simp_all

lemma inv_group_upsert [intro]: "chat_inv sp m \<Longrightarrow> chat_inv sp (group_upsert g m)"
  by (auto simp: group_upsert_def chat_inv_def keyed_pair_upsert split: option.split)

lemma inv_group_drop [intro]: "chat_inv sp m \<Longrightarrow> chat_inv sp (group_drop gid m)"
  by (auto simp: group_drop_def chat_inv_def channels_map keeps_group_gone)

lemma inv_groups_sweep [intro]: "chat_inv sp m \<Longrightarrow> chat_inv sp (groups_sweep i m)"
proof (induction i m rule: groups_sweep.induct)
  case (1 i m)
  obtain g gen where g: "m_groups m ! i = (g, gen)" by fastforce
  show ?case using 1(1) [OF _ g [symmetric] refl] 1(2) [OF _ g [symmetric] refl] 1(3) g
    by (subst groups_sweep.simps) (simp add: inv_group_drop)
qed

lemma inv_groups_end [intro]: "chat_inv sp m \<Longrightarrow> chat_inv sp (ev_groups_end_arm m)"
  using inv_groups_sweep [of sp m 0] by (simp add: ev_groups_end_arm_def chat_inv_def Let_def)

lemma inv_read_cursor [intro]: "chat_inv sp m \<Longrightarrow> chat_inv sp (ev_read_cursor_arm cid uid mid m)"
  using inv_upd_channel [OF _ keeps_recount [of sp m], of m] inv_upd_channel [OF _ keeps_reader_advance, of sp m]
  by (simp add: ev_read_cursor_arm_def oc_model_set_read_marker_def)


section \<open>Runs\<close>

text \<open>What reaches the conversations: an event of the daemon, or a call the user interface makes on the model.\<close>

datatype chat_act =
    Chat_Event chat_ev
  | Mark_Read u64
  | Open_Thread u64 u64
  | Close_Thread
  | Threads_Begin

fun chat_step :: "(nat \<Rightarrow> string \<Rightarrow> string) \<Rightarrow> chat_act \<Rightarrow> 'a oc_chat_scheme \<Rightarrow> 'a oc_chat_scheme option" where
  "chat_step flat (Chat_Event ev) m = oc_chat_apply flat ev m"
| "chat_step flat (Mark_Read cid) m = Some (oc_model_mark_read cid m)"
| "chat_step flat (Open_Thread cid pid) m = Some (oc_model_open_thread cid pid m)"
| "chat_step flat Close_Thread m = Some (oc_model_close_thread m)"
| "chat_step flat Threads_Begin m = Some (oc_model_threads_begin m)"

text \<open>
  What the events satisfy: the id of a message is not zero, an emoji fits the 40 bytes kept for it (\<^verbatim>\<open>dispatch\<close> cuts it to
  39), and, for the spans of actions, an edit comes with its action frame. \<^verbatim>\<open>dispatch\<close> releases an edit without
  one when the next frame is not its action.
\<close>

fun ev_ok :: "bool \<Rightarrow> chat_ev \<Rightarrow> bool" where
  "ev_ok sp (OC_EV_MESSAGE e) \<longleftrightarrow> em_message_id e \<noteq> 0"
| "ev_ok sp (OC_EV_REACTION cid mid uid emoji cnt op) \<longleftrightarrow> length emoji < 40"
| "ev_ok sp (OC_EV_EDIT cid mid body act) \<longleftrightarrow> (sp \<longrightarrow> ea_known act)"
| "ev_ok sp _ \<longleftrightarrow> True"

fun act_ok :: "bool \<Rightarrow> chat_act \<Rightarrow> bool" where
  "act_ok sp (Chat_Event ev) = ev_ok sp ev"
| "act_ok sp _ = True"

lemma inv_other_fields [simp]:
  "chat_inv sp (m\<lparr>m_thread_replay := b\<rparr>) = chat_inv sp m" "chat_inv sp (m\<lparr>m_pins := ps\<rparr>) = chat_inv sp m"
  "chat_inv sp (m\<lparr>m_pinlist_loading := b\<rparr>) = chat_inv sp m" "chat_inv sp (m\<lparr>m_saved := ss\<rparr>) = chat_inv sp m"
  "chat_inv sp (m\<lparr>m_saved_loading := b\<rparr>) = chat_inv sp m"
  by (simp_all add: chat_inv_def)

lemma inv_apply:
  assumes "chat_inv sp m" "ev_ok sp ev" "oc_chat_apply flat ev m = Some m'"
  shows "chat_inv sp m'"
proof (cases ev)
  case (OC_EV_REACTION cid mid uid emoji cnt op)
  then show ?thesis using assms inv_reaction by simp
next
  case (OC_EV_SAVED_UPDATED mid op t)
  have "chat_inv sp (upd_everywhere mid (msg_set_saved op t) m)" using assms(1) keeps_saved by auto
  then show ?thesis using assms(3) OC_EV_SAVED_UPDATED by (auto simp: ev_saved_arm_def Let_def chat_inv_def)
next
  case (OC_EV_PIN cid mid op uid t)
  have "chat_inv sp (upd_both cid mid (msg_set_pinned op uid t) m)" using assms(1) keeps_pinned by auto
  then show ?thesis using assms(3) OC_EV_PIN by (auto simp: ev_pin_arm_def Let_def chat_inv_def)
next
  case (OC_EV_DND op)
  then show ?thesis using assms(1,3) by (auto simp: ev_dnd_arm_def chat_inv_def channels_map keeps_channel_fields)
next
  case (OC_EV_READ_STATE cid)
  then show ?thesis using assms(1,3) by (auto simp: oc_model_mark_read_def keeps_channel_fields)
next
  case (OC_EV_UNFURL cid mid url title descr)
  then show ?thesis using assms(1,3) by (auto simp: ev_unfurl_arm_def keeps_upd_msg keeps_unfurl split: option.splits)
qed (use assms in \<open>auto simp: small_arms keeps_upd_msg keeps_channel_info keeps_channel_fields keeps_collapsed keeps_poll
      keeps_forward keeps_edit keeps_tombstone keeps_restore\<close>)


lemma inv_step:
  assumes "chat_inv sp m" "act_ok sp act" "chat_step flat act m = Some m'"
  shows "chat_inv sp m'"
proof (cases act)
  case (Chat_Event ev)
  then show ?thesis using assms inv_apply by simp
next
  case (Mark_Read cid)
  then show ?thesis using assms(1,3) by (auto simp: oc_model_mark_read_def keeps_channel_fields)
qed (use assms in \<open>auto simp: chat_inv_def oc_model_open_thread_def oc_model_close_thread_def oc_model_threads_begin_def
    thread_ok_def keyed_def\<close>)

interpretation chat: machine "chat_step flat" "act_ok sp" "chat_inv sp :: 'a oc_chat_scheme \<Rightarrow> bool" for flat sp
  by unfold_locales (rule inv_step)

text \<open>
  C4: Whatever sequence of the modelled events and calls the client has seen, as long as no message has the id 0 and
  every emoji is shorter than 40 bytes, its conversations are well formed: every channel is there once, every
  transcript is strictly ordered by message id with no id above the channel's high-water mark, no message shows the
  same emoji, attachment or link twice, the replies of the open thread, the followed threads and the groups are each
  there once, and the notice and read-aloud queues stay within their arrays. If moreover every edit came with its
  action frame (sp), every action lies within a body that is not deleted; an edit that is released without its action
  frame keeps the old span over the new body, and so can leave it outside. An id of 0, which the client keeps without
  looking for it, would break the order.
\<close>

theorem chat_invariant:
  assumes "list_all (act_ok sp) acts" "run_steps (chat_step flat) acts chat_init = Some m"
  shows "chat_inv sp m"
  by (rule chat.run_inv [OF chat_init_inv assms])

lemma chat_invariant_witness:
  "\<exists>m. run_steps (chat_step snprintf_s)
     [Chat_Event (OC_EV_CHANNEL_GROUPS 1 [7]),
      Chat_Event (OC_EV_MESSAGE \<lparr>em_channel_id = 3, em_author_id = 2, em_author_name = ''ann'', em_message_id = 9,
        em_server_time = 5, em_kind = 0, em_broadcast_stored = False, em_body = Some ''hi'',
        em_action = \<lparr>ea_known = True, ea_action = False, ea_start = 0, ea_len = 0, ea_actor_name = ''''\<rparr>\<rparr>),
      Chat_Event (OC_EV_REACTION 3 9 2 ''+1'' 1 1), Mark_Read 3, Open_Thread 3 9, Close_Thread, Threads_Begin] chat_init = Some m \<and>
   chat_inv True m"
proof -
  let ?acts = "[Chat_Event (OC_EV_CHANNEL_GROUPS 1 [7]),
      Chat_Event (OC_EV_MESSAGE \<lparr>em_channel_id = 3, em_author_id = 2, em_author_name = ''ann'', em_message_id = 9,
        em_server_time = 5, em_kind = 0, em_broadcast_stored = False, em_body = Some ''hi'',
        em_action = \<lparr>ea_known = True, ea_action = False, ea_start = 0, ea_len = 0, ea_actor_name = ''''\<rparr>\<rparr>),
      Chat_Event (OC_EV_REACTION 3 9 2 ''+1'' 1 1), Mark_Read 3, Open_Thread 3 9, Close_Thread, Threads_Begin]"
  have "run_steps (chat_step snprintf_s) ?acts chat_init \<noteq> None" by code_simp
  then obtain m where "run_steps (chat_step snprintf_s) ?acts chat_init = Some m" by blast
  moreover from this have "chat_inv True m" by (rule chat_invariant [rotated]) simp
  ultimately show ?thesis by blast
qed


section \<open>The one step that fails\<close>

lemma apply_reaction_None:
  assumes "msg_ok sp g"
  shows "msg_apply_reaction emoji cnt op is_me g = None \<longleftrightarrow>
    emoji \<noteq> '''' \<and> cnt \<noteq> 0 \<and> emoji \<notin> rx_emoji ` set (ms_reactions g) \<and> length (ms_reactions g) = 128"
  using grow_reactions_ok(1) [OF assms] by (auto simp: msg_apply_reaction_def list_ex_iff Let_def)

definition loses_reactions :: "'a oc_chat_scheme \<Rightarrow> chat_ev \<Rightarrow> bool" where
  "loses_reactions m ev \<longleftrightarrow>
     (case ev of
        OC_EV_REACTION cid mid uid emoji cnt op \<Rightarrow>
          (case oc_model_channel m cid of
             None \<Rightarrow> False
           | Some c \<Rightarrow>
               (case find (\<lambda>g. ms_message_id g = mid) (ch_msgs c) of
                  None \<Rightarrow> False
                | Some g \<Rightarrow> emoji \<noteq> '''' \<and> cnt \<noteq> 0 \<and> emoji \<notin> rx_emoji ` set (ms_reactions g) \<and>
                    length (ms_reactions g) = 128))
      | _ \<Rightarrow> False)"

lemma find_channel_ok: "chat_inv sp m \<Longrightarrow> oc_model_channel m cid = Some c \<Longrightarrow> channel_ok sp c"
  using oc_model_channel_Some [of m cid c] by (auto simp: chat_inv_def channels_ok_def list_all_iff)

lemma find_msg_ok: "channel_ok sp c \<Longrightarrow> find (\<lambda>g. ms_message_id g = mid) (ch_msgs c) = Some g \<Longrightarrow> msg_ok sp g"
  by (auto simp: channel_ok_def find_Some_iff intro!: transcript_msg_ok [OF _ nth_mem])

text \<open>
  C29: In a well-formed state every event of the daemon has an effect, with one exception: a reaction with an emoji
  that a message does not show yet, when the message already shows 128. The capacity is a \<^verbatim>\<open>uint8_t\<close> that doubles, so it
  becomes 0, the array is reallocated to zero bytes, which frees it, and the message keeps pointing to it.
\<close>

theorem apply_fails_on_129th_emoji:
  assumes "chat_inv sp m"
  shows "oc_chat_apply flat ev m = None \<longleftrightarrow> loses_reactions m ev"
proof (cases ev)
  case (OC_EV_REACTION cid mid uid emoji cnt op)
  then show ?thesis
    using find_msg_ok [OF find_channel_ok [OF assms]]
    by (auto simp: ev_reaction_arm_def loses_reactions_def apply_reaction_None [of sp] split: option.split)
qed (auto simp: loses_reactions_def split: option.split)

text \<open>A message with 128 reactions, and the event that brings the next.\<close>

definition full_msg :: oc_msg where
  "full_msg = zero_msg\<lparr>ms_message_id := 9, ms_cap_reactions := 128,
     ms_reactions := map (\<lambda>i. \<lparr>rx_emoji = [char_of i], rx_count = 1, rx_mine = False\<rparr>) [1..<129]\<rparr>"

definition full_chat :: oc_chat where
  "full_chat = chat_init\<lparr>m_channels := [zero_channel\<lparr>ch_channel_id := 3, ch_high_water := 9, ch_msgs := [full_msg]\<rparr>]\<rparr>"

lemma full_msg_ok: "msg_ok sp full_msg"
proof -
  have "inj_on (\<lambda>i. [char_of i :: char]) {1..<129 :: nat}"
    by (auto simp: inj_on_def dest!: arg_cong [of _ _ of_char])
  then show ?thesis
    by (simp add: full_msg_def msg_ok_def reactions_ok_def keyed_def zero_msg_def comp_def distinct_map)
qed

lemma full_chat_inv: "chat_inv sp full_chat"
  using full_msg_ok
  by (simp add: full_chat_def chat_inv_def channels_ok_def keyed_def channel_ok_def transcript_ok_def thread_ok_def
      zero_channel_def chat_init_def) (simp add: full_msg_def)

lemma apply_fails_on_129th_emoji_witness:
  "chat_inv True full_chat \<and> oc_chat_apply snprintf_s (OC_EV_REACTION 3 9 2 ''+1'' 1 1) full_chat = None"
proof -
  have "loses_reactions full_chat (OC_EV_REACTION 3 9 2 ''+1'' 1 1)"
    by (auto simp: loses_reactions_def full_chat_def oc_model_channel_def zero_channel_def full_msg_def)
  then show ?thesis using apply_fails_on_129th_emoji [OF full_chat_inv] full_chat_inv by blast
qed

end
