(* ===== verification/Client_Delivery.thy ===== *)
theory Client_Delivery
  imports Client_Invariant
begin

text \<open>
  What the delivery of messages leaves behind. Messages may come in any order and more than once (replays, history
  pages, live traffic); the transcript is the sorted list of what was delivered. The live unread counts are the
  ones that a recount gives, for messages newer than the transcript; for an older one they are taken from the
  wrong message.
\<close>

section \<open>Transcripts\<close>

text \<open>What a message says, on the event and as it is stored.\<close>

definition ev_core :: "ev_message \<Rightarrow> u64 \<times> u64 \<times> string \<times> u64 \<times> u8 \<times> bool \<times> string option" where
  "ev_core e = (em_message_id e, em_author_id e, snprintf_s 64 (em_author_name e), em_server_time e, em_kind e,
     em_broadcast_stored e, em_body e)"

definition msg_core :: "oc_msg \<Rightarrow> u64 \<times> u64 \<times> string \<times> u64 \<times> u8 \<times> bool \<times> string option" where
  "msg_core g = (ms_message_id g, ms_author_id g, ms_author_name g, ms_server_time g, ms_kind g,
     ms_broadcast_stored g, ms_body g)"

text \<open>The first delivery of each id.\<close>

fun firsts :: "ev_message list \<Rightarrow> ev_message list" where
  "firsts [] = []"
| "firsts (e # es) = e # filter (\<lambda>x. em_message_id x \<noteq> em_message_id e) (firsts es)"

definition deliver :: "(nat \<Rightarrow> string \<Rightarrow> string) \<Rightarrow> ev_message list \<Rightarrow> 'a oc_chat_scheme \<Rightarrow> 'a oc_chat_scheme" where
  "deliver flat es m = fold (ev_message_arm flat) es m"

definition transcript :: "'a oc_chat_scheme \<Rightarrow> u64 \<Rightarrow> oc_msg list" where
  "transcript m cid = (case oc_model_channel m cid of None \<Rightarrow> [] | Some c \<Rightarrow> ch_msgs c)"

lemma core_new_msg [simp]: "msg_core (new_msg e) = ev_core e"
  by (simp add: msg_core_def ev_core_def new_msg_def zero_msg_def)

lemma core_set_action [simp]: "msg_core (msg_set_action act g) = msg_core g"
  by (simp add: msg_core_def)

lemma core_id: "fst (msg_core g) = ms_message_id g" "fst (ev_core e) = em_message_id e"
  by (simp_all add: msg_core_def ev_core_def)

lemma firsts_ids: "em_message_id ` set (firsts es) = em_message_id ` set es"
proof (induction es)
  case (Cons e es)
  have "em_message_id ` set (firsts (e # es)) = insert (em_message_id e) (em_message_id ` set (firsts es))" by auto
  then show ?case using Cons by simp
qed simp

lemma firsts_distinct: "distinct (map em_message_id (firsts es))"
  by (induction es) (auto simp: distinct_map inj_on_def)

lemma firsts_snoc:
  "firsts (es @ [e]) = (if em_message_id e \<in> em_message_id ` set es then firsts es else firsts es @ [e])"
  by (induction es) auto

text \<open>What a message does to the list of its channel: the append, and the action for the last message of the list.\<close>

lemma channel_message_msgs:
  "ch_msgs (snd (channel_message flat m e c)) =
    (case channel_append e c of (b, c') \<Rightarrow>
       if b then butlast (ch_msgs c') @ [msg_set_action (em_action e) (last (ch_msgs c'))] else ch_msgs c')"
proof -
  define c1 where "c1 = (case em_body e of None \<Rightarrow> c | Some body \<Rightarrow>
      if em_message_id e \<ge> ch_high_water c
      then c\<lparr>ch_preview := preview_set flat 128 (Some (excerpt_of (em_action e) body)),
             ch_preview_author := em_author_id e, ch_preview_action := action_within (em_action e) body\<rparr>
      else c)"
  have "ch_msgs c1 = ch_msgs c" "ch_high_water c1 = ch_high_water c" by (auto simp: c1_def split: option.split)
  then have append: "fst (channel_append e c1) = fst (channel_append e c)"
    "ch_msgs (snd (channel_append e c1)) = ch_msgs (snd (channel_append e c))"
    by (simp_all add: channel_append_def Let_def)
  obtain b c2 where "channel_append e c1 = (b, c2)" by (cases "channel_append e c1")
  with append show ?thesis by (auto simp: channel_message_def Let_def case_prod_beta simp flip: c1_def)
qed

text \<open>Where a new message goes in a list that is kept in step with the first deliveries.\<close>

lemma append_aligned:
  assumes ok: "channel_ok sp c" and id: "em_message_id e \<noteq> 0" and new: "em_message_id e \<notin> em_message_id ` set fs"
    and dist: "distinct (map em_message_id fs)"
    and ids: "map ms_message_id (ch_msgs c) = map em_message_id (sort_key em_message_id fs)"
  obtains as bs A B where "ch_msgs c = as @ bs" "sort_key em_message_id fs = A @ B" "length as = length A"
    "list_all (\<lambda>x. em_message_id x < em_message_id e) A" "list_all (\<lambda>x. em_message_id e < em_message_id x) B"
    "sort_key em_message_id (fs @ [e]) = A @ e # B"
    "channel_append e c = (True, c\<lparr>ch_msgs := as @ new_msg e # bs, ch_high_water := max (ch_high_water c) (em_message_id e)\<rparr>)"
proof -
  let ?E = "sort_key em_message_id fs"
  have t: "transcript_ok sp (ch_high_water c) (ch_msgs c)" using ok by (simp add: channel_ok_def)
  have "ms_message_id ` set (ch_msgs c) = em_message_id ` set fs" using arg_cong [OF ids, of set] by simp
  then have "\<not> holds_msg (em_message_id e) c" using new by (force simp: holds_msg_def list_ex_iff)
  then obtain as bs where split: "ch_msgs c = as @ bs" "list_all (\<lambda>g. ms_message_id g < em_message_id e) as"
    "list_all (\<lambda>g. em_message_id e < ms_message_id g) bs"
    and eq: "channel_append e c = (True, c\<lparr>ch_msgs := as @ new_msg e # bs,
      ch_high_water := max (ch_high_water c) (em_message_id e)\<rparr>)"
    using channel_append_splits [OF t id] by blast
  obtain A B where AB: "?E = A @ B" "map ms_message_id as = map em_message_id A" "map ms_message_id bs = map em_message_id B"
    using ids unfolding split(1) map_append append_eq_map_conv by metis
  have less: "list_all (\<lambda>x. em_message_id x < em_message_id e) A" "list_all (\<lambda>x. em_message_id e < em_message_id x) B"
    using split(2,3) arg_cong [OF AB(2), of "list_all (\<lambda>i. i < em_message_id e)"] arg_cong [OF AB(3), of "list_all (\<lambda>i. em_message_id e < i)"]
    by (simp_all add: list.pred_map comp_def)
  have "sorted_wrt (<) (map em_message_id (A @ B))" using t split(1) AB(2,3) by (simp add: transcript_ok_def)
  then have "sorted (map em_message_id (A @ e # B))"
    using less by (auto simp: sorted_wrt_append list_all_iff strict_sorted_iff less_imp_le)
  moreover have "mset (fs @ [e]) = mset (A @ e # B)" using arg_cong [OF AB(1), of mset] by simp
  moreover have "inj_on em_message_id (set (fs @ [e]))" using dist new by (auto simp: distinct_map)
  ultimately have "sort_key em_message_id (fs @ [e]) = A @ e # B" by (intro sort_key_inj_key_eq)
  then show ?thesis using that [OF split(1) AB(1) _ less _ eq] arg_cong [OF AB(2), of length] by simp
qed

text \<open>
  The message that the first deliveries \<open>fs\<close>, in the order they came, leave of \<open>e\<close>: with the actions that came, from its own
  on, as long as it was the newest, and none when a newer one was there before it.
\<close>

definition shown :: "ev_message list \<Rightarrow> ev_message \<Rightarrow> oc_msg" where
  "shown fs e =
     (let earlier = takeWhile (\<lambda>x. em_message_id x \<noteq> em_message_id e) fs;
          later = tl (dropWhile (\<lambda>x. em_message_id x \<noteq> em_message_id e) fs)
      in if list_all (\<lambda>x. em_message_id x < em_message_id e) earlier
         then fold (\<lambda>x. msg_set_action (em_action x)) (e # takeWhile (\<lambda>x. em_message_id x < em_message_id e) later) (new_msg e)
         else new_msg e)"

lemma shown_at:
  "em_message_id x \<notin> em_message_id ` set ys \<Longrightarrow> shown (ys @ x # zs) x =
    (if list_all (\<lambda>y. em_message_id y < em_message_id x) ys
     then fold (\<lambda>y. msg_set_action (em_action y)) (x # takeWhile (\<lambda>y. em_message_id y < em_message_id x) zs) (new_msg x)
     else new_msg x)"
proof -
  assume "em_message_id x \<notin> em_message_id ` set ys"
  then have "\<forall>y\<in>set ys. em_message_id y \<noteq> em_message_id x" by (metis image_eqI)
  then show ?thesis by (simp add: shown_def)
qed

lemma shown_new:
  "em_message_id e \<notin> em_message_id ` set fs \<Longrightarrow> shown (fs @ [e]) e =
    (if list_all (\<lambda>y. em_message_id y < em_message_id e) fs then msg_set_action (em_action e) (new_msg e) else new_msg e)"
  using shown_at [of e fs "[]"] by simp

lemma shown_old:
  assumes "x \<in> set fs" "distinct (map em_message_id fs)"
  shows "shown (fs @ [e]) x =
    (if (\<forall>y\<in>set fs. em_message_id y \<le> em_message_id x) \<and> em_message_id e < em_message_id x
     then msg_set_action (em_action e) (shown fs x) else shown fs x)"
proof -
  obtain ys zs where fs: "fs = ys @ x # zs" using split_list [OF assms(1)] by blast
  then have ids: "em_message_id x \<notin> em_message_id ` set ys" "em_message_id x \<notin> em_message_id ` set zs"
    using assms(2) by auto
  have tw: "takeWhile P (zs @ [e]) = (if list_all P zs then zs @ (if P e then [e] else []) else takeWhile P zs)"
    "list_all P zs \<Longrightarrow> takeWhile P zs = zs" for P
    by (induction zs) auto
  have "em_message_id y \<le> em_message_id x \<longleftrightarrow> em_message_id y < em_message_id x" if "y \<in> set ys \<union> set zs" for y
    using that ids by (metis UnE image_eqI order_le_less)
  then have "(\<forall>y\<in>set fs. em_message_id y \<le> em_message_id x) \<longleftrightarrow>
      list_all (\<lambda>y. em_message_id y < em_message_id x) ys \<and> list_all (\<lambda>y. em_message_id y < em_message_id x) zs"
    by (auto simp: fs list_all_iff)
  then show ?thesis using ids(1) by (simp add: fs shown_at tw)
qed

lemma core_shown [simp]: "msg_core (shown fs e) = ev_core e"
proof -
  have "msg_core (fold (\<lambda>x. msg_set_action (em_action x)) xs g) = msg_core g" for xs :: "ev_message list" and g
    by (induction xs arbitrary: g) auto
  then show ?thesis by (simp add: shown_def Let_def)
qed

lemma shown_id: "ms_message_id (shown fs e) = em_message_id e"
  using core_id(1) [of "shown fs e"] by (simp add: core_id)

text \<open>A first delivery keeps the list in step, actions included.\<close>

lemma message_shown:
  assumes ok: "channel_ok sp c" and id: "em_message_id e \<noteq> 0"
    and msgs: "ch_msgs c = map (shown (firsts es)) (sort_key em_message_id (firsts es))"
  shows "ch_msgs (snd (channel_message flat m e c)) =
    map (shown (firsts (es @ [e]))) (sort_key em_message_id (firsts (es @ [e])))"
proof (cases "em_message_id e \<in> em_message_id ` set es")
  case True
  have "ms_message_id ` set (ch_msgs c) = em_message_id ` set es"
    using firsts_ids [of es] by (simp add: msgs image_image shown_id)
  then have "holds_msg (em_message_id e) c" using True by (force simp: holds_msg_def list_ex_iff)
  then have "channel_append e c = (False, c)" using ok channel_append_held [of sp c e] by (simp add: channel_ok_def)
  then show ?thesis using msgs True by (simp add: channel_message_msgs firsts_snoc)
next
  case False
  let ?fs = "firsts es"
  have ids: "map ms_message_id (ch_msgs c) = map em_message_id (sort_key em_message_id ?fs)"
    by (simp add: msgs shown_id)
  have new: "em_message_id e \<notin> em_message_id ` set ?fs" using False firsts_ids [of es] by simp
  obtain as bs A B where split: "ch_msgs c = as @ bs" "sort_key em_message_id ?fs = A @ B" "length as = length A"
    "list_all (\<lambda>x. em_message_id x < em_message_id e) A" "list_all (\<lambda>x. em_message_id e < em_message_id x) B"
    "sort_key em_message_id (?fs @ [e]) = A @ e # B"
    "channel_append e c = (True, c\<lparr>ch_msgs := as @ new_msg e # bs, ch_high_water := max (ch_high_water c) (em_message_id e)\<rparr>)"
    using append_aligned [OF ok id new firsts_distinct ids] by metis
  have ab: "as = map (shown ?fs) A" "bs = map (shown ?fs) B" using msgs split(1-3) by simp_all
  have set: "set ?fs = set A \<union> set B" using arg_cong [OF split(2), of set] by simp
  have old: "shown (?fs @ [e]) x = (if (\<forall>y\<in>set A \<union> set B. em_message_id y \<le> em_message_id x) \<and> em_message_id e < em_message_id x
     then msg_set_action (em_action e) (shown ?fs x) else shown ?fs x)" if "x \<in> set A \<union> set B" for x
    using shown_old [OF _ firsts_distinct, of x es e] that by (simp add: set)
  have A: "map (shown (?fs @ [e])) A = as"
    using split(4) old by (auto simp: ab(1) list_all_iff dest: order.asym)
  have "butlast (as @ new_msg e # bs) @ [msg_set_action (em_action e) (last (as @ new_msg e # bs))] =
    map (shown (?fs @ [e])) (A @ e # B)"
  proof (cases B rule: rev_cases)
    case Nil
    then have "list_all (\<lambda>x. em_message_id x < em_message_id e) ?fs" using split(4) set by (simp add: list_all_iff)
    then show ?thesis using Nil A ab(2) shown_new [OF new] by simp
  next
    case (snoc B' b)
    have sorted: "sorted (map em_message_id (A @ B))" "distinct (map em_message_id (A @ B))"
      unfolding split(2) [symmetric] using firsts_distinct [of es] by (simp_all add: distinct_map)
    have "\<not> list_all (\<lambda>x. em_message_id x < em_message_id e) ?fs"
      using split(5) snoc set by (auto simp: list_all_iff dest: order.asym)
    then have e: "shown (?fs @ [e]) e = new_msg e" using shown_new [OF new] by simp
    have b: "shown (?fs @ [e]) b = msg_set_action (em_action e) (shown ?fs b)"
      using old [of b] sorted(1) split(5) snoc by (auto simp: sorted_append)
    have "shown (?fs @ [e]) x = shown ?fs x" if "x \<in> set B'" for x
    proof -
      have "em_message_id x \<le> em_message_id b" "em_message_id b \<notin> em_message_id ` set B'"
        using sorted that snoc by (auto simp: sorted_append)
      then have "em_message_id x < em_message_id b" using that by (metis image_eqI order_le_less)
      then show ?thesis using old [of x] that snoc by (auto simp: not_le)
    qed
    then show ?thesis using A e b snoc ab by (simp add: butlast_append)
  qed
  then show ?thesis using split(6,7) False
    by (simp add: channel_message_msgs firsts_snoc del: butlast_append last_append)
qed

lemma channel_ensure_find:
  "oc_model_channel (channel_ensure cid m) cid' =
     (if cid' = cid \<and> oc_model_channel m cid = None
      then Some (zero_channel\<lparr>ch_channel_id := cid, ch_notify_level := m_notify_default m\<rparr>)
      else oc_model_channel m cid')"
proof -
  have "find P (cs @ [c]) = (case find P cs of None \<Rightarrow> if P c then Some c else None | Some d \<Rightarrow> Some d)"
    for P and cs :: "oc_channel list" and c by (induction cs) auto
  then show ?thesis by (auto simp: channel_ensure_def oc_model_channel_def split: option.split)
qed

lemma upd_channel_find:
  assumes "\<And>c. ch_channel_id c = cid \<Longrightarrow> ch_channel_id (f c) = cid"
  shows "oc_model_channel (upd_channel cid f m) cid' =
    (if cid' = cid then map_option f (oc_model_channel m cid) else oc_model_channel m cid')"
  using assms by (auto simp: oc_model_channel_def upd_channel_def intro: find_upd_first find_upd_other)

lemma listen_push_channel [simp]: "oc_model_channel (listen_push mid m) cid = oc_model_channel m cid"
  by (simp add: oc_model_channel_def listen_push_def)

text \<open>The channel a message goes to, before and after it.\<close>

lemma message_arm_find:
  assumes m: "chat_inv sp m" and id: "em_message_id e \<noteq> 0"
  obtains c where "oc_model_channel (channel_ensure (em_channel_id e) m) (em_channel_id e) = Some c" "channel_ok sp c"
    "ch_msgs c = transcript m (em_channel_id e)"
    "\<And>cid. oc_model_channel (ev_message_arm flat e m) cid =
      (if cid = em_channel_id e then Some (snd (channel_message flat (channel_ensure (em_channel_id e) m) e c))
       else oc_model_channel m cid)"
proof -
  let ?cid = "em_channel_id e" and ?m = "channel_ensure (em_channel_id e) m"
  obtain c where c: "oc_model_channel ?m ?cid = Some c"
    by (cases "oc_model_channel m ?cid") (auto simp: channel_ensure_find)
  have ok: "channel_ok sp c" using c find_channel_ok inv_channel_ensure [OF m] by blast
  have "ch_msgs c = transcript m ?cid"
    using c by (auto simp: transcript_def channel_ensure_find zero_channel_def split: option.splits if_splits)
  moreover have "ch_channel_id (snd (channel_message flat ?m e c)) = ?cid"
    using channel_message_ok [OF id ok, of flat ?m] oc_model_channel_Some [OF c] by simp
  then have "oc_model_channel (ev_message_arm flat e m) cid =
      (if cid = ?cid then Some (snd (channel_message flat ?m e c)) else oc_model_channel m cid)" for cid
    using c by (auto simp: ev_message_arm_def Let_def case_prod_beta upd_channel_find channel_ensure_find)
  ultimately show ?thesis using that c ok by blast
qed

lemma message_arm_ensured:
  assumes "chat_inv sp m" "em_message_id e \<noteq> 0" "oc_model_channel m (em_channel_id e) = Some c"
  shows "oc_model_channel (ev_message_arm flat e m) (em_channel_id e) = Some (snd (channel_message flat m e c))"
proof -
  have ens: "channel_ensure (em_channel_id e) m = m" using assms(3) by (simp add: channel_ensure_def)
  show ?thesis by (rule message_arm_find [OF assms(1,2), of flat]) (use assms(3) ens in simp)
qed

lemma deliver_snoc: "deliver flat (es @ [e]) m = ev_message_arm flat e (deliver flat es m)"
  by (simp add: deliver_def)

lemma deliver_inv: "chat_inv sp m \<Longrightarrow> list_all (\<lambda>e. em_message_id e \<noteq> 0) es \<Longrightarrow> chat_inv sp (deliver flat es m)"
  by (induction es rule: rev_induct) (auto simp: deliver_snoc, simp add: deliver_def)

lemma deliver_transcript:
  assumes "list_all (\<lambda>e. em_message_id e \<noteq> 0) es"
  shows "transcript (deliver flat es chat_init) cid =
    map (shown (firsts (filter (\<lambda>e. em_channel_id e = cid) es)))
      (sort_key em_message_id (firsts (filter (\<lambda>e. em_channel_id e = cid) es)))"
  using assms
proof (induction es rule: rev_induct)
  case Nil
  then show ?case by (simp add: deliver_def transcript_def oc_model_channel_def chat_init_def)
next
  case (snoc e es)
  let ?m = "deliver flat es chat_init"
  have inv: "chat_inv True ?m" and id: "em_message_id e \<noteq> 0"
    using snoc.prems deliver_inv [OF chat_init_inv] by auto
  obtain c where c: "channel_ok True c" "ch_msgs c = transcript ?m (em_channel_id e)"
    and find: "\<And>cid. oc_model_channel (ev_message_arm flat e ?m) cid =
      (if cid = em_channel_id e then Some (snd (channel_message flat (channel_ensure (em_channel_id e) ?m) e c))
       else oc_model_channel ?m cid)"
    using message_arm_find [OF inv id] by metis
  show ?case
  proof (cases "cid = em_channel_id e")
    case True
    have "ch_msgs c = map (shown (firsts (filter (\<lambda>x. em_channel_id x = cid) es)))
        (sort_key em_message_id (firsts (filter (\<lambda>x. em_channel_id x = cid) es)))"
      using snoc c(2) True by simp
    from message_shown [OF c(1) id this] show ?thesis
      using find True by (simp add: deliver_snoc transcript_def [of "ev_message_arm flat e ?m"])
  next
    case False
    then show ?thesis using find snoc by (simp add: deliver_snoc transcript_def)
  qed
qed

lemma firsts_set: "inj_on em_message_id (set es) \<Longrightarrow> set (firsts es) = set es"
  by (induction es) (auto simp: inj_on_def)

lemma firsts_sorted_same:
  assumes "set es' = set es" "inj_on em_message_id (set es)"
  shows "sort_key em_message_id (firsts es') = sort_key em_message_id (firsts es)"
proof (rule sort_key_inj_key_eq)
  have "set (firsts es') = set (firsts es)" using assms firsts_set [of es] firsts_set [of es'] by simp
  moreover have "distinct (firsts es)" for es using firsts_distinct [of es] by (simp add: distinct_map)
  ultimately show "mset (firsts es') = mset (sort_key em_message_id (firsts es))"
    by (simp add: set_eq_iff_mset_eq_distinct)
  show "inj_on em_message_id (set (firsts es'))" using firsts_distinct [of es'] by (simp add: distinct_map)
qed simp

text \<open>
  C12: Whatever messages reach a fresh client, in any order, interleaved over channels and delivered any number of
  times, as long as no id is 0: the transcript of a channel is exactly the first deliveries to it, sorted by message
  id. Each message is as its first delivery had it. Its action is made of those that came, from its own on, as long as
  it was the newest message of the channel; it has none when a newer one was there before it. So two clients that
  received the same messages of a channel, no two with one id, in different orders and numbers, show the same
  authors, names, times, kinds and texts in the same order; the actions are left out of this, since they depend on
  the order.
\<close>

theorem transcript_converges:
  assumes "list_all (\<lambda>e. em_message_id e \<noteq> 0) es" "list_all (\<lambda>e. em_message_id e \<noteq> 0) es'"
  shows "transcript (deliver flat es chat_init) cid =
      map (shown (firsts (filter (\<lambda>e. em_channel_id e = cid) es)))
        (sort_key em_message_id (firsts (filter (\<lambda>e. em_channel_id e = cid) es))) \<and>
    (set (filter (\<lambda>e. em_channel_id e = cid) es') = set (filter (\<lambda>e. em_channel_id e = cid) es) \<and>
     inj_on em_message_id (set (filter (\<lambda>e. em_channel_id e = cid) es)) \<longrightarrow>
       map msg_core (transcript (deliver flat' es' chat_init) cid) = map msg_core (transcript (deliver flat es chat_init) cid))"
proof -
  have "map msg_core (transcript (deliver flat' es' chat_init) cid) = map msg_core (transcript (deliver flat es chat_init) cid)"
    if "set (filter (\<lambda>e. em_channel_id e = cid) es') = set (filter (\<lambda>e. em_channel_id e = cid) es)"
      "inj_on em_message_id (set (filter (\<lambda>e. em_channel_id e = cid) es))"
    unfolding deliver_transcript [OF assms(1)] deliver_transcript [OF assms(2)] firsts_sorted_same [OF that] by simp
  then show ?thesis using deliver_transcript [OF assms(1)] by blast
qed

text \<open>Five deliveries to two channels, the second message of the first channel with the action of somebody.\<close>

definition five_deliveries :: "ev_message list" where
  "five_deliveries = map (\<lambda>(c, i, n). \<lparr>em_channel_id = c, em_author_id = 2, em_author_name = ''ann'', em_message_id = i,
     em_server_time = 5, em_kind = 0, em_broadcast_stored = False, em_body = Some ''hi'',
     em_action = \<lparr>ea_known = True, ea_action = n > 0, ea_start = 0, ea_len = n, ea_actor_name = ''bob''\<rparr>\<rparr>)
       [(1, 7, 0), (2, 4, 0), (1, 3, 2), (1, 7, 0), (1, 5, 0)]"

lemma transcript_converges_witness:
  "map ms_message_id (transcript (deliver snprintf_s five_deliveries chat_init) 1) = [3, 5, 7] \<and>
   map msg_core (transcript (deliver snprintf_s (rev five_deliveries) chat_init) 1) =
     map msg_core (transcript (deliver snprintf_s five_deliveries chat_init) 1)"
proof -
  have nz: "list_all (\<lambda>e. em_message_id e \<noteq> 0) five_deliveries" "list_all (\<lambda>e. em_message_id e \<noteq> 0) (rev five_deliveries)"
    by (simp_all add: five_deliveries_def)
  have "inj_on em_message_id (set (filter (\<lambda>e. em_channel_id e = 1) five_deliveries))"
    by (auto simp: five_deliveries_def inj_on_def)
  moreover have "set (filter P (rev five_deliveries)) = set (filter P five_deliveries)" for P by simp
  moreover have "map em_message_id (sort_key em_message_id (firsts (filter (\<lambda>e. em_channel_id e = 1) five_deliveries))) = [3, 5, 7]"
    by (simp add: five_deliveries_def)
  ultimately show ?thesis using transcript_converges [OF nz, of snprintf_s 1 snprintf_s]
    by (auto simp: comp_def shown_id)
qed


section \<open>Unread counts\<close>

text \<open>The counts of a channel are the ones a recount from its read marker gives.\<close>

definition counts_exact :: "'a oc_chat_scheme \<Rightarrow> oc_channel \<Rightarrow> bool" where
  "counts_exact m c \<longleftrightarrow> (ch_unread c, ch_priority_unread c) = count_unread m c (ch_read_marker c) (ch_msgs c)"

lemma count_unread_append:
  "count_unread m c marker (xs @ ys) =
    (fst (count_unread m c marker xs) + fst (count_unread m c marker ys),
     snd (count_unread m c marker xs) + snd (count_unread m c marker ys))"
  by (induction xs) (auto simp: Let_def split: prod.split)

lemma count_unread_none:
  "list_all (\<lambda>g. ms_message_id g \<le> marker) msgs \<Longrightarrow> count_unread m c marker msgs = (0, 0)"
  by (induction msgs) auto

text \<open>A recount looks at the people, groups, keywords and the channel's own settings, and at nothing else.\<close>

lemma count_unread_cong:
  assumes "ch_muted c' = ch_muted c" "ch_notify_level c' = ch_notify_level c"
    and "m_user_id m' = m_user_id m" "m_ws_sender m' = m_ws_sender m" "m_users m' = m_users m"
    "m_groups m' = m_groups m" "m_kw_terms m' = m_kw_terms m" "m_pri_people m' = m_pri_people m"
  shows "count_unread m' c' marker msgs = count_unread m c marker msgs"
proof -
  have loop: "mentions_loop m' me stored bc mms = mentions_loop m me stored bc mms" for me stored bc mms
    using assms by (induction mms arbitrary: bc) auto
  have "msg_mentioned m' = msg_mentioned m" "msg_keyword m' = msg_keyword m"
    using assms loop
    by (auto simp: fun_eq_iff msg_mentioned_def msg_keyword_def oc_model_mentions_me_in_def oc_model_user_name_def
        oc_model_is_workspace_sender_def oc_model_keyword_hit_def split: option.split)
  then have "would_notify m' c' = would_notify m c" "counts_in_badge m' = counts_in_badge m"
    using assms by (auto simp: fun_eq_iff would_notify_def counts_in_badge_def oc_model_is_workspace_sender_def oc_model_is_priority_def)
  then show ?thesis by (induction msgs) (auto simp: Let_def split: prod.split)
qed

lemma recount_exact:
  assumes "oc_model_channel m cid = Some c"
  shows "\<exists>c'. oc_model_channel (oc_model_set_read_marker cid mid m) cid = Some c' \<and>
    ch_read_marker c' = mid \<and> counts_exact (oc_model_set_read_marker cid mid m) c'"
proof -
  obtain n pri where np: "count_unread m c mid (ch_msgs c) = (n, pri)" by fastforce
  let ?c = "c\<lparr>ch_read_marker := mid, ch_unread := n, ch_priority_unread := pri, ch_srv_unread := of_int n\<rparr>"
  have "oc_model_channel (oc_model_set_read_marker cid mid m) cid = Some ?c"
    using assms np unfolding oc_model_set_read_marker_def by (subst upd_channel_find) (auto simp: case_prod_beta)
  moreover have "count_unread (oc_model_set_read_marker cid mid m) ?c mid (ch_msgs c) = count_unread m c mid (ch_msgs c)"
    by (rule count_unread_cong) (simp_all add: oc_model_set_read_marker_def upd_channel_def)
  ultimately show ?thesis using np by (simp add: counts_exact_def)
qed

lemma mark_read_exact:
  assumes "chat_inv sp m" "oc_model_channel m cid = Some c"
  shows "\<exists>c'. oc_model_channel (oc_model_mark_read cid m) cid = Some c' \<and> ch_unread c' = 0 \<and>
    counts_exact (oc_model_mark_read cid m) c'"
proof -
  have "list_all (\<lambda>g. ms_message_id g \<le> ch_high_water c) (ch_msgs c)"
    using find_channel_ok [OF assms] by (auto simp: channel_ok_def transcript_ok_def list_all_iff)
  then show ?thesis using assms(2) unfolding oc_model_mark_read_def
    by (subst upd_channel_find) (auto simp: counts_exact_def count_unread_none)
qed

text \<open>What a message newer than the transcript does to its channel.\<close>

lemma channel_message_new:
  assumes ok: "channel_ok sp c" and new: "em_message_id e > ch_high_water c"
  obtains c' where "channel_message flat m e c = (True, c')"
    "ch_msgs c' = ch_msgs c @ [msg_set_action (em_action e) (new_msg e)]"
    "ch_read_marker c' = ch_read_marker c" "ch_muted c' = ch_muted c" "ch_notify_level c' = ch_notify_level c"
    "(ch_unread c', ch_priority_unread c') =
       (let g = msg_set_action (em_action e) (new_msg e); u = em_message_id e > ch_read_marker c \<and> would_notify m c (em_author_id e) g
        in (ch_unread c + of_bool u, ch_priority_unread c + of_bool (u \<and> counts_in_badge m (em_author_id e) g)))"
proof -
  define c1 where "c1 = (case em_body e of None \<Rightarrow> c | Some body \<Rightarrow>
      if em_message_id e \<ge> ch_high_water c
      then c\<lparr>ch_preview := preview_set flat 128 (Some (excerpt_of (em_action e) body)),
             ch_preview_author := em_author_id e, ch_preview_action := action_within (em_action e) body\<rparr>
      else c)"
  define c2 where "c2 = c1\<lparr>ch_msgs := ch_msgs c1 @ [new_msg e], ch_high_water := em_message_id e\<rparr>"
  define c3 where "c3 = c2\<lparr>ch_msgs := ch_msgs c @ [msg_set_action (em_action e) (new_msg e)]\<rparr>"
  have c1: "ch_msgs c1 = ch_msgs c" "ch_high_water c1 = ch_high_water c" "ch_read_marker c1 = ch_read_marker c"
    "ch_unread c1 = ch_unread c" "ch_priority_unread c1 = ch_priority_unread c"
    "ch_muted c1 = ch_muted c" "ch_notify_level c1 = ch_notify_level c"
    using new by (auto simp: c1_def split: option.split)
  have append: "channel_append e c1 = (True, c2)"
    using new c1 by (auto simp: channel_append_def c2_def new_msg_def Let_def)
  have c3: "ch_msgs c3 = ch_msgs c @ [msg_set_action (em_action e) (new_msg e)]" "ch_read_marker c3 = ch_read_marker c"
    "ch_muted c3 = ch_muted c" "ch_notify_level c3 = ch_notify_level c" "ch_unread c3 = ch_unread c"
    "ch_priority_unread c3 = ch_priority_unread c"
    using c1 by (simp_all add: c3_def c2_def)
  have c2: "ch_read_marker c2 = ch_read_marker c" "last (ch_msgs c2) = new_msg e"
    "butlast (ch_msgs c2) = ch_msgs c" using c1 by (simp_all add: c2_def)
  have w: "would_notify m c3 = would_notify m c" using c3 by (auto simp: fun_eq_iff would_notify_def)
  show ?thesis
    by (rule that [of "snd (channel_message flat m e c)"])
      (auto simp: channel_message_def append Let_def c2 c3 w simp flip: c1_def c3_def)
qed


text \<open>
  C11: The live counts stay exact: when the counts of a channel are the ones a recount from its read marker gives
  (they are after every move of the marker), they still are after any message newer than the transcript. So the
  number a client arrives at by counting arrivals, and the number it computes on the echo of a read cursor,
  are the same.
\<close>

theorem unread_counts_exact:
  assumes inv: "chat_inv sp m" and c: "oc_model_channel m (em_channel_id e) = Some c" and exact: "counts_exact m c"
    and new: "em_message_id e > ch_high_water c"
  shows "\<exists>c'. oc_model_channel (ev_message_arm flat e m) (em_channel_id e) = Some c' \<and>
    counts_exact (ev_message_arm flat e m) c'"
proof -
  let ?cid = "em_channel_id e" and ?g = "msg_set_action (em_action e) (new_msg e)"
  have m: "channel_ensure ?cid m = m" using c by (simp add: channel_ensure_def)
  have id: "em_message_id e \<noteq> 0" using new by auto
  note ok = find_channel_ok [OF inv c]
  obtain c' where msg: "channel_message flat m e c = (True, c')" and msgs: "ch_msgs c' = ch_msgs c @ [?g]"
    and same: "ch_read_marker c' = ch_read_marker c" "ch_muted c' = ch_muted c" "ch_notify_level c' = ch_notify_level c"
    and counts: "(ch_unread c', ch_priority_unread c') =
       (let g = ?g; u = em_message_id e > ch_read_marker c \<and> would_notify m c (em_author_id e) g
        in (ch_unread c + of_bool u, ch_priority_unread c + of_bool (u \<and> counts_in_badge m (em_author_id e) g)))"
    using channel_message_new [OF ok new] .
  have find: "oc_model_channel (ev_message_arm flat e m) ?cid = Some c'"
    using message_arm_ensured [OF inv id c] msg m by simp
  have "count_unread (ev_message_arm flat e m) c' (ch_read_marker c) xs = count_unread m c (ch_read_marker c) xs" for xs
    by (rule count_unread_cong)
      (simp_all add: same ev_message_arm_def m c msg listen_push_def upd_channel_def Let_def)
  moreover have "count_unread m c (ch_read_marker c) (ch_msgs c) = (ch_unread c, ch_priority_unread c)"
    using exact by (simp add: counts_exact_def)
  moreover have "count_unread m c (ch_read_marker c) [?g] =
      (let u = em_message_id e > ch_read_marker c \<and> would_notify m c (em_author_id e) ?g
       in (of_bool u, of_bool (u \<and> counts_in_badge m (em_author_id e) ?g)))"
    by (auto simp: not_le)
  ultimately have "counts_exact (ev_message_arm flat e m) c'"
    using counts by (simp add: counts_exact_def same msgs count_unread_append Let_def del: count_unread.simps)
  then show ?thesis using find by blast
qed


text \<open>Somebody called ann, and a message of somebody else that the client has not seen.\<close>

definition ann_chat :: oc_chat where
  "ann_chat = chat_init\<lparr>m_user_id := 1,
     m_users := [\<lparr>mb_user_id = 1, mb_name = ''ann'', mb_label = ''ann'', mb_role = 0, mb_disabled = False,
       mb_status_emoji = '''', mb_status_text = '''', mb_status_expires = 0, mb_title = '''', mb_timezone = '''',
       mb_avatar_id = 0, mb_full_name = '''', mb_pronouns = '''', mb_voice_id = '''', mb_phone = ''''\<rparr>],
     m_channels := [zero_channel\<lparr>ch_channel_id := 3, ch_notify_level := 1\<rparr>]\<rparr>"

definition ann_ev :: "u64 \<Rightarrow> string \<Rightarrow> ev_message" where
  "ann_ev mid body = \<lparr>em_channel_id = 3, em_author_id = 2, em_author_name = ''bob'', em_message_id = mid, em_server_time = 5,
     em_kind = 0, em_broadcast_stored = False, em_body = Some body,
     em_action = \<lparr>ea_known = True, ea_action = False, ea_start = 0, ea_len = 0, ea_actor_name = ''''\<rparr>\<rparr>"

lemma ann_chat_inv: "chat_inv sp ann_chat"
  by (simp add: ann_chat_def chat_inv_def channels_ok_def keyed_def channel_ok_def transcript_ok_def thread_ok_def
      zero_channel_def chat_init_def)

lemma unread_counts_exact_witness:
  "\<exists>c. oc_model_channel (ev_message_arm snprintf_s (ann_ev 10 ''hi @ann'') ann_chat) 3 = Some c \<and>
     counts_exact (ev_message_arm snprintf_s (ann_ev 10 ''hi @ann'') ann_chat) c"
  using unread_counts_exact [OF ann_chat_inv, of "ann_ev 10 ''hi @ann''" _ snprintf_s]
  by (simp add: ann_chat_def ann_ev_def oc_model_channel_def counts_exact_def zero_channel_def)

section \<open>History\<close>

lemma would_notify_fields [simp]:
  "would_notify m (c\<lparr>ch_msgs := msgs\<rparr>) = would_notify m c" "would_notify m (c\<lparr>ch_high_water := hw\<rparr>) = would_notify m c"
  by (simp_all add: would_notify_def fun_eq_iff)

text \<open>
  C28: A message of an older history page is inserted where it belongs, but what comes with it goes to the newest
  message of the channel. An event that was paired with its action frame gives that action to the newest message when it
  lies in that message's text, and takes the newest message's action away otherwise; an event with no action frame, as
  in a replay, leaves it. The inserted message gets no action in any case, and its unread count is decided by the newest
  message's text and flags with the older message's author.
\<close>

theorem history_updates_newest_message:
  assumes ok: "channel_ok sp c" and id: "em_message_id e \<noteq> 0" and new: "\<not> holds_msg (em_message_id e) c"
    and older: "ch_msgs c \<noteq> []" "em_message_id e < ms_message_id (last (ch_msgs c))"
  shows "\<exists>c'. channel_message flat m e c = (True, c') \<and>
    find (\<lambda>g. ms_message_id g = em_message_id e) (ch_msgs c') = Some (new_msg e) \<and>
    last (ch_msgs c') = msg_set_action (em_action e) (last (ch_msgs c)) \<and>
    ch_unread c' = ch_unread c + of_bool (em_message_id e > ch_read_marker c \<and>
      would_notify m c (em_author_id e) (msg_set_action (em_action e) (last (ch_msgs c))))"
proof -
  have t: "transcript_ok sp (ch_high_water c) (ch_msgs c)" using ok by (simp add: channel_ok_def)
  have "ms_message_id (last (ch_msgs c)) \<le> ch_high_water c" using t older(1) by (simp add: transcript_ok_def list_all_iff)
  then have "\<not> em_message_id e \<ge> ch_high_water c" using older(2) by simp
  then have c1: "(case em_body e of None \<Rightarrow> c | Some body \<Rightarrow>
      if em_message_id e \<ge> ch_high_water c
      then c\<lparr>ch_preview := preview_set flat 128 (Some (excerpt_of (em_action e) body)),
             ch_preview_author := em_author_id e, ch_preview_action := action_within (em_action e) body\<rparr>
      else c) = c"
    by (simp split: option.split)
  obtain as bs where split: "ch_msgs c = as @ bs" "list_all (\<lambda>g. ms_message_id g < em_message_id e) as"
    "list_all (\<lambda>g. em_message_id e < ms_message_id g) bs"
    and append: "channel_append e c = (True, c\<lparr>ch_msgs := as @ new_msg e # bs,
      ch_high_water := max (ch_high_water c) (em_message_id e)\<rparr>)"
    using channel_append_splits [OF t id new] .
  have "bs \<noteq> []" using split older by (cases as rule: rev_cases) auto
  then obtain bs' b where bs: "bs = bs' @ [b]" by (metis rev_exhaust)
  have "find (\<lambda>g. ms_message_id g = em_message_id e) (as @ new_msg e # bs' @ [msg_set_action (em_action e) b]) = Some (new_msg e)"
    using split(2) by (induction as) auto
  then show ?thesis using split(1) bs
    by (auto simp: channel_message_def c1 append Let_def butlast_append)
qed


lemma history_updates_newest_message_witness:
  "\<exists>c'. oc_model_channel (deliver snprintf_s [ann_ev 10 ''hi @ann'', ann_ev 5 ''lunch''] ann_chat) 3 = Some c' \<and>
     ch_unread c' = 2 \<and> \<not> counts_exact (deliver snprintf_s [ann_ev 10 ''hi @ann'', ann_ev 5 ''lunch''] ann_chat) c'"
proof -
  let ?m = "ev_message_arm snprintf_s (ann_ev 10 ''hi @ann'') ann_chat" and ?e = "ann_ev 5 ''lunch''"
  have inv: "chat_inv True ?m" using ann_chat_inv by (auto simp: ann_ev_def)
  have e: "em_channel_id ?e = 3" "em_message_id ?e = 5" "em_author_id ?e = 2" by (simp_all add: ann_ev_def)
  have "map_option (\<lambda>c. (map ms_message_id (ch_msgs c), ch_unread c, ch_read_marker c,
      would_notify ?m c 2 (msg_set_action (em_action ?e) (last (ch_msgs c))))) (oc_model_channel ?m 3) = Some ([10], 1, 0, True)"
    by code_simp
  then obtain c where c: "oc_model_channel ?m 3 = Some c" and ids: "map ms_message_id (ch_msgs c) = [10]"
    and counts: "ch_unread c = 1" "ch_read_marker c = 0"
    "would_notify ?m c 2 (msg_set_action (em_action ?e) (last (ch_msgs c)))"
    by (cases "oc_model_channel ?m 3") auto
  have ens: "channel_ensure 3 ?m = ?m" using c by (simp add: channel_ensure_def)
  have hyps: "\<not> holds_msg (em_message_id ?e) c" "ch_msgs c \<noteq> []" "em_message_id ?e < ms_message_id (last (ch_msgs c))"
    using ids e by (auto simp: holds_msg_def map_eq_Cons_conv)
  obtain c' where c': "channel_message snprintf_s ?m ?e c = (True, c')" "ch_unread c' = 2"
    using history_updates_newest_message [OF find_channel_ok [OF inv c] _ hyps, of snprintf_s ?m] e counts by auto
  have "oc_model_channel (ev_message_arm snprintf_s ?e ?m) 3 = Some c'"
    using message_arm_ensured [OF inv, of ?e c snprintf_s] c c' e ens by simp
  moreover have "map_option (counts_exact (ev_message_arm snprintf_s ?e ?m)) (oc_model_channel (ev_message_arm snprintf_s ?e ?m) 3) = Some False"
    by code_simp
  ultimately show ?thesis using c'(2) by (simp add: deliver_def)
qed

end
