(* ===== verification/Client_Lists.thy ===== *)
theory Client_Lists
  imports Client_Invariant
begin

text \<open>
  Lists the client asks for whole: every entry carries the number of the answer that last mentioned it, and the end of
  an answer drops the entries with another number. The contract is stated once, for a list with a current number, and
  holds for the followed threads and for the groups of \<^verbatim>\<open>client/core/model.c\<close>.
\<close>

definition track :: "('e \<Rightarrow> 'k) \<Rightarrow> ('e \<Rightarrow> bool) \<Rightarrow> 'e \<Rightarrow> 'k set \<Rightarrow> 'k set" where
  "track mkey held e K = (if held e then insert (mkey e) K else K - {mkey e})"

locale numbered_list =
  fixes entries :: "'s \<Rightarrow> 'x list" and key :: "'x \<Rightarrow> 'k" and number :: "'x \<Rightarrow> 'g" and current :: "'s \<Rightarrow> 'g"
    and mention :: "'e \<Rightarrow> 's \<Rightarrow> 's" and mkey :: "'e \<Rightarrow> 'k" and held :: "'e \<Rightarrow> bool" and finish :: "'s \<Rightarrow> 's"
    and ok :: "'s \<Rightarrow> bool"
  assumes mention_ok: "ok s \<Longrightarrow> ok (mention e s) \<and> current (mention e s) = current s"
    and mention_marks: "ok s \<Longrightarrow> key ` {x \<in> set (entries (mention e s)). number x = current s} =
      track mkey held e (key ` {x \<in> set (entries s). number x = current s})"
    and finish_keeps: "ok s \<Longrightarrow> set (entries (finish s)) = {x \<in> set (entries s). number x = current s}"
begin

lemma mentions_mark:
  "ok s \<Longrightarrow> ok (fold mention es s) \<and> current (fold mention es s) = current s \<and>
    key ` {x \<in> set (entries (fold mention es s)). number x = current s} =
      fold (track mkey held) es (key ` {x \<in> set (entries s). number x = current s})"
proof (induction es arbitrary: s)
  case (Cons e es)
  have "ok (mention e s)" "current (mention e s) = current s" using mention_ok [OF Cons.prems] by auto
  then show ?case using Cons.IH [of "mention e s"] mention_marks [OF Cons.prems, of e] by simp
qed simp

lemma answer_keys:
  assumes "ok s" "list_all (\<lambda>x. number x \<noteq> current s) (entries s)"
  shows "key ` set (entries (finish (fold mention es s))) = fold (track mkey held) es {}"
proof -
  have none: "{x \<in> set (entries s). number x = current s} = {}" using assms(2) by (auto simp: list_all_iff)
  show ?thesis using mentions_mark [OF assms(1), of es, unfolded none] finish_keeps [of "fold mention es s"] by simp
qed

end

section \<open>What one mention does to a list\<close>

text \<open>Marking the entry of a key with a new one, and removing the entry of a key.\<close>

lemma upsert_set:
  assumes "keyed k xs" "k y = a"
  shows "set (upsert (\<lambda>x. k x = a) (\<lambda>_. y) y xs) = insert y {x \<in> set xs. k x \<noteq> a}"
proof (cases "list_ex (\<lambda>x. k x = a) xs")
  case True
  then have "\<exists>x \<in> set xs. k x = a" by (simp add: list_ex_iff)
  then show ?thesis using True by (auto simp: upsert_def upd_first_map [OF assms(1)])
next
  case False
  then show ?thesis by (auto simp: upsert_def list_ex_iff)
qed

lemma swap_remove_first_set:
  "keyed k xs \<Longrightarrow> set (swap_remove_first (\<lambda>x. k x = a) xs) = {x \<in> set xs. k x \<noteq> a}"
  using swap_remove_first_gone [of k xs a] by (metis set_mset_filter set_mset_mset)

lemma marks_insert:
  "k y = a \<Longrightarrow> P y \<Longrightarrow> k ` {x \<in> insert y {x \<in> S. k x \<noteq> a}. P x} = insert a (k ` {x \<in> S. P x})"
  by (auto simp: image_iff)

lemma marks_remove: "k ` {x \<in> {x \<in> S. k x \<noteq> a}. P x} = k ` {x \<in> S. P x} - {a}"
  by auto

section \<open>Threads\<close>

lemma thread_apply_threads:
  assumes "chat_inv sp m"
  shows "set (m_threads (thread_apply e m)) =
    (if et_following e
     then insert \<lparr>tv_root_id = et_message_id e, tv_channel_id = et_channel_id e, tv_root_author = et_author_id e,
       tv_root_at = et_server_time e, tv_last_reply_at = et_last_reply_at e, tv_reply_count = et_reply_count e,
       tv_unread = et_unread_count e, tv_following = et_following e, tv_preview = et_body e, tv_action = et_action e,
       tv_gen = m_thread_gen m\<rparr> {t \<in> set (m_threads m). tv_root_id t \<noteq> et_message_id e}
     else {t \<in> set (m_threads m). tv_root_id t \<noteq> et_message_id e})"
proof -
  have k: "keyed tv_root_id (m_threads m)" using assms by (simp add: chat_inv_def)
  show ?thesis
    by (auto simp: thread_apply_def Let_def upsert_set [OF k] swap_remove_first_set [OF keyed_upsert [OF k]])
qed

interpretation threads: numbered_list m_threads tv_root_id tv_gen m_thread_gen thread_apply et_message_id et_following
    ev_threads_end_arm "chat_inv sp :: 'a oc_chat_scheme \<Rightarrow> bool" for sp
proof unfold_locales
  fix s :: "'a oc_chat_scheme" and e
  assume s: "chat_inv sp s"
  show "chat_inv sp (thread_apply e s) \<and> m_thread_gen (thread_apply e s) = m_thread_gen s"
    using inv_thread_apply [OF s] by (simp add: thread_apply_def Let_def)
  show "tv_root_id ` {x \<in> set (m_threads (thread_apply e s)). tv_gen x = m_thread_gen s} =
      track et_message_id et_following e (tv_root_id ` {x \<in> set (m_threads s). tv_gen x = m_thread_gen s})"
    by (simp add: thread_apply_threads [OF s] track_def marks_insert marks_remove del: mem_Collect_eq insert_iff)
  show "set (m_threads (ev_threads_end_arm s)) = {x \<in> set (m_threads s). tv_gen x = m_thread_gen s}"
    by (simp add: ev_threads_end_arm_def sweep_down_set)
qed


section \<open>Groups\<close>

text \<open>What the daemon says of one group: it exists, or it was deleted.\<close>

datatype group_note = Group_Seen oc_group_view | Group_Gone u64

fun group_event :: "group_note \<Rightarrow> chat_ev" where
  "group_event (Group_Seen g) = OC_EV_GROUP (Some g)"
| "group_event (Group_Gone gid) = OC_EV_GROUP_DELETED gid"

fun group_mention :: "group_note \<Rightarrow> 'a oc_chat_scheme \<Rightarrow> 'a oc_chat_scheme" where
  "group_mention (Group_Seen g) m = group_upsert (Some g) m"
| "group_mention (Group_Gone gid) m = group_drop gid m"

fun group_note_id :: "group_note \<Rightarrow> u64" where
  "group_note_id (Group_Seen g) = gv_id g"
| "group_note_id (Group_Gone gid) = gid"

fun group_exists :: "group_note \<Rightarrow> bool" where
  "group_exists (Group_Seen g) = True"
| "group_exists (Group_Gone gid) = False"

lemma groups_keyed: "chat_inv sp m \<Longrightarrow> keyed (\<lambda>x. gv_id (fst x)) (m_groups m)"
  by (simp add: chat_inv_def)

lemma group_mention_groups:
  assumes "chat_inv sp m"
  shows "set (m_groups (group_mention e m)) =
    (case e of
       Group_Seen g \<Rightarrow> insert (g, m_groups_gen m) {x \<in> set (m_groups m). gv_id (fst x) \<noteq> gv_id g}
     | Group_Gone gid \<Rightarrow> {x \<in> set (m_groups m). gv_id (fst x) \<noteq> gid})"
  by (cases e) (simp_all add: group_upsert_def group_drop_def case_prod_unfold upsert_set [OF groups_keyed [OF assms]]
      swap_remove_first_set [OF groups_keyed [OF assms]])

text \<open>The end of the list drops the groups of an earlier number, one by one, and keeps the others.\<close>

lemma group_drop_entry:
  assumes "chat_inv sp m" "i < length (m_groups m)"
  shows "m_groups (group_drop (gv_id (fst (m_groups m ! i))) m) = swap_remove i (m_groups m)"
proof -
  let ?xs = "m_groups m"
  obtain j where j: "first_index (\<lambda>x. gv_id (fst x) = gv_id (fst (?xs ! i))) ?xs = Some j"
    using first_index_None [of _ ?xs] assms(2) by (metis (mono_tags, lifting) list_ex_length not_None_eq)
  have "j = i" using first_index_Some [OF j] assms(2) groups_keyed [OF assms(1)]
    by (metis (mono_tags, lifting) keyed_def length_map nth_eq_iff_index_eq nth_map)
  then show ?thesis using j by (simp add: group_drop_def swap_remove_first_def case_prod_unfold)
qed

lemma take_swap_remove: "i < length xs \<Longrightarrow> take i (swap_remove i xs) = take i xs"
  by (cases xs rule: rev_cases) (auto simp: swap_remove_def butlast_append list_update_append less_Suc_eq_le)

lemma groups_sweep_keeps:
  "chat_inv sp m \<Longrightarrow> list_all (\<lambda>x. snd x = m_groups_gen m) (take i (m_groups m)) \<Longrightarrow>
    m_groups_gen (groups_sweep i m) = m_groups_gen m \<and>
    mset (m_groups (groups_sweep i m)) = filter_mset (\<lambda>x. snd x = m_groups_gen m) (mset (m_groups m))"
proof (induction i m rule: groups_sweep.induct)
  case (1 i m)
  let ?fresh = "\<lambda>x. snd x = m_groups_gen m"
  show ?case
  proof (cases "i \<ge> length (m_groups m)")
    case True
    then have "filter_mset ?fresh (mset (m_groups m)) = mset (m_groups m)"
      using 1(4) by (simp add: filter_mset_eq_conv list_all_iff)
    then show ?thesis using True by (subst (1 2) groups_sweep.simps) simp
  next
    case i: False
    obtain g gen where g: "m_groups m ! i = (g, gen)" by fastforce
    show ?thesis
    proof (cases "gen = m_groups_gen m")
      case True
      have "list_all ?fresh (take (i + 1) (m_groups m))"
        using 1(4) i g True by (simp add: take_Suc_conv_app_nth)
      then have ih: "m_groups_gen (groups_sweep (i + 1) m) = m_groups_gen m \<and>
          mset (m_groups (groups_sweep (i + 1) m)) = filter_mset ?fresh (mset (m_groups m))"
        using 1(2) [OF i g [symmetric] refl] 1(3) True by simp
      then show ?thesis using i g True by (subst (1 2) groups_sweep.simps) simp
    next
      case False
      let ?m = "group_drop (gv_id g) m"
      have drop: "m_groups ?m = swap_remove i (m_groups m)" using group_drop_entry [OF 1(3), of i] i g by simp
      have gen: "m_groups_gen ?m = m_groups_gen m" by (simp add: group_drop_def)
      have "mset (m_groups ?m) = mset (m_groups m) - {#(g, gen)#}" using i g drop by (simp add: mset_swap_remove)
      moreover have "(g, gen) \<in># mset (m_groups m)" using i g by (metis in_multiset_in_set leI nth_mem)
      ultimately have "filter_mset ?fresh (mset (m_groups ?m)) = filter_mset ?fresh (mset (m_groups m))"
        using False by simp
      then have ih: "m_groups_gen (groups_sweep i ?m) = m_groups_gen m \<and>
          mset (m_groups (groups_sweep i ?m)) = filter_mset ?fresh (mset (m_groups m))"
        using 1(1) [OF i g [symmetric] refl False] inv_group_drop [OF 1(3)] 1(4) i take_swap_remove [of i "m_groups m"] gen drop
        by simp
      then show ?thesis using i g False by (subst (1 2) groups_sweep.simps) simp
    qed
  qed
qed

interpretation groups: numbered_list m_groups "\<lambda>x. gv_id (fst x)" snd m_groups_gen group_mention group_note_id group_exists
    ev_groups_end_arm "chat_inv sp :: 'a oc_chat_scheme \<Rightarrow> bool" for sp
proof unfold_locales
  fix s :: "'a oc_chat_scheme" and e
  assume s: "chat_inv sp s"
  show "chat_inv sp (group_mention e s) \<and> m_groups_gen (group_mention e s) = m_groups_gen s"
    using inv_group_upsert [OF s] inv_group_drop [OF s] by (cases e) (simp_all, simp_all add: group_upsert_def group_drop_def)
  show "(\<lambda>x. gv_id (fst x)) ` {x \<in> set (m_groups (group_mention e s)). snd x = m_groups_gen s} =
      track group_note_id group_exists e ((\<lambda>x. gv_id (fst x)) ` {x \<in> set (m_groups s). snd x = m_groups_gen s})"
    unfolding group_mention_groups [OF s]
    by (cases e) (simp_all add: track_def marks_insert marks_remove del: mem_Collect_eq insert_iff)
  show "set (m_groups (ev_groups_end_arm s)) = {x \<in> set (m_groups s). snd x = m_groups_gen s}"
    using arg_cong [OF groups_sweep_keeps [OF s, of 0, THEN conjunct2], of set_mset]
    by (simp add: ev_groups_end_arm_def Let_def)
qed


section \<open>What a whole answer leaves\<close>

lemma run_summaries:
  "run_steps (chat_step flat) (map (\<lambda>e. Chat_Event (OC_EV_THREAD_SUMMARY e)) es) m = Some (fold thread_apply es m)"
  by (induction es arbitrary: m) simp_all

lemma run_group_notes:
  "run_steps (oc_chat_apply flat) (map group_event ns) m = Some (fold group_mention ns m)"
proof (induction ns arbitrary: m)
  case (Cons n ns)
  then show ?case by (cases n) simp_all
qed simp

text \<open>
  C25: an answer to the request for the threads is the whole truth. From the call that asks for them to the event that
  ends the answer, the client ends up with exactly the threads whose last summary in between says they are
  followed, whichever threads it held before.\<close>

theorem thread_answer_whole:
  assumes "chat_inv sp m" "list_all (\<lambda>t. tv_gen t \<noteq> m_thread_gen m + 1) (m_threads m)"
  shows "\<exists>m'. run_steps (chat_step flat)
      (Threads_Begin # map (\<lambda>e. Chat_Event (OC_EV_THREAD_SUMMARY e)) es @ [Chat_Event OC_EV_THREADS_END]) m = Some m' \<and>
    tv_root_id ` set (m_threads m') = fold (track et_message_id et_following) es {} \<and> \<not> m_threads_loading m'"
proof -
  let ?m = "oc_model_threads_begin m"
  have m: "chat_inv sp ?m" using assms(1) by (simp add: oc_model_threads_begin_def chat_inv_def)
  have fresh: "list_all (\<lambda>t. tv_gen t \<noteq> m_thread_gen ?m) (m_threads ?m)"
    using assms(2) by (simp add: oc_model_threads_begin_def)
  show ?thesis using threads.answer_keys [OF m fresh, of es]
    by (simp add: run_steps_append run_summaries) (simp add: ev_threads_end_arm_def)
qed

text \<open>
  C26: the answer to the request for the groups is not. Between two ends of an answer the client cannot tell the groups
  the second answer lists from the groups the daemon announced before it: what remains after the second end is what
  either of them last said exists. A group that was announced while the client was connected and deleted while it
  was away stays.\<close>

theorem group_answer_keeps_announced:
  assumes "chat_inv sp m"
  shows "\<exists>m'. run_steps (oc_chat_apply flat)
      (OC_EV_GROUPS_END # map group_event announced @ map group_event listed @ [OC_EV_GROUPS_END]) m = Some m' \<and>
    (\<lambda>x. gv_id (fst x)) ` set (m_groups m') = fold (track group_note_id group_exists) (announced @ listed) {}"
proof -
  let ?m = "ev_groups_end_arm m"
  have m: "chat_inv sp ?m" using inv_groups_end [OF assms] .
  have gen: "m_groups_gen ?m = m_groups_gen m + 1"
    using groups_sweep_keeps [OF assms, of 0] by (simp add: ev_groups_end_arm_def Let_def)
  have fresh: "list_all (\<lambda>x. snd x \<noteq> m_groups_gen ?m) (m_groups ?m)"
    unfolding gen list_all_iff groups.finish_keeps [OF assms] by auto
  show ?thesis using groups.answer_keys [OF m fresh, of "announced @ listed"]
    by (simp add: run_steps_append run_group_notes)
qed

definition team_group :: oc_group_view where
  "team_group = \<lparr>gv_id = 7, gv_created_by = 1, gv_handle = ''team'', gv_name = ''Team'', gv_description = '''', gv_members = [1]\<rparr>"

theorem group_answer_keeps_announced_witness:
  "\<exists>m'. run_steps (oc_chat_apply snprintf_s) [OC_EV_GROUPS_END, OC_EV_GROUP (Some team_group), OC_EV_GROUPS_END] chat_init = Some m' \<and>
    (\<lambda>x. gv_id (fst x)) ` set (m_groups m') = {7}"
  using group_answer_keeps_announced [OF chat_init_inv, of snprintf_s "[Group_Seen team_group]" "[]"]
  by (simp add: track_def team_group_def)

definition thread_summary :: "u64 \<Rightarrow> ev_thread" where
  "thread_summary root = \<lparr>et_message_id = root, et_channel_id = 1, et_author_id = 2, et_server_time = 3, et_last_reply_at = 4,
     et_reply_count = 1, et_unread_count = 0, et_following = True, et_body = None, et_action = False\<rparr>"

theorem thread_answer_whole_witness:
  "\<exists>m'. run_steps (chat_step snprintf_s) [Threads_Begin, Chat_Event (OC_EV_THREAD_SUMMARY (thread_summary 5)),
      Chat_Event (OC_EV_THREAD_SUMMARY (thread_summary 6)), Chat_Event OC_EV_THREADS_END] chat_init = Some m' \<and>
    tv_root_id ` set (m_threads m') = {6, 5}"
proof -
  have "list_all (\<lambda>t. tv_gen t \<noteq> m_thread_gen chat_init + 1) (m_threads chat_init)" by (simp add: chat_init_def)
  then show ?thesis
    using thread_answer_whole [OF chat_init_inv, of snprintf_s "[thread_summary 5, thread_summary 6]"]
    by (simp add: track_def thread_summary_def)
qed


section \<open>The order of the threads\<close>

lemma sweep_down_fresh:
  "list_all (\<lambda>x. \<not> stale x) xs \<Longrightarrow> sweep_down stale (Suc (length xs)) (x # xs) =
    (if stale x then swap_remove 0 (x # xs) else x # xs)"
proof -
  have skip: "j \<le> length xs \<Longrightarrow> sweep_down stale (Suc j) (x # xs) = sweep_down stale 1 (x # xs)"
    if "list_all (\<lambda>x. \<not> stale x) xs" for j
    by (induction j) (use that in \<open>auto simp: list_all_length\<close>)
  assume "list_all (\<lambda>x. \<not> stale x) xs"
  from skip [OF this, of "length xs"] show ?thesis by simp
qed

lemma swap_remove_front: "xs \<noteq> [] \<Longrightarrow> swap_remove 0 (x # xs) = last xs # butlast xs"
  by (simp add: swap_remove_def)

lemma summaries_in_place:
  "list_all (\<lambda>e. et_following e \<and> et_message_id e \<in> tv_root_id ` set (m_threads m)) es \<Longrightarrow>
    map tv_root_id (m_threads (fold thread_apply es m)) = map tv_root_id (m_threads m)"
proof (induction es arbitrary: m)
  case (Cons e es)
  then have e: "et_following e" "list_ex (\<lambda>t. tv_root_id t = et_message_id e) (m_threads m)" by (auto simp: list_ex_iff)
  have ids: "map tv_root_id (m_threads (thread_apply e m)) = map tv_root_id (m_threads m)"
    using e by (simp add: thread_apply_def Let_def upsert_def upd_first_same)
  then have "tv_root_id ` set (m_threads (thread_apply e m)) = tv_root_id ` set (m_threads m)" by (metis set_map)
  then show ?case using Cons ids by simp
qed simp

lemma track_all_held: "list_all held es \<Longrightarrow> fold (track mkey held) es K = K \<union> mkey ` set es"
  by (induction es arbitrary: K) (auto simp: track_def)

text \<open>
  C37: the threads do not keep the order the daemon lists them in. When the first thread the client holds is no longer
  followed and the daemon lists the others in the order the client has them, the end of the answer moves the last
  of them to the front.\<close>

theorem thread_answer_moves_last:
  assumes m: "chat_inv sp m" "m_threads m = t # ts" "ts \<noteq> []" "list_all (\<lambda>t. tv_gen t \<noteq> m_thread_gen m + 1) (m_threads m)"
    and es: "list_all et_following es" "map et_message_id es = map tv_root_id ts"
  shows "map tv_root_id (m_threads (ev_threads_end_arm (fold thread_apply es (oc_model_threads_begin m)))) =
    tv_root_id (last ts) # butlast (map tv_root_id ts)"
proof -
  let ?b = "oc_model_threads_begin m" and ?g = "m_thread_gen m + 1"
  let ?m = "fold thread_apply es ?b"
  have b: "chat_inv sp ?b" "m_threads ?b = t # ts" "m_thread_gen ?b = ?g"
    using m by (simp_all add: oc_model_threads_begin_def chat_inv_def)
  have none: "{x \<in> set (m_threads ?b). tv_gen x = ?g} = {}" using m(2,4) b(2) by (auto simp: list_all_iff)
  have ids: "set (map et_message_id es) = tv_root_id ` set ts" using es(2) by simp
  have "list_all (\<lambda>e. et_following e \<and> et_message_id e \<in> tv_root_id ` set (m_threads ?b)) es"
    using es(1) ids b(2) by (auto simp: list_all_iff)
  from summaries_in_place [OF this] have roots: "map tv_root_id (m_threads ?m) = tv_root_id t # map tv_root_id ts"
    using b(2) by simp
  then obtain x xs where xs: "m_threads ?m = x # xs" "tv_root_id x = tv_root_id t" "map tv_root_id xs = map tv_root_id ts" by auto
  have k: "chat_inv sp ?m" "m_thread_gen ?m = ?g"
    and marked: "tv_root_id ` {x \<in> set (m_threads ?m). tv_gen x = ?g} = tv_root_id ` set ts"
    using threads.mentions_mark [OF b(1), of es] b(3) none ids by (simp_all add: track_all_held [OF es(1)])
  have keyed: "distinct (tv_root_id x # map tv_root_id xs)" using k(1) xs(1) by (simp add: chat_inv_def keyed_def)
  have set_ts: "tv_root_id ` set ts = tv_root_id ` set xs" using xs(3) by (metis set_map)
  have "tv_gen x \<noteq> ?g"
  proof
    assume "tv_gen x = ?g"
    then have "tv_root_id x \<in> tv_root_id ` {x \<in> set (m_threads ?m). tv_gen x = ?g}" using xs(1) by auto
    then show False using keyed by (simp add: marked set_ts)
  qed
  moreover have "tv_gen y = ?g" if "y \<in> set xs" for y
  proof -
    have "tv_root_id y \<in> tv_root_id ` set ts" using that xs(3) by (metis image_eqI set_map)
    then obtain z where z: "z \<in> set (x # xs)" "tv_gen z = ?g" "tv_root_id z = tv_root_id y" using marked xs(1) by force
    then have "z = y" using keyed that by (auto simp: distinct_map dest: inj_onD)
    then show ?thesis using z(2) by simp
  qed
  moreover have "xs \<noteq> []" using xs(3) m(3) by auto
  ultimately have "m_threads (ev_threads_end_arm ?m) = last xs # butlast xs"
    using sweep_down_fresh [of "\<lambda>t. tv_gen t \<noteq> ?g" xs x] k(2) xs(1)
    by (simp add: ev_threads_end_arm_def list_all_iff swap_remove_front del: sweep_down.simps)
  moreover have "tv_root_id (last xs) = tv_root_id (last ts)" using xs(3) m(3) \<open>xs \<noteq> []\<close> by (metis last_map)
  ultimately show ?thesis using xs(3) by (simp add: map_butlast)
qed

theorem thread_answer_moves_last_witness:
  "map tv_root_id (m_threads (ev_threads_end_arm (fold thread_apply [thread_summary 6, thread_summary 8, thread_summary 9]
     (oc_model_threads_begin (fold thread_apply [thread_summary 5, thread_summary 6, thread_summary 8, thread_summary 9] chat_init))))) =
   [9, 6, 8]"
proof -
  let ?m = "fold thread_apply [thread_summary 5, thread_summary 6, thread_summary 8, thread_summary 9] chat_init"
  let ?t = "\<lambda>root. \<lparr>tv_root_id = root, tv_channel_id = 1, tv_root_author = 2, tv_root_at = 3, tv_last_reply_at = 4,
     tv_reply_count = 1, tv_unread = 0, tv_following = True, tv_preview = None, tv_action = False, tv_gen = 0\<rparr>"
  have m: "m_threads ?m = ?t 5 # [?t 6, ?t 8, ?t 9]" "m_thread_gen ?m = 0"
    by (simp_all add: thread_apply_def thread_summary_def chat_init_def upsert_def Let_def)
  show ?thesis
    using thread_answer_moves_last [OF _ m(1), of True "[thread_summary 6, thread_summary 8, thread_summary 9]"]
      threads.mentions_mark [OF chat_init_inv [of True], of "[thread_summary 5, thread_summary 6, thread_summary 8, thread_summary 9]"] m
    by (simp add: thread_summary_def)
qed

end
