(* ===== verification/Slot_Tables.thy ===== *)
theory Slot_Tables
  imports Array_Lists
begin

text \<open>
  Fixed arrays of slots that are either free or hold an entry with a key, scanned from the start: the lookup of a key,
  what a write to one slot does to it, and the sweep that frees the expired entries. The rate limiter, the
  second-step tickets and the device codes of the daemon are such arrays.
\<close>

definition lookup :: "('x \<Rightarrow> bool) \<Rightarrow> ('x \<Rightarrow> 'k) \<Rightarrow> 'k \<Rightarrow> 'x list \<Rightarrow> 'x option" where
  "lookup used key k xs = find (\<lambda>x. used x \<and> key x = k) xs"

text \<open>The last slot with a property, for a scan that keeps what it found last.\<close>

fun last_index :: "('x \<Rightarrow> bool) \<Rightarrow> 'x list \<Rightarrow> nat option" where
  "last_index P [] = None"
| "last_index P (x # xs) =
     (case last_index P xs of Some i \<Rightarrow> Some (Suc i) | None \<Rightarrow> if P x then Some 0 else None)"

definition one_each :: "('x \<Rightarrow> bool) \<Rightarrow> ('x \<Rightarrow> 'k) \<Rightarrow> 'x list \<Rightarrow> bool" where
  "one_each used key xs \<longleftrightarrow>
     (\<forall>i < length xs. \<forall>j < length xs. used (xs ! i) \<and> used (xs ! j) \<and> key (xs ! i) = key (xs ! j) \<longrightarrow> i = j)"

definition sweep_slots :: "('x \<Rightarrow> bool) \<Rightarrow> 'x \<Rightarrow> 'x list \<Rightarrow> 'x list" where
  "sweep_slots gone blank xs = map (\<lambda>x. if gone x then blank else x) xs"

lemma one_eachD:
  "one_each used key xs \<Longrightarrow> i < length xs \<Longrightarrow> j < length xs \<Longrightarrow> used (xs ! i) \<Longrightarrow> used (xs ! j) \<Longrightarrow>
    key (xs ! i) = key (xs ! j) \<Longrightarrow> i = j"
  by (simp add: one_each_def)

lemma one_each_blank: "(\<And>x. x \<in> set xs \<Longrightarrow> \<not> used x) \<Longrightarrow> one_each used key xs"
  by (auto simp: one_each_def)

lemma lookup_None: "lookup used key k xs = None \<longleftrightarrow> (\<forall>x \<in> set xs. used x \<longrightarrow> key x \<noteq> k)"
  by (auto simp: lookup_def find_None_iff)

lemma lookup_SomeD: "lookup used key k xs = Some x \<Longrightarrow> x \<in> set xs \<and> used x \<and> key x = k"
  by (auto simp: lookup_def find_Some_iff)

lemma lookup_index:
  "lookup used key k xs = map_option ((!) xs) (first_index (\<lambda>x. used x \<and> key x = k) xs)"
  by (induction xs) (auto simp: lookup_def option.map_comp comp_def)

lemma lookup_nth:
  assumes "one_each used key xs" "i < length xs" "used (xs ! i)"
  shows "lookup used key (key (xs ! i)) xs = Some (xs ! i)"
proof (cases "lookup used key (key (xs ! i)) xs")
  case None
  then show ?thesis using assms by (auto simp: lookup_None)
next
  case (Some x)
  then obtain j where j: "j < length xs" "xs ! j = x" "used x" "key x = key (xs ! i)"
    using lookup_SomeD [OF Some] by (auto simp: in_set_conv_nth)
  have "j = i" by (rule one_eachD [OF assms(1) j(1) assms(2)]) (use j assms(3) in auto)
  with j Some show ?thesis by simp
qed

lemma last_index_Some: "last_index P xs = Some i \<Longrightarrow> i < length xs \<and> P (xs ! i)"
  by (induction xs arbitrary: i) (auto split: option.split_asm if_split_asm)

lemma last_index_None: "last_index P xs = None \<longleftrightarrow> (\<forall>x \<in> set xs. \<not> P x)"
  by (induction xs) (auto split: option.split)

lemma last_index_cases:
  assumes "one_each used key xs"
  obtains (missing) "last_index (\<lambda>x. used x \<and> key x = k) xs = None" "lookup used key k xs = None"
  | (hit) i where "last_index (\<lambda>x. used x \<and> key x = k) xs = Some i" "i < length xs" "used (xs ! i)" "key (xs ! i) = k"
      "lookup used key k xs = Some (xs ! i)"
proof (cases "last_index (\<lambda>x. used x \<and> key x = k) xs")
  case None
  then show ?thesis using missing by (auto simp: last_index_None lookup_None)
next
  case (Some i)
  then show ?thesis using hit last_index_Some [OF Some] lookup_nth [OF assms, of i] by auto
qed

lemma one_each_update:
  assumes "one_each used key xs" "used y \<Longrightarrow> \<forall>j < length xs. j \<noteq> i \<longrightarrow> used (xs ! j) \<longrightarrow> key (xs ! j) \<noteq> key y"
  shows "one_each used key (xs[i := y])"
  unfolding one_each_def
proof (intro allI impI, elim conjE)
  fix a b assume ab: "a < length (xs[i := y])" "b < length (xs[i := y])" "used (xs[i := y] ! a)" "used (xs[i := y] ! b)"
    "key (xs[i := y] ! a) = key (xs[i := y] ! b)"
  show "a = b"
    using ab assms(2) one_eachD [OF assms(1), of a b] by (cases "a = i"; cases "b = i") auto
qed

lemma lookup_update:
  assumes one: "one_each used key xs" "one_each used key (xs[i := y])" and i: "i < length xs"
  shows "lookup used key k (xs[i := y]) =
    (if used y \<and> key y = k then Some y
     else if used (xs ! i) \<and> key (xs ! i) = k then None else lookup used key k xs)"
proof -
  have upd: "lookup used key k (xs[i := y]) = None" if "\<not> (used y \<and> key y = k)"
    "\<forall>j < length xs. j \<noteq> i \<longrightarrow> used (xs ! j) \<longrightarrow> key (xs ! j) \<noteq> k"
    using that i by (auto simp: lookup_None in_set_conv_nth nth_list_update split: if_split_asm)
  show ?thesis
  proof (cases "used y \<and> key y = k")
    case True
    then show ?thesis using lookup_nth [OF one(2), of i] i by simp
  next
    case no: False
    show ?thesis
    proof (cases "used (xs ! i) \<and> key (xs ! i) = k")
      case True
      then have "\<forall>j < length xs. j \<noteq> i \<longrightarrow> used (xs ! j) \<longrightarrow> key (xs ! j) \<noteq> k"
        using one_eachD [OF one(1) i] by metis
      then show ?thesis using upd [OF no] no True by auto
    next
      case False
      show ?thesis
      proof (cases "lookup used key k xs")
        case None
        then have "\<forall>j < length xs. used (xs ! j) \<longrightarrow> key (xs ! j) \<noteq> k" by (simp add: lookup_None)
        then have "lookup used key k (xs[i := y]) = None" using upd [OF no] by simp
        then show ?thesis using no False None by simp
      next
        case (Some x)
        then obtain j where j: "j < length xs" "xs ! j = x" "used x" "key x = k"
          using lookup_SomeD [OF Some] by (auto simp: in_set_conv_nth)
        then have "j \<noteq> i" using False by auto
        then show ?thesis using lookup_nth [OF one(2), of j] j no False Some by auto
      qed
    qed
  qed
qed

text \<open>Freeing and sweeping.\<close>

lemma one_each_free: "one_each used key xs \<Longrightarrow> \<not> used blank \<Longrightarrow> one_each used key (xs[i := blank])"
  by (rule one_each_update) simp_all

lemma length_sweep [simp]: "length (sweep_slots gone blank xs) = length xs"
  by (simp add: sweep_slots_def)

lemma one_each_sweep: "one_each used key xs \<Longrightarrow> \<not> used blank \<Longrightarrow> one_each used key (sweep_slots gone blank xs)"
  by (auto simp: one_each_def sweep_slots_def)

lemma set_sweep: "set (sweep_slots gone blank xs) \<subseteq> insert blank {x \<in> set xs. \<not> gone x}"
  by (auto simp: sweep_slots_def)

lemma lookup_sweep:
  assumes "one_each used key xs" "\<not> used blank"
  shows "lookup used key k (sweep_slots gone blank xs) =
    (case lookup used key k xs of None \<Rightarrow> None | Some x \<Rightarrow> if gone x then None else Some x)"
proof (cases "lookup used key k xs")
  case None
  then have "lookup used key k (sweep_slots gone blank xs) = None"
    using assms(2) by (auto simp: lookup_None sweep_slots_def)
  then show ?thesis using None by simp
next
  case (Some x)
  then obtain i where i: "i < length xs" "xs ! i = x" "used x" "key x = k"
    using lookup_SomeD [OF Some] by (auto simp: in_set_conv_nth)
  show ?thesis
  proof (cases "gone x")
    case True
    have "\<not> (used y \<and> key y = k)" if "y \<in> set (sweep_slots gone blank xs)" for y
      using that assms(2) i True one_eachD [OF assms(1) _ i(1)] by (auto simp: sweep_slots_def in_set_conv_nth)
    then have "lookup used key k (sweep_slots gone blank xs) = None" by (auto simp: lookup_None)
    then show ?thesis using Some True by simp
  next
    case False
    then have "sweep_slots gone blank xs ! i = x" using i by (simp add: sweep_slots_def)
    then show ?thesis
      using lookup_nth [OF one_each_sweep [OF assms(1,2)], of i gone] i False Some by simp
  qed
qed

text \<open>How many entries a source holds.\<close>

definition held :: "('x \<Rightarrow> bool) \<Rightarrow> ('x \<Rightarrow> 's) \<Rightarrow> 's \<Rightarrow> 'x list \<Rightarrow> nat" where
  "held used source s xs = length (filter (\<lambda>x. used x \<and> source x = s) xs)"

lemma held_sweep: "\<not> used blank \<Longrightarrow> held used source s (sweep_slots gone blank xs) \<le> held used source s xs"
  by (induction xs) (auto simp: held_def sweep_slots_def)

lemma held_split: "i < length xs \<Longrightarrow> held used source s xs =
    held used source s (take i xs) + of_bool (used (xs ! i) \<and> source (xs ! i) = s) + held used source s (drop (Suc i) xs)"
  unfolding held_def by (subst id_take_nth_drop [of i xs]) auto

lemma held_slot:
  "i < length xs \<Longrightarrow> held used source s (xs[i := y]) + of_bool (used (xs ! i) \<and> source (xs ! i) = s) =
    held used source s xs + of_bool (used y \<and> source y = s)"
  using held_split [of i xs used source s] by (simp add: upd_conv_take_nth_drop held_def)

end
