(* ===== verification/Rate_Limit.thy ===== *)
theory Rate_Limit
  imports Slot_Tables Ctext
begin

text \<open>
  The fixed-window rate limiter of \<^verbatim>\<open>daemon/ratelimit.c\<close>: a table of slots, one per key, that counts events per window
  and gives the slot of the least recently touched key to a new key when it is full. Times are milliseconds in a
  \<^verbatim>\<open>uint64_t\<close>, counts a \<^verbatim>\<open>uint32_t\<close>. It is proved to refine a map from keys to windows, and a limited operation is proved to
  pass at most twice the limit in any span of one window.
\<close>

section \<open>The limiter\<close>

abbreviation OC_RL_KEYMAX :: nat where "OC_RL_KEYMAX \<equiv> 128"

record rl_slot =
  sl_key :: string
  sl_window_start :: u64
  sl_last_ms :: u64
  sl_count :: u32
  sl_used :: bool

record oc_ratelimit =
  rl_max_events :: u32
  rl_window_ms :: u64
  rl_slots :: "rl_slot list"

definition oc_ratelimit_new :: "u32 \<Rightarrow> u64 \<Rightarrow> nat \<Rightarrow> oc_ratelimit option" where
  "oc_ratelimit_new max_events window_ms capacity =
     (if capacity = 0 then None
      else Some \<lparr>rl_max_events = max_events, rl_window_ms = window_ms,
        rl_slots = replicate capacity \<lparr>sl_key = '''', sl_window_start = 0, sl_last_ms = 0, sl_count = 0, sl_used = False\<rparr>\<rparr>)"

definition key_copy :: "string \<Rightarrow> string" where
  "key_copy key = (let n = length key; n = (if n \<ge> OC_RL_KEYMAX then OC_RL_KEYMAX - 1 else n) in take n key)"

text \<open>\<^verbatim>\<open>find\<close>: the slot of a key, with its window rolled when that has passed.\<close>

definition rl_find :: "string \<Rightarrow> u64 \<Rightarrow> oc_ratelimit \<Rightarrow> nat option \<times> oc_ratelimit" where
  "rl_find key now_ms rl =
     (case first_index (\<lambda>s. sl_used s \<and> sl_key s = key_copy key) (rl_slots rl) of
        None \<Rightarrow> (None, rl)
      | Some i \<Rightarrow>
          let s = rl_slots rl ! i
          in (Some i,
              if now_ms - sl_window_start s \<ge> rl_window_ms rl
              then rl\<lparr>rl_slots := (rl_slots rl)[i := s\<lparr>sl_window_start := now_ms, sl_count := 0\<rparr>]\<rparr>
              else rl))"

text \<open>The scan for a victim: the first free slot, or the first of those touched longest ago.\<close>

fun rl_victim :: "rl_slot list \<Rightarrow> nat \<Rightarrow> (nat \<times> u64) option \<Rightarrow> nat option" where
  "rl_victim [] i v = map_option fst v"
| "rl_victim (c # cs) i v =
     (if \<not> sl_used c then Some i
      else rl_victim cs (Suc i)
        (case v of None \<Rightarrow> Some (i, sl_last_ms c)
         | Some (j, t) \<Rightarrow> if sl_last_ms c < t then Some (i, sl_last_ms c) else v))"

definition find_or_alloc :: "string \<Rightarrow> u64 \<Rightarrow> oc_ratelimit \<Rightarrow> nat option \<times> oc_ratelimit" where
  "find_or_alloc key now_ms rl =
     (case rl_find key now_ms rl of
        (Some i, rl) \<Rightarrow> (Some i, rl)
      | (None, rl) \<Rightarrow>
          (case rl_victim (rl_slots rl) 0 None of
             None \<Rightarrow> (None, rl)
           | Some i \<Rightarrow> (Some i, rl\<lparr>rl_slots := (rl_slots rl)[i := \<lparr>sl_key = key_copy key, sl_window_start = now_ms,
               sl_last_ms = now_ms, sl_count = 0, sl_used = True\<rparr>]\<rparr>)))"

definition oc_ratelimit_blocked :: "string \<Rightarrow> u64 \<Rightarrow> oc_ratelimit \<Rightarrow> bool \<times> oc_ratelimit" where
  "oc_ratelimit_blocked key now_ms rl =
     (case rl_find key now_ms rl of
        (None, rl) \<Rightarrow> (False, rl)
      | (Some i, rl) \<Rightarrow>
          (sl_count (rl_slots rl ! i) \<ge> rl_max_events rl,
           rl\<lparr>rl_slots := (rl_slots rl)[i := (rl_slots rl ! i)\<lparr>sl_last_ms := now_ms\<rparr>]\<rparr>))"

definition oc_ratelimit_record :: "string \<Rightarrow> u64 \<Rightarrow> oc_ratelimit \<Rightarrow> oc_ratelimit" where
  "oc_ratelimit_record key now_ms rl =
     (case find_or_alloc key now_ms rl of
        (None, rl) \<Rightarrow> rl
      | (Some i, rl) \<Rightarrow>
          let s = rl_slots rl ! i
          in rl\<lparr>rl_slots := (rl_slots rl)[i := s\<lparr>sl_count := (if sl_count s < 0xFFFFFFFF then sl_count s + 1 else sl_count s),
               sl_last_ms := now_ms\<rparr>]\<rparr>)"

definition oc_ratelimit_reset :: "string \<Rightarrow> oc_ratelimit \<Rightarrow> oc_ratelimit" where
  "oc_ratelimit_reset key rl =
     (case first_index (\<lambda>s. sl_used s \<and> sl_key s = key_copy key) (rl_slots rl) of
        None \<Rightarrow> rl
      | Some i \<Rightarrow> rl\<lparr>rl_slots := (rl_slots rl)[i := (rl_slots rl ! i)\<lparr>sl_used := False\<rparr>]\<rparr>)"

section \<open>Windows\<close>

text \<open>
  The abstract limiter: a window and a count for each key that has one. \<open>roll\<close> starts a new window when the old one
  has passed; \<open>record_spec\<close> counts one event.
\<close>

definition roll :: "u64 \<Rightarrow> u64 \<Rightarrow> (u64 \<times> u32) option \<Rightarrow> (u64 \<times> u32) option" where
  "roll win now w = map_option (\<lambda>(start, n). if now - start \<ge> win then (now, 0) else (start, n)) w"

definition blocked_spec :: "u32 \<Rightarrow> (u64 \<times> u32) option \<Rightarrow> bool" where
  "blocked_spec mx w = (case w of None \<Rightarrow> False | Some (start, n) \<Rightarrow> n \<ge> mx)"

definition record_spec :: "u64 \<Rightarrow> (u64 \<times> u32) option \<Rightarrow> (u64 \<times> u32) option" where
  "record_spec now w =
     (case w of None \<Rightarrow> Some (now, 1) | Some (start, n) \<Rightarrow> Some (start, if n < 0xFFFFFFFF then n + 1 else n))"

definition rl_abs :: "oc_ratelimit \<Rightarrow> string \<Rightarrow> (u64 \<times> u32) option" where
  "rl_abs rl k = map_option (\<lambda>s. (sl_window_start s, sl_count s)) (lookup sl_used sl_key k (rl_slots rl))"

definition rl_inv :: "oc_ratelimit \<Rightarrow> bool" where
  "rl_inv rl \<longleftrightarrow> rl_slots rl \<noteq> [] \<and> one_each sl_used sl_key (rl_slots rl)"

lemma rl_new_ok: "oc_ratelimit_new mx win cap = Some rl \<Longrightarrow> rl_inv rl \<and> rl_abs rl = Map.empty"
  by (auto simp: oc_ratelimit_new_def rl_inv_def rl_abs_def lookup_None intro!: one_each_blank split: if_splits)

text \<open>A write to the slot of a key, or to a slot that no key holds.\<close>

lemma rl_write:
  assumes inv: "rl_inv rl" and i: "i < length (rl_slots rl)" and s: "sl_used s"
    and k: "sl_used (rl_slots rl ! i) \<Longrightarrow> sl_key (rl_slots rl ! i) = sl_key s \<or> lookup sl_used sl_key (sl_key s) (rl_slots rl) = None"
    "\<not> sl_used (rl_slots rl ! i) \<Longrightarrow> lookup sl_used sl_key (sl_key s) (rl_slots rl) = None"
  shows "rl_inv (rl\<lparr>rl_slots := (rl_slots rl)[i := s]\<rparr>)"
    "rl_abs (rl\<lparr>rl_slots := (rl_slots rl)[i := s]\<rparr>) =
      (if sl_used (rl_slots rl ! i) then (rl_abs rl)(sl_key (rl_slots rl ! i) := None) else rl_abs rl)
        (sl_key s \<mapsto> (sl_window_start s, sl_count s))"
proof -
  let ?xs = "rl_slots rl"
  have one: "one_each sl_used sl_key ?xs" and ne: "?xs \<noteq> []" using inv by (simp_all add: rl_inv_def)
  have "sl_key (?xs ! j) \<noteq> sl_key s" if "j < length ?xs" "j \<noteq> i" "sl_used (?xs ! j)" for j
  proof (cases "lookup sl_used sl_key (sl_key s) ?xs")
    case None
    then show ?thesis using that by (auto simp: lookup_None)
  next
    case Some
    then have "sl_used (?xs ! i)" "sl_key (?xs ! i) = sl_key s" using k by auto
    then show ?thesis using one_eachD [OF one i that(1)] that by auto
  qed
  then have upd: "one_each sl_used sl_key (?xs[i := s])" using one by (intro one_each_update) auto
  then show "rl_inv (rl\<lparr>rl_slots := ?xs[i := s]\<rparr>)" using ne by (simp add: rl_inv_def)
  show "rl_abs (rl\<lparr>rl_slots := ?xs[i := s]\<rparr>) =
      (if sl_used (?xs ! i) then (rl_abs rl)(sl_key (?xs ! i) := None) else rl_abs rl)
        (sl_key s \<mapsto> (sl_window_start s, sl_count s))"
    using s by (auto simp: rl_abs_def fun_eq_iff lookup_update [OF one upd i])
qed

section \<open>Each operation on the windows\<close>

text \<open>What \<^verbatim>\<open>find\<close> leaves: the window rolled, and the slot of the key when there is one.\<close>

lemma rl_find_Some:
  assumes inv: "rl_inv rl" and find: "rl_find key now rl = (Some i, rl')"
  shows "i < length (rl_slots rl')" "sl_used (rl_slots rl' ! i)" "sl_key (rl_slots rl' ! i) = key_copy key"
    "rl_inv rl'" "rl_abs rl' = (rl_abs rl)(key_copy key := roll (rl_window_ms rl) now (rl_abs rl (key_copy key)))"
    "rl_abs rl (key_copy key) \<noteq> None" "length (rl_slots rl') = length (rl_slots rl)"
    "rl_max_events rl' = rl_max_events rl" "rl_window_ms rl' = rl_window_ms rl"
proof -
  let ?k = "key_copy key"
  have fi: "first_index (\<lambda>s. sl_used s \<and> sl_key s = ?k) (rl_slots rl) = Some i"
    using find by (auto simp: rl_find_def Let_def split: option.splits)
  then have i: "i < length (rl_slots rl)" "sl_used (rl_slots rl ! i)" "sl_key (rl_slots rl ! i) = ?k"
    using first_index_Some by fastforce+
  have abs: "rl_abs rl ?k = Some (sl_window_start (rl_slots rl ! i), sl_count (rl_slots rl ! i))"
    by (simp add: rl_abs_def lookup_index fi)
  then show "rl_abs rl ?k \<noteq> None" by simp
  have rl': "rl' = (if now - sl_window_start (rl_slots rl ! i) \<ge> rl_window_ms rl
      then rl\<lparr>rl_slots := (rl_slots rl)[i := (rl_slots rl ! i)\<lparr>sl_window_start := now, sl_count := 0\<rparr>]\<rparr> else rl)"
    using find fi by (simp add: rl_find_def Let_def)
  show "i < length (rl_slots rl')" "sl_used (rl_slots rl' ! i)" "sl_key (rl_slots rl' ! i) = ?k"
    "length (rl_slots rl') = length (rl_slots rl)" "rl_max_events rl' = rl_max_events rl" "rl_window_ms rl' = rl_window_ms rl"
    using i by (auto simp: rl')
  note w = rl_write [OF inv i(1), of "(rl_slots rl ! i)\<lparr>sl_window_start := now, sl_count := 0\<rparr>"]
  show "rl_inv rl'" using w(1) inv i by (auto simp: rl')
  show "rl_abs rl' = (rl_abs rl)(?k := roll (rl_window_ms rl) now (rl_abs rl ?k))"
    using w(2) i abs by (auto simp: rl' roll_def)
qed

lemma rl_find_None:
  "rl_find key now rl = (None, rl') \<Longrightarrow> rl' = rl \<and> rl_abs rl (key_copy key) = None"
  by (auto simp: rl_find_def rl_abs_def lookup_index Let_def split: option.splits)

lemma blocked_abs:
  assumes inv: "rl_inv rl" and res: "oc_ratelimit_blocked key now rl = (b, rl')"
  shows "b = blocked_spec (rl_max_events rl) (roll (rl_window_ms rl) now (rl_abs rl (key_copy key))) \<and>
    rl_abs rl' = (rl_abs rl)(key_copy key := roll (rl_window_ms rl) now (rl_abs rl (key_copy key))) \<and> rl_inv rl' \<and>
    length (rl_slots rl') = length (rl_slots rl) \<and> rl_max_events rl' = rl_max_events rl \<and> rl_window_ms rl' = rl_window_ms rl"
proof (cases "fst (rl_find key now rl)")
  case None
  then have "rl_find key now rl = (None, rl)" and "rl_abs rl (key_copy key) = None"
    using rl_find_None [of key now rl] by (cases "rl_find key now rl"; simp)+
  then show ?thesis
    using res inv by (simp add: oc_ratelimit_blocked_def blocked_spec_def roll_def fun_upd_idem)
next
  case (Some i)
  then obtain rm where find: "rl_find key now rl = (Some i, rm)" by (cases "rl_find key now rl") simp
  note f = rl_find_Some [OF inv find]
  let ?s = "rl_slots rm ! i"
  have w: "rl_inv (rm\<lparr>rl_slots := (rl_slots rm)[i := ?s\<lparr>sl_last_ms := now\<rparr>]\<rparr>)"
    "rl_abs (rm\<lparr>rl_slots := (rl_slots rm)[i := ?s\<lparr>sl_last_ms := now\<rparr>]\<rparr>) = (rl_abs rm)(key_copy key \<mapsto> (sl_window_start ?s, sl_count ?s))"
    using rl_write [OF f(4,1), of "?s\<lparr>sl_last_ms := now\<rparr>"] f(2,3) by simp_all
  have here: "rl_abs rm (key_copy key) = Some (sl_window_start ?s, sl_count ?s)"
    using lookup_nth [of sl_used sl_key "rl_slots rm" i] f(1-4) by (simp add: rl_abs_def rl_inv_def)
  then have "roll (rl_window_ms rl) now (rl_abs rl (key_copy key)) = Some (sl_window_start ?s, sl_count ?s)"
    using f(5) by simp
  then show ?thesis
    using res find f w here by (auto simp: oc_ratelimit_blocked_def blocked_spec_def)
qed

text \<open>The victim is a free slot when there is one.\<close>

lemma rl_victim_free:
  "list_ex (\<lambda>s. \<not> sl_used s) cs \<Longrightarrow> \<exists>i < length cs. rl_victim cs k v = Some (k + i) \<and> \<not> sl_used (cs ! i)"
proof (induction cs arbitrary: k v)
  case (Cons c cs)
  show ?case
  proof (cases "sl_used c")
    case True
    then have "list_ex (\<lambda>s. \<not> sl_used s) cs" using Cons.prems by simp
    from Cons.IH [OF this, of "Suc k" "case v of None \<Rightarrow> Some (k, sl_last_ms c)
         | Some (j, t) \<Rightarrow> if sl_last_ms c < t then Some (k, sl_last_ms c) else v"]
    obtain i where "i < length cs" "\<not> sl_used (cs ! i)" "rl_victim (c # cs) k v = Some (Suc k + i)"
      using True by auto
    then show ?thesis by (intro exI [of _ "Suc i"]) simp
  qed auto
qed simp

text \<open>With a slot for the key, or a free one, an event is counted in the window of its key and nothing else changes.\<close>

definition has_room :: "string \<Rightarrow> oc_ratelimit \<Rightarrow> bool" where
  "has_room k rl \<longleftrightarrow> rl_abs rl k \<noteq> None \<or> list_ex (\<lambda>s. \<not> sl_used s) (rl_slots rl)"

lemma record_abs:
  assumes inv: "rl_inv rl" and room: "has_room (key_copy key) rl"
    and rl'_def: "rl' = oc_ratelimit_record key now rl"
  shows "rl_abs rl' = (rl_abs rl)(key_copy key := record_spec now (roll (rl_window_ms rl) now (rl_abs rl (key_copy key)))) \<and>
    rl_inv rl' \<and> length (rl_slots rl') = length (rl_slots rl) \<and> rl_max_events rl' = rl_max_events rl \<and>
    rl_window_ms rl' = rl_window_ms rl"
proof (cases "fst (rl_find key now rl)")
  case None
  then have find: "rl_find key now rl = (None, rl)" and abs: "rl_abs rl (key_copy key) = None"
    using rl_find_None [of key now rl] by (cases "rl_find key now rl"; simp)+
  then have "list_ex (\<lambda>s. \<not> sl_used s) (rl_slots rl)" using room by (simp add: has_room_def)
  then obtain i where i: "i < length (rl_slots rl)" "rl_victim (rl_slots rl) 0 None = Some i" "\<not> sl_used (rl_slots rl ! i)"
    using rl_victim_free [of "rl_slots rl" 0 None] by auto
  let ?s = "\<lparr>sl_key = key_copy key, sl_window_start = now, sl_last_ms = now, sl_count = 1, sl_used = True\<rparr>"
  have "rl' = rl\<lparr>rl_slots := (rl_slots rl)[i := ?s]\<rparr>"
    using find i by (simp add: rl'_def oc_ratelimit_record_def find_or_alloc_def Let_def)
  moreover have "lookup sl_used sl_key (key_copy key) (rl_slots rl) = None" using abs by (simp add: rl_abs_def)
  ultimately show ?thesis using rl_write [OF inv i(1), of ?s] i(3) abs by (simp add: record_spec_def roll_def)
next
  case (Some i)
  then obtain rm where find: "rl_find key now rl = (Some i, rm)" by (cases "rl_find key now rl") simp
  note f = rl_find_Some [OF inv find]
  let ?s = "rl_slots rm ! i"
  let ?t = "?s\<lparr>sl_count := (if sl_count ?s < 0xFFFFFFFF then sl_count ?s + 1 else sl_count ?s), sl_last_ms := now\<rparr>"
  have "rl' = rm\<lparr>rl_slots := (rl_slots rm)[i := ?t]\<rparr>"
    using find by (simp add: rl'_def oc_ratelimit_record_def find_or_alloc_def Let_def)
  moreover have "rl_abs rm (key_copy key) = Some (sl_window_start ?s, sl_count ?s)"
    using lookup_nth [of sl_used sl_key "rl_slots rm" i] f(1-4) by (simp add: rl_abs_def rl_inv_def)
  then have "roll (rl_window_ms rl) now (rl_abs rl (key_copy key)) = Some (sl_window_start ?s, sl_count ?s)"
    using f(5) by simp
  ultimately show ?thesis using rl_write [OF f(4,1), of ?t] f by (simp add: record_spec_def)
qed

lemma reset_abs:
  assumes inv: "rl_inv rl"
    and rl'_def: "rl' = oc_ratelimit_reset key rl"
  shows "rl_abs rl' = (rl_abs rl)(key_copy key := None) \<and>
    rl_inv rl' \<and> length (rl_slots rl') = length (rl_slots rl) \<and> rl_max_events rl' = rl_max_events rl \<and>
    rl_window_ms rl' = rl_window_ms rl"
proof (cases "first_index (\<lambda>s. sl_used s \<and> sl_key s = key_copy key) (rl_slots rl)")
  case None
  then have "rl_abs rl (key_copy key) = None" by (simp add: rl_abs_def lookup_index)
  then show ?thesis using None inv by (simp add: rl'_def oc_ratelimit_reset_def fun_upd_idem)
next
  case (Some i)
  let ?xs = "rl_slots rl" and ?s = "(rl_slots rl ! i)\<lparr>sl_used := False\<rparr>"
  have i: "i < length ?xs" "sl_used (?xs ! i)" "sl_key (?xs ! i) = key_copy key" using first_index_Some [OF Some] by auto
  have one: "one_each sl_used sl_key ?xs" "one_each sl_used sl_key (?xs[i := ?s])"
    using inv by (auto simp: rl_inv_def intro: one_each_update)
  have "rl_abs (rl\<lparr>rl_slots := ?xs[i := ?s]\<rparr>) = (rl_abs rl)(key_copy key := None)"
    using i by (auto simp: rl_abs_def fun_eq_iff lookup_update [OF one i(1)])
  then show ?thesis using Some inv one by (simp add: rl'_def oc_ratelimit_reset_def rl_inv_def)
qed



section \<open>The gate\<close>

text \<open>
  How the daemon uses a limiter on what it admits: refuse when blocked, else count and admit. The contract is that
  of the abstract limiter on a set of keys \<open>K\<close>.
\<close>

definition gate :: "('key \<Rightarrow> u64 \<Rightarrow> 's \<Rightarrow> bool \<times> 's) \<Rightarrow> ('key \<Rightarrow> u64 \<Rightarrow> 's \<Rightarrow> 's) \<Rightarrow> 'key \<Rightarrow> u64 \<Rightarrow> 's \<Rightarrow> bool \<times> 's" where
  "gate blocked tally key now s =
     (let (b, s) = blocked key now s in if b then (False, s) else (True, tally key now s))"

fun gate_run :: "('key \<Rightarrow> u64 \<Rightarrow> 's \<Rightarrow> bool \<times> 's) \<Rightarrow> ('key \<times> u64) list \<Rightarrow> 's \<Rightarrow> bool list \<times> 's" where
  "gate_run g [] s = ([], s)"
| "gate_run g ((key, now) # es) s =
     (let (a, s) = g key now s; (as, s) = gate_run g es s in (a # as, s))"

definition admit_spec :: "u32 \<Rightarrow> u64 \<Rightarrow> u64 \<Rightarrow> (u64 \<times> u32) option \<Rightarrow> bool \<times> (u64 \<times> u32) option" where
  "admit_spec mx win now w =
     (let w = roll win now w in if blocked_spec mx w then (False, w) else (True, record_spec now w))"

lemma roll_roll [simp]: "roll win now (roll win now w) = roll win now w"
  by (cases w) (auto simp: roll_def)

text \<open>The events a window still admits while only times from \<open>a\<close> to \<open>a + win\<close> are seen.\<close>

definition budget :: "u32 \<Rightarrow> u64 \<Rightarrow> (u64 \<times> u32) option \<Rightarrow> nat" where
  "budget mx a w =
     (case w of None \<Rightarrow> unat mx
      | Some (start, n) \<Rightarrow> unat mx - unat n + (if start < a then unat mx else 0))"

lemma budget_le: "budget mx a w \<le> 2 * unat mx"
  by (auto simp: budget_def split: option.split)

lemma unat_Suc_count:
  assumes "n < mx"
  shows "n < 0xFFFFFFFF" "unat (n + 1) = Suc (unat (n :: u32))" "unat n < unat mx"
proof -
  show lt: "unat n < unat mx" using assms by (simp add: word_less_nat_alt)
  have "unat mx < 4294967296" using unsigned_less [of mx, where ?'a = nat] by simp
  with lt have "unat n < 4294967295" by linarith
  then show "n < 0xFFFFFFFF" "unat (n + 1) = Suc (unat n)"
    by (simp_all add: word_less_nat_alt unat_word_ariths)
qed

lemma no_roll:
  assumes "a \<le> s" "s \<le> now" "unat now < unat a + unat win"
  shows "\<not> now - s \<ge> (win :: u64)"
proof -
  have "unat (now - s) = unat now - unat s" using assms(2) by (simp add: unat_sub)
  then show ?thesis using assms by (simp add: word_le_nat_alt)
qed

lemma admit_start:
  assumes "\<forall>s n. w = Some (s, n) \<longrightarrow> s \<le> now" "admit_spec mx win now w = (ok, w')"
  shows "\<forall>s n. w' = Some (s, n) \<longrightarrow> s \<le> now"
  using assms by (cases w) (auto simp: admit_spec_def roll_def record_spec_def blocked_spec_def Let_def split: if_splits)

lemma admit_budget:
  assumes mx: "0 < mx" and now: "a \<le> now" "unat now < unat a + unat win" and start: "\<forall>s n. w = Some (s, n) \<longrightarrow> s \<le> now"
    and adm: "admit_spec mx win now w = (ok, w')"
  shows "of_bool ok + budget mx a w' \<le> budget mx a w"
proof (cases w)
  case None
  then have "w' = Some (now, 1)" "ok" using adm by (auto simp: admit_spec_def roll_def blocked_spec_def record_spec_def)
  then show ?thesis using None now(1) mx by (auto simp: budget_def unat_gt_0 Suc_le_eq)
next
  case (Some p)
  obtain s n where w: "w = Some (s, n)" using Some by (cases p) simp
  obtain s' n' where r: "roll win now w = Some (s', n')" "(s', n') = (if now - s \<ge> win then (now, 0) else (s, n))"
    using w by (cases "now - s \<ge> win") (auto simp: roll_def)
  have s0: "s \<le> now" using start w by simp
  have "budget mx a (Some (s', n')) \<le> budget mx a w"
  proof (cases "now - s \<ge> win")
    case True
    then have "s < a" using no_roll [OF _ s0 now(2)] by (meson linorder_not_le)
    then show ?thesis using r(2) True now(1) w by (auto simp: budget_def)
  qed (use r(2) w in simp)
  moreover have "of_bool ok + budget mx a w' \<le> budget mx a (Some (s', n'))"
  proof (cases "n' \<ge> mx")
    case True
    then show ?thesis using adm r by (auto simp: admit_spec_def blocked_spec_def)
  next
    case False
    then have n: "n' < 0xFFFFFFFF" "unat (n' + 1) = Suc (unat n')" "unat n' < unat mx"
      using unat_Suc_count [of n' mx] by (simp_all add: not_le)
    have "w' = Some (s', n' + 1)" "ok"
      using adm False n(1) unfolding admit_spec_def r(1) by (simp_all add: blocked_spec_def record_spec_def not_le)
    then show ?thesis using n by (simp add: budget_def)
  qed
  ultimately show ?thesis by linarith
qed

text \<open>The contract: on the keys of \<open>K\<close>, blocking and recording are what the windows say.\<close>

locale window_limiter =
  fixes blocked :: "'key \<Rightarrow> u64 \<Rightarrow> 's \<Rightarrow> bool \<times> 's" and tally :: "'key \<Rightarrow> u64 \<Rightarrow> 's \<Rightarrow> 's"
    and abs :: "'s \<Rightarrow> 'k \<Rightarrow> (u64 \<times> u32) option" and canon :: "'key \<Rightarrow> 'k" and inv :: "'s \<Rightarrow> bool"
    and K :: "'k set" and mx :: u32 and win :: u64
  assumes blocked_law: "inv s \<Longrightarrow> canon key \<in> K \<Longrightarrow> blocked key now s = (b, s') \<Longrightarrow>
      b = blocked_spec mx (roll win now (abs s (canon key))) \<and>
      abs s' = (abs s)(canon key := roll win now (abs s (canon key))) \<and> inv s'"
    and record_law: "inv s \<Longrightarrow> canon key \<in> K \<Longrightarrow>
      abs (tally key now s) = (abs s)(canon key := record_spec now (roll win now (abs s (canon key)))) \<and> inv (tally key now s)"
begin

lemma gate_law:
  assumes "inv s" "canon key \<in> K" "gate blocked tally key now s = (ok, s')"
  shows "inv s' \<and> (\<exists>w. admit_spec mx win now (abs s (canon key)) = (ok, w) \<and> abs s' = (abs s)(canon key := w))"
proof -
  obtain b t where b: "blocked key now s = (b, t)" by fastforce
  note bl = blocked_law [OF assms(1,2) b]
  show ?thesis
  proof (cases b)
    case True
    then show ?thesis using bl b assms(3) by (simp add: gate_def admit_spec_def)
  next
    case False
    then show ?thesis using bl b assms(2,3) record_law [of t key now] by (auto simp: gate_def admit_spec_def)
  qed
qed

text \<open>How many of the admitted events are of one key.\<close>

lemma gate_run_budget:
  assumes "0 < mx" "inv s" "\<forall>(key, now) \<in> set es. canon key \<in> K \<and> a \<le> now \<and> unat now < unat a + unat win"
    "sorted (map snd es)" "\<forall>k st n. abs s k = Some (st, n) \<longrightarrow> list_all (\<lambda>(key, now). st \<le> now) es"
    "gate_run (gate blocked tally) es s = (as, s')"
  shows "length (filter (\<lambda>((key, now), ok). canon key = k \<and> ok) (zip es as)) \<le> budget mx a (abs s k)"
  using assms(2-)
proof (induction es arbitrary: s as)
  case (Cons e es)
  obtain key now where e: "e = (key, now)" by fastforce
  obtain ok t where t: "gate blocked tally key now s = (ok, t)" by fastforce
  obtain bs where bs: "gate_run (gate blocked tally) es t = (bs, s')" "as = ok # bs"
    using Cons.prems(5) e t by (auto simp: case_prod_beta prod_eq_iff)
  have key: "canon key \<in> K" and now: "a \<le> now" "unat now < unat a + unat win" using Cons.prems(2) e by auto
  obtain w where w: "admit_spec mx win now (abs s (canon key)) = (ok, w)" "abs t = (abs s)(canon key := w)" and inv: "inv t"
    using gate_law [OF Cons.prems(1) key t] by auto
  have "\<forall>st n. abs s (canon key) = Some (st, n) \<longrightarrow> st \<le> now" using Cons.prems(4) e by fastforce
  note step = admit_budget [OF assms(1) now this w(1)] admit_start [OF this w(1)]
  have later: "list_all (\<lambda>(key, t). now \<le> t) es" using Cons.prems(3) e by (auto simp: list_all_iff)
  have starts: "list_all (\<lambda>(key, now). st \<le> now) es" if abs: "abs t k' = Some (st, n)" for k' st n
  proof (cases "k' = canon key")
    case True
    then have "st \<le> now" using step(2) abs w(2) by simp
    then show ?thesis using later by (auto simp: list_all_iff intro: order_trans)
  next
    case False
    then show ?thesis using Cons.prems(4) abs w(2) by (auto simp: e)
  qed
  have "length (filter (\<lambda>((key, now), ok). canon key = k \<and> ok) (zip es bs)) \<le> budget mx a (abs t k)"
    by (rule Cons.IH [OF inv _ _ _ bs(1)]) (use Cons.prems starts in auto)
  then show ?case using step(1) w(2) bs(2) e by (cases "canon key = k"; cases ok) auto
qed simp

lemma gate_run_keeps:
  assumes "inv s" "\<forall>(key, now) \<in> set es. canon key \<in> K" "sorted (map snd (es @ ds))"
    "\<forall>k st n. abs s k = Some (st, n) \<longrightarrow> list_all (\<lambda>(key, now). st \<le> now) (es @ ds)"
    "gate_run (gate blocked tally) es s = (as, s')"
  shows "inv s' \<and> length as = length es \<and>
    (\<forall>k st n. abs s' k = Some (st, n) \<longrightarrow> list_all (\<lambda>(key, now). st \<le> now) ds)"
  using assms
proof (induction es arbitrary: s as)
  case (Cons e es)
  obtain key now where e: "e = (key, now)" by fastforce
  obtain ok t where t: "gate blocked tally key now s = (ok, t)" by fastforce
  obtain bs where bs: "gate_run (gate blocked tally) es t = (bs, s')" "as = ok # bs"
    using Cons.prems(5) e t by (auto simp: case_prod_beta prod_eq_iff)
  have key: "canon key \<in> K" using Cons.prems(2) e by auto
  obtain w where w: "admit_spec mx win now (abs s (canon key)) = (ok, w)" "abs t = (abs s)(canon key := w)" and inv: "inv t"
    using gate_law [OF Cons.prems(1) key t] by auto
  have "\<forall>st n. abs s (canon key) = Some (st, n) \<longrightarrow> st \<le> now" using Cons.prems(4) e by fastforce
  note step = admit_start [OF this w(1)]
  have later: "list_all (\<lambda>(key, t). now \<le> t) (es @ ds)"
    using Cons.prems(3) e by (simp add: list_all_iff case_prod_beta ball_Un)
  have starts: "list_all (\<lambda>(key, now). st \<le> now) (es @ ds)" if abs: "abs t k' = Some (st, n)" for k' st n
  proof (cases "k' = canon key")
    case True
    then have "st \<le> now" using step abs w(2) by simp
    then show ?thesis using later by (auto simp: list_all_iff intro: order_trans)
  next
    case False
    then show ?thesis using Cons.prems(4) abs w(2) by (auto simp: e)
  qed
  have "inv s' \<and> length bs = length es \<and> (\<forall>k st n. abs s' k = Some (st, n) \<longrightarrow> list_all (\<lambda>(key, now). st \<le> now) ds)"
    by (rule Cons.IH [OF inv _ _ _ bs(1)]) (use Cons.prems starts in auto)
  then show ?case using bs(2) by simp
qed simp

end

section \<open>The limiter implements it\<close>

definition rl_ok :: "string set \<Rightarrow> u32 \<Rightarrow> u64 \<Rightarrow> oc_ratelimit \<Rightarrow> bool" where
  "rl_ok K mx win rl \<longleftrightarrow> rl_inv rl \<and> rl_max_events rl = mx \<and> rl_window_ms rl = win \<and> dom (rl_abs rl) \<subseteq> K \<and>
     finite K \<and> card K \<le> length (rl_slots rl)"

lemma rl_ok_room:
  assumes ok: "rl_ok K mx win rl" and k: "k \<in> K"
  shows "has_room k rl"
proof (rule ccontr)
  let ?xs = "rl_slots rl"
  assume no: "\<not> has_room k rl"
  then have used: "\<forall>i < length ?xs. sl_used (?xs ! i)" and absent: "rl_abs rl k = None"
    unfolding has_room_def list_ex_length by blast+
  have one: "one_each sl_used sl_key ?xs" using ok by (simp add: rl_ok_def rl_inv_def)
  then have "distinct (map sl_key ?xs)" using used by (auto simp: distinct_conv_nth dest: one_eachD)
  then have "card (sl_key ` set ?xs) = length ?xs" by (metis distinct_card length_map set_map)
  moreover have "sl_key ` set ?xs \<subseteq> K - {k}"
  proof
    fix x assume "x \<in> sl_key ` set ?xs"
    then obtain i where i: "i < length ?xs" "x = sl_key (?xs ! i)" by (auto simp: in_set_conv_nth)
    then have "rl_abs rl x \<noteq> None" using lookup_nth [OF one i(1)] used by (simp add: rl_abs_def)
    then show "x \<in> K - {k}" using ok absent by (auto simp: rl_ok_def)
  qed
  then have "card (sl_key ` set ?xs) \<le> card (K - {k})" using ok by (intro card_mono) (auto simp: rl_ok_def)
  moreover have "card (K - {k}) < card K" using k ok by (intro psubset_card_mono) (auto simp: rl_ok_def)
  ultimately show False using ok by (simp add: rl_ok_def)
qed

interpretation limiter: window_limiter oc_ratelimit_blocked oc_ratelimit_record rl_abs key_copy "rl_ok K mx win" K mx win
  for K mx win
proof unfold_locales
  fix s key now b s' assume s: "rl_ok K mx win s" "key_copy key \<in> K" "oc_ratelimit_blocked key now s = (b, s')"
  have dom: "dom ((rl_abs s)(key_copy key := w)) \<subseteq> K" for w using s by (auto simp: rl_ok_def)
  show "b = blocked_spec mx (roll win now (rl_abs s (key_copy key))) \<and>
    rl_abs s' = (rl_abs s)(key_copy key := roll win now (rl_abs s (key_copy key))) \<and> rl_ok K mx win s'"
    using blocked_abs [OF _ s(3)] s(1) dom by (auto simp: rl_ok_def)
next
  fix s key now assume s: "rl_ok K mx win s" "key_copy key \<in> K"
  have dom: "dom ((rl_abs s)(key_copy key := w)) \<subseteq> K" for w using s by (auto simp: rl_ok_def)
  show "rl_abs (oc_ratelimit_record key now s) =
      (rl_abs s)(key_copy key := record_spec now (roll win now (rl_abs s (key_copy key)))) \<and>
    rl_ok K mx win (oc_ratelimit_record key now s)"
    using record_abs [OF _ rl_ok_room [OF s] refl, of now] s(1) dom by (auto simp: rl_ok_def)
qed


lemma gate_run_append:
  "gate_run g (es @ ds) s = (let (as, s) = gate_run g es s; (bs, s) = gate_run g ds s in (as @ bs, s))"
proof (induction es arbitrary: s)
  case (Cons e es)
  then show ?case by (cases e) (simp add: case_prod_beta Let_def)
qed simp

text \<open>
  C19: A limiter with a limit of at least 1 that was made with no fewer slots than keys are used on it, that is asked and
  then told about every event in turn (what it does not block is recorded, and nothing is reset), and whose clock never
  goes back: what it admits of one key in any span of time as long as its window is at most twice its limit, whatever
  came before the span and whatever comes for other keys. (The windows are fixed, so a span can touch two of them.)
\<close>

theorem gate_admits_at_most_twice:
  assumes new: "oc_ratelimit_new mx win cap = Some rl" and mx: "0 < mx"
    and keys: "card (key_copy ` fst ` set (earlier @ span)) \<le> cap" and sorted: "sorted (map snd (earlier @ span))"
    and span: "\<forall>(key, now) \<in> set span. a \<le> now \<and> unat now < unat a + unat win"
    and run: "gate_run (gate oc_ratelimit_blocked oc_ratelimit_record) (earlier @ span) rl = (as, rl')"
  shows "length (filter (\<lambda>((key, now), ok). key_copy key = k \<and> ok) (zip span (drop (length earlier) as))) \<le> 2 * unat mx"
proof -
  let ?g = "gate oc_ratelimit_blocked oc_ratelimit_record" and ?K = "key_copy ` fst ` set (earlier @ span)"
  obtain bs rm cs where bs: "gate_run ?g earlier rl = (bs, rm)" and cs: "gate_run ?g span rm = (cs, rl')" "as = bs @ cs"
    using run by (auto simp: gate_run_append case_prod_beta Let_def prod_eq_iff)
  have "length (rl_slots rl) = cap" "rl_max_events rl = mx" "rl_window_ms rl = win"
    using new by (auto simp: oc_ratelimit_new_def split: if_splits)
  then have ok: "rl_ok ?K mx win rl" and empty: "rl_abs rl = Map.empty"
    using rl_new_ok [OF new] keys by (auto simp: rl_ok_def)
  have mid: "rl_ok ?K mx win rm \<and> length bs = length earlier \<and>
      (\<forall>k st n. rl_abs rm k = Some (st, n) \<longrightarrow> list_all (\<lambda>(key, now). st \<le> now) span)"
    by (rule limiter.gate_run_keeps [OF ok _ sorted _ bs]) (auto simp: empty image_iff intro: bexI [rotated])
  have "length (filter (\<lambda>((key, now), ok). key_copy key = k \<and> ok) (zip span cs)) \<le> budget mx a (rl_abs rm k)"
    by (rule limiter.gate_run_budget [OF mx, of ?K win rm span a cs rl' k])
      (use mid sorted span cs(1) in \<open>auto simp: sorted_append image_iff intro: bexI [rotated]\<close>)
  also have "\<dots> \<le> 2 * unat mx" by (rule budget_le)
  finally show ?thesis using mid cs(2) by simp
qed

lemma gate_admits_at_most_twice_witness:
  "\<exists>rl as rl'. oc_ratelimit_new 1 100 2 = Some rl \<and>
     gate_run (gate oc_ratelimit_blocked oc_ratelimit_record)
       ([(''a'', 950)] @ [(''a'', 1000), (''b'', 1010), (''a'', 1055), (''a'', 1060)]) rl = (as, rl') \<and>
     as = [True, False, True, True, False] \<and>
     length (filter (\<lambda>((key, now), ok). key_copy key = ''a'' \<and> ok)
       (zip [(''a'', 1000), (''b'', 1010), (''a'', 1055), (''a'', 1060)] (drop 1 as))) \<le> 2 * unat (1 :: u32)"
proof -
  let ?e = "[(''a'', 950)] :: (string \<times> u64) list" and ?s = "[(''a'', 1000), (''b'', 1010), (''a'', 1055), (''a'', 1060)] :: (string \<times> u64) list"
  obtain rl where new: "oc_ratelimit_new 1 100 2 = Some rl" by (simp add: oc_ratelimit_new_def)
  obtain as rl' where run: "gate_run (gate oc_ratelimit_blocked oc_ratelimit_record) (?e @ ?s) rl = (as, rl')" by fastforce
  have keys: "card (key_copy ` fst ` set (?e @ ?s)) \<le> 2" by (simp add: key_copy_def Let_def card_insert_if)
  have "length (filter (\<lambda>((key, now), ok). key_copy key = ''a'' \<and> ok) (zip ?s (drop (length ?e) as))) \<le> 2 * unat (1 :: u32)"
    by (rule gate_admits_at_most_twice [OF new _ keys _ _ run, of 1000]) simp_all
  moreover have "map_option (\<lambda>rl. fst (gate_run (gate oc_ratelimit_blocked oc_ratelimit_record) (?e @ ?s) rl)) (oc_ratelimit_new 1 100 2) =
      Some [True, False, True, True, False]" by code_simp
  ultimately show ?thesis using new run by auto
qed

section \<open>A clock that is set back\<close>

text \<open>
  The age of a window is a difference of two \<^verbatim>\<open>uint64_t\<close>. When the clock is behind the start of the window, it wraps around and
  the window counts as passed.
\<close>

lemma back_wraps:
  assumes "now < start" "unat win + unat start \<le> 2 ^ 64"
  shows "now - start \<ge> (win :: u64)"
proof -
  have lt: "unat now < unat start" "unat start < 2 ^ 64" using assms(1) unsigned_less [of start, where ?'a = nat] by (simp_all add: word_less_nat_alt)
  have "unat (now - start) = (unat now + 2 ^ 64 - unat start) mod 2 ^ 64"
    using lt by (simp add: unat_sub_if_size word_size)
  also have "\<dots> = unat now + 2 ^ 64 - unat start" using lt by (intro mod_less) linarith
  finally show ?thesis using assms(2) by (simp add: word_le_nat_alt)
qed

lemma gate_back:
  assumes inv: "rl_inv rl" and k: "rl_abs rl (key_copy key) = Some (start, n)" and behind: "now < start"
    and win: "unat (rl_window_ms rl) + unat start \<le> 2 ^ 64" and mx: "0 < rl_max_events rl"
  obtains rl' where "gate oc_ratelimit_blocked oc_ratelimit_record key now rl = (True, rl')" "rl_inv rl'"
    "rl_abs rl' (key_copy key) = Some (now, 1)" "rl_window_ms rl' = rl_window_ms rl" "rl_max_events rl' = rl_max_events rl"
proof -
  have roll: "roll (rl_window_ms rl) now (rl_abs rl (key_copy key)) = Some (now, 0)"
    using back_wraps [OF behind win] k by (simp add: roll_def)
  obtain b rm where b: "oc_ratelimit_blocked key now rl = (b, rm)" by fastforce
  note bl = blocked_abs [OF inv b, unfolded roll]
  then have free: "\<not> b" using mx by (simp add: blocked_spec_def)
  have room: "has_room (key_copy key) rm" using bl by (simp add: has_room_def)
  have roll': "roll (rl_window_ms rm) now (rl_abs rm (key_copy key)) = Some (now, 0)" using bl by (simp add: roll_def)
  note tallied = record_abs [OF _ room refl, of now, unfolded roll']
  show ?thesis
    by (rule that [of "oc_ratelimit_record key now rm"]) (use b free bl tallied in \<open>auto simp: gate_def record_spec_def\<close>)
qed

text \<open>
  C40: The clock of the limiters is \<^verbatim>\<open>CLOCK_REALTIME\<close>, which can be set back. An event whose time is before the start of its
  key's window finds that window passed, because the difference wraps around, and opens a new one. So while every event
  comes at an earlier time than the one before it, the limiter admits all of them, however many there are, and
  however many events the key's window had already counted.
\<close>

theorem clock_set_back_admits_all:
  assumes "rl_inv rl" "rl_abs rl k = Some (start, n)" "0 < rl_max_events rl" "unat (rl_window_ms rl) + unat start \<le> 2 ^ 64"
    and "list_all (\<lambda>e. key_copy (fst e) = k) es" "sorted_wrt (>) (start # map snd es)"
  shows "fst (gate_run (gate oc_ratelimit_blocked oc_ratelimit_record) es rl) = replicate (length es) True"
  using assms
proof (induction es arbitrary: rl start n)
  case (Cons e es)
  obtain key now where e: "e = (key, now)" by fastforce
  have key: "key_copy key = k" and behind: "now < start" using Cons.prems(5,6) e by auto
  obtain rm where rm: "gate oc_ratelimit_blocked oc_ratelimit_record key now rl = (True, rm)" "rl_inv rm"
    "rl_abs rm k = Some (now, 1)" "rl_window_ms rm = rl_window_ms rl" "rl_max_events rm = rl_max_events rl"
    using gate_back [OF Cons.prems(1) _ behind Cons.prems(4,3), of key n] Cons.prems(2) key by metis
  have "unat now < unat start" using behind by (simp add: word_less_nat_alt)
  then have "fst (gate_run (gate oc_ratelimit_blocked oc_ratelimit_record) es rm) = replicate (length es) True"
    using Cons.prems e rm by (intro Cons.IH [OF rm(2,3)]) auto
  then show ?case using rm(1) by (simp add: e case_prod_beta)
qed simp

text \<open>A key whose limit of 1 was used up at 1000, and then events at 999 and 998.\<close>

definition used_up :: oc_ratelimit where
  "used_up = \<lparr>rl_max_events = 1, rl_window_ms = 900000,
     rl_slots = [\<lparr>sl_key = ''a'', sl_window_start = 1000, sl_last_ms = 1000, sl_count = 1, sl_used = True\<rparr>]\<rparr>"

theorem clock_set_back_admits_all_witness:
  "fst (oc_ratelimit_blocked ''a'' 1000 used_up) \<and>
   fst (gate_run (gate oc_ratelimit_blocked oc_ratelimit_record) [(''a'', 999), (''a'', 998)] used_up) = [True, True]"
proof -
  have "rl_inv used_up" by (simp add: used_up_def rl_inv_def one_each_def)
  moreover have "rl_abs used_up ''a'' = Some (1000, 1)" by (simp add: used_up_def rl_abs_def lookup_index)
  moreover have "key_copy ''a'' = ''a''" by code_simp
  ultimately have "fst (gate_run (gate oc_ratelimit_blocked oc_ratelimit_record) [(''a'', 999), (''a'', 998)] used_up) =
      replicate (length [(''a'', 999 :: u64), (''a'', 998)]) True"
    by (intro clock_set_back_admits_all [of used_up "''a''" 1000 1]) (simp_all add: used_up_def)
  moreover have "fst (oc_ratelimit_blocked ''a'' 1000 used_up)" by code_simp
  ultimately show ?thesis by simp
qed

end
