(* ===== verification/Webhook.thy ===== *)
theory Webhook
  imports Rate_Limit
begin

text \<open>
  The admission of incoming webhook posts in \<^verbatim>\<open>daemon/netloop.c\<close>: the token is read from the path in hexadecimal, and a
  rate limiter keyed by its text decides whether the post goes to the database. What \<^verbatim>\<open>oc_http_webhook_text\<close> made of the
  request's body is an argument; the job's allocation is assumed to succeed.
\<close>

definition hexval :: "char \<Rightarrow> int" where
  "hexval ch =
     (if char_between CHR ''0'' CHR ''9'' ch then int (of_char ch) - of_char CHR ''0''
      else if char_between CHR ''a'' CHR ''f'' ch then int (of_char ch) - of_char CHR ''a'' + 10
      else if char_between CHR ''A'' CHR ''F'' ch then int (of_char ch) - of_char CHR ''A'' + 10
      else -1)"

fun hex_pairs :: "string \<Rightarrow> u8 list option" where
  "hex_pairs (a # b # cs) =
     (let hi = hexval a; lo = hexval b
      in if hi < 0 \<or> lo < 0 then None
         else map_option ((#) (word_of_int (16 * hi + lo))) (hex_pairs cs))"
| "hex_pairs _ = Some []"

definition hex_decode :: "string \<Rightarrow> nat \<Rightarrow> u8 list option" where
  "hex_decode hex outcap =
     (if length hex mod 2 \<noteq> 0 \<or> length hex div 2 > outcap then None else hex_pairs hex)"

abbreviation OC_SESSION_TOKEN_LEN :: nat where "OC_SESSION_TOKEN_LEN \<equiv> 32"

abbreviation OC_MAX_BODY_SIZE_N :: nat where "OC_MAX_BODY_SIZE_N \<equiv> 65536"

abbreviation WEBHOOK_PREFIX :: string where "WEBHOOK_PREFIX \<equiv> ''/webhook/''"

text \<open>An answer with an HTTP status, or the job for the database with its token and text.\<close>

datatype webhook_out = Http_Reply nat | Webhook_Post "u8 list" string

definition on_http_request :: "string \<Rightarrow> string option \<Rightarrow> u64 \<Rightarrow> oc_ratelimit \<Rightarrow> webhook_out \<times> oc_ratelimit" where
  "on_http_request path text now rl =
     (let pfx = length WEBHOOK_PREFIX
      in if length path \<le> pfx \<or> take pfx path \<noteq> WEBHOOK_PREFIX then (Http_Reply 404, rl)
         else
           let tokhex = takeWhile (\<lambda>ch. ch \<noteq> CHR ''?'') (drop pfx path)
           in case hex_decode tokhex OC_SESSION_TOKEN_LEN of
               None \<Rightarrow> (Http_Reply 404, rl)
             | Some token \<Rightarrow>
                 if length token \<noteq> OC_SESSION_TOKEN_LEN then (Http_Reply 404, rl)
                 else case text of
                     None \<Rightarrow> (Http_Reply 400, rl)
                   | Some t \<Rightarrow>
                       if t = '''' then (Http_Reply 400, rl)
                       else
                         let t = take OC_MAX_BODY_SIZE_N t;
                             key = take (2 * OC_SESSION_TOKEN_LEN) tokhex;
                             (b, rl) = oc_ratelimit_blocked key now rl
                         in if b then (Http_Reply 429, rl)
                            else (Webhook_Post token t, oc_ratelimit_record key now rl))"

section \<open>Tokens and their spellings\<close>

lemma length_hex_pairs: "hex_pairs s = Some bs \<Longrightarrow> length bs = length s div 2"
  by (induction s arbitrary: bs rule: hex_pairs.induct) (auto simp: Let_def split: if_splits)

lemma hexval_lower: "hexval (ascii_lower ch) = hexval ch"
proof -
  have "(of_char ch :: nat) < 256" by (rule nat_of_char_less_256)
  then show ?thesis
    by (auto simp: hexval_def ascii_lower_def char_between_def of_char_of)
qed

lemma hex_pairs_case: "map ascii_lower s = map ascii_lower s' \<Longrightarrow> hex_pairs s = hex_pairs s'"
proof (induction s arbitrary: s' rule: hex_pairs.induct)
  case (1 a b cs)
  then obtain a' b' cs' where s': "s' = a' # b' # cs'" "ascii_lower a' = ascii_lower a" "ascii_lower b' = ascii_lower b"
    "map ascii_lower cs = map ascii_lower cs'" by (auto simp: Cons_eq_map_conv)
  then have "hexval a' = hexval a" "hexval b' = hexval b" using hexval_lower by metis+
  then show ?case using 1 s' by (simp add: Let_def)
qed (auto simp: Cons_eq_map_conv)

lemma hex_pairs_no_query: "hex_pairs s = Some bs \<Longrightarrow> even (length s) \<Longrightarrow> CHR ''?'' \<notin> set s"
proof (induction s arbitrary: bs rule: hex_pairs.induct)
  case (1 a b cs)
  have "hexval CHR ''?'' = -1" by code_simp
  then show ?case using 1 by (auto simp: Let_def split: if_splits)
qed auto

lemma on_http_request_token:
  assumes "hex_decode s OC_SESSION_TOKEN_LEN = Some token" "length token = OC_SESSION_TOKEN_LEN" "t \<noteq> ''''"
  shows "length s = 64" "key_copy s = s"
    "on_http_request (WEBHOOK_PREFIX @ s) (Some t) now rl =
      (let (b, rl) = oc_ratelimit_blocked s now rl
       in if b then (Http_Reply 429, rl)
          else (Webhook_Post token (take OC_MAX_BODY_SIZE_N t), oc_ratelimit_record s now rl))"
proof -
  have pairs: "hex_pairs s = Some token" "even (length s)"
    using assms(1) by (auto simp: hex_decode_def even_iff_mod_2_eq_zero split: if_splits)
  then show len: "length s = 64" using length_hex_pairs [of s token] assms(2) by auto
  show "key_copy s = s" using len by (simp add: key_copy_def Let_def)
  have tok: "takeWhile (\<lambda>ch. ch \<noteq> CHR ''?'') s = s"
    using hex_pairs_no_query [OF pairs] by (simp add: takeWhile_eq_all_conv) blast
  show "on_http_request (WEBHOOK_PREFIX @ s) (Some t) now rl =
      (let (b, rl) = oc_ratelimit_blocked s now rl
       in if b then (Http_Reply 429, rl)
          else (Webhook_Post token (take OC_MAX_BODY_SIZE_N t), oc_ratelimit_record s now rl))"
  proof -
    have key: "take (2 * OC_SESSION_TOKEN_LEN) s = s" using len by simp
    show ?thesis using len assms by (simp add: on_http_request_def tok key Let_def)
  qed
qed

text \<open>
  C30: The limit on webhook posts is per spelling of a token, not per token: a path whose hexadecimal digits differ only
  in case from those of another path names the same token, but has a window of its own, so its first post goes to
  the database however many posts the token has made.
\<close>

theorem webhook_limit_per_spelling:
  assumes inv: "rl_inv rl" and token: "hex_decode s OC_SESSION_TOKEN_LEN = Some token" "length token = OC_SESSION_TOKEN_LEN"
    and same: "map ascii_lower s = map ascii_lower s'" and fresh: "rl_abs rl s' = None" and body: "t \<noteq> ''''"
  shows "fst (on_http_request (WEBHOOK_PREFIX @ s') (Some t) now rl) = Webhook_Post token (take OC_MAX_BODY_SIZE_N t)"
proof -
  have "length s' = length s" using same by (metis length_map)
  then have dec: "hex_decode s' OC_SESSION_TOKEN_LEN = Some token"
    using token(1) hex_pairs_case [OF same] by (simp add: hex_decode_def split: if_splits)
  note req = on_http_request_token [OF dec token(2) body]
  obtain b rl' where b: "oc_ratelimit_blocked s' now rl = (b, rl')" by fastforce
  have "\<not> b" using blocked_abs [OF inv b] fresh req(2) by (simp add: blocked_spec_def roll_def)
  then show ?thesis using req(3) b by simp
qed

lemma hex_pairs_aa: "hex_pairs (replicate (2 * n) CHR ''a'') = Some (replicate n 0xAA)"
proof (induction n)
  case (Suc n)
  have "hexval CHR ''a'' = 10" by code_simp
  then show ?case using Suc by simp
qed simp

text \<open>A limiter of one post in which the token has used its post up, and the same token in capitals.\<close>

lemma webhook_limit_per_spelling_witness:
  "\<exists>rl. map_option (\<lambda>rl. snd (on_http_request (WEBHOOK_PREFIX @ replicate 64 CHR ''a'') (Some ''hi'') 5 rl))
       (oc_ratelimit_new 1 60000 1024) = Some rl \<and>
     fst (on_http_request (WEBHOOK_PREFIX @ replicate 64 CHR ''a'') (Some ''hi'') 6 rl) = Http_Reply 429 \<and>
     fst (on_http_request (WEBHOOK_PREFIX @ replicate 64 CHR ''A'') (Some ''hi'') 6 rl) = Webhook_Post (replicate 32 0xAA) ''hi''"
proof -
  let ?a = "replicate 64 CHR ''a''" and ?A = "replicate 64 CHR ''A''"
  have token: "hex_decode ?a OC_SESSION_TOKEN_LEN = Some (replicate 32 0xAA)"
    using hex_pairs_aa [of 32] by (simp add: hex_decode_def)
  have len: "length (replicate 32 (0xAA :: u8)) = OC_SESSION_TOKEN_LEN" by simp
  have "ascii_lower CHR ''a'' = ascii_lower CHR ''A''" by code_simp
  then have same: "map ascii_lower ?a = map ascii_lower ?A" by simp
  note req = on_http_request_token [OF token len, of "''hi''"]
  obtain rl0 where new: "oc_ratelimit_new 1 60000 1024 = Some rl0" by (simp add: oc_ratelimit_new_def)
  have rl0: "rl_inv rl0" "rl_abs rl0 = Map.empty" "rl_max_events rl0 = 1" "rl_window_ms rl0 = 60000" "\<exists>s \<in> set (rl_slots rl0). \<not> sl_used s"
    using rl_new_ok [OF new] new by (auto simp: oc_ratelimit_new_def)
  have first: "oc_ratelimit_blocked ?a 5 rl0 = (False, rl0)"
    using rl0 rl_find_None [of ?a 5 rl0] rl_find_Some(6) [OF rl0(1), of ?a 5]
    by (cases "rl_find ?a 5 rl0") (auto simp: oc_ratelimit_blocked_def split: option.split)
  define rl where "rl = oc_ratelimit_record ?a 5 rl0"
  have post: "snd (on_http_request (WEBHOOK_PREFIX @ ?a) (Some ''hi'') 5 rl0) = rl" using req(3) first by (simp add: rl_def)
  have "has_room (key_copy ?a) rl0" using rl0(5) by (auto simp: has_room_def list_ex_iff)
  note rec = record_abs [OF rl0(1) this rl_def]
  have abs: "rl_abs rl = [?a \<mapsto> (5, 1)]" using rec rl0 req(2) by (simp add: roll_def record_spec_def)
  obtain b rl' where b: "oc_ratelimit_blocked ?a 6 rl = (b, rl')" by fastforce
  then have "b" using blocked_abs [of rl ?a 6 b rl'] rec abs rl0 req(2)
    by (simp add: roll_def blocked_spec_def record_spec_def word_le_nat_alt [of "60000 :: u64"])
  then have "fst (on_http_request (WEBHOOK_PREFIX @ ?a) (Some ''hi'') 6 rl) = Http_Reply 429" using req(3) b by simp
  moreover have "rl_abs rl ?A = None" using abs by simp
  then have "fst (on_http_request (WEBHOOK_PREFIX @ ?A) (Some ''hi'') 6 rl) = Webhook_Post (replicate 32 0xAA) ''hi''"
    using webhook_limit_per_spelling [OF _ token len same, of rl "''hi''" 6] rec by simp
  ultimately show ?thesis using new post by auto
qed

end
