(* ===== verification/Device_Codes.thy ===== *)
theory Device_Codes
  imports Slot_Tables Ctext Machines
begin

text \<open>
  The device codes of \<^verbatim>\<open>daemon/devicecodes.c\<close> (RFC 8628): a client without a browser begins a request and gets a secret to
  poll with and a code for a person to type; a signed-in person finds the request by the code and approves or denies
  it; the next poll hands the token over. The table is an array of \<open>OC_DEVICE_MAX\<close> slots. Random bytes are an
  argument, as are the hash \<open>sha\<close> (\<^verbatim>\<open>oc_sha256\<close>, mbedTLS) and the times; \<open>None\<close> is a call that failed.
\<close>

section \<open>base64url\<close>

abbreviation B64URL :: string where
  "B64URL \<equiv> ''ABCDEFGHIJKLMNOPQRSTUVWXYZabcdefghijklmnopqrstuvwxyz0123456789-_''"

definition b64_char :: "u32 \<Rightarrow> char" where
  "b64_char v = B64URL ! unat (v AND 63)"

fun oc_base64url_encode :: "u8 list \<Rightarrow> string" where
  "oc_base64url_encode [] = ''''"
| "oc_base64url_encode [a] =
     (let v = push_bit 16 (ucast a) :: u32 in [b64_char (drop_bit 18 v), b64_char (drop_bit 12 v)])"
| "oc_base64url_encode [a, b] =
     (let v = push_bit 16 (ucast a) OR push_bit 8 (ucast b) :: u32
      in [b64_char (drop_bit 18 v), b64_char (drop_bit 12 v), b64_char (drop_bit 6 v)])"
| "oc_base64url_encode (a # b # c # bs) =
     (let v = push_bit 16 (ucast a) OR push_bit 8 (ucast b) OR ucast c :: u32
      in [b64_char (drop_bit 18 v), b64_char (drop_bit 12 v), b64_char (drop_bit 6 v), b64_char v]) @
     oc_base64url_encode bs"

section \<open>The table\<close>

abbreviation OC_DEVICE_TTL_MS :: u64 where "OC_DEVICE_TTL_MS \<equiv> 600000"
abbreviation OC_DEVICE_INTERVAL_S :: u32 where "OC_DEVICE_INTERVAL_S \<equiv> 5"
abbreviation OC_DEVICE_MAX :: nat where "OC_DEVICE_MAX \<equiv> 256"
abbreviation OC_DEVICE_PER_SOURCE :: nat where "OC_DEVICE_PER_SOURCE \<equiv> 5"

definition ALPHA :: string where "ALPHA = ''BCDFGHJKLMNPQRSTVWXZ''"

datatype dstate = ST_FREE | ST_PENDING | ST_APPROVED | ST_DENIED

record dentry =
  de_st :: dstate
  de_secret_hash :: "u8 list"
  de_user_code :: string
  de_challenge :: string
  de_source :: string
  de_addr :: string
  de_created_ms :: u64
  de_expires_ms :: u64
  de_last_poll_ms :: u64
  de_interval_s :: u32
  de_token :: "string option"

record oc_devcodes =
  dv_e :: "dentry list"
  dv_ttl_ms :: u64
  dv_interval_s :: u32

text \<open>What \<^verbatim>\<open>clear\<close> leaves.\<close>

definition dentry_clear :: dentry where
  "dentry_clear = \<lparr>de_st = ST_FREE, de_secret_hash = replicate 32 0, de_user_code = '''', de_challenge = '''', de_source = '''',
     de_addr = '''', de_created_ms = 0, de_expires_ms = 0, de_last_poll_ms = 0, de_interval_s = 0, de_token = None\<rparr>"

definition oc_devcodes_new :: oc_devcodes where
  "oc_devcodes_new = \<lparr>dv_e = replicate OC_DEVICE_MAX dentry_clear, dv_ttl_ms = OC_DEVICE_TTL_MS, dv_interval_s = OC_DEVICE_INTERVAL_S\<rparr>"

definition oc_devcodes_set_ttl :: "u64 \<Rightarrow> oc_devcodes \<Rightarrow> oc_devcodes" where
  "oc_devcodes_set_ttl ms d = d\<lparr>dv_ttl_ms := if ms \<noteq> 0 then ms else OC_DEVICE_TTL_MS\<rparr>"

definition oc_devcodes_set_interval :: "u32 \<Rightarrow> oc_devcodes \<Rightarrow> oc_devcodes" where
  "oc_devcodes_set_interval s d = d\<lparr>dv_interval_s := if s \<noteq> 0 then s else OC_DEVICE_INTERVAL_S\<rparr>"

definition live :: "dentry \<Rightarrow> bool" where
  "live x \<longleftrightarrow> de_st x \<noteq> ST_FREE"

definition dv_sweep :: "u64 \<Rightarrow> oc_devcodes \<Rightarrow> oc_devcodes" where
  "dv_sweep now d = d\<lparr>dv_e := sweep_slots (\<lambda>x. live x \<and> now \<ge> de_expires_ms x) dentry_clear (dv_e d)\<rparr>"

section \<open>User codes\<close>

definition ascii_upper :: "char \<Rightarrow> char" where
  "ascii_upper c = (if char_between CHR ''a'' CHR ''z'' c then char_of (of_char c - 32 :: nat) else c)"

definition user_code_text :: "string \<Rightarrow> string" where
  "user_code_text k = take 4 k @ ''-'' @ take 4 (drop 4 k)"

fun normalise_loop :: "string \<Rightarrow> string \<Rightarrow> string option" where
  "normalise_loop [] k = (if length k \<noteq> 8 then None else Some (user_code_text k))"
| "normalise_loop (c # cs) k =
     (if c = CHR ''-'' \<or> c = CHR '' '' then normalise_loop cs k
      else
        let c = ascii_upper c
        in if c \<notin> set ALPHA \<or> length k = 8 then None else normalise_loop cs (k @ [c]))"

definition oc_user_code_normalise :: "string \<Rightarrow> string option" where
  "oc_user_code_normalise typed = normalise_loop typed ''''"

section \<open>The operations\<close>

definition by_user :: "string \<Rightarrow> oc_devcodes \<Rightarrow> nat option" where
  "by_user code d = first_index (\<lambda>x. live x \<and> de_user_code x = code) (dv_e d)"

text \<open>
  The loop for a user code that no request has: \<open>rnd\<close> gives the eight random bytes of each try, \<open>n\<close> is how many
  tries are left.
\<close>

fun pick_code :: "(nat \<Rightarrow> u8 list option) \<Rightarrow> nat \<Rightarrow> nat \<Rightarrow> oc_devcodes \<Rightarrow> string option" where
  "pick_code rnd tries 0 d = None"
| "pick_code rnd tries (Suc n) d =
     (case rnd tries of
        None \<Rightarrow> None
      | Some r \<Rightarrow>
          let user_code = user_code_text (map (\<lambda>b. ALPHA ! (unat b mod 20)) r)
          in if by_user user_code d = None then Some user_code else pick_code rnd (Suc tries) n d)"

definition oc_devcodes_begin ::
    "(string \<Rightarrow> u8 list option) \<Rightarrow> string \<Rightarrow> string \<Rightarrow> string option \<Rightarrow> u64 \<Rightarrow> (nat \<Rightarrow> u8 list option) \<Rightarrow>
      u8 list option \<Rightarrow> oc_devcodes \<Rightarrow> (int + string \<times> string) \<times> oc_devcodes" where
  "oc_devcodes_begin sha source addr challenge now_ms rnd secret d =
     (let d = dv_sweep now_ms d
      in if held live de_source source (dv_e d) \<ge> OC_DEVICE_PER_SOURCE then (Inl (-2), d)
         else case (first_index (\<lambda>x. \<not> live x) (dv_e d), challenge) of
             (Some i, Some ch) \<Rightarrow>
               if length ch \<ge> 48 then (Inl (-1), d)
               else (case (pick_code rnd 0 8 d, secret) of
                   (Some user_code, Some sec) \<Rightarrow>
                     let device_code = oc_base64url_encode sec
                     in (case sha device_code of
                           None \<Rightarrow> (Inl (-1), d\<lparr>dv_e := (dv_e d)[i := dentry_clear]\<rparr>)
                         | Some h \<Rightarrow>
                             (Inr (device_code, user_code),
                              d\<lparr>dv_e := (dv_e d)[i := \<lparr>de_st = ST_PENDING, de_secret_hash = h, de_user_code = user_code,
                                 de_challenge = ch, de_source = snprintf_s 46 source, de_addr = snprintf_s 46 addr,
                                 de_created_ms = now_ms, de_expires_ms = now_ms + dv_ttl_ms d, de_last_poll_ms = 0,
                                 de_interval_s = dv_interval_s d, de_token = None\<rparr>]\<rparr>))
                 | _ \<Rightarrow> (Inl (-1), d))
           | _ \<Rightarrow> (Inl (-1), d))"

datatype oc_dev_poll = OC_DEV_PENDING | OC_DEV_SLOW | OC_DEV_GONE | OC_DEV_DENIED | OC_DEV_TOKEN

text \<open>The answer, the token where there is one, and the interval for a request that waits.\<close>

definition oc_devcodes_poll ::
    "(string \<Rightarrow> u8 list option) \<Rightarrow> string option \<Rightarrow> u64 \<Rightarrow> oc_devcodes \<Rightarrow>
      (oc_dev_poll \<times> string option \<times> u32 option) \<times> oc_devcodes" where
  "oc_devcodes_poll sha device_code now_ms d =
     (let d = dv_sweep now_ms d
      in case Option.bind device_code sha of
          None \<Rightarrow> ((OC_DEV_GONE, None, None), d)
        | Some h \<Rightarrow>
            (case first_index (\<lambda>x. live x \<and> de_secret_hash x = h) (dv_e d) of
               None \<Rightarrow> ((OC_DEV_GONE, None, None), d)
             | Some i \<Rightarrow>
                 let x = dv_e d ! i
                 in if de_st x = ST_DENIED then ((OC_DEV_DENIED, None, None), d\<lparr>dv_e := (dv_e d)[i := dentry_clear]\<rparr>)
                    else if de_st x = ST_APPROVED
                    then ((OC_DEV_TOKEN, de_token x, None), d\<lparr>dv_e := (dv_e d)[i := dentry_clear]\<rparr>)
                    else
                      let slow = (de_last_poll_ms x \<noteq> 0 \<and> now_ms < de_last_poll_ms x + ucast (de_interval_s x) * 1000);
                          x = x\<lparr>de_last_poll_ms := now_ms\<rparr>;
                          x = (if slow then x\<lparr>de_interval_s := de_interval_s x + 5\<rparr> else x)
                      in ((if slow then OC_DEV_SLOW else OC_DEV_PENDING, None, Some (de_interval_s x)),
                          d\<lparr>dv_e := (dv_e d)[i := x]\<rparr>)))"

text \<open>The request a person sees for a code, by its entry.\<close>

definition oc_devcodes_find :: "string \<Rightarrow> u64 \<Rightarrow> oc_devcodes \<Rightarrow> dentry option \<times> oc_devcodes" where
  "oc_devcodes_find typed now_ms d =
     (let d = dv_sweep now_ms d
      in case oc_user_code_normalise typed of
          None \<Rightarrow> (None, d)
        | Some code \<Rightarrow>
            (case by_user code d of
               None \<Rightarrow> (None, d)
             | Some i \<Rightarrow> (if de_st (dv_e d ! i) = ST_PENDING then Some (dv_e d ! i) else None, d)))"

definition oc_devcodes_approve :: "string option \<Rightarrow> string option \<Rightarrow> u64 \<Rightarrow> oc_devcodes \<Rightarrow> int \<times> oc_devcodes" where
  "oc_devcodes_approve user_code token now_ms d =
     (let d = dv_sweep now_ms d
      in case (Option.bind user_code (\<lambda>c. by_user c d), token) of
          (Some i, Some t) \<Rightarrow>
            if de_st (dv_e d ! i) = ST_PENDING
            then (0, d\<lparr>dv_e := (dv_e d)[i := (dv_e d ! i)\<lparr>de_token := Some t, de_st := ST_APPROVED\<rparr>]\<rparr>) else (-1, d)
        | _ \<Rightarrow> (-1, d))"

definition oc_devcodes_deny :: "string option \<Rightarrow> u64 \<Rightarrow> oc_devcodes \<Rightarrow> int \<times> oc_devcodes" where
  "oc_devcodes_deny user_code now_ms d =
     (let d = dv_sweep now_ms d
      in case Option.bind user_code (\<lambda>c. by_user c d) of
          Some i \<Rightarrow>
            if de_st (dv_e d ! i) = ST_PENDING
            then (0, d\<lparr>dv_e := (dv_e d)[i := (dv_e d ! i)\<lparr>de_st := ST_DENIED\<rparr>]\<rparr>) else (-1, d)
        | None \<Rightarrow> (-1, d))"


section \<open>Codes can be typed\<close>

text \<open>The letters of a code: eight of the alphabet, shown with a dash.\<close>

definition code_letters :: "string \<Rightarrow> bool" where
  "code_letters k \<longleftrightarrow> length k = 8 \<and> set k \<subseteq> set ALPHA"

definition typed_letters :: "string \<Rightarrow> string" where
  "typed_letters typed = map ascii_upper (filter (\<lambda>c. c \<noteq> CHR ''-'' \<and> c \<noteq> CHR '' '') typed)"

lemma normalise_loop_exact:
  "set k \<subseteq> set ALPHA \<Longrightarrow> length k \<le> 8 \<Longrightarrow>
    normalise_loop typed k =
      (if code_letters (k @ typed_letters typed) then Some (user_code_text (k @ typed_letters typed)) else None)"
proof (induction typed k rule: normalise_loop.induct)
  case (2 c cs k)
  show ?case
  proof (cases "c = CHR ''-'' \<or> c = CHR '' ''")
    case True
    then show ?thesis using 2 by (auto simp: typed_letters_def)
  next
    case False
    then have t: "typed_letters (c # cs) = ascii_upper c # typed_letters cs" by (simp add: typed_letters_def)
    show ?thesis
    proof (cases "ascii_upper c \<notin> set ALPHA \<or> length k = 8")
      case True
      then show ?thesis using False t by (auto simp: code_letters_def)
    next
      case in_range: False
      then show ?thesis using 2(2) [OF False refl in_range] 2(3,4) False t by simp
    qed
  qed
qed (auto simp: code_letters_def typed_letters_def)

lemma alpha_plain: "c \<in> set ALPHA \<Longrightarrow> c \<noteq> CHR ''-'' \<and> c \<noteq> CHR '' '' \<and> ascii_upper c = c"
  by (auto simp: ALPHA_def ascii_upper_def char_between_def)

lemma typed_code: "code_letters k \<Longrightarrow> typed_letters (user_code_text k) = k"
proof -
  assume k: "code_letters k"
  have plain: "typed_letters ks = ks" if "set ks \<subseteq> set ALPHA" for ks
    using that alpha_plain by (induction ks) (auto simp: typed_letters_def)
  have "typed_letters (user_code_text k) = typed_letters (take 4 k) @ typed_letters (drop 4 k)"
    using k by (simp add: user_code_text_def typed_letters_def code_letters_def)
  moreover have "set (take 4 k) \<subseteq> set ALPHA" "set (drop 4 k) \<subseteq> set ALPHA"
    using k by (auto simp: code_letters_def dest: in_set_takeD in_set_dropD)
  ultimately show ?thesis by (simp add: plain)
qed

lemma normalise_exact:
  "oc_user_code_normalise typed = Some code \<longleftrightarrow>
    (\<exists>k. code_letters k \<and> typed_letters typed = k \<and> code = user_code_text k)"
  using normalise_loop_exact [of "''''" typed] by (auto simp: oc_user_code_normalise_def)

text \<open>What the loop for a new code picks is a code, and no live request has it.\<close>

lemma pick_code_SomeE:
  assumes "pick_code rnd t n d = Some code"
  obtains i r where "rnd i = Some r" "code = user_code_text (map (\<lambda>b. ALPHA ! (unat b mod 20)) r)" "by_user code d = None"
proof -
  have "\<exists>i r. rnd i = Some r \<and> code = user_code_text (map (\<lambda>b. ALPHA ! (unat b mod 20)) r) \<and> by_user code d = None"
    using assms
  proof (induction n arbitrary: t)
    case (Suc n)
    then obtain r where r: "rnd t = Some r" by (auto split: option.splits)
    show ?case
    proof (cases "by_user (user_code_text (map (\<lambda>b. ALPHA ! (unat b mod 20)) r)) d = None")
      case True
      then show ?thesis using Suc.prems r by auto
    next
      case False
      then show ?thesis using Suc.IH [of "Suc t"] Suc.prems r by auto
    qed
  qed simp
  then show ?thesis using that by blast
qed

lemma pick_code_unused: "pick_code rnd t n d = Some code \<Longrightarrow> by_user code d = None"
  by (erule pick_code_SomeE)

lemma pick_code_letters:
  assumes "pick_code rnd t n d = Some code" "\<forall>i r. rnd i = Some r \<longrightarrow> length r = 8"
  shows "\<exists>k. code_letters k \<and> code = user_code_text k"
proof (rule pick_code_SomeE [OF assms(1)])
  fix i r assume r: "rnd i = Some r" "code = user_code_text (map (\<lambda>b. ALPHA ! (unat b mod 20)) r)"
  have "ALPHA ! (unat b mod 20) \<in> set ALPHA" for b :: u8 by (rule nth_mem) (simp add: ALPHA_def)
  then have "code_letters (map (\<lambda>b. ALPHA ! (unat b mod 20)) r)" using assms(2) r(1) by (auto simp: code_letters_def)
  then show ?thesis using r(2) by blast
qed

section \<open>The invariant\<close>

definition entry_ok :: "dentry \<Rightarrow> bool" where
  "entry_ok x \<longleftrightarrow> (de_token x \<noteq> None \<longleftrightarrow> de_st x = ST_APPROVED)"

definition dv_inv :: "oc_devcodes \<Rightarrow> bool" where
  "dv_inv d \<longleftrightarrow> length (dv_e d) = OC_DEVICE_MAX \<and> one_each live de_user_code (dv_e d) \<and>
     list_all entry_ok (dv_e d) \<and>
     (\<forall>s. length s < 45 \<longrightarrow> held live de_source s (dv_e d) \<le> OC_DEVICE_PER_SOURCE)"

lemma clear_simps [simp]: "\<not> live dentry_clear" "entry_ok dentry_clear"
  by (simp_all add: live_def dentry_clear_def entry_ok_def)

lemma list_all_update: "list_all P xs \<Longrightarrow> P y \<Longrightarrow> list_all P (xs[i := y])"
  using set_update_subset_insert [of xs i y] by (auto simp: list_all_iff)

lemma dv_new_inv: "dv_inv oc_devcodes_new"
  by (auto simp: dv_inv_def oc_devcodes_new_def held_def list_all_iff intro!: one_each_blank)

lemma dv_sweep_inv [intro]: "dv_inv d \<Longrightarrow> dv_inv (dv_sweep now d)"
proof -
  assume d: "dv_inv d"
  have "list_all entry_ok (sweep_slots g dentry_clear (dv_e d))" for g
    using d by (auto simp: dv_inv_def list_all_iff sweep_slots_def)
  moreover have "held live de_source s (sweep_slots g dentry_clear (dv_e d)) \<le> OC_DEVICE_PER_SOURCE" if "length s < 45" for s g
    using held_sweep [of live dentry_clear de_source s g "dv_e d"] d that by (fastforce simp: dv_inv_def)
  ultimately show ?thesis using d by (simp add: dv_inv_def dv_sweep_def one_each_sweep)
qed

text \<open>Freeing a slot, and changing the state of an entry.\<close>

lemma dv_clear_inv [intro]: "dv_inv d \<Longrightarrow> dv_inv (d\<lparr>dv_e := (dv_e d)[i := dentry_clear]\<rparr>)"
proof (cases "i < length (dv_e d)")
  case True
  assume d: "dv_inv d"
  have "held live de_source s ((dv_e d)[i := dentry_clear]) \<le> OC_DEVICE_PER_SOURCE" if "length s < 45" for s
    using held_slot [OF True, of live de_source s dentry_clear] d that by (fastforce simp: dv_inv_def)
  then show ?thesis using d by (simp add: dv_inv_def one_each_free list_all_update)
next
  case False
  then show "dv_inv d \<Longrightarrow> ?thesis" by (simp add: list_update_beyond)
qed

lemma dv_change_inv:
  assumes d: "dv_inv d" and i: "i < length (dv_e d)" "live (dv_e d ! i)" and y: "live y"
    "de_user_code y = de_user_code (dv_e d ! i)" "de_source y = de_source (dv_e d ! i)" "entry_ok y"
  shows "dv_inv (d\<lparr>dv_e := (dv_e d)[i := y]\<rparr>)"
proof -
  let ?xs = "dv_e d"
  have one: "one_each live de_user_code ?xs" using d by (auto simp: dv_inv_def)
  have "one_each live de_user_code (?xs[i := y])"
    by (rule one_each_update [OF one]) (use one_eachD [OF one i(1)] i(2) y in metis)
  moreover have "held live de_source s (?xs[i := y]) = held live de_source s ?xs" for s
    using held_slot [OF i(1), of live de_source s y] i(2) y by simp
  ultimately show ?thesis using d y(4) by (simp add: dv_inv_def list_all_update)
qed

lemma by_user_Some:
  "by_user c d = Some i \<Longrightarrow> i < length (dv_e d) \<and> live (dv_e d ! i) \<and> de_user_code (dv_e d ! i) = c"
  unfolding by_user_def by (drule first_index_Some) simp

lemma by_user_None: "by_user c d = None \<longleftrightarrow> (\<forall>x \<in> set (dv_e d). live x \<longrightarrow> de_user_code x \<noteq> c)"
  by (auto simp: by_user_def first_index_None list_ex_iff)

text \<open>A new request: what it returns is in the table, in a slot that was free.\<close>

definition new_entry :: "u8 list \<Rightarrow> string \<Rightarrow> string \<Rightarrow> string \<Rightarrow> string \<Rightarrow> u64 \<Rightarrow> oc_devcodes \<Rightarrow> dentry" where
  "new_entry h uc ch source addr now d =
     \<lparr>de_st = ST_PENDING, de_secret_hash = h, de_user_code = uc, de_challenge = ch, de_source = snprintf_s 46 source,
       de_addr = snprintf_s 46 addr, de_created_ms = now, de_expires_ms = now + dv_ttl_ms d, de_last_poll_ms = 0,
       de_interval_s = dv_interval_s d, de_token = None\<rparr>"

lemma begin_Inr:
  assumes beg: "oc_devcodes_begin sha source addr challenge now rnd secret d = (Inr (dc, uc), d')"
  obtains i h ch where "i < length (dv_e (dv_sweep now d))" "\<not> live (dv_e (dv_sweep now d) ! i)" "sha dc = Some h"
    "pick_code rnd 0 8 (dv_sweep now d) = Some uc" "challenge = Some ch"
    "held live de_source source (dv_e (dv_sweep now d)) < OC_DEVICE_PER_SOURCE"
    "d' = (dv_sweep now d)\<lparr>dv_e := (dv_e (dv_sweep now d))[i := new_entry h uc ch source addr now d]\<rparr>"
proof -
  define s where "s = dv_sweep now d"
  have s: "dv_ttl_ms s = dv_ttl_ms d" "dv_interval_s s = dv_interval_s d" by (simp_all add: s_def dv_sweep_def)
  note beg = beg [unfolded oc_devcodes_begin_def, folded s_def, unfolded Let_def]
  have room: "held live de_source source (dv_e s) < OC_DEVICE_PER_SOURCE" using beg by (simp split: if_split_asm)
  obtain i ch where i: "first_index (\<lambda>x. \<not> live x) (dv_e s) = Some i" "challenge = Some ch"
    using beg by (simp split: if_split_asm option.splits)
  note beg = beg [unfolded i, simplified]
  obtain code sec where code: "pick_code rnd 0 8 s = Some code" "secret = Some sec"
    using beg by (simp split: if_split_asm option.splits)
  note beg = beg [unfolded code, simplified]
  obtain h where h: "sha (oc_base64url_encode sec) = Some h" using beg by (simp split: if_split_asm option.splits)
  have eqs: "dc = oc_base64url_encode sec" "uc = code"
    "d' = s\<lparr>dv_e := (dv_e s)[i := new_entry h uc ch source addr now d]\<rparr>"
    using beg room by (auto simp: h new_entry_def s split: if_split_asm)
  show ?thesis
    by (rule that [of i h ch]) (use first_index_Some [OF i(1)] room i(2) code h eqs in \<open>simp_all add: s_def\<close>)
qed

lemma begin_Inl:
  assumes beg: "oc_devcodes_begin sha source addr challenge now rnd secret d = (Inl n, d')"
  shows "d' = dv_sweep now d \<or>
    (\<exists>i. \<not> live (dv_e (dv_sweep now d) ! i) \<and> d' = (dv_sweep now d)\<lparr>dv_e := (dv_e (dv_sweep now d))[i := dentry_clear]\<rparr>)"
proof -
  define s where "s = dv_sweep now d"
  note beg = beg [unfolded oc_devcodes_begin_def, folded s_def, unfolded Let_def]
  show ?thesis using beg first_index_Some [of "\<lambda>x. \<not> live x" "dv_e s"] unfolding s_def [symmetric]
    by (simp split: if_split_asm option.splits sum.splits) blast
qed

text \<open>The other operations, after their sweep: which entry they change and how.\<close>

lemma poll_cases:
  assumes "oc_devcodes_poll sha dc now d = ((r, tok, iv), d')"
  obtains (idle) "d' = dv_sweep now d" "r \<noteq> OC_DEV_TOKEN"
  | (closed) i h where "Option.bind dc sha = Some h" "i < length (dv_e (dv_sweep now d))" "live (dv_e (dv_sweep now d) ! i)"
      "de_secret_hash (dv_e (dv_sweep now d) ! i) = h"
      "d' = (dv_sweep now d)\<lparr>dv_e := (dv_e (dv_sweep now d))[i := dentry_clear]\<rparr>"
      "r = OC_DEV_DENIED \<and> de_st (dv_e (dv_sweep now d) ! i) = ST_DENIED \<or>
       r = OC_DEV_TOKEN \<and> de_st (dv_e (dv_sweep now d) ! i) = ST_APPROVED \<and> tok = de_token (dv_e (dv_sweep now d) ! i)"
  | (waits) i h l n where "Option.bind dc sha = Some h" "i < length (dv_e (dv_sweep now d))"
      "de_secret_hash (dv_e (dv_sweep now d) ! i) = h" "de_st (dv_e (dv_sweep now d) ! i) = ST_PENDING"
      "d' = (dv_sweep now d)\<lparr>dv_e := (dv_e (dv_sweep now d))
               [i := (dv_e (dv_sweep now d) ! i)\<lparr>de_last_poll_ms := l, de_interval_s := n\<rparr>]\<rparr>"
      "r \<noteq> OC_DEV_TOKEN"
proof -
  define s where "s = dv_sweep now d"
  note poll = assms [unfolded oc_devcodes_poll_def, folded s_def, unfolded Let_def]
  show ?thesis
  proof (cases "Option.bind dc sha")
    case None
    then show ?thesis using poll idle by (simp add: s_def)
  next
    case h: (Some h)
    show ?thesis
    proof (cases "first_index (\<lambda>x. live x \<and> de_secret_hash x = h) (dv_e s)")
      case None
      then show ?thesis using poll h idle by (simp add: s_def)
    next
      case i: (Some i)
      let ?x = "dv_e s ! i"
      have x: "i < length (dv_e s)" "live ?x" "de_secret_hash ?x = h" using first_index_Some [OF i] by auto
      note poll = poll [unfolded h, simplified, unfolded i, simplified]
      show ?thesis
      proof (cases "de_st ?x")
        case ST_FREE
        then show ?thesis using x(2) by (simp add: live_def)
      next
        case ST_PENDING
        let ?slow = "de_last_poll_ms ?x \<noteq> 0 \<and> now < de_last_poll_ms ?x + ucast (de_interval_s ?x) * 1000"
        have "d' = s\<lparr>dv_e := (dv_e s)[i := ?x\<lparr>de_last_poll_ms := now,
            de_interval_s := if ?slow then de_interval_s ?x + 5 else de_interval_s ?x\<rparr>]\<rparr>" "r \<noteq> OC_DEV_TOKEN"
          using poll ST_PENDING by (auto split: if_split_asm)
        then show ?thesis using waits [of h i] h x ST_PENDING by (simp add: s_def)
      next
        case ST_APPROVED
        then show ?thesis using poll closed [of h i] h x by (simp add: s_def)
      next
        case ST_DENIED
        then show ?thesis using poll closed [of h i] h x by (simp add: s_def)
      qed
    qed
  qed
qed

end
