(* ===== verification/Device_Flow.thy ===== *)
theory Device_Flow
  imports Device_Codes
begin

text \<open>
  What the device codes promise over time: sequences of the operations of \<^verbatim>\<open>daemon/devicecodes.c\<close>, each at a time of
  the clock, what each answered, and the properties of the record of answers.
\<close>

datatype dv_op =
    DBegin string string "string option" "nat \<Rightarrow> u8 list option" "u8 list option"
  | DPoll "string option"
  | DFind string
  | DApprove "string option" "string option"
  | DDeny "string option"
  | DSet_Ttl u64
  | DSet_Interval u32

text \<open>A request begun, with its two codes and its expiry; a token handed out; a decision of a person; anything else.\<close>

datatype dv_event =
    Began string string u64
  | Token "string option" "string option" u64
  | Approved "string option" "string option"
  | Denied "string option"
  | Other

fun dv_step :: "(string \<Rightarrow> u8 list option) \<Rightarrow> dv_op \<times> u64 \<Rightarrow> oc_devcodes \<Rightarrow> dv_event \<times> oc_devcodes" where
  "dv_step sha (DBegin source addr challenge rnd secret, now) d =
     (case oc_devcodes_begin sha source addr challenge now rnd secret d of
        (Inr (dc, uc), d') \<Rightarrow> (Began dc uc (now + dv_ttl_ms d), d')
      | (Inl _, d') \<Rightarrow> (Other, d'))"
| "dv_step sha (DPoll dc, now) d =
     (case oc_devcodes_poll sha dc now d of ((r, tok, _), d') \<Rightarrow> (if r = OC_DEV_TOKEN then Token dc tok now else Other, d'))"
| "dv_step sha (DFind typed, now) d = (Other, snd (oc_devcodes_find typed now d))"
| "dv_step sha (DApprove uc tok, now) d =
     (case oc_devcodes_approve uc tok now d of (r, d') \<Rightarrow> (if r = 0 then Approved uc tok else Other, d'))"
| "dv_step sha (DDeny uc, now) d =
     (case oc_devcodes_deny uc now d of (r, d') \<Rightarrow> (if r = 0 then Denied uc else Other, d'))"
| "dv_step sha (DSet_Ttl ms, now) d = (Other, oc_devcodes_set_ttl ms d)"
| "dv_step sha (DSet_Interval n, now) d = (Other, oc_devcodes_set_interval n d)"

section \<open>What a step changes\<close>

lemma approve_cases:
  assumes "oc_devcodes_approve uc tok now d = (r, d')"
  obtains (refused) "d' = dv_sweep now d" "r = -1"
  | (approved) i c t where "uc = Some c" "tok = Some t" "r = 0" "i < length (dv_e (dv_sweep now d))"
      "de_user_code (dv_e (dv_sweep now d) ! i) = c" "de_st (dv_e (dv_sweep now d) ! i) = ST_PENDING"
      "d' = (dv_sweep now d)\<lparr>dv_e := (dv_e (dv_sweep now d))
               [i := (dv_e (dv_sweep now d) ! i)\<lparr>de_token := Some t, de_st := ST_APPROVED\<rparr>]\<rparr>"
proof -
  define s where "s = dv_sweep now d"
  note ap = assms [unfolded oc_devcodes_approve_def, folded s_def, unfolded Let_def]
  show ?thesis
  proof (cases "uc = None \<or> tok = None \<or> (\<exists>c. uc = Some c \<and> by_user c s = None)")
    case True
    then show ?thesis using ap refused by (auto simp: s_def split: option.splits)
  next
    case False
    then obtain c t i where c: "uc = Some c" "tok = Some t" and i: "by_user c s = Some i" by auto
    then show ?thesis
      using ap refused approved [of c t i] by_user_Some [OF i] by (auto simp: s_def split: if_split_asm)
  qed
qed

lemma deny_cases:
  assumes "oc_devcodes_deny uc now d = (r, d')"
  obtains (refused) "d' = dv_sweep now d" "r = -1"
  | (denied) i c where "uc = Some c" "r = 0" "i < length (dv_e (dv_sweep now d))"
      "de_user_code (dv_e (dv_sweep now d) ! i) = c" "de_st (dv_e (dv_sweep now d) ! i) = ST_PENDING"
      "d' = (dv_sweep now d)\<lparr>dv_e := (dv_e (dv_sweep now d))[i := (dv_e (dv_sweep now d) ! i)\<lparr>de_st := ST_DENIED\<rparr>]\<rparr>"
proof -
  define s where "s = dv_sweep now d"
  note dn = assms [unfolded oc_devcodes_deny_def, folded s_def, unfolded Let_def]
  show ?thesis
  proof (cases "Option.bind uc (\<lambda>c. by_user c s)")
    case None
    then show ?thesis using dn refused by (simp add: s_def)
  next
    case (Some i)
    then obtain c where c: "uc = Some c" and i: "by_user c s = Some i" by (auto simp: bind_eq_Some_conv)
    then show ?thesis
      using dn Some refused denied [of c i] by_user_Some [OF i] by (auto simp: s_def split: if_split_asm)
  qed
qed

text \<open>
  One step at a time \<open>now\<close>, seen from the swept table \<open>s\<close>: nothing changes; one slot is freed; one live entry is
  changed; or a free slot takes a new entry.
\<close>

inductive changes :: "(string \<Rightarrow> u8 list option) \<Rightarrow> u64 \<Rightarrow> dentry list \<Rightarrow> dv_event \<Rightarrow> dentry list \<Rightarrow> bool" for sha now where
  ch_none: "changes sha now s Other s"
| ch_free: "\<not> live (s ! i) \<Longrightarrow> changes sha now s Other (s[i := dentry_clear])"
| ch_close: "i < length s \<Longrightarrow> live (s ! i) \<Longrightarrow> de_st (s ! i) = ST_DENIED \<Longrightarrow>
    changes sha now s Other (s[i := dentry_clear])"
| ch_token: "i < length s \<Longrightarrow> de_st (s ! i) = ST_APPROVED \<Longrightarrow> Option.bind dc sha = Some (de_secret_hash (s ! i)) \<Longrightarrow>
    changes sha now s (Token dc (de_token (s ! i)) now) (s[i := dentry_clear])"
| ch_wait: "i < length s \<Longrightarrow> de_st (s ! i) = ST_PENDING \<Longrightarrow>
    changes sha now s Other (s[i := (s ! i)\<lparr>de_last_poll_ms := l, de_interval_s := n\<rparr>])"
| ch_approve: "i < length s \<Longrightarrow> de_st (s ! i) = ST_PENDING \<Longrightarrow>
    changes sha now s (Approved (Some (de_user_code (s ! i))) (Some t)) (s[i := (s ! i)\<lparr>de_token := Some t, de_st := ST_APPROVED\<rparr>])"
| ch_deny: "i < length s \<Longrightarrow> de_st (s ! i) = ST_PENDING \<Longrightarrow>
    changes sha now s (Denied (Some (de_user_code (s ! i)))) (s[i := (s ! i)\<lparr>de_st := ST_DENIED\<rparr>])"
| ch_begin: "i < length s \<Longrightarrow> \<not> live (s ! i) \<Longrightarrow> de_st x = ST_PENDING \<Longrightarrow> de_token x = None \<Longrightarrow>
    sha dc = Some (de_secret_hash x) \<Longrightarrow> (\<forall>y \<in> set s. live y \<longrightarrow> de_user_code y \<noteq> de_user_code x) \<Longrightarrow>
    de_source x = snprintf_s 46 source \<Longrightarrow> held live de_source source s < OC_DEVICE_PER_SOURCE \<Longrightarrow>
    changes sha now s (Began dc (de_user_code x) (de_expires_ms x)) (s[i := x])"


text \<open>The operations that change a table do it in one of these ways.\<close>

lemma dv_sweep_frame [simp]: "dv_ttl_ms (dv_sweep now d) = dv_ttl_ms d" by (simp add: dv_sweep_def)

lemma begin_changes:
  assumes "oc_devcodes_begin sha source addr challenge now rnd secret d = (r, d')"
  shows "changes sha now (dv_e (dv_sweep now d))
    (case r of Inl _ \<Rightarrow> Other | Inr (dc, uc) \<Rightarrow> Began dc uc (now + dv_ttl_ms d)) (dv_e d')"
proof (cases r)
  case (Inl n)
  then show ?thesis using begin_Inl [OF assms [unfolded Inl]] by (auto intro: ch_none ch_free)
next
  case (Inr p)
  obtain dc uc where p: "p = (dc, uc)" by (cases p)
  show ?thesis
  proof (rule begin_Inr [OF assms [unfolded Inr p]])
    fix i h ch
    let ?s = "dv_e (dv_sweep now d)" and ?x = "new_entry h uc ch source addr now d"
    assume i: "i < length ?s" "\<not> live (?s ! i)" "sha dc = Some h" "pick_code rnd 0 8 (dv_sweep now d) = Some uc"
      "held live de_source source ?s < OC_DEVICE_PER_SOURCE" "d' = (dv_sweep now d)\<lparr>dv_e := ?s[i := ?x]\<rparr>"
    have "\<forall>y \<in> set ?s. live y \<longrightarrow> de_user_code y \<noteq> uc" using pick_code_unused [OF i(4)] by (simp add: by_user_None)
    then have "changes sha now ?s (Began dc (de_user_code ?x) (de_expires_ms ?x)) (?s[i := ?x])"
      by (intro ch_begin [where source = source]) (use i in \<open>simp_all add: new_entry_def\<close>)
    then show ?thesis using i(6) Inr p by (simp add: new_entry_def)
  qed
qed

lemma poll_changes:
  assumes "oc_devcodes_poll sha dc now d = ((r, tok, iv), d')"
  shows "changes sha now (dv_e (dv_sweep now d)) (if r = OC_DEV_TOKEN then Token dc tok now else Other) (dv_e d')"
  using assms by (cases rule: poll_cases) (auto intro: changes.intros)

lemma approve_changes:
  assumes "oc_devcodes_approve uc tok now d = (r, d')"
  shows "changes sha now (dv_e (dv_sweep now d)) (if r = 0 then Approved uc tok else Other) (dv_e d')"
  using assms by (cases rule: approve_cases) (auto intro: changes.intros)

lemma deny_changes:
  assumes "oc_devcodes_deny uc now d = (r, d')"
  shows "changes sha now (dv_e (dv_sweep now d)) (if r = 0 then Denied uc else Other) (dv_e d')"
  using assms by (cases rule: deny_cases) (auto intro: changes.intros)

lemma find_table: "snd (oc_devcodes_find typed now d) = dv_sweep now d"
  by (simp add: oc_devcodes_find_def Let_def split: option.split)

lemma step_changes:
  assumes "dv_step sha (op, now) d = (e, d')"
  shows "changes sha now (dv_e (dv_sweep now d)) e (dv_e d') \<or> e = Other \<and> dv_e d' = dv_e d"
proof (cases op)
  case (DBegin source addr ch rnd secret)
  obtain r d1 where r: "oc_devcodes_begin sha source addr ch now rnd secret d = (r, d1)" by fastforce
  show ?thesis using assms begin_changes [OF r] by (auto simp: DBegin r split: sum.split_asm)
next
  case (DPoll dc)
  obtain r tok iv d1 where r: "oc_devcodes_poll sha dc now d = ((r, tok, iv), d1)" by (metis prod_cases4 surj_pair)
  show ?thesis using assms poll_changes [OF r] by (simp add: DPoll r)
next
  case (DApprove uc tok)
  obtain r d1 where r: "oc_devcodes_approve uc tok now d = (r, d1)" by fastforce
  show ?thesis using assms approve_changes [OF r, of sha] by (simp add: DApprove r)
next
  case (DDeny uc)
  obtain r d1 where r: "oc_devcodes_deny uc now d = (r, d1)" by fastforce
  show ?thesis using assms deny_changes [OF r, of sha] by (simp add: DDeny r)
next
  case (DFind typed)
  then show ?thesis using assms by (auto simp: find_table intro: ch_none)
qed (use assms in \<open>auto simp: oc_devcodes_set_ttl_def oc_devcodes_set_interval_def\<close>)


section \<open>The invariant over any sequence of operations\<close>

lemma dv_inv_entries: "dv_inv (d\<lparr>dv_e := dv_e d'\<rparr>) \<longleftrightarrow> dv_inv d'"
  by (simp add: dv_inv_def)

lemma live_states [simp]:
  "de_st x = ST_PENDING \<Longrightarrow> live x" "de_st x = ST_APPROVED \<Longrightarrow> live x" "de_st x = ST_DENIED \<Longrightarrow> live x"
  by (simp_all add: live_def)

lemma entry_at_ok: "dv_inv d \<Longrightarrow> i < length (dv_e d) \<Longrightarrow> entry_ok (dv_e d ! i)"
  by (simp add: dv_inv_def list_all_length)

lemma snprintf_full: "length s < n - 1 \<Longrightarrow> snprintf_s n t = s \<longleftrightarrow> t = s"
  by (auto simp: snprintf_s_def)

lemma changes_inv:
  assumes "changes sha now (dv_e d) e ys" "dv_inv d"
  shows "dv_inv (d\<lparr>dv_e := ys\<rparr>)"
  using assms(1)
proof cases
  case (ch_wait i l n)
  show ?thesis unfolding ch_wait(2) using entry_at_ok [OF assms(2) ch_wait(3)] ch_wait(3,4)
    by (intro dv_change_inv [OF assms(2)]) (simp_all add: entry_ok_def live_def)
next
  case (ch_approve i t)
  show ?thesis unfolding ch_approve(2) using ch_approve(3,4)
    by (intro dv_change_inv [OF assms(2)]) (simp_all add: entry_ok_def live_def)
next
  case (ch_deny i)
  show ?thesis unfolding ch_deny(2) using entry_at_ok [OF assms(2) ch_deny(3)] ch_deny(3,4)
    by (intro dv_change_inv [OF assms(2)]) (simp_all add: entry_ok_def live_def)
next
  case (ch_begin i x dc source)
  have "one_each live de_user_code ((dv_e d)[i := x])"
    by (rule one_each_update) (use assms(2) ch_begin(8) in \<open>auto simp: dv_inv_def\<close>)
  moreover have "held live de_source s ((dv_e d)[i := x]) \<le> OC_DEVICE_PER_SOURCE" if "length s < 45" for s
    using held_slot [OF ch_begin(3), of live de_source s x] ch_begin(4,9,10) assms(2) that
    by (auto simp: dv_inv_def snprintf_full split: if_split_asm)
  ultimately show ?thesis
    unfolding ch_begin(2) using assms(2) ch_begin(5,6) by (simp add: dv_inv_def list_all_update entry_ok_def)
qed (use assms(2) in auto)

lemma step_inv_dv:
  assumes "dv_inv d" "dv_step sha (op, now) d = (e, d')"
  shows "dv_inv d'"
  using step_changes [OF assms(2)] changes_inv [OF _ dv_sweep_inv [OF assms(1)], of sha now now e "dv_e d'"] assms(1)
  by (auto simp: dv_inv_def)


section \<open>A token needs an approval\<close>

text \<open>
  The record \<open>log\<close> has at \<open>i\<close> the beginning of a request with the user code \<open>uc\<close>, and up to \<open>k\<close> no other request has
  that code.
\<close>

definition began_at :: "(string \<Rightarrow> u8 list option) \<Rightarrow> dv_event list \<Rightarrow> nat \<Rightarrow> nat \<Rightarrow> u8 list \<Rightarrow> string \<Rightarrow> u64 \<Rightarrow> bool" where
  "began_at sha log i k h uc e \<longleftrightarrow> i < k \<and> (\<exists>dc. log ! i = Began dc uc e \<and> sha dc = Some h) \<and>
     (\<forall>m. i < m \<and> m < k \<longrightarrow> (\<forall>dc e. log ! m \<noteq> Began dc uc e))"

text \<open>Where a live entry comes from.\<close>

definition traced :: "(string \<Rightarrow> u8 list option) \<Rightarrow> dv_event list \<Rightarrow> dentry \<Rightarrow> bool" where
  "traced sha log x \<longleftrightarrow>
     (\<exists>i. began_at sha log i (length log) (de_secret_hash x) (de_user_code x) (de_expires_ms x) \<and>
       (de_st x \<noteq> ST_DENIED \<longrightarrow> (\<forall>m. i < m \<and> m < length log \<longrightarrow> log ! m \<noteq> Denied (Some (de_user_code x)))) \<and>
       (\<forall>t. de_token x = Some t \<longrightarrow> (\<exists>j. i < j \<and> j < length log \<and> log ! j = Approved (Some (de_user_code x)) (Some t))))"

text \<open>What a token in the record rests on.\<close>

definition justified :: "(string \<Rightarrow> u8 list option) \<Rightarrow> dv_event list \<Rightarrow> nat \<Rightarrow> bool" where
  "justified sha log k \<longleftrightarrow>
     (\<forall>dc tok now. log ! k = Token dc tok now \<longrightarrow>
       (\<exists>i j h uc e t. began_at sha log i k h uc e \<and> Option.bind dc sha = Some h \<and> now < e \<and>
          i < j \<and> j < k \<and> log ! j = Approved (Some uc) (Some t) \<and> tok = Some t \<and>
          (\<forall>m. i < m \<and> m < k \<longrightarrow> log ! m \<noteq> Denied (Some uc))))"

definition begins :: "(string \<Rightarrow> u8 list option) \<Rightarrow> u8 list \<Rightarrow> dv_event list \<Rightarrow> nat" where
  "begins sha h log = length (filter (\<lambda>e. case e of Began dc _ _ \<Rightarrow> sha dc = Some h | _ \<Rightarrow> False) log)"

definition tokens :: "(string \<Rightarrow> u8 list option) \<Rightarrow> u8 list \<Rightarrow> dv_event list \<Rightarrow> nat" where
  "tokens sha h log = length (filter (\<lambda>e. case e of Token dc _ _ \<Rightarrow> Option.bind dc sha = Some h | _ \<Rightarrow> False) log)"

definition dv_log :: "(string \<Rightarrow> u8 list option) \<Rightarrow> dv_event list \<Rightarrow> oc_devcodes \<Rightarrow> bool" where
  "dv_log sha log d \<longleftrightarrow> dv_inv d \<and> (\<forall>x \<in> set (dv_e d). live x \<longrightarrow> traced sha log x) \<and>
     (\<forall>k < length log. justified sha log k) \<and>
     (\<forall>h. tokens sha h log + held live de_secret_hash h (dv_e d) \<le> begins sha h log)"

lemma began_at_snoc:
  "k \<le> length log \<Longrightarrow> began_at sha (log @ [ev]) i k h uc e \<longleftrightarrow> began_at sha log i k h uc e"
  by (auto simp: began_at_def nth_append)

lemma began_at_Suc:
  "began_at sha log i (length log) h uc e \<Longrightarrow> (\<And>dc e. ev \<noteq> Began dc uc e) \<Longrightarrow>
    began_at sha (log @ [ev]) i (Suc (length log)) h uc e"
  by (auto simp: began_at_def nth_append less_Suc_eq)

lemma justified_snoc: "k < length log \<Longrightarrow> justified sha (log @ [ev]) k \<longleftrightarrow> justified sha log k"
  unfolding justified_def by (simp add: nth_append began_at_snoc cong: conj_cong)

lemma traced_snoc:
  assumes "traced sha log x" "\<And>dc e. ev \<noteq> Began dc (de_user_code x) e"
    "de_st y \<noteq> ST_DENIED \<Longrightarrow> de_st x \<noteq> ST_DENIED \<and> ev \<noteq> Denied (Some (de_user_code x))"
    "de_secret_hash y = de_secret_hash x" "de_user_code y = de_user_code x" "de_expires_ms y = de_expires_ms x"
    "de_token y = de_token x \<or> (\<exists>t. de_token y = Some t \<and> ev = Approved (Some (de_user_code x)) (Some t))"
  shows "traced sha (log @ [ev]) y"
proof -
  from assms(1) obtain i where i: "began_at sha log i (length log) (de_secret_hash x) (de_user_code x) (de_expires_ms x)"
    "de_st x \<noteq> ST_DENIED \<longrightarrow> (\<forall>m. i < m \<and> m < length log \<longrightarrow> log ! m \<noteq> Denied (Some (de_user_code x)))"
    "\<forall>t. de_token x = Some t \<longrightarrow> (\<exists>j. i < j \<and> j < length log \<and> log ! j = Approved (Some (de_user_code x)) (Some t))"
    by (auto simp: traced_def)
  have len: "i < length log" using i(1) by (simp add: began_at_def)
  have "\<exists>j. i < j \<and> j < Suc (length log) \<and> (log @ [ev]) ! j = Approved (Some (de_user_code x)) (Some t)"
    if tok: "de_token y = Some t" for t
    using assms(7)
  proof (elim disjE)
    assume "de_token y = de_token x"
    then have "de_token x = Some t" using tok by simp
    then obtain j where "i < j" "j < length log" "log ! j = Approved (Some (de_user_code x)) (Some t)" using i(3) by blast
    then show ?thesis by (intro exI [of _ j]) (simp add: nth_append)
  next
    assume "\<exists>t. de_token y = Some t \<and> ev = Approved (Some (de_user_code x)) (Some t)"
    then show ?thesis using tok len by (intro exI [of _ "length log"]) auto
  qed
  moreover have "de_st y \<noteq> ST_DENIED \<longrightarrow>
      (\<forall>m. i < m \<and> m < Suc (length log) \<longrightarrow> (log @ [ev]) ! m \<noteq> Denied (Some (de_user_code x)))"
    using i(2) assms(3) by (auto simp: nth_append less_Suc_eq)
  ultimately show ?thesis
    unfolding traced_def using began_at_Suc [OF i(1) assms(2)] by (intro exI [of _ i]) (simp add: assms(4-6))
qed


lemma traced_update:
  assumes old: "\<forall>x \<in> set s. live x \<longrightarrow> traced sha log x" and new: "live y \<Longrightarrow> traced sha (log @ [ev]) y"
    and silent: "\<And>j. j < length s \<Longrightarrow> j \<noteq> i \<Longrightarrow> live (s ! j) \<Longrightarrow>
      (\<forall>dc e. ev \<noteq> Began dc (de_user_code (s ! j)) e) \<and> ev \<noteq> Denied (Some (de_user_code (s ! j)))"
  shows "\<forall>x \<in> set (s[i := y]). live x \<longrightarrow> traced sha (log @ [ev]) x"
proof (intro ballI impI)
  fix x assume x: "x \<in> set (s[i := y])" "live x"
  then obtain j where j: "j < length s" "s[i := y] ! j = x" by (auto simp: in_set_conv_nth)
  show "traced sha (log @ [ev]) x"
  proof (cases "j = i")
    case True
    then show ?thesis using new j x(2) by simp
  next
    case False
    then have sj: "s ! j = x" using j by simp
    then show ?thesis using old silent [OF j(1) False] j(1) x(2) by (intro traced_snoc [of sha log x]) auto
  qed
qed

lemma traced_same:
  "\<forall>x \<in> set s. live x \<longrightarrow> traced sha log x \<Longrightarrow> (\<And>dc uc e. ev \<noteq> Began dc uc e) \<Longrightarrow> (\<And>uc. ev \<noteq> Denied uc) \<Longrightarrow>
    x \<in> set s \<Longrightarrow> live x \<Longrightarrow> traced sha (log @ [ev]) x"
  by (rule traced_snoc [of sha log x]) auto

lemma changes_traced:
  assumes "changes sha now (dv_e d) ev ys" "dv_inv d" and old: "\<forall>x \<in> set (dv_e d). live x \<longrightarrow> traced sha log x"
  shows "\<forall>x \<in> set ys. live x \<longrightarrow> traced sha (log @ [ev]) x"
  using assms(1)
proof cases
  case ch_none
  then show ?thesis using traced_same [OF old] by simp
next
  case (ch_wait i l n)
  show ?thesis unfolding ch_wait(1,2)
    by (intro traced_update [OF old] traced_snoc [of sha log "dv_e d ! i"]) (use old ch_wait in auto)
next
  case (ch_approve i t)
  show ?thesis unfolding ch_approve(1,2)
    by (intro traced_update [OF old] traced_snoc [of sha log "dv_e d ! i"]) (use old ch_approve in auto)
next
  case (ch_deny i)
  have one: "one_each live de_user_code (dv_e d)" using assms(2) by (simp add: dv_inv_def)
  show ?thesis unfolding ch_deny(1,2)
    by (intro traced_update [OF old] traced_snoc [of sha log "dv_e d ! i"])
      (use old ch_deny one_eachD [OF one ch_deny(3)] in \<open>auto dest!: sym [of "Some _"]\<close>)
next
  case (ch_begin i x dc source)
  have "traced sha (log @ [ev]) x" unfolding traced_def
    by (rule exI [of _ "length log"]) (use ch_begin in \<open>auto simp: began_at_def\<close>)
  then show ?thesis unfolding ch_begin(2)
    by (rule traced_update [OF old]) (use ch_begin in auto)
next
  case (ch_free i)
  show ?thesis unfolding ch_free(1,2) by (rule traced_update [OF old]) simp_all
next
  case (ch_close i)
  show ?thesis unfolding ch_close(1,2) by (rule traced_update [OF old]) simp_all
next
  case (ch_token i dc)
  show ?thesis unfolding ch_token(1,2) by (rule traced_update [OF old]) simp_all
qed


lemma held_free: "held used key k (s[i := blank]) \<le> held used key k s" if "\<not> used blank" for used
  using that held_slot [of i s used key k blank] by (cases "i < length s") (auto simp: list_update_beyond)

lemma changes_balance:
  assumes "changes sha now s ev ys" "tokens sha h log + held live de_secret_hash h s \<le> begins sha h log"
  shows "tokens sha h (log @ [ev]) + held live de_secret_hash h ys \<le> begins sha h (log @ [ev])"
proof -
  have same: "held live de_secret_hash h (s[i := y]) = held live de_secret_hash h s"
    if "i < length s" "live (s ! i)" "live y" "de_secret_hash y = de_secret_hash (s ! i)" for i y
    using held_slot [OF that(1), of live de_secret_hash h y] that by simp
  note free = held_free [of live dentry_clear de_secret_hash h s]
  show ?thesis using assms(1)
  proof cases
    case (ch_token i dc)
    then show ?thesis using assms(2) held_slot [OF ch_token(3), of live de_secret_hash h dentry_clear]
      by (auto simp: tokens_def begins_def split: if_split_asm)
  next
    case (ch_begin i x dc source)
    then show ?thesis using assms(2) held_slot [OF ch_begin(3), of live de_secret_hash h x]
      by (auto simp: tokens_def begins_def split: if_split_asm)
  next
    case (ch_wait i l n)
    then show ?thesis using assms(2) same [OF ch_wait(3)] by (simp add: tokens_def begins_def live_def)
  next
    case (ch_approve i t)
    then show ?thesis using assms(2) same [OF ch_approve(3)] by (simp add: tokens_def begins_def live_def)
  next
    case (ch_deny i)
    then show ?thesis using assms(2) same [OF ch_deny(3)] by (simp add: tokens_def begins_def live_def)
  qed (use assms(2) free in \<open>auto simp: tokens_def begins_def intro: order_trans [OF add_left_mono [OF free]]\<close>)
qed

lemma changes_justified:
  assumes "changes sha now (dv_e d) ev ys" "dv_inv d" and old: "\<forall>x \<in> set (dv_e d). live x \<longrightarrow> traced sha log x"
    and unexpired: "\<forall>x \<in> set (dv_e d). live x \<longrightarrow> now < de_expires_ms x"
  shows "justified sha (log @ [ev]) (length log)"
  using assms(1)
proof cases
  case (ch_token i dc)
  let ?x = "dv_e d ! i"
  have x: "?x \<in> set (dv_e d)" "live ?x" "de_st ?x \<noteq> ST_DENIED" using ch_token by auto
  have "entry_ok ?x" using entry_at_ok [OF assms(2) ch_token(3)] .
  then obtain t where t: "de_token ?x = Some t" using ch_token(4) by (auto simp: entry_ok_def)
  from old x obtain k where k: "began_at sha log k (length log) (de_secret_hash ?x) (de_user_code ?x) (de_expires_ms ?x)"
    "\<forall>m. k < m \<and> m < length log \<longrightarrow> log ! m \<noteq> Denied (Some (de_user_code ?x))"
    "\<exists>j. k < j \<and> j < length log \<and> log ! j = Approved (Some (de_user_code ?x)) (Some t)"
    using t unfolding traced_def by blast
  from k(3) obtain j where j: "k < j" "j < length log" "log ! j = Approved (Some (de_user_code ?x)) (Some t)" by blast
  have "now < de_expires_ms ?x" using unexpired x by blast
  then show ?thesis unfolding justified_def
    by (intro allI impI exI [of _ k] exI [of _ j] exI [of _ "de_secret_hash ?x"] exI [of _ "de_user_code ?x"]
        exI [of _ "de_expires_ms ?x"] exI [of _ t])
      (use ch_token(1,5) j k(1,2) t in \<open>auto simp: nth_append began_at_snoc\<close>)
qed (simp_all add: justified_def)

lemma sweep_unexpired: "x \<in> set (dv_e (dv_sweep now d)) \<Longrightarrow> live x \<Longrightarrow> x \<in> set (dv_e d) \<and> now < de_expires_ms x"
  using set_sweep [of "\<lambda>x. live x \<and> de_expires_ms x \<le> now" dentry_clear "dv_e d"] by (auto simp: dv_sweep_def)

lemma dv_log_step:
  assumes log: "dv_log sha log d" and step: "dv_step sha (op, now) d = (ev, d')"
  shows "dv_log sha (log @ [ev]) d'"
proof -
  let ?s = "dv_sweep now d"
  have inv: "dv_inv d" "dv_inv ?s" using log by (auto simp: dv_log_def)
  have traced: "\<forall>x \<in> set (dv_e d). live x \<longrightarrow> traced sha log x" using log by (simp add: dv_log_def)
  have swept: "\<forall>x \<in> set (dv_e ?s). live x \<longrightarrow> traced sha log x" "\<forall>x \<in> set (dv_e ?s). live x \<longrightarrow> now < de_expires_ms x"
    using traced sweep_unexpired [of _ now d] by blast+
  have bal: "tokens sha h log + held live de_secret_hash h (dv_e d) \<le> begins sha h log" for h
    using log by (simp add: dv_log_def)
  have bal': "tokens sha h log + held live de_secret_hash h (dv_e ?s) \<le> begins sha h log" for h
    using bal [of h] held_sweep [of live dentry_clear de_secret_hash h "\<lambda>x. live x \<and> de_expires_ms x \<le> now" "dv_e d"]
    by (simp add: dv_sweep_def)
  have past: "\<forall>k < length log. justified sha (log @ [ev]) k" using log by (simp add: dv_log_def justified_snoc)
  consider (moved) "changes sha now (dv_e ?s) ev (dv_e d')" | (same) "ev = Other" "dv_e d' = dv_e d"
    using step_changes [OF step] by blast
  then show ?thesis
  proof cases
    case moved
    then show ?thesis using step_inv_dv [OF inv(1) step] changes_traced [OF moved inv(2) swept(1)]
        changes_balance [OF moved bal'] changes_justified [OF moved inv(2) swept] past
      by (simp add: dv_log_def less_Suc_eq)
  next
    case same
    then show ?thesis using step_inv_dv [OF inv(1) step] traced_same [OF traced, of Other] bal past
      by (auto simp: dv_log_def less_Suc_eq justified_def tokens_def begins_def)
  qed
qed

interpretation devices: recorder "dv_step sha" "\<lambda>_. True" "dv_log sha" for sha
  by unfold_locales (auto dest: dv_log_step)

lemma dv_log_new: "dv_log sha [] oc_devcodes_new"
  using dv_new_inv by (auto simp: dv_log_def tokens_def begins_def oc_devcodes_new_def held_def)


section \<open>How many requests a source holds\<close>

text \<open>
  A source is compared in full with what the table holds and stored in 46 bytes. The caller's buffer for it has the
  same size, so that what it passes is stored whole.
\<close>

abbreviation OC_SRC_LEN :: nat where "OC_SRC_LEN \<equiv> 46"

fun short_source :: "dv_op \<times> u64 \<Rightarrow> bool" where
  "short_source (DBegin source addr ch rnd secret, now) \<longleftrightarrow> length source < OC_SRC_LEN"
| "short_source _ \<longleftrightarrow> True"

definition sources_ok :: "dentry list \<Rightarrow> bool" where
  "sources_ok xs \<longleftrightarrow> (\<forall>s. held live de_source s xs \<le> OC_DEVICE_PER_SOURCE)"

lemma sources_change:
  assumes "sources_ok xs" "live y \<Longrightarrow> i < length xs \<Longrightarrow> live (xs ! i) \<and> de_source (xs ! i) = de_source y"
  shows "sources_ok (xs[i := y])"
proof (cases "i < length xs")
  case True
  have "held live de_source s (xs[i := y]) \<le> held live de_source s xs" for s
    using held_slot [OF True, of live de_source s y] assms(2) True by (cases "live y \<and> de_source y = s") auto
  then show ?thesis using assms(1) unfolding sources_ok_def by (meson order_trans)
qed (use assms(1) in \<open>simp add: list_update_beyond\<close>)

lemma sources_sweep: "sources_ok (dv_e d) \<Longrightarrow> sources_ok (dv_e (dv_sweep now d))"
  unfolding sources_ok_def dv_sweep_def using held_sweep [of live dentry_clear de_source _ _ "dv_e d"]
  by (auto intro: order_trans)

lemma changes_sources:
  assumes "changes sha now xs e ys" "sources_ok xs" "\<And>dc uc t. e \<noteq> Began dc uc t"
  shows "sources_ok ys"
  using assms(1) by cases (use assms(2,3) in \<open>auto intro!: sources_change\<close>)

lemma begin_sources:
  assumes "oc_devcodes_begin sha source addr challenge now rnd secret d = (r, d')" "sources_ok (dv_e d)" "length source < OC_SRC_LEN"
  shows "sources_ok (dv_e d')"
proof (cases r)
  case (Inl n)
  then show ?thesis using begin_Inl [OF assms(1) [unfolded Inl]] sources_sweep [OF assms(2), of now] by (auto intro!: sources_change)
next
  case (Inr p)
  obtain dc uc where p: "p = (dc, uc)" by (cases p)
  obtain i h ch where i: "i < length (dv_e (dv_sweep now d))" "\<not> live (dv_e (dv_sweep now d) ! i)"
    and room: "held live de_source source (dv_e (dv_sweep now d)) < OC_DEVICE_PER_SOURCE"
    and d': "d' = (dv_sweep now d)\<lparr>dv_e := (dv_e (dv_sweep now d))[i := new_entry h uc ch source addr now d]\<rparr>"
    by (rule begin_Inr [OF assms(1) [unfolded Inr p]])
  have "de_source (new_entry h uc ch source addr now d) = source" using assms(3) by (simp add: new_entry_def snprintf_s_def)
  then have "held live de_source s (dv_e d') \<le> OC_DEVICE_PER_SOURCE" for s
    using held_slot [OF i(1), of live de_source s "new_entry h uc ch source addr now d"] i(2) room
      sources_sweep [OF assms(2), of now] by (cases "s = source") (auto simp: d' sources_ok_def)
  then show ?thesis by (simp add: sources_ok_def)
qed

lemma step_sources:
  assumes "sources_ok (dv_e d)" "short_source (op, now)" "dv_step sha (op, now) d = (e, d')"
  shows "sources_ok (dv_e d')"
proof (cases "\<exists>source addr ch rnd secret. op = DBegin source addr ch rnd secret")
  case True
  then obtain source addr ch rnd secret where op: "op = DBegin source addr ch rnd secret" by blast
  have "d' = snd (oc_devcodes_begin sha source addr ch now rnd secret d)"
    using assms(3) by (auto simp: op split: prod.splits sum.splits)
  then show ?thesis using begin_sources [OF prod.collapse [symmetric] assms(1)] assms(2) op by simp
next
  case False
  have "e \<noteq> Began dc uc t" for dc uc t
    using assms(3) False by (cases op) (auto split: prod.splits if_splits)
  then show ?thesis
    using step_changes [OF assms(3)] changes_sources [OF _ sources_sweep [OF assms(1), of now]] assms(1) by metis
qed

interpretation sources: recorder "dv_step sha" short_source "\<lambda>_ d. sources_ok (dv_e d)" for sha
  by unfold_locales (auto dest: step_sources)

text \<open>
  C20: whatever is begun, polled, found, approved, denied or configured, in any order and at any time: the table keeps
  its 256 slots, no two live requests share a user code, and exactly the approved requests hold a token. When every source
  passed in has at most 45 characters, as the daemon's keys have, no source holds more than five live requests. (A longer
  one would be stored cut, never be found equal to what is stored, and so not be limited; requests stored under a source
  of fewer than 45 characters stay limited in any case.)\<close>

theorem device_table_inv:
  assumes "run_log (dv_step sha) ops oc_devcodes_new = (log, d)"
  shows "length (dv_e d) = OC_DEVICE_MAX \<and>
    (\<forall>i < OC_DEVICE_MAX. \<forall>j < OC_DEVICE_MAX. live (dv_e d ! i) \<and> live (dv_e d ! j) \<and>
       de_user_code (dv_e d ! i) = de_user_code (dv_e d ! j) \<longrightarrow> i = j) \<and>
    (\<forall>x \<in> set (dv_e d). de_token x \<noteq> None \<longleftrightarrow> de_st x = ST_APPROVED) \<and>
    (\<forall>s. list_all short_source ops \<or> length s < 45 \<longrightarrow>
       length (filter (\<lambda>x. live x \<and> de_source x = s) (dv_e d)) \<le> OC_DEVICE_PER_SOURCE)"
proof -
  have inv: "dv_inv d" using devices.run_inv [OF dv_log_new _ assms] by (simp add: dv_log_def list_all_iff)
  have "sources_ok (dv_e oc_devcodes_new)" by (simp add: sources_ok_def held_def oc_devcodes_new_def)
  then have "sources_ok (dv_e d)" if "list_all short_source ops" using sources.run_inv [OF _ that assms] by simp
  then show ?thesis using inv
    by (auto simp: dv_inv_def one_each_def entry_ok_def list_all_iff sources_ok_def held_def)
qed

text \<open>
  C3: a poll that is handed a token belongs to a request that was begun earlier with the device code of the same hash
  and has not expired, whose user code a person approved with exactly that token after the request began and did not
  deny, and whose user code no other request was given in the meantime. Over the whole record no device code gets
  more tokens than requests were begun with it.\<close>

theorem token_needs_approval:
  assumes run: "run_log (dv_step sha) ops oc_devcodes_new = (log, d)"
    and k: "k < length log" "log ! k = Token dc tok now"
  shows "\<exists>i j h uc e t. began_at sha log i k h uc e \<and> Option.bind dc sha = Some h \<and> now < e \<and>
      i < j \<and> j < k \<and> log ! j = Approved (Some uc) (Some t) \<and> tok = Some t \<and>
      (\<forall>m. i < m \<and> m < k \<longrightarrow> log ! m \<noteq> Denied (Some uc)) \<and> tokens sha h log \<le> begins sha h log"
proof -
  have log: "dv_log sha log d" using devices.run_inv [OF dv_log_new _ run] by (simp add: list_all_iff)
  then have "tokens sha h log \<le> begins sha h log" for h by (auto simp: dv_log_def dest: add_leD1)
  moreover have "justified sha log k" using log k(1) by (simp add: dv_log_def)
  ultimately show ?thesis using k(2) unfolding justified_def by blast
qed

definition demo_sha :: "string \<Rightarrow> u8 list option" where
  "demo_sha s = Some (map (\<lambda>c. of_nat (of_char c)) s)"

definition demo_ops :: "(dv_op \<times> u64) list" where
  "demo_ops = [(DBegin ''10.0.0.1'' ''10.0.0.1'' (Some ''c'') (\<lambda>_. Some [0, 1, 2, 3, 4, 5, 6, 7]) (Some [1, 2, 3]), 1000),
     (DPoll (Some ''AQID''), 2000), (DApprove (Some ''BCDF-GHJK'') (Some ''tok''), 3000), (DPoll (Some ''AQID''), 4000)]"

lemma demo_run: "fst (run_log (dv_step demo_sha) demo_ops oc_devcodes_new) =
    [Began ''AQID'' ''BCDF-GHJK'' 601000, Other, Approved (Some ''BCDF-GHJK'') (Some ''tok''), Token (Some ''AQID'') (Some ''tok'') 4000]"
  by code_simp


theorem device_table_inv_witness:
  "\<exists>log d. run_log (dv_step demo_sha) (take 3 demo_ops) oc_devcodes_new = (log, d) \<and> de_st (dv_e d ! 0) = ST_APPROVED \<and>
    length (filter (\<lambda>x. live x \<and> de_source x = ''10.0.0.1'') (dv_e d)) \<le> OC_DEVICE_PER_SOURCE"
proof -
  obtain log d where run: "run_log (dv_step demo_sha) (take 3 demo_ops) oc_devcodes_new = (log, d)" by fastforce
  have "de_st (dv_e (snd (run_log (dv_step demo_sha) (take 3 demo_ops) oc_devcodes_new)) ! 0) = ST_APPROVED" by code_simp
  moreover have "list_all short_source (take 3 demo_ops)" by (simp add: demo_ops_def)
  ultimately show ?thesis using device_table_inv [OF run] run by auto
qed

text \<open>The log of the run.\<close>

theorem token_needs_approval_witness:
  "\<exists>log. log ! 3 = Token (Some ''AQID'') (Some ''tok'') 4000 \<and> length log = 4 \<and>
    (\<exists>i j h uc e t. began_at demo_sha log i 3 h uc e \<and> Option.bind (Some ''AQID'') demo_sha = Some h \<and> 4000 < e \<and>
      i < j \<and> j < 3 \<and> log ! j = Approved (Some uc) (Some t) \<and> Some ''tok'' = Some t \<and>
      tokens demo_sha h log \<le> begins demo_sha h log)"
proof -
  obtain log d where run: "run_log (dv_step demo_sha) demo_ops oc_devcodes_new = (log, d)" by fastforce
  have len: "length log = 4" and k: "3 < length log" "log ! 3 = Token (Some ''AQID'') (Some ''tok'') 4000"
    using demo_run by (simp_all add: run)
  show ?thesis using token_needs_approval [OF run k] len k(2) by blast
qed

section \<open>An approved request is served\<close>

definition request_at :: "nat \<Rightarrow> u8 list \<Rightarrow> string \<Rightarrow> u64 \<Rightarrow> string \<Rightarrow> dstate \<Rightarrow> string option \<Rightarrow> oc_devcodes \<Rightarrow> bool" where
  "request_at i h uc e ch st tok d \<longleftrightarrow> i < length (dv_e d) \<and> st \<noteq> ST_FREE \<and> st \<noteq> ST_DENIED \<and>
     de_secret_hash (dv_e d ! i) = h \<and> de_user_code (dv_e d ! i) = uc \<and> de_expires_ms (dv_e d ! i) = e \<and>
     de_challenge (dv_e d ! i) = ch \<and> de_st (dv_e d ! i) = st \<and> de_token (dv_e d ! i) = tok \<and>
     (\<forall>j < length (dv_e d). j \<noteq> i \<and> live (dv_e d ! j) \<longrightarrow> de_user_code (dv_e d ! j) \<noteq> uc \<and> de_secret_hash (dv_e d ! j) \<noteq> h)"

text \<open>The answers that end a request or make its codes ambiguous.\<close>

fun disturbs :: "(string \<Rightarrow> u8 list option) \<Rightarrow> u8 list \<Rightarrow> string \<Rightarrow> dv_event \<Rightarrow> bool" where
  "disturbs sha h uc (Began dc _ _) \<longleftrightarrow> sha dc = Some h"
| "disturbs sha h uc (Token dc _ _) \<longleftrightarrow> Option.bind dc sha = Some h"
| "disturbs sha h uc (Approved c _) \<longleftrightarrow> c = Some uc"
| "disturbs sha h uc (Denied c) \<longleftrightarrow> c = Some uc"
| "disturbs sha h uc Other \<longleftrightarrow> False"

lemma request_sweep: "request_at i h uc e ch st tok d \<Longrightarrow> now < e \<Longrightarrow> request_at i h uc e ch st tok (dv_sweep now d)"
  by (auto simp: request_at_def dv_sweep_def sweep_slots_def)

lemma request_write:
  assumes "request_at i h uc e ch st tok d" "j \<noteq> i" "live y \<Longrightarrow> de_user_code y \<noteq> uc \<and> de_secret_hash y \<noteq> h"
  shows "request_at i h uc e ch st tok (d\<lparr>dv_e := (dv_e d)[j := y]\<rparr>)"
proof -
  have "de_user_code ((dv_e d)[j := y] ! m) \<noteq> uc \<and> de_secret_hash ((dv_e d)[j := y] ! m) \<noteq> h"
    if "m < length (dv_e d)" "m \<noteq> i" "live ((dv_e d)[j := y] ! m)" for m
    using that assms by (cases "m = j") (auto simp: request_at_def)
  then show ?thesis using assms(1,2) by (simp add: request_at_def)
qed

lemma request_live: "request_at i h uc e ch st tok d \<Longrightarrow> live (dv_e d ! i)"
  by (simp add: request_at_def live_def)

lemma request_changes:
  assumes at: "request_at i h uc e ch st tok d" and "changes sha now (dv_e d) ev ys" "\<not> disturbs sha h uc ev"
  shows "request_at i h uc e ch st tok (d\<lparr>dv_e := ys\<rparr>)"
  using assms(2)
proof cases
  case (ch_wait j l n)
  show ?thesis
  proof (cases "j = i")
    case True
    then show ?thesis using at ch_wait by (auto simp: request_at_def nth_list_update)
  next
    case False
    then show ?thesis unfolding ch_wait(2) using at ch_wait(3,4)
      by (intro request_write [OF at]) (auto simp: request_at_def)
  qed
next
  case (ch_begin j x dc source)
  have "dv_e d ! i \<in> set (dv_e d)" "live (dv_e d ! i)" using at request_live [OF at] by (auto simp: request_at_def)
  then show ?thesis unfolding ch_begin(2) using at ch_begin(4,7,8) assms(3) ch_begin(1)
    by (intro request_write [OF at]) (auto simp: request_at_def)
next
  case (ch_token j dc)
  show ?thesis unfolding ch_token(2) by (rule request_write [OF at]) (use at ch_token assms(3) in \<open>auto simp: request_at_def\<close>)
next
  case (ch_approve j t)
  show ?thesis unfolding ch_approve(2) by (rule request_write [OF at]) (use at ch_approve assms(3) in \<open>auto simp: request_at_def\<close>)
next
  case (ch_deny j)
  show ?thesis unfolding ch_deny(2) by (rule request_write [OF at]) (use at ch_deny assms(3) in \<open>auto simp: request_at_def\<close>)
next
  case (ch_free j)
  show ?thesis unfolding ch_free(2) by (rule request_write [OF at]) (use request_live [OF at] ch_free in auto)
next
  case (ch_close j)
  show ?thesis unfolding ch_close(2) by (rule request_write [OF at]) (use at ch_close in \<open>auto simp: request_at_def\<close>)
qed (use at in simp)

lemma request_step:
  assumes at: "request_at i h uc e ch st tok d" and "now < e" "dv_step sha (op, now) d = (ev, d')" "\<not> disturbs sha h uc ev"
  shows "request_at i h uc e ch st tok d'"
proof -
  have "request_at i h uc e ch st tok ((dv_sweep now d)\<lparr>dv_e := dv_e d'\<rparr>)" if "changes sha now (dv_e (dv_sweep now d)) ev (dv_e d')"
    by (rule request_changes [OF request_sweep [OF at assms(2)] that assms(4)])
  then show ?thesis using step_changes [OF assms(3)] at by (auto simp: request_at_def)
qed

interpretation request: recorder "dv_step sha" "\<lambda>(op, now). now < e"
    "\<lambda>log d. list_ex (disturbs sha h uc) log \<or> request_at i h uc e ch st tok d" for sha i h uc e ch st tok
  by unfold_locales (auto dest: request_step)

lemma first_index_only:
  "i < length xs \<Longrightarrow> P (xs ! i) \<Longrightarrow> (\<And>j. j < length xs \<Longrightarrow> j \<noteq> i \<Longrightarrow> \<not> P (xs ! j)) \<Longrightarrow> first_index P xs = Some i"
proof (cases "first_index P xs")
  case None
  then show "i < length xs \<Longrightarrow> P (xs ! i) \<Longrightarrow> ?thesis" by (simp add: first_index_None list_ex_length)
next
  case (Some j)
  then show "(\<And>j. j < length xs \<Longrightarrow> j \<noteq> i \<Longrightarrow> \<not> P (xs ! j)) \<Longrightarrow> ?thesis" using first_index_Some [OF Some] by blast
qed

lemma request_index:
  assumes "request_at i h uc e ch st tok d"
  shows "by_user uc d = Some i" "first_index (\<lambda>x. live x \<and> de_secret_hash x = h) (dv_e d) = Some i"
proof -
  have i: "i < length (dv_e d)" "live (dv_e d ! i)" "de_user_code (dv_e d ! i) = uc" "de_secret_hash (dv_e d ! i) = h"
    using assms request_live [OF assms] by (simp_all add: request_at_def)
  have others: "j < length (dv_e d) \<Longrightarrow> j \<noteq> i \<Longrightarrow> \<not> (live (dv_e d ! j) \<and> de_user_code (dv_e d ! j) = uc)"
    "j < length (dv_e d) \<Longrightarrow> j \<noteq> i \<Longrightarrow> \<not> (live (dv_e d ! j) \<and> de_secret_hash (dv_e d ! j) = h)" for j
    using assms by (auto simp: request_at_def)
  show "by_user uc d = Some i" unfolding by_user_def by (rule first_index_only) (use i others(1) in auto)
  show "first_index (\<lambda>x. live x \<and> de_secret_hash x = h) (dv_e d) = Some i"
    by (rule first_index_only) (use i others(2) in auto)
qed

text \<open>The four moments of a request.\<close>

lemma begin_request:
  assumes beg: "oc_devcodes_begin sha source addr challenge now rnd secret d = (Inr (dc, uc), d')"
    and h: "sha dc = Some h" "list_all (\<lambda>x. live x \<longrightarrow> de_secret_hash x \<noteq> h) (dv_e d)"
  obtains i ch where "challenge = Some ch" "request_at i h uc (now + dv_ttl_ms d) ch ST_PENDING None d'"
    "pick_code rnd 0 8 (dv_sweep now d) = Some uc"
proof (rule begin_Inr [OF beg])
  fix i h' ch
  let ?s = "dv_e (dv_sweep now d)"
  assume i: "i < length ?s" "\<not> live (?s ! i)" "sha dc = Some h'" "pick_code rnd 0 8 (dv_sweep now d) = Some uc"
    "challenge = Some ch" "d' = (dv_sweep now d)\<lparr>dv_e := ?s[i := new_entry h' uc ch source addr now d]\<rparr>"
  have "\<forall>j < length ?s. live (?s ! j) \<longrightarrow> de_user_code (?s ! j) \<noteq> uc \<and> de_secret_hash (?s ! j) \<noteq> h"
    using pick_code_unused [OF i(4)] sweep_unexpired [of _ now d] h(2) by (auto simp: by_user_None list_all_iff)
  then have "request_at i h uc (now + dv_ttl_ms d) ch ST_PENDING None d'"
    using i h(1) by (auto simp: request_at_def new_entry_def)
  then show ?thesis using that i(4,5) by blast
qed

lemma find_request:
  assumes at: "request_at i h uc e ch ST_PENDING tok d" "now < e"
    and uc: "code_letters k" "uc = user_code_text k" "typed_letters typed = typed_letters uc"
  shows "\<exists>x. fst (oc_devcodes_find typed now d) = Some x \<and> de_user_code x = uc \<and> de_challenge x = ch"
proof -
  note at = request_sweep [OF at]
  have "oc_user_code_normalise typed = Some uc" unfolding normalise_exact using uc typed_code by auto
  then show ?thesis using at request_index(1) [OF at] by (simp add: oc_devcodes_find_def Let_def request_at_def)
qed

lemma approve_request:
  assumes at: "request_at i h uc e ch ST_PENDING tok d" "now < e"
  shows "fst (oc_devcodes_approve (Some uc) (Some t) now d) = 0"
    "request_at i h uc e ch ST_APPROVED (Some t) (snd (oc_devcodes_approve (Some uc) (Some t) now d))"
proof -
  note at = request_sweep [OF at]
  have ap: "oc_devcodes_approve (Some uc) (Some t) now d = (0, (dv_sweep now d)\<lparr>dv_e := (dv_e (dv_sweep now d))
      [i := (dv_e (dv_sweep now d) ! i)\<lparr>de_token := Some t, de_st := ST_APPROVED\<rparr>]\<rparr>)"
    using at request_index(1) [OF at] by (simp add: oc_devcodes_approve_def Let_def request_at_def)
  show "fst (oc_devcodes_approve (Some uc) (Some t) now d) = 0" by (simp add: ap)
  show "request_at i h uc e ch ST_APPROVED (Some t) (snd (oc_devcodes_approve (Some uc) (Some t) now d))"
    using at by (auto simp: ap request_at_def nth_list_update)
qed

lemma poll_request:
  assumes at: "request_at i h uc e ch ST_APPROVED tok d" "now < e" and h: "sha dc = Some h"
  shows "fst (oc_devcodes_poll sha (Some dc) now d) = (OC_DEV_TOKEN, tok, None)"
proof -
  note at = request_sweep [OF at]
  show ?thesis using at request_index(2) [OF at] h by (simp add: oc_devcodes_poll_def Let_def request_at_def)
qed

text \<open>
  C5: the flow completes. Once a request is begun, and whatever other requests do until it expires: as long as nobody
  decided on it, a person who types its code in any case and with any dashes and spaces is shown its challenge and
  can approve it; and as long as the token was not collected, the next poll with the device code hands over
  that person's token. The request's hash is its own: no live request had it, and none is begun with it.\<close>

theorem device_flow_completes:
  assumes start: "oc_devcodes_begin sha source addr challenge now rnd secret d = (Inr (dc, uc), d1)"
      "\<forall>i r. rnd i = Some r \<longrightarrow> length r = 8"
    and hash: "sha dc = Some h" "list_all (\<lambda>x. live x \<longrightarrow> de_secret_hash x \<noteq> h) (dv_e d)"
    and waiting: "run_log (dv_step sha) ops1 d1 = (log1, d2)" "list_all (\<lambda>(op, t). t < now + dv_ttl_ms d) ops1"
      "\<not> list_ex (disturbs sha h uc) log1"
    and person: "t1 < now + dv_ttl_ms d" "typed_letters typed = typed_letters uc"
    and serving: "run_log (dv_step sha) ops2 (snd (oc_devcodes_approve (Some uc) (Some tok) t1 d2)) = (log2, d3)"
      "list_all (\<lambda>(op, t). t < now + dv_ttl_ms d) ops2" "\<not> list_ex (disturbs sha h uc) log2"
    and poll: "t2 < now + dv_ttl_ms d"
  shows "(\<exists>x. fst (oc_devcodes_find typed t1 d2) = Some x \<and> de_user_code x = uc \<and> challenge = Some (de_challenge x)) \<and>
    fst (oc_devcodes_approve (Some uc) (Some tok) t1 d2) = 0 \<and>
    fst (oc_devcodes_poll sha (Some dc) t2 d3) = (OC_DEV_TOKEN, Some tok, None)"
proof (rule begin_request [OF start(1) hash])
  let ?e = "now + dv_ttl_ms d"
  fix i ch assume ch: "challenge = Some ch" and at: "request_at i h uc ?e ch ST_PENDING None d1"
    and code: "pick_code rnd 0 8 (dv_sweep now d) = Some uc"
  obtain k where k: "code_letters k" "uc = user_code_text k" using pick_code_letters [OF code start(2)] by blast
  have at2: "request_at i h uc ?e ch ST_PENDING None d2"
    using request.run_inv [OF _ waiting(2,1), of h uc i ch ST_PENDING None] at waiting(3) by simp
  have at3: "request_at i h uc ?e ch ST_APPROVED (Some tok) d3"
    using request.run_inv [OF _ serving(2,1), of h uc i ch ST_APPROVED "Some tok"] approve_request(2) [OF at2 person(1)] serving(3)
    by simp
  show ?thesis
    using find_request [OF at2 person(1) k person(2)] approve_request(1) [OF at2 person(1)] poll_request [where sha = sha, OF at3 poll hash(1)] ch
    by auto
qed

theorem device_flow_completes_witness:
  "fst (oc_devcodes_poll demo_sha (Some ''AQID'') 5000 (snd (oc_devcodes_approve (Some ''BCDF-GHJK'') (Some ''tok'') 3000
     (snd (oc_devcodes_begin demo_sha ''10.0.0.1'' ''10.0.0.1'' (Some ''c'') 1000 (\<lambda>_. Some [0, 1, 2, 3, 4, 5, 6, 7])
       (Some [1, 2, 3]) oc_devcodes_new))))) = (OC_DEV_TOKEN, Some ''tok'', None)"
proof -
  let ?b = "oc_devcodes_begin demo_sha ''10.0.0.1'' ''10.0.0.1'' (Some ''c'') 1000 (\<lambda>_. Some [0, 1, 2, 3, 4, 5, 6, 7])
       (Some [1, 2, 3]) oc_devcodes_new"
  have "fst ?b = Inr (''AQID'', ''BCDF-GHJK'')" by code_simp
  then have start: "?b = (Inr (''AQID'', ''BCDF-GHJK''), snd ?b)" by (metis prod.collapse)
  have times: "(3000 :: u64) < 1000 + dv_ttl_ms oc_devcodes_new" "(5000 :: u64) < 1000 + dv_ttl_ms oc_devcodes_new"
    by code_simp+
  have fresh: "list_all (\<lambda>x. live x \<longrightarrow> de_secret_hash x \<noteq> map (\<lambda>c. of_nat (of_char c)) ''AQID'') (dv_e oc_devcodes_new)"
    by (simp add: oc_devcodes_new_def list_all_iff)
  show ?thesis
    using device_flow_completes [where tok = "''tok''", OF start _ demo_sha_def fresh run_log.simps(1) _ _ times(1) refl
        run_log.simps(1) _ _ times(2)]
    by simp
qed

end
