(* ===== verification/Client_Dispatch.thy ===== *)
theory Client_Dispatch
  imports Codec_Messages Framebuf Client_Delivery
begin

text \<open>
  The network thread of the client: how \<^verbatim>\<open>dispatch\<close> of \<^verbatim>\<open>client/core/net.c\<close> turns the frames of the daemon into events for
  the model. A message waits for the frame with its action and is handed on together with it. The frames of
  conversations are modelled, each with its arm; what any other frame pushes is the argument \<open>others\<close>. The connection
  has no call and no private conversation in progress (\<^verbatim>\<open>ctx->calls\<close> and \<^verbatim>\<open>ctx->pdm\<close> are \<^verbatim>\<open>NULL\<close>).
\<close>

section \<open>From slices to strings\<close>

text \<open>A slice copied to a buffer with a terminator, as the string that its readers see.\<close>

definition c_text :: "oc_slice \<Rightarrow> string" where
  "c_text bs = takeWhile (\<lambda>c. c \<noteq> CHR 0x00) (map (\<lambda>b. char_of (unat b)) bs)"

definition no_ev_action :: ev_action where
  "no_ev_action = \<lparr>ea_known = False, ea_action = False, ea_start = 0, ea_len = 0, ea_actor_name = ''''\<rparr>"

section \<open>Holding a message for its action\<close>

record disp_ctx =
  dc_to_ui :: "chat_ev list"
  dc_version :: u16
  dc_held :: "chat_ev list"
  dc_held_id :: u64
  dc_holding :: bool

definition held_release :: "disp_ctx \<Rightarrow> disp_ctx" where
  "held_release ctx = ctx\<lparr>dc_to_ui := dc_to_ui ctx @ dc_held ctx, dc_held := [], dc_holding := False, dc_held_id := 0\<rparr>"

definition held_begin :: "u64 \<Rightarrow> disp_ctx \<Rightarrow> disp_ctx" where
  "held_begin message_id ctx = (held_release ctx)\<lparr>dc_holding := True, dc_held_id := message_id\<rparr>"

definition to_ui :: "chat_ev list \<Rightarrow> disp_ctx \<Rightarrow> disp_ctx" where
  "to_ui es ctx = ctx\<lparr>dc_to_ui := dc_to_ui ctx @ es\<rparr>"

definition to_held :: "chat_ev list \<Rightarrow> disp_ctx \<Rightarrow> disp_ctx" where
  "to_held es ctx = ctx\<lparr>dc_held := dc_held ctx @ es\<rparr>"

definition action_fields :: "oc_action \<Rightarrow> ev_action" where
  "action_fields ac = \<lparr>ea_known = True, ea_action = (action_text_len ac > 0), ea_start = unat (action_text_start ac),
     ea_len = unat (action_text_len ac), ea_actor_name = c_text (take 63 (action_actor_name ac))\<rparr>"

fun ev_set_action :: "oc_action \<Rightarrow> chat_ev \<Rightarrow> chat_ev" where
  "ev_set_action ac (OC_EV_MESSAGE e) = OC_EV_MESSAGE (e\<lparr>em_action := action_fields ac\<rparr>)"
| "ev_set_action ac (OC_EV_RESTORE cid mid body stored _) = OC_EV_RESTORE cid mid body stored (action_fields ac)"
| "ev_set_action ac (OC_EV_EDIT cid mid body _) = OC_EV_EDIT cid mid body (action_fields ac)"
| "ev_set_action ac (OC_EV_THREAD_REPLY e) = OC_EV_THREAD_REPLY (e\<lparr>er_action := action_fields ac\<rparr>)"
| "ev_set_action ac e = e"

section \<open>The frames of conversations\<close>

definition push_attachments :: "u64 \<Rightarrow> oc_attach_entry list \<Rightarrow> chat_ev list" where
  "push_attachments message_id att =
     map (\<lambda>a. OC_EV_ATTACHMENT \<lparr>eh_message_id = message_id,
        eh_attachment = \<lparr>at_id = attach_entry_id a, at_filename = c_text (attach_entry_filename a),
          at_mime = c_text (take 63 (attach_entry_mime a)), at_size = attach_entry_size a,
          at_reclaimed = attach_entry_reclaimed a, at_media_kind = attach_entry_media_kind a,
          at_duration_ms = attach_entry_duration_ms a, at_width = attach_entry_width a,
          at_height = attach_entry_height a, at_poster_id = attach_entry_poster_id a\<rparr>\<rparr>)
       (take Codec_Messages.OC_MAX_ATTACH att)"

definition on_action :: "oc_rbuf \<Rightarrow> disp_ctx \<Rightarrow> bool \<times> disp_ctx" where
  "on_action p ctx =
     (case oc_decode_action p of
        Inl _ \<Rightarrow> (False, ctx)
      | Inr ac \<Rightarrow>
          (True,
           if dc_holding ctx \<and> action_message_id ac = dc_held_id ctx
           then held_release (ctx\<lparr>dc_held := (case dc_held ctx of [] \<Rightarrow> [] | m # es \<Rightarrow> ev_set_action ac m # es)\<rparr>)
           else to_ui [OC_EV_ACTION (action_channel_id ac) (action_message_id ac) (action_fields ac)]
                  (if dc_holding ctx then held_release ctx else ctx)))"

definition message_event :: "oc_broadcast \<Rightarrow> ev_message" where
  "message_event b = \<lparr>em_channel_id = broadcast_channel_id b, em_author_id = broadcast_author_id b,
     em_author_name = c_text (take 63 (broadcast_author_name b)), em_message_id = broadcast_message_id b,
     em_server_time = broadcast_server_time b, em_kind = broadcast_kind b,
     em_broadcast_stored = (broadcast_broadcast_stored b \<noteq> 0), em_body = Some (c_text (broadcast_body b)),
     em_action = no_ev_action\<rparr>"

definition on_broadcast :: "oc_rbuf \<Rightarrow> disp_ctx \<Rightarrow> bool \<times> disp_ctx" where
  "on_broadcast p ctx =
     (case oc_decode_broadcast p of
        Inl _ \<Rightarrow> (False, ctx)
      | Inr b \<Rightarrow>
          (True, to_held (OC_EV_MESSAGE (message_event b) #
                   push_attachments (broadcast_message_id b) (broadcast_attach b)) (held_begin (broadcast_message_id b) ctx)))"

definition on_msg_restored :: "oc_rbuf \<Rightarrow> disp_ctx \<Rightarrow> bool \<times> disp_ctx" where
  "on_msg_restored p ctx =
     (case oc_decode_broadcast p of
        Inl _ \<Rightarrow> (False, ctx)
      | Inr b \<Rightarrow>
          (True, to_held (OC_EV_RESTORE (broadcast_channel_id b) (broadcast_message_id b) (Some (c_text (broadcast_body b)))
                     (broadcast_broadcast_stored b \<noteq> 0) no_ev_action #
                   push_attachments (broadcast_message_id b) (broadcast_attach b)) (held_begin (broadcast_message_id b) ctx)))"

definition on_pin_updated :: "oc_rbuf \<Rightarrow> disp_ctx \<Rightarrow> bool \<times> disp_ctx" where
  "on_pin_updated p ctx =
     (case oc_decode_pin_updated p of
        Inl _ \<Rightarrow> (True, ctx)
      | Inr pu \<Rightarrow>
          (True, to_ui [OC_EV_PIN (pin_updated_channel_id pu) (pin_updated_message_id pu) (pin_updated_op pu)
                   (pin_updated_user_id pu) (pin_updated_pinned_at pu)] ctx))"

definition on_pinned_msg :: "oc_rbuf \<Rightarrow> disp_ctx \<Rightarrow> bool \<times> disp_ctx" where
  "on_pinned_msg p ctx =
     (case oc_decode_pinned_msg p of
        Inl _ \<Rightarrow> (True, ctx)
      | Inr pm \<Rightarrow>
          (True, to_ui [OC_EV_PINNED_MSG (pinned_msg_channel_id pm)
              \<lparr>pr_message_id = pinned_msg_message_id pm, pr_author_id = pinned_msg_author_id pm,
                pr_server_time = pinned_msg_server_time pm, pr_pinned_by = pinned_msg_pinned_by pm,
                pr_pinned_at = pinned_msg_pinned_at pm, pr_body = Some (c_text (pinned_msg_body pm)),
                pr_attach_name = c_text (take 63 (pinned_msg_attach_name pm)), pr_action = (pinned_msg_action pm \<noteq> 0)\<rparr>] ctx))"

definition on_forward :: "oc_rbuf \<Rightarrow> disp_ctx \<Rightarrow> bool \<times> disp_ctx" where
  "on_forward p ctx =
     (case oc_decode_forward p of
        Inl _ \<Rightarrow> (True, ctx)
      | Inr fw \<Rightarrow>
          let ctx = (if dc_holding ctx \<and> forward_message_id fw \<noteq> dc_held_id ctx then held_release ctx else ctx);
              e = OC_EV_FORWARD (forward_channel_id fw) (forward_message_id fw)
                \<lparr>fw_src_channel = forward_src_channel fw, fw_src_message = forward_src_message fw,
                  fw_src_author = forward_src_author fw, fw_excerpt = Some (c_text (forward_src_excerpt fw)),
                  fw_attach_name = (if length (forward_src_attach_name fw) < 128 then c_text (forward_src_attach_name fw) else ''''),
                  fw_n_attach = forward_n_attach fw, fw_src_action = (forward_src_action fw \<noteq> 0)\<rparr>
          in (True, if dc_holding ctx then to_held [e] ctx else to_ui [e] ctx))"


definition on_unfurl :: "oc_rbuf \<Rightarrow> disp_ctx \<Rightarrow> bool \<times> disp_ctx" where
  "on_unfurl p ctx =
     (case oc_decode_unfurl p of
        Inl _ \<Rightarrow> (True, ctx)
      | Inr uf \<Rightarrow>
          (True, to_ui [OC_EV_UNFURL (unfurl_channel_id uf) (unfurl_message_id uf) (Some (c_text (unfurl_url uf)))
                   (Some (c_text (unfurl_title uf))) (Some (c_text (unfurl_descr uf)))] ctx))"

definition on_reaction_updated :: "oc_rbuf \<Rightarrow> disp_ctx \<Rightarrow> bool \<times> disp_ctx" where
  "on_reaction_updated p ctx =
     (case oc_decode_reaction_updated p of
        Inl _ \<Rightarrow> (True, ctx)
      | Inr ru \<Rightarrow>
          (True, to_ui [OC_EV_REACTION (reaction_updated_channel_id ru) (reaction_updated_message_id ru)
                   (reaction_updated_user_id ru) (c_text (take 39 (reaction_updated_emoji ru)))
                   (ucast (reaction_updated_count ru)) (reaction_updated_op ru)] ctx))"

definition on_msg_edited :: "oc_rbuf \<Rightarrow> disp_ctx \<Rightarrow> bool \<times> disp_ctx" where
  "on_msg_edited p ctx =
     (case oc_decode_msg_edited p of
        Inl _ \<Rightarrow> (True, ctx)
      | Inr me \<Rightarrow>
          (True, to_held [OC_EV_EDIT (msg_edited_channel_id me) (msg_edited_message_id me)
                   (Some (c_text (msg_edited_body me))) no_ev_action] (held_begin (msg_edited_message_id me) ctx)))"

definition on_msg_deleted :: "oc_rbuf \<Rightarrow> disp_ctx \<Rightarrow> bool \<times> disp_ctx" where
  "on_msg_deleted p ctx =
     (case oc_decode_msg_deleted p of
        Inl _ \<Rightarrow> (True, ctx)
      | Inr md \<Rightarrow> (True, to_ui [OC_EV_DELETE (msg_deleted_channel_id md) (msg_deleted_message_id md)] ctx))"

definition reply_event :: "oc_thread_reply \<Rightarrow> ev_reply" where
  "reply_event tr = \<lparr>er_channel_id = thread_reply_channel_id tr, er_parent_id = thread_reply_parent_id tr,
     er_message_id = thread_reply_message_id tr, er_author_id = thread_reply_author_id tr,
     er_server_time = thread_reply_server_time tr, er_count = thread_reply_reply_count tr,
     er_participant = (thread_reply_participant tr \<noteq> 0), er_broadcast_stored = (thread_reply_broadcast_stored tr \<noteq> 0),
     er_body = Some (c_text (thread_reply_body tr)), er_action = no_ev_action\<rparr>"

definition on_thread_reply :: "oc_rbuf \<Rightarrow> disp_ctx \<Rightarrow> bool \<times> disp_ctx" where
  "on_thread_reply p ctx =
     (case oc_decode_thread_reply p of
        Inl _ \<Rightarrow> (True, ctx)
      | Inr tr \<Rightarrow>
          (True, to_held (OC_EV_THREAD_REPLY (reply_event tr) #
                   push_attachments (thread_reply_message_id tr) (thread_reply_attach tr))
                   (held_begin (thread_reply_message_id tr) ctx)))"

definition on_thread_meta :: "oc_rbuf \<Rightarrow> disp_ctx \<Rightarrow> bool \<times> disp_ctx" where
  "on_thread_meta p ctx =
     (case oc_decode_thread_meta p of
        Inl _ \<Rightarrow> (True, ctx)
      | Inr tm \<Rightarrow> (True, to_ui [OC_EV_THREAD_META (thread_meta_message_id tm) (thread_meta_reply_count tm)] ctx))"

definition on_read_cursor :: "oc_rbuf \<Rightarrow> disp_ctx \<Rightarrow> bool \<times> disp_ctx" where
  "on_read_cursor p ctx =
     (case oc_decode_read_cursor p of
        Inl _ \<Rightarrow> (False, ctx)
      | Inr rc \<Rightarrow>
          (True, to_ui [OC_EV_READ_CURSOR (read_cursor_channel_id rc) (read_cursor_user_id rc) (read_cursor_message_id rc)] ctx))"

section \<open>Dispatch\<close>

text \<open>
  One frame: whether the connection stays, and the context after it. \<open>others\<close> gives what the frames of other
  types push, \<open>None\<close> where they end the connection.
\<close>

definition on_frame ::
    "(u16 \<Rightarrow> oc_rbuf \<Rightarrow> chat_ev list option) \<Rightarrow> u8 list \<Rightarrow> disp_ctx \<Rightarrow> bool \<times> disp_ctx" where
  "on_frame others frame ctx =
     (case oc_parse_frame frame of
        Inl _ \<Rightarrow> (False, ctx)
      | Inr (hdr, p) \<Rightarrow>
          if hdr_version hdr \<noteq> dc_version ctx then (False, ctx)
          else
            let t = hdr_msg_type hdr;
                ctx = (if dc_holding ctx \<and> t \<noteq> OC_MSG_ACTION \<and> t \<noteq> OC_MSG_FORWARD then held_release ctx else ctx)
            in if t = OC_MSG_ACTION then on_action p ctx
               else if t = OC_MSG_BROADCAST then on_broadcast p ctx
               else if t = OC_MSG_MSG_RESTORED then on_msg_restored p ctx
               else if t = OC_MSG_PIN_UPDATED then on_pin_updated p ctx
               else if t = OC_MSG_PINNED_MSG then on_pinned_msg p ctx
               else if t = OC_MSG_FORWARD then on_forward p ctx
               else if t = OC_MSG_UNFURL then on_unfurl p ctx
               else if t = OC_MSG_REACTION_UPDATED then on_reaction_updated p ctx
               else if t = OC_MSG_MSG_EDITED then on_msg_edited p ctx
               else if t = OC_MSG_MSG_DELETED then on_msg_deleted p ctx
               else if t = OC_MSG_THREAD_REPLY then on_thread_reply p ctx
               else if t = OC_MSG_THREAD_META then on_thread_meta p ctx
               else if t = OC_MSG_READ_CURSOR then on_read_cursor p ctx
               else (case others t p of None \<Rightarrow> (False, ctx) | Some es \<Rightarrow> (True, to_ui es ctx)))"

function dispatch ::
    "(u16 \<Rightarrow> oc_rbuf \<Rightarrow> chat_ev list option) \<Rightarrow> oc_framebuf \<Rightarrow> disp_ctx \<Rightarrow> bool \<times> oc_framebuf \<times> disp_ctx" where
  "dispatch others fb ctx =
     (case oc_framebuf_next fb of
        (FB_MORE, fb') \<Rightarrow> (True, fb', ctx)
      | (FB_ERR _, fb') \<Rightarrow> (False, fb', ctx)
      | (FB_FRAME f, fb') \<Rightarrow>
          (case on_frame others f ctx of
             (True, ctx') \<Rightarrow> dispatch others fb' ctx'
           | (False, ctx') \<Rightarrow> (False, fb', ctx')))"
  by pat_completeness auto
termination
  by (relation "measure (\<lambda>(others, fb, ctx). length (fb_buf fb) - fb_pos fb)") (auto dest: next_advances [OF sym])

declare dispatch.simps [simp del]

definition oc_net_frames_new :: "u16 \<Rightarrow> oc_framebuf \<times> disp_ctx" where
  "oc_net_frames_new version =
     (oc_framebuf_init, \<lparr>dc_to_ui = [], dc_version = version, dc_held = [], dc_held_id = 0, dc_holding = False\<rparr>)"

definition oc_net_frames_push ::
    "(u16 \<Rightarrow> oc_rbuf \<Rightarrow> chat_ev list option) \<Rightarrow> u8 list \<Rightarrow> oc_framebuf \<times> disp_ctx \<Rightarrow> bool \<times> oc_framebuf \<times> disp_ctx" where
  "oc_net_frames_push others bytes f =
     (case oc_framebuf_push (fst f) bytes of
        (False, fb) \<Rightarrow> (False, fb, snd f)
      | (True, fb) \<Rightarrow> dispatch others fb (snd f))"

definition oc_net_frames_free :: "oc_framebuf \<times> disp_ctx \<Rightarrow> chat_ev list" where
  "oc_net_frames_free f = dc_to_ui (held_release (snd f))"

text \<open>The reads of a connection: until one of them ends it.\<close>

fun net_reads ::
    "(u16 \<Rightarrow> oc_rbuf \<Rightarrow> chat_ev list option) \<Rightarrow> u8 list list \<Rightarrow> oc_framebuf \<times> disp_ctx \<Rightarrow> bool \<times> oc_framebuf \<times> disp_ctx" where
  "net_reads others [] f = (True, f)"
| "net_reads others (chunk # chunks) f =
     (case oc_net_frames_push others chunk f of
        (True, f') \<Rightarrow> net_reads others chunks f'
      | (False, f') \<Rightarrow> (False, f'))"

end
