(* ===== verification/Conversation.thy ===== *)
theory Conversation
  imports Client_Delivery
begin

text \<open>
  The conversation that a stream of events tells, and that the model shows it. The specification keeps, for one channel,
  what is told of each message: who wrote it, when and what, with later edits, deletions and restorations. Every
  arm of \<open>oc_chat_apply\<close> does to the transcript what the specification says.
\<close>

section \<open>What is told\<close>

record told_msg =
  td_id :: u64
  td_author :: u64
  td_name :: string
  td_time :: u64
  td_kind :: u8
  td_stored :: bool
  td_body :: "string option"
  td_edited :: bool
  td_deleted :: bool

definition face :: "oc_msg \<Rightarrow> told_msg" where
  "face g = \<lparr>td_id = ms_message_id g, td_author = ms_author_id g, td_name = ms_author_name g, td_time = ms_server_time g,
     td_kind = ms_kind g, td_stored = ms_broadcast_stored g, td_body = ms_body g, td_edited = ms_edited g,
     td_deleted = ms_deleted g\<rparr>"

definition ev_face :: "ev_message \<Rightarrow> told_msg" where
  "ev_face e = \<lparr>td_id = em_message_id e, td_author = em_author_id e, td_name = snprintf_s 64 (em_author_name e),
     td_time = em_server_time e, td_kind = em_kind e, td_stored = em_broadcast_stored e, td_body = em_body e,
     td_edited = False, td_deleted = False\<rparr>"

definition retext :: "string option \<Rightarrow> told_msg \<Rightarrow> told_msg" where
  "retext body x = x\<lparr>td_body := body, td_edited := True\<rparr>"

definition untell :: "told_msg \<Rightarrow> told_msg" where
  "untell x = x\<lparr>td_deleted := True\<rparr>"

definition tell_again :: "string option \<Rightarrow> bool \<Rightarrow> told_msg \<Rightarrow> told_msg" where
  "tell_again body stored x =
     (if td_deleted x then x\<lparr>td_deleted := False, td_body := body, td_stored := stored\<rparr> else x\<lparr>td_stored := stored\<rparr>)"

text \<open>A change of the message \<open>mid\<close>, and a message that is new when its id is.\<close>

definition tell_msg :: "u64 \<Rightarrow> (told_msg \<Rightarrow> told_msg) \<Rightarrow> told_msg \<Rightarrow> told_msg" where
  "tell_msg mid f x = (if td_id x = mid then f x else x)"

definition tell_new :: "told_msg \<Rightarrow> told_msg list \<Rightarrow> told_msg list" where
  "tell_new x xs = (if list_ex (\<lambda>y. td_id y = td_id x) xs then xs else insort_key td_id x xs)"

fun tell :: "u64 \<Rightarrow> chat_ev \<Rightarrow> told_msg \<Rightarrow> told_msg" where
  "tell cid (OC_EV_EDIT c mid body act) = (if c = cid then tell_msg mid (retext body) else (\<lambda>x. x))"
| "tell cid (OC_EV_DELETE c mid) = (if c = cid then tell_msg mid untell else (\<lambda>x. x))"
| "tell cid (OC_EV_RESTORE c mid body stored act) = (if c = cid then tell_msg mid (tell_again body stored) else (\<lambda>x. x))"
| "tell cid _ = (\<lambda>x. x)"

fun tells :: "u64 \<Rightarrow> chat_ev \<Rightarrow> told_msg list \<Rightarrow> told_msg list" where
  "tells cid (OC_EV_MESSAGE e) xs = (if em_channel_id e = cid then tell_new (ev_face e) xs else xs)"
| "tells cid ev xs = map (tell cid ev) xs"

fun reacts :: "chat_ev \<Rightarrow> nat" where
  "reacts (OC_EV_REACTION cid mid uid emoji cnt op) = 1"
| "reacts _ = 0"

section \<open>The reducers of one message\<close>

text \<open>A message that is as told after \<open>t\<close>, with at most \<open>k\<close> reactions more.\<close>

definition retold_msg :: "(told_msg \<Rightarrow> told_msg) \<Rightarrow> nat \<Rightarrow> oc_msg \<Rightarrow> oc_msg \<Rightarrow> bool" where
  "retold_msg t k g g' \<longleftrightarrow> face g' = t (face g) \<and> length (ms_reactions g') \<le> length (ms_reactions g) + k"

abbreviation calm :: "oc_msg \<Rightarrow> oc_msg \<Rightarrow> bool" where
  "calm \<equiv> retold_msg (\<lambda>x. x) 0"

lemma face_id [simp]: "td_id (face g) = ms_message_id g" "td_id (ev_face e) = em_message_id e"
  by (simp_all add: face_def ev_face_def)

lemma face_new_msg [simp]: "face (new_msg e) = ev_face e"
  by (simp add: face_def ev_face_def new_msg_def zero_msg_def)

lemma face_set_action [simp]: "face (msg_set_action act g) = face g"
proof -
  have "ms_edited (msg_set_action act g) = ms_edited g" by (simp add: msg_set_action_def Let_def split: option.split)
  then show ?thesis by (simp add: face_def)
qed

lemma calm_reducers [simp]:
  "calm g g" "calm g (msg_set_action act g)" "calm g (msg_set_saved op t g)" "calm g (msg_set_pinned op u t g)"
  "calm g (g\<lparr>ms_collapsed := b\<rparr>)" "calm g (msg_set_poll poll g)" "calm g (msg_set_forward fw g)"
  "calm g (msg_add_attach a g)" "calm g (msg_add_unfurl url title descr g)" "calm g (g\<lparr>ms_reply_count := cnt\<rparr>)"
  by (simp_all add: retold_msg_def, simp_all add: face_def msg_set_saved_def msg_set_pinned_def msg_set_poll_def
      msg_set_forward_def msg_add_attach_def msg_add_unfurl_def Let_def split: option.split)

lemma retold_reducers [simp]:
  "retold_msg untell 0 g (msg_tombstone g)" "retold_msg (retext body) 0 g (msg_edit body act g)"
  "retold_msg (tell_again body stored) 0 g (msg_restore body stored act g)"
  by (auto simp: retold_msg_def msg_edit_def msg_restore_def untell_def retext_def tell_again_def msg_untombstone_def)
    (auto simp: face_def msg_tombstone_def msg_set_action_def Let_def split: option.split)

lemma retold_reaction:
  assumes "msg_apply_reaction emoji cnt op me g = Some g'"
  shows "retold_msg (\<lambda>x. x) 1 g g'"
proof -
  have grow: "face h = face g \<and> ms_reactions h = ms_reactions g" if "grow_reactions g = Some h" for h
    using that by (auto simp: grow_reactions_def face_def Let_def split: if_splits)
  have upd: "face (h\<lparr>ms_reactions := rs\<rparr>) = face h" for h rs by (simp add: face_def)
  show ?thesis using assms
    by (auto simp: msg_apply_reaction_def retold_msg_def upd grow length_swap_remove_first Let_def split: if_splits)
qed

section \<open>The arms\<close>

text \<open>
  A model whose transcripts are those of \<open>m\<close> after \<open>t cid\<close>, with at most \<open>k\<close> reactions more on a message.
\<close>

definition retold :: "(u64 \<Rightarrow> told_msg \<Rightarrow> told_msg) \<Rightarrow> nat \<Rightarrow> 'a oc_chat_scheme \<Rightarrow> 'a oc_chat_scheme \<Rightarrow> bool" where
  "retold t k m m' \<longleftrightarrow> (\<forall>cid. list_all2 (retold_msg (t cid) k) (transcript m cid) (transcript m' cid))"

abbreviation untouched :: "'a oc_chat_scheme \<Rightarrow> 'a oc_chat_scheme \<Rightarrow> bool" where
  "untouched \<equiv> retold (\<lambda>_ x. x) 0"

definition calm_channel :: "oc_channel \<Rightarrow> oc_channel \<Rightarrow> bool" where
  "calm_channel c c' \<longleftrightarrow> ch_channel_id c' = ch_channel_id c \<and> list_all2 calm (ch_msgs c) (ch_msgs c')"

lemma calm_refl: "list_all2 calm gs gs"
  by (simp add: list.rel_refl)

lemma calm_upd_first: "(\<And>g. P g \<Longrightarrow> calm g (f g)) \<Longrightarrow> list_all2 calm gs (upd_first P f gs)"
  by (induction gs) (auto simp: calm_refl)

lemma calm_channel_same [simp, intro]: "ch_channel_id c' = ch_channel_id c \<Longrightarrow> ch_msgs c' = ch_msgs c \<Longrightarrow> calm_channel c c'"
  by (simp add: calm_channel_def calm_refl)

lemma calm_channel_upd [simp, intro]: "(\<And>g. calm g (f g)) \<Longrightarrow> calm_channel c (upd_msg mid f c)"
  by (simp add: calm_channel_def upd_msg_def calm_upd_first)

lemma calm_trans: "calm g h \<Longrightarrow> calm h i \<Longrightarrow> calm g i"
  by (simp add: retold_msg_def)

lemma untouched_refl [simp]: "untouched m m"
  by (simp add: retold_def calm_refl)

lemma untouched_trans: "untouched m m' \<Longrightarrow> untouched m' m'' \<Longrightarrow> untouched m m''"
  unfolding retold_def using list_all2_trans [of calm calm calm] calm_trans by metis

lemma untouched_channels:
  assumes "list_all2 calm_channel (m_channels m) (m_channels m')"
  shows "untouched m m'"
proof -
  have "rel_option calm_channel (find (\<lambda>c. ch_channel_id c = cid) cs) (find (\<lambda>c. ch_channel_id c = cid) cs')"
    if "list_all2 calm_channel cs cs'" for cs cs' cid
    using that by (induction rule: list_all2_induct) (auto simp: calm_channel_def)
  then have rel: "rel_option calm_channel (oc_model_channel m cid) (oc_model_channel m' cid)" for cid
    using assms by (simp add: oc_model_channel_def)
  have "list_all2 calm (transcript m cid) (transcript m' cid)" for cid
    using rel [of cid] by (auto simp: transcript_def calm_channel_def rel_option_iff split: option.splits)
  then show ?thesis by (simp add: retold_def)
qed

lemma untouched_same: "m_channels m' = m_channels m \<Longrightarrow> untouched m m'"
  by (rule untouched_channels) (simp add: list.rel_refl calm_channel_same)

lemma untouched_upd_first:
  "m_channels m' = upd_first P f (m_channels m) \<Longrightarrow> (\<And>c. calm_channel c (f c)) \<Longrightarrow> untouched m m'"
proof (rule untouched_channels)
  assume "m_channels m' = upd_first P f (m_channels m)" and f: "\<And>c. calm_channel c (f c)"
  moreover have "list_all2 calm_channel cs (upd_first P f cs)" for cs
    by (induction cs) (auto simp: f list.rel_refl calm_channel_same)
  ultimately show "list_all2 calm_channel (m_channels m) (m_channels m')" by simp
qed

lemma untouched_map:
  "m_channels m' = map f (m_channels m) \<Longrightarrow> (\<And>c. calm_channel c (f c)) \<Longrightarrow> untouched m m'"
  by (rule untouched_channels) (simp add: list.rel_map list.rel_refl)

lemma untouched_upd_channel: "(\<And>c. calm_channel c (f c)) \<Longrightarrow> untouched m (upd_channel cid f m)"
  by (rule untouched_upd_first) (simp_all add: upd_channel_def)

lemma untouched_ensure: "untouched m (channel_ensure cid m)"
  by (auto simp: retold_def transcript_def channel_ensure_find zero_channel_def calm_refl split: option.split)

lemma untouched_thread_msg: "untouched m m' \<Longrightarrow> untouched m (upd_thread_msg mid f m')"
  by (erule untouched_trans) (simp add: untouched_same upd_thread_msg_def)

lemma untouched_both: "(\<And>g. calm g (f g)) \<Longrightarrow> untouched m (upd_both cid mid f m)"
  unfolding upd_both_def by (intro untouched_thread_msg untouched_upd_channel calm_channel_upd)

lemma untouched_everywhere: "(\<And>g. calm g (f g)) \<Longrightarrow> untouched m (upd_everywhere mid f m)"
  unfolding upd_everywhere_def by (intro untouched_thread_msg untouched_map [where f = "upd_msg mid f"]) auto

lemma untouched_sweep: "untouched m (groups_sweep i m)"
proof (induction i m rule: groups_sweep.induct)
  case (1 i m)
  have drop: "untouched m (group_drop gid m)" for gid
    by (rule untouched_map) (auto simp: group_drop_def)
  show ?case
  proof (cases "i \<ge> length (m_groups m)")
    case False
    obtain g gen where "m_groups m ! i = (g, gen)" by (cases "m_groups m ! i")
    then show ?thesis using 1 False untouched_trans [OF drop [of "gv_id g"]] by (subst groups_sweep.simps) (auto simp: Let_def)
  qed (simp add: groups_sweep.simps [of i m])
qed

text \<open>The arms that change what one message says.\<close>

lemma retold_upd_msg:
  assumes m: "chat_inv sp m" and f: "\<And>g. retold_msg change k g (f g)" and t: "t cid = tell_msg mid change" "\<And>c. c \<noteq> cid \<Longrightarrow> t c = (\<lambda>x. x)"
  shows "retold t k m (upd_channel cid (upd_msg mid f) m)"
proof -
  have hit: "list_all2 (retold_msg (tell_msg mid change) k) gs (upd_first (\<lambda>g. ms_message_id g = mid) f gs)"
    if "distinct (map ms_message_id gs)" for gs
    using that
  proof (induction gs)
    case (Cons g gs)
    have self: "retold_msg (tell_msg mid change) k h h" if "ms_message_id h \<noteq> mid" for h
      using that by (simp add: retold_msg_def tell_msg_def)
    show ?case
    proof (cases "ms_message_id g = mid")
      case True
      then have "\<forall>h\<in>set gs. ms_message_id h \<noteq> mid" using Cons.prems by (metis distinct.simps(2) image_eqI list.set_map list.simps(9))
      then have "list_all2 (retold_msg (tell_msg mid change) k) gs gs" by (simp add: self list.rel_refl_strong)
      moreover have "retold_msg (tell_msg mid change) k g (f g)" using f [of g] True by (simp add: retold_msg_def tell_msg_def)
      ultimately show ?thesis using True by simp
    next
      case False
      then show ?thesis using Cons self by simp
    qed
  qed simp
  have miss: "list_all2 (retold_msg (\<lambda>x. x) k) gs gs" for gs
    by (simp add: list.rel_refl retold_msg_def)
  have "distinct (map ms_message_id (ch_msgs c))" if "oc_model_channel m cid = Some c" for c
    using find_channel_ok [OF m that] by (simp add: channel_ok_def transcript_ok_def strict_sorted_iff)
  then show ?thesis using hit miss t
    by (auto simp: retold_def transcript_def upd_channel_find upd_msg_def split: option.split)
qed

lemma retold_more: "retold t 0 m m' \<Longrightarrow> retold t k m m'"
proof -
  have "list_all2 (retold_msg u k) gs hs" if "list_all2 (retold_msg u 0) gs hs" for u gs hs
    using that by (rule list_all2_mono) (simp add: retold_msg_def)
  then show "retold t 0 m m' \<Longrightarrow> retold t k m m'" by (simp add: retold_def)
qed

lemma retold_threads: "retold t k m m' \<Longrightarrow> m_channels m'' = m_channels m' \<Longrightarrow> retold t k m m''"
  by (simp add: retold_def transcript_def oc_model_channel_def)

lemma retold_reaction_arm:
  assumes m: "chat_inv sp m" and res: "ev_reaction_arm cid mid uid emoji cnt op m = Some m'"
  shows "retold (\<lambda>_ x. x) 1 m m'"
proof (cases "oc_model_channel m cid")
  case None
  then show ?thesis using res by (auto simp: ev_reaction_arm_def intro: retold_more)
next
  case (Some c)
  show ?thesis
  proof (cases "find (\<lambda>g. ms_message_id g = mid) (ch_msgs c)")
    case None
    then show ?thesis using res Some by (auto simp: ev_reaction_arm_def intro: retold_more)
  next
    case found: (Some g)
    then obtain g' where g': "msg_apply_reaction emoji cnt op (uid = m_user_id m) g = Some g'"
      and m': "m' = upd_channel cid (upd_msg mid (\<lambda>_. g')) m"
      using res Some by (auto simp: ev_reaction_arm_def)
    have "list_all2 (retold_msg (\<lambda>x. x) 1) gs (upd_first (\<lambda>g. ms_message_id g = mid) (\<lambda>_. g') gs)"
      if "find (\<lambda>g. ms_message_id g = mid) gs = Some g" for gs
      using that retold_reaction [OF g']
      by (induction gs) (auto simp: retold_msg_def intro!: list.rel_refl split: if_splits)
    moreover have "list_all2 (retold_msg (\<lambda>x. x) 1) gs gs" for gs by (simp add: list.rel_refl retold_msg_def)
    ultimately show ?thesis using found Some
      by (auto simp: m' retold_def transcript_def upd_channel_find upd_msg_def split: option.split)
  qed
qed

lemma calm_previews: "calm_channel c (action_preview flat mid (upd_msg mid (msg_set_action act) c))"
  "calm_channel c (attach_preview flat m mid (upd_msg mid (msg_add_attach a) c))"
proof -
  have "ch_msgs (action_preview flat mid d) = ch_msgs d" "ch_channel_id (action_preview flat mid d) = ch_channel_id d"
    "ch_msgs (attach_preview flat m mid d) = ch_msgs d" "ch_channel_id (attach_preview flat m mid d) = ch_channel_id d" for d
    by (auto simp: action_preview_def attach_preview_def Let_def split: option.split)
  then show "calm_channel c (action_preview flat mid (upd_msg mid (msg_set_action act) c))"
    "calm_channel c (attach_preview flat m mid (upd_msg mid (msg_add_attach a) c))"
    by (simp_all add: calm_channel_def upd_msg_def calm_upd_first)
qed

lemma untouched_bump: "untouched m (bump_reply_count mid cnt m)"
  by (rule untouched_upd_first) (auto simp: bump_reply_count_def)

lemma untouched_attach: "untouched m (attach_to_msg flat e m)"
proof -
  have "untouched m (m\<lparr>m_channels := upd_first P (\<lambda>c. attach_preview flat m mid (upd_msg mid (msg_add_attach a) c)) (m_channels m)\<rparr>)"
    for P mid a by (rule untouched_upd_first) (auto simp: calm_previews)
  then show ?thesis by (simp add: attach_to_msg_def Let_def untouched_thread_msg)
qed

lemma untouched_thread_reply: "untouched m (ev_thread_reply_arm flat e m)"
proof -
  have "m_channels (ev_thread_reply_arm flat e m) = m_channels (bump_reply_count (er_parent_id e) (er_count e) m)"
    by (simp add: ev_thread_reply_arm_def notice_push_def thread_append_def Let_def)
  then show ?thesis using retold_threads [OF untouched_bump] by blast
qed

text \<open>Every arm but the one of messages.\<close>

lemma arm_retold:
  assumes m: "chat_inv sp m" and ev: "oc_chat_apply flat ev m = Some m'" "\<And>e. ev \<noteq> OC_EV_MESSAGE e"
  shows "retold (\<lambda>cid. tell cid ev) (reacts ev) m m'"
proof (cases ev)
  case (OC_EV_REACTION cid mid uid emoji cnt op)
  then show ?thesis using ev retold_reaction_arm [OF m] by simp
next
  case (OC_EV_EDIT cid mid body act)
  then show ?thesis using ev(1) by (auto simp: small_arms intro!: retold_upd_msg [OF m, where change = "retext body"])
next
  case (OC_EV_DELETE cid mid)
  then have "retold (\<lambda>c. tell c ev) 0 m (upd_channel cid (upd_msg mid msg_tombstone) m)"
    by (auto intro!: retold_upd_msg [OF m, where change = untell])
  then show ?thesis using ev(1) OC_EV_DELETE
    by (auto simp: small_arms upd_both_def upd_thread_msg_def elim!: retold_threads)
next
  case (OC_EV_RESTORE cid mid body stored act)
  then have "retold (\<lambda>c. tell c ev) 0 m (upd_channel cid (upd_msg mid (msg_restore body stored act)) m)"
    by (auto intro!: retold_upd_msg [OF m, where change = "tell_again body stored"])
  then show ?thesis using ev(1) OC_EV_RESTORE
    by (auto simp: small_arms upd_both_def upd_thread_msg_def elim!: retold_threads)
next
  case (OC_EV_CHANNEL e)
  have "calm_channel c (channel_info flat e c)" for c by (rule calm_channel_same) (simp_all add: channel_info_def Let_def)
  then have "untouched m (upd_channel cid (channel_info flat e) (channel_ensure cid m))" for cid
    by (rule untouched_trans [OF untouched_ensure untouched_upd_channel])
  then show ?thesis using ev(1) OC_EV_CHANNEL by (auto simp: ev_channel_arm_def)
next
  case (OC_EV_SAVED_UPDATED mid op t)
  have "untouched m (upd_everywhere mid (msg_set_saved op t) m)" by (rule untouched_everywhere) simp
  from retold_threads [OF this] show ?thesis using ev(1) OC_EV_SAVED_UPDATED by (auto simp: ev_saved_arm_def Let_def)
next
  case (OC_EV_PIN cid mid op uid t)
  have "untouched m (upd_both cid mid (msg_set_pinned op uid t) m)" by (rule untouched_both) simp
  from retold_threads [OF this] show ?thesis using ev(1) OC_EV_PIN by (auto simp: ev_pin_arm_def Let_def)
next
  case (OC_EV_GROUPS_END)
  then show ?thesis using ev(1) retold_threads [OF untouched_sweep [of m 0]] by (auto simp: ev_groups_end_arm_def Let_def)
next
  case (OC_EV_UNFURL cid mid url title descr)
  then show ?thesis using ev(1)
    by (auto simp: ev_unfurl_arm_def intro!: untouched_upd_channel split: option.splits)
next
  case (OC_EV_READ_CURSOR cid uid mid)
  then show ?thesis using ev(1)
    by (auto simp: ev_read_cursor_arm_def oc_model_set_read_marker_def reader_advance_def Let_def case_prod_beta intro!: untouched_upd_channel)
next
  case (OC_EV_DND op)
  then show ?thesis using ev(1) untouched_map [of m' "\<lambda>c. c\<lparr>ch_notify_level := op\<rparr>" m] by (auto simp: ev_dnd_arm_def)
next
  case (OC_EV_GROUP_DELETED gid)
  then show ?thesis using ev(1)
      untouched_map [of m' "\<lambda>c. c\<lparr>ch_groups := swap_remove_first (\<lambda>g. g = gid) (ch_groups c)\<rparr>" m] by (auto simp: group_drop_def)
qed (use ev in \<open>auto simp: small_arms channel_description_def oc_model_mark_read_def ev_action_arm_def calm_previews
      group_upsert_def thread_apply_def ev_threads_end_arm_def Let_def untouched_bump untouched_attach untouched_thread_reply
      untouched_upd_channel untouched_everywhere untouched_both untouched_thread_msg untouched_same split: option.split\<close>)

section \<open>Messages\<close>

lemma insort_key_between:
  "list_all (\<lambda>y. k y < k x) as \<Longrightarrow> list_all (\<lambda>y. k x < k y) bs \<Longrightarrow> insort_key k x (as @ bs) = as @ x # bs"
  for k :: "'a \<Rightarrow> u64"
  by (induction as) (cases bs, auto)

text \<open>At most \<open>n\<close> reactions on each message of a list.\<close>

definition few_reactions :: "nat \<Rightarrow> oc_msg list \<Rightarrow> bool" where
  "few_reactions n gs = list_all (\<lambda>g. length (ms_reactions g) \<le> n) gs"

lemma set_last_told:
  "gs \<noteq> [] \<Longrightarrow> map face (butlast gs @ [msg_set_action act (last gs)]) = map face gs"
  "gs \<noteq> [] \<Longrightarrow> few_reactions n gs \<Longrightarrow> few_reactions n (butlast gs @ [msg_set_action act (last gs)])"
  by (cases gs rule: rev_cases; simp add: few_reactions_def)+

lemma message_told:
  assumes ok: "channel_ok sp c" and id: "em_message_id e \<noteq> 0"
  shows "map face (ch_msgs (snd (channel_message flat m e c))) = tell_new (ev_face e) (map face (ch_msgs c))"
    and "few_reactions n (ch_msgs c) \<Longrightarrow> few_reactions n (ch_msgs (snd (channel_message flat m e c)))"
proof -
  have t: "transcript_ok sp (ch_high_water c) (ch_msgs c)" using ok by (simp add: channel_ok_def)
  have "map face (ch_msgs (snd (channel_message flat m e c))) = tell_new (ev_face e) (map face (ch_msgs c)) \<and>
    (few_reactions n (ch_msgs c) \<longrightarrow> few_reactions n (ch_msgs (snd (channel_message flat m e c))))"
  proof (cases "holds_msg (em_message_id e) c")
    case True
    then have "channel_append e c = (False, c)" using t channel_append_held [of sp c e] by simp
    then show ?thesis using True by (auto simp: channel_message_msgs tell_new_def holds_msg_def list_ex_iff)
  next
    case False
    obtain as bs where split: "ch_msgs c = as @ bs" "list_all (\<lambda>g. ms_message_id g < em_message_id e) as"
      "list_all (\<lambda>g. em_message_id e < ms_message_id g) bs"
      and eq: "channel_append e c = (True, c\<lparr>ch_msgs := as @ new_msg e # bs,
        ch_high_water := max (ch_high_water c) (em_message_id e)\<rparr>)"
      using channel_append_splits [OF t id False] .
    have "list_all (\<lambda>y. td_id y < td_id (ev_face e)) (map face as)" "list_all (\<lambda>y. td_id (ev_face e) < td_id y) (map face bs)"
      using split(2,3) by (simp_all add: list.pred_map comp_def)
    moreover have "\<not> list_ex (\<lambda>y. td_id y = td_id (ev_face e)) (map face (ch_msgs c))"
      using False by (simp add: holds_msg_def list_ex_iff)
    ultimately have "tell_new (ev_face e) (map face (ch_msgs c)) = map face (as @ new_msg e # bs)"
      using split(1) insort_key_between [of td_id "ev_face e" "map face as" "map face bs"] by (simp add: tell_new_def)
    moreover have "few_reactions n (as @ new_msg e # bs)" if "few_reactions n (ch_msgs c)"
      using that split(1) by (simp add: few_reactions_def new_msg_def zero_msg_def)
    ultimately show ?thesis using set_last_told [of "as @ new_msg e # bs"] eq
      by (simp add: channel_message_msgs del: butlast_append last_append map_append)
  qed
  then show "map face (ch_msgs (snd (channel_message flat m e c))) = tell_new (ev_face e) (map face (ch_msgs c))"
    "few_reactions n (ch_msgs c) \<Longrightarrow> few_reactions n (ch_msgs (snd (channel_message flat m e c)))" by blast+
qed

section \<open>A run\<close>

lemma list_all2_retold:
  "list_all2 (retold_msg t k) gs gs' \<Longrightarrow> map face gs' = map t (map face gs) \<and> (few_reactions n gs \<longrightarrow> few_reactions (n + k) gs')"
  by (induction rule: list_all2_induct) (auto simp: retold_msg_def few_reactions_def)

lemma few_reactions_mono: "few_reactions n gs \<Longrightarrow> n \<le> k \<Longrightarrow> few_reactions k gs"
  by (auto simp: few_reactions_def list_all_iff)

lemma step_told:
  assumes m: "chat_inv sp m" and ok: "ev_ok sp ev" and ev: "oc_chat_apply flat ev m = Some m'"
  shows "map face (transcript m' cid) = tells cid ev (map face (transcript m cid)) \<and>
    (few_reactions n (transcript m cid) \<longrightarrow> few_reactions (n + reacts ev) (transcript m' cid))"
proof (cases "\<exists>e. ev = OC_EV_MESSAGE e")
  case True
  then obtain e where e: "ev = OC_EV_MESSAGE e" "em_message_id e \<noteq> 0" "m' = ev_message_arm flat e m" using ok ev by auto
  obtain c where c: "channel_ok sp c" "ch_msgs c = transcript m (em_channel_id e)"
    and find: "\<And>cid. oc_model_channel (ev_message_arm flat e m) cid =
      (if cid = em_channel_id e then Some (snd (channel_message flat (channel_ensure (em_channel_id e) m) e c))
       else oc_model_channel m cid)"
    using message_arm_find [OF m e(2)] by metis
  show ?thesis using message_told [OF c(1) e(2)] c(2) find by (auto simp: e(1,3) transcript_def)
next
  case False
  then have "list_all2 (retold_msg (tell cid ev) (reacts ev)) (transcript m cid) (transcript m' cid)"
    using arm_retold [OF m ev] by (auto simp: retold_def)
  moreover have "tells cid ev xs = map (tell cid ev) xs" for xs using False by (cases ev) auto
  ultimately show ?thesis using list_all2_retold by metis
qed

text \<open>A reaction is lost only on a message with 128 of them.\<close>

lemma step_total:
  assumes m: "chat_inv sp m" and few: "\<And>cid. few_reactions n (transcript m cid)" and n: "n + reacts ev \<le> 128"
  shows "oc_chat_apply flat ev m \<noteq> None"
proof (cases ev)
  case (OC_EV_REACTION cid mid uid emoji cnt op)
  have "msg_apply_reaction emoji cnt op (uid = m_user_id m) g \<noteq> None"
    if "oc_model_channel m cid = Some c" "find (\<lambda>g. ms_message_id g = mid) (ch_msgs c) = Some g" for c g
  proof -
    have "g \<in> set (ch_msgs c)" using that(2) by (auto simp: find_Some_iff)
    moreover have "transcript m cid = ch_msgs c" using that(1) by (simp add: transcript_def)
    ultimately have "length (ms_reactions g) \<noteq> 128" using few [of cid] n OC_EV_REACTION
      by (auto simp: few_reactions_def list_all_iff)
    then show ?thesis using apply_reaction_None [OF find_msg_ok [OF find_channel_ok [OF m that(1)] that(2)]] by simp
  qed
  then show ?thesis using OC_EV_REACTION by (auto simp: ev_reaction_arm_def split: option.split)
qed simp_all

lemma run_told:
  assumes "list_all (ev_ok sp) evs" "run_steps (oc_chat_apply flat) evs chat_init = Some m"
  shows "chat_inv sp m \<and> map face (transcript m cid) = fold (tells cid) evs [] \<and>
    few_reactions (sum_list (map reacts evs)) (transcript m cid)"
  using assms
proof (induction evs arbitrary: m rule: rev_induct)
  case Nil
  have "transcript chat_init cid = []" by (simp add: transcript_def oc_model_channel_def chat_init_def)
  then show ?case using Nil by (auto simp: few_reactions_def)
next
  case (snoc ev evs)
  obtain m1 where m1: "run_steps (oc_chat_apply flat) evs chat_init = Some m1" "oc_chat_apply flat ev m1 = Some m"
    using snoc.prems(2) by (auto simp: run_steps_append bind_eq_Some_conv)
  have inv: "chat_inv sp m1" and ok: "ev_ok sp ev" using snoc.IH [OF _ m1(1)] snoc.prems(1) by auto
  show ?case using snoc.IH [OF _ m1(1)] snoc.prems(1) step_told [OF inv ok m1(2)] inv_apply [OF inv ok m1(2)] by auto
qed

lemma run_total:
  assumes "list_all (ev_ok sp) evs" "sum_list (map reacts evs) \<le> 128"
  shows "\<exists>m. run_steps (oc_chat_apply flat) evs chat_init = Some m"
  using assms
proof (induction evs rule: rev_induct)
  case (snoc ev evs)
  then obtain m where m: "run_steps (oc_chat_apply flat) evs chat_init = Some m" by auto
  then have "oc_chat_apply flat ev m \<noteq> None" using run_told [OF _ m] snoc.prems by (intro step_total) auto
  then show ?case using m by (auto simp: run_steps_append)
qed simp

end
