(* ===== verification/Fan_Out.thy ===== *)
theory Fan_Out
  imports Client_Dispatch Conversation
begin

text \<open>
  From the daemon's encoders to the client's transcript: what the messages of conversations that the daemon writes to
  a connection become in the client, whatever the reads of the connection cut them into.
\<close>

section \<open>Messages of conversations, and what they say\<close>

datatype (plugins only: size code) srv_msg =
    S_Broadcast oc_broadcast
  | S_Restored oc_broadcast
  | S_Edited oc_msg_edited
  | S_Reply oc_thread_reply
  | S_Action oc_action
  | S_Forward oc_forward
  | S_Pin oc_pin_updated
  | S_Pinned oc_pinned_msg
  | S_Unfurl oc_unfurl
  | S_Reaction oc_reaction_updated
  | S_Deleted oc_msg_deleted
  | S_Meta oc_thread_meta
  | S_Cursor oc_read_cursor

fun srv_encode :: "u16 \<Rightarrow> oc_wbuf \<Rightarrow> srv_msg \<Rightarrow> oc_result \<times> oc_wbuf" where
  "srv_encode v w (S_Broadcast m) = oc_encode_broadcast w v m"
| "srv_encode v w (S_Restored m) = oc_encode_msg_restored w v m"
| "srv_encode v w (S_Edited m) = oc_encode_msg_edited w v m"
| "srv_encode v w (S_Reply m) = oc_encode_thread_reply w v m"
| "srv_encode v w (S_Action m) = oc_encode_action w v m"
| "srv_encode v w (S_Forward m) = oc_encode_forward w v m"
| "srv_encode v w (S_Pin m) = oc_encode_pin_updated w v m"
| "srv_encode v w (S_Pinned m) = oc_encode_pinned_msg w v m"
| "srv_encode v w (S_Unfurl m) = oc_encode_unfurl w v m"
| "srv_encode v w (S_Reaction m) = oc_encode_reaction_updated w v m"
| "srv_encode v w (S_Deleted m) = oc_encode_msg_deleted w v m"
| "srv_encode v w (S_Meta m) = oc_encode_thread_meta w v m"
| "srv_encode v w (S_Cursor m) = oc_encode_read_cursor w v m"

text \<open>
  What is asked of a message: no more attachments than its array holds, and the values that its decoder admits and its
  encoder does not normalise (a known kind, flags 0 or 1, media fields only on video messages).
\<close>

fun srv_wf :: "srv_msg \<Rightarrow> bool" where
  "srv_wf (S_Broadcast m) = wf_broadcast m"
| "srv_wf (S_Restored m) = wf_broadcast m"
| "srv_wf (S_Reply m) = wf_thread_reply m"
| "srv_wf _ = True"

definition forward_event :: "oc_forward \<Rightarrow> chat_ev" where
  "forward_event fw = OC_EV_FORWARD (forward_channel_id fw) (forward_message_id fw)
     \<lparr>fw_src_channel = forward_src_channel fw, fw_src_message = forward_src_message fw,
       fw_src_author = forward_src_author fw, fw_excerpt = Some (c_text (forward_src_excerpt fw)),
       fw_attach_name = (if length (forward_src_attach_name fw) < 128 then c_text (forward_src_attach_name fw) else ''''),
       fw_n_attach = forward_n_attach fw, fw_src_action = (forward_src_action fw \<noteq> 0)\<rparr>"

text \<open>The events of one message, when no action is paired with it.\<close>

fun srv_events :: "srv_msg \<Rightarrow> chat_ev list" where
  "srv_events (S_Broadcast b) =
     OC_EV_MESSAGE (message_event b) # push_attachments (broadcast_message_id b) (broadcast_attach b)"
| "srv_events (S_Restored b) =
     OC_EV_RESTORE (broadcast_channel_id b) (broadcast_message_id b) (Some (c_text (broadcast_body b)))
       (broadcast_broadcast_stored b \<noteq> 0) no_ev_action # push_attachments (broadcast_message_id b) (broadcast_attach b)"
| "srv_events (S_Edited me) =
     [OC_EV_EDIT (msg_edited_channel_id me) (msg_edited_message_id me) (Some (c_text (msg_edited_body me))) no_ev_action]"
| "srv_events (S_Reply tr) =
     OC_EV_THREAD_REPLY (reply_event tr) # push_attachments (thread_reply_message_id tr) (thread_reply_attach tr)"
| "srv_events (S_Action ac) = [OC_EV_ACTION (action_channel_id ac) (action_message_id ac) (action_fields ac)]"
| "srv_events (S_Forward fw) = [forward_event fw]"
| "srv_events (S_Pin pu) =
     [OC_EV_PIN (pin_updated_channel_id pu) (pin_updated_message_id pu) (pin_updated_op pu) (pin_updated_user_id pu)
       (pin_updated_pinned_at pu)]"
| "srv_events (S_Pinned pm) =
     [OC_EV_PINNED_MSG (pinned_msg_channel_id pm)
       \<lparr>pr_message_id = pinned_msg_message_id pm, pr_author_id = pinned_msg_author_id pm,
         pr_server_time = pinned_msg_server_time pm, pr_pinned_by = pinned_msg_pinned_by pm,
         pr_pinned_at = pinned_msg_pinned_at pm, pr_body = Some (c_text (pinned_msg_body pm)),
         pr_attach_name = c_text (take 63 (pinned_msg_attach_name pm)), pr_action = (pinned_msg_action pm \<noteq> 0)\<rparr>]"
| "srv_events (S_Unfurl uf) =
     [OC_EV_UNFURL (unfurl_channel_id uf) (unfurl_message_id uf) (Some (c_text (unfurl_url uf)))
       (Some (c_text (unfurl_title uf))) (Some (c_text (unfurl_descr uf)))]"
| "srv_events (S_Reaction ru) =
     [OC_EV_REACTION (reaction_updated_channel_id ru) (reaction_updated_message_id ru) (reaction_updated_user_id ru)
       (c_text (take 39 (reaction_updated_emoji ru))) (ucast (reaction_updated_count ru)) (reaction_updated_op ru)]"
| "srv_events (S_Deleted md) = [OC_EV_DELETE (msg_deleted_channel_id md) (msg_deleted_message_id md)]"
| "srv_events (S_Meta tm) = [OC_EV_THREAD_META (thread_meta_message_id tm) (thread_meta_reply_count tm)]"
| "srv_events (S_Cursor rc) =
     [OC_EV_READ_CURSOR (read_cursor_channel_id rc) (read_cursor_user_id rc) (read_cursor_message_id rc)]"

text \<open>The id of the message that a frame bears, which the daemon follows with one action when it is live.\<close>

fun srv_bears :: "srv_msg \<Rightarrow> u64 option" where
  "srv_bears (S_Broadcast b) = Some (broadcast_message_id b)"
| "srv_bears (S_Restored b) = Some (broadcast_message_id b)"
| "srv_bears (S_Edited me) = Some (msg_edited_message_id me)"
| "srv_bears (S_Reply tr) = Some (thread_reply_message_id tr)"
| "srv_bears _ = None"

fun forwards :: "u64 \<Rightarrow> srv_msg \<Rightarrow> bool" where
  "forwards i (S_Forward fw) \<longleftrightarrow> forward_message_id fw = i"
| "forwards i _ \<longleftrightarrow> False"

fun acts_on :: "u64 \<Rightarrow> srv_msg list \<Rightarrow> oc_action option" where
  "acts_on i (S_Action ac # _) = (if action_message_id ac = i then Some ac else None)"
| "acts_on i _ = None"

definition with_action :: "oc_action option \<Rightarrow> chat_ev list \<Rightarrow> chat_ev list" where
  "with_action ac es = (case (ac, es) of (Some ac, e # es) \<Rightarrow> ev_set_action ac e # es | _ \<Rightarrow> es)"

text \<open>
  What the UI is handed: the events in the order of the frames, with the action of a message taken into the message
  where it is the next frame, its own forwards apart.
\<close>

function hand_on :: "srv_msg list \<Rightarrow> chat_ev list" where
  "hand_on [] = []"
| "hand_on (m # ms) =
     (case srv_bears m of
        None \<Rightarrow> srv_events m @ hand_on ms
      | Some i \<Rightarrow>
          let fws = takeWhile (forwards i) ms; rest = dropWhile (forwards i) ms
          in with_action (acts_on i rest) (srv_events m) @ concat (map srv_events fws) @
             hand_on (if acts_on i rest = None then rest else tl rest))"
  by pat_completeness auto
termination
proof (relation "measure length", goal_cases)
  case (3 m ms i fws rest)
  then have "length rest \<le> length ms" by (simp add: length_dropWhile_le)
  then show ?case by (simp add: less_Suc_eq_le) arith
qed simp_all

declare hand_on.simps [simp del]

section \<open>One frame\<close>

text \<open>A message as the daemon writes it to a connection of protocol version \<open>v\<close>.\<close>

definition sent :: "u16 \<Rightarrow> srv_msg \<Rightarrow> u8 list \<Rightarrow> bool" where
  "sent v m bs \<longleftrightarrow> srv_wf m \<and> (\<exists>w w'. srv_encode v w m = (OC_OK, w') \<and> w_data w' = w_data w @ bs)"

lemma sentI: "srv_wf m \<Longrightarrow> srv_encode v w m = (OC_OK, w') \<Longrightarrow> w_data w' = w_data w @ bs \<Longrightarrow> sent v m bs"
  by (auto simp: sent_def)

text \<open>What a message does to the context of \<^verbatim>\<open>dispatch\<close>.\<close>

definition srv_step :: "srv_msg \<Rightarrow> disp_ctx \<Rightarrow> disp_ctx" where
  "srv_step m ctx =
     (case m of
        S_Action ac \<Rightarrow>
          if dc_holding ctx \<and> action_message_id ac = dc_held_id ctx
          then held_release (ctx\<lparr>dc_held := with_action (Some ac) (dc_held ctx)\<rparr>)
          else to_ui (srv_events m) (if dc_holding ctx then held_release ctx else ctx)
      | S_Forward fw \<Rightarrow>
          if dc_holding ctx \<and> forward_message_id fw = dc_held_id ctx then to_held (srv_events m) ctx
          else to_ui (srv_events m) (if dc_holding ctx then held_release ctx else ctx)
      | _ \<Rightarrow>
          let ctx = (if dc_holding ctx then held_release ctx else ctx)
          in (case srv_bears m of
                None \<Rightarrow> to_ui (srv_events m) ctx
              | Some i \<Rightarrow> to_held (srv_events m) (held_begin i ctx)))"

lemma held_release_simps [simp]:
  "dc_holding (held_release ctx) = False" "dc_held (held_release ctx) = []" "dc_to_ui (held_release ctx) = dc_to_ui ctx @ dc_held ctx"
  "dc_version (held_release ctx) = dc_version ctx"
  by (simp_all add: held_release_def)

lemma srv_step_version [simp]: "dc_version (srv_step m ctx) = dc_version ctx"
  by (cases m) (simp_all add: srv_step_def to_ui_def to_held_def held_begin_def Let_def)

lemma frame_step:
  assumes "OC_HEADER_SIZE + length payload \<le> OC_MAX_FRAME_SIZE" "dc_version ctx = v"
  shows "on_frame others (frame_bytes v t payload) ctx =
    (let p = rbuf_at [] payload;
         ctx = (if dc_holding ctx \<and> t \<noteq> OC_MSG_ACTION \<and> t \<noteq> OC_MSG_FORWARD then held_release ctx else ctx)
     in if t = OC_MSG_ACTION then on_action p ctx
        else if t = OC_MSG_BROADCAST then on_broadcast p ctx
        else if t = OC_MSG_MSG_RESTORED then on_msg_restored p ctx
        else if t = OC_MSG_PIN_UPDATED then on_pin_updated p ctx
        else if t = OC_MSG_PINNED_MSG then on_pinned_msg p ctx
        else if t = OC_MSG_FORWARD then on_forward p ctx
        else if t = OC_MSG_UNFURL then on_unfurl p ctx
        else if t = OC_MSG_REACTION_UPDATED then on_reaction_updated p ctx
        else if t = OC_MSG_MSG_EDITED then on_msg_edited p ctx
        else if t = OC_MSG_MSG_DELETED then on_msg_deleted p ctx
        else if t = OC_MSG_THREAD_REPLY then on_thread_reply p ctx
        else if t = OC_MSG_THREAD_META then on_thread_meta p ctx
        else if t = OC_MSG_READ_CURSOR then on_read_cursor p ctx
        else (case others t p of None \<Rightarrow> (False, ctx) | Some es \<Rightarrow> (True, to_ui es ctx)))"
  using parse_frame_bytes [OF assms(1), of v t "[]"] assms(2) by (simp add: on_frame_def Let_def oc_rbuf_init_at)

text \<open>Every frame the daemon writes is well formed, and the client takes it as the message it is.\<close>

definition taken_as :: "u16 \<Rightarrow> srv_msg \<Rightarrow> u8 list \<Rightarrow> bool" where
  "taken_as v m bs \<longleftrightarrow> (\<exists>t payload. bs = sent_frame (v, t, payload) \<and> frame_fits (v, t, payload)) \<and>
     (\<forall>others ctx. dc_version ctx = v \<longrightarrow> on_frame others bs ctx = (True, srv_step m ctx))"

lemma taken_asI:
  assumes "w_data w' = w_data w @ frame_bytes v t payload" "OC_HEADER_SIZE + length payload \<le> OC_MAX_FRAME_SIZE"
    "w_data w' = w_data w @ bs"
    "\<And>others ctx. dc_version ctx = v \<Longrightarrow> on_frame others (frame_bytes v t payload) ctx = (True, srv_step m ctx)"
  shows "taken_as v m bs"
  using assms unfolding taken_as_def
  by (auto simp: sent_frame_def frame_fits_def intro: exI [of _ t] exI [of _ payload])

lemmas frame_arms = on_action_def on_broadcast_def on_msg_restored_def on_pin_updated_def on_pinned_msg_def on_forward_def
  on_unfurl_def on_reaction_updated_def on_msg_edited_def on_msg_deleted_def on_thread_reply_def on_thread_meta_def
  on_read_cursor_def srv_step_def with_action_def forward_event_def Let_def

lemma sent_taken:
  assumes "sent v m bs"
  shows "taken_as v m bs"
proof -
  obtain w w' where m: "srv_wf m" and enc: "srv_encode v w m = (OC_OK, w')" and bs: "w_data w' = w_data w @ bs"
    using assms by (auto simp: sent_def)
  show ?thesis
  proof (cases m)
    case (S_Broadcast b)
    note f = broadcast_codec.encoded_frame [OF m [unfolded S_Broadcast srv_wf.simps] enc [unfolded S_Broadcast srv_encode.simps]]
    show ?thesis by (rule taken_asI [OF f(1,2) bs]) (simp add: S_Broadcast frame_step [OF f(2)] f(3) frame_arms)
  next
    case (S_Restored b)
    note f = msg_restored_codec.encoded_frame [OF m [unfolded S_Restored srv_wf.simps] enc [unfolded S_Restored srv_encode.simps]]
    show ?thesis by (rule taken_asI [OF f(1,2) bs]) (simp add: S_Restored frame_step [OF f(2)] f(3) frame_arms)
  next
    case (S_Reply tr)
    note f = thread_reply_codec.encoded_frame [OF m [unfolded S_Reply srv_wf.simps] enc [unfolded S_Reply srv_encode.simps]]
    show ?thesis by (rule taken_asI [OF f(1,2) bs]) (simp add: S_Reply frame_step [OF f(2)] f(3) frame_arms)
  next
    case (S_Edited me)
    note f = msg_edited_codec.encoded_frame [OF TrueI enc [unfolded S_Edited srv_encode.simps]]
    show ?thesis by (rule taken_asI [OF f(1,2) bs]) (simp add: S_Edited frame_step [OF f(2)] f(3) frame_arms)
  next
    case (S_Action ac)
    note f = action_codec.encoded_frame [OF TrueI enc [unfolded S_Action srv_encode.simps]]
    show ?thesis by (rule taken_asI [OF f(1,2) bs]) (simp add: S_Action frame_step [OF f(2)] f(3) frame_arms split: list.split)
  next
    case (S_Forward fw)
    note f = forward_codec.encoded_frame [OF TrueI enc [unfolded S_Forward srv_encode.simps]]
    show ?thesis by (rule taken_asI [OF f(1,2) bs]) (simp add: S_Forward frame_step [OF f(2)] f(3) frame_arms)
  next
    case (S_Pin pu)
    note f = pin_updated_codec.encoded_frame [OF TrueI enc [unfolded S_Pin srv_encode.simps]]
    show ?thesis by (rule taken_asI [OF f(1,2) bs]) (simp add: S_Pin frame_step [OF f(2)] f(3) frame_arms)
  next
    case (S_Pinned pm)
    note f = pinned_msg_codec.encoded_frame [OF TrueI enc [unfolded S_Pinned srv_encode.simps]]
    show ?thesis by (rule taken_asI [OF f(1,2) bs]) (simp add: S_Pinned frame_step [OF f(2)] f(3) frame_arms)
  next
    case (S_Unfurl uf)
    note f = unfurl_codec.encoded_frame [OF TrueI enc [unfolded S_Unfurl srv_encode.simps]]
    show ?thesis by (rule taken_asI [OF f(1,2) bs]) (simp add: S_Unfurl frame_step [OF f(2)] f(3) frame_arms)
  next
    case (S_Reaction ru)
    note f = reaction_updated_codec.encoded_frame [OF TrueI enc [unfolded S_Reaction srv_encode.simps]]
    show ?thesis by (rule taken_asI [OF f(1,2) bs]) (simp add: S_Reaction frame_step [OF f(2)] f(3) frame_arms)
  next
    case (S_Deleted md)
    note f = msg_deleted_codec.encoded_frame [OF TrueI enc [unfolded S_Deleted srv_encode.simps]]
    show ?thesis by (rule taken_asI [OF f(1,2) bs]) (simp add: S_Deleted frame_step [OF f(2)] f(3) frame_arms)
  next
    case (S_Meta tm)
    note f = thread_meta_codec.encoded_frame [OF TrueI enc [unfolded S_Meta srv_encode.simps]]
    show ?thesis by (rule taken_asI [OF f(1,2) bs]) (simp add: S_Meta frame_step [OF f(2)] f(3) frame_arms)
  next
    case (S_Cursor rc)
    note f = read_cursor_codec.encoded_frame [OF TrueI enc [unfolded S_Cursor srv_encode.simps]]
    show ?thesis by (rule taken_asI [OF f(1,2) bs]) (simp add: S_Cursor frame_step [OF f(2)] f(3) frame_arms)
  qed
qed

section \<open>A whole stream\<close>

text \<open>What follows a message \<open>i\<close> whose events so far are \<open>es\<close>.\<close>

definition wait_for :: "u64 \<Rightarrow> chat_ev list \<Rightarrow> srv_msg list \<Rightarrow> chat_ev list" where
  "wait_for i es ms =
     (let rest = dropWhile (forwards i) ms
      in with_action (acts_on i rest) es @ concat (map srv_events (takeWhile (forwards i) ms)) @
         hand_on (if acts_on i rest = None then rest else tl rest))"

lemma hand_on_Cons: "hand_on (m # ms) = (case srv_bears m of None \<Rightarrow> srv_events m @ hand_on ms | Some i \<Rightarrow> wait_for i (srv_events m) ms)"
  by (simp add: hand_on.simps wait_for_def Let_def split: option.split)

lemma with_action_append [simp]: "es \<noteq> [] \<Longrightarrow> with_action ac (es @ fs) = with_action ac es @ fs"
  by (cases es) (simp_all add: with_action_def split: option.split)

lemma with_action_None [simp]: "with_action None es = es"
  by (simp add: with_action_def)

lemma wait_for_Nil: "wait_for i es [] = es"
  by (simp add: wait_for_def hand_on.simps)

lemma wait_for_Cons:
  "es \<noteq> [] \<Longrightarrow> wait_for i es (m # ms) =
    (if forwards i m then wait_for i (es @ srv_events m) ms
     else case acts_on i (m # ms) of None \<Rightarrow> es @ hand_on (m # ms) | Some ac \<Rightarrow> with_action (Some ac) es @ hand_on ms)"
  by (simp add: wait_for_def Let_def split: option.split)

lemma srv_events_ne [simp]: "srv_events m \<noteq> []"
  by (cases m) simp_all

text \<open>The actions and forwards that a held message does not wait for release it first.\<close>

lemma srv_step_release:
  assumes "\<not> (dc_holding ctx \<and> forwards (dc_held_id ctx) m)" "\<not> (dc_holding ctx \<and> acts_on (dc_held_id ctx) [m] \<noteq> None)"
  shows "srv_step m ctx = srv_step m (if dc_holding ctx then held_release ctx else ctx)"
  using assms by (cases m) (auto simp: srv_step_def Let_def)

lemma srv_step_idle:
  "\<not> dc_holding ctx \<Longrightarrow> dc_held ctx = [] \<Longrightarrow> srv_step m ctx =
    (case srv_bears m of None \<Rightarrow> to_ui (srv_events m) ctx | Some i \<Rightarrow> ctx\<lparr>dc_held := srv_events m, dc_holding := True, dc_held_id := i\<rparr>)"
  by (cases m) (auto simp: srv_step_def Let_def to_held_def held_begin_def held_release_def)

lemma steps_hand_on:
  "(\<not> dc_holding ctx \<longrightarrow> dc_held ctx = [] \<longrightarrow>
      dc_to_ui (held_release (fold srv_step ms ctx)) = dc_to_ui ctx @ hand_on ms) \<and>
   (dc_holding ctx \<longrightarrow> dc_held ctx \<noteq> [] \<longrightarrow>
      dc_to_ui (held_release (fold srv_step ms ctx)) = dc_to_ui ctx @ wait_for (dc_held_id ctx) (dc_held ctx) ms)"
proof (induction ms arbitrary: ctx)
  case Nil
  then show ?case by (simp add: hand_on.simps wait_for_Nil)
next
  case (Cons m ms)
  have idle: "dc_to_ui (held_release (fold srv_step (m # ms) ctx)) = dc_to_ui ctx @ hand_on (m # ms)"
    if "\<not> dc_holding ctx" "dc_held ctx = []" for ctx
  proof (cases "srv_bears m")
    case None
    then show ?thesis using Cons [of "srv_step m ctx"] that by (simp add: srv_step_idle hand_on_Cons to_ui_def)
  next
    case (Some i)
    then show ?thesis using Cons [of "srv_step m ctx"] that by (simp add: srv_step_idle hand_on_Cons)
  qed
  have "dc_to_ui (held_release (fold srv_step (m # ms) ctx)) = dc_to_ui ctx @ wait_for (dc_held_id ctx) (dc_held ctx) (m # ms)"
    if hold: "dc_holding ctx" "dc_held ctx \<noteq> []"
  proof (cases "forwards (dc_held_id ctx) m")
    case True
    then obtain fw where m: "m = S_Forward fw" "forward_message_id fw = dc_held_id ctx" by (cases m) auto
    then have "srv_step m ctx = to_held (srv_events m) ctx" using hold by (simp add: srv_step_def)
    then show ?thesis using Cons [of "srv_step m ctx"] hold True by (simp add: wait_for_Cons to_held_def)
  next
    case other: False
    show ?thesis
    proof (cases "acts_on (dc_held_id ctx) (m # ms)")
      case None
      then have "acts_on (dc_held_id ctx) [m] = None" by (cases m) (auto split: if_splits)
      then have "srv_step m ctx = srv_step m (held_release ctx)" using srv_step_release [of ctx m] other hold by simp
      then show ?thesis using idle [of "held_release ctx"] other None hold by (simp add: wait_for_Cons)
    next
      case (Some ac)
      then have m: "m = S_Action ac" "action_message_id ac = dc_held_id ctx" by (cases m; auto split: if_splits)+
      then have "srv_step m ctx = held_release (ctx\<lparr>dc_held := with_action (Some ac) (dc_held ctx)\<rparr>)"
        using hold by (simp add: srv_step_def)
      then show ?thesis using Cons [of "srv_step m ctx"] hold other Some by (simp add: wait_for_Cons)
    qed
  qed
  then show ?case using idle by blast
qed


section \<open>The reads of a connection\<close>

fun on_frames ::
    "(u16 \<Rightarrow> oc_rbuf \<Rightarrow> chat_ev list option) \<Rightarrow> u8 list list \<Rightarrow> disp_ctx \<Rightarrow> bool \<times> disp_ctx" where
  "on_frames others [] ctx = (True, ctx)"
| "on_frames others (f # fs) ctx =
     (case on_frame others f ctx of (True, ctx') \<Rightarrow> on_frames others fs ctx' | (False, ctx') \<Rightarrow> (False, ctx'))"

lemma on_frames_append:
  "on_frames others (fs @ gs) ctx =
    (case on_frames others fs ctx of (True, ctx') \<Rightarrow> on_frames others gs ctx' | (False, ctx') \<Rightarrow> (False, ctx'))"
  by (induction fs arbitrary: ctx) (auto split: prod.split bool.split)

lemma dispatch_drains:
  "fb_drain fb = (fs, None, fb') \<Longrightarrow> on_frames others fs ctx = (True, ctx') \<Longrightarrow> dispatch others fb ctx = (True, fb', ctx')"
proof (induction fb arbitrary: fs ctx rule: fb_drain.induct)
  case (1 fb)
  show ?case
  proof (cases "oc_framebuf_next fb")
    case (Pair st q)
    show ?thesis
    proof (cases st)
      case FB_MORE
      then show ?thesis using 1(2,3) Pair by (simp add: fb_drain.simps [of fb] dispatch.simps [of others fb])
    next
      case (FB_ERR e)
      then show ?thesis using 1(2) Pair by (simp add: fb_drain.simps [of fb])
    next
      case (FB_FRAME f)
      obtain gs where gs: "fs = f # gs" "fb_drain q = (gs, None, fb')"
        using 1(2) Pair FB_FRAME by (auto simp: fb_drain.simps [of fb] split: prod.splits)
      obtain ctx1 where c: "on_frame others f ctx = (True, ctx1)" "on_frames others gs ctx1 = (True, ctx')"
        using 1(3) gs(1) by (auto split: prod.splits bool.splits)
      show ?thesis using 1(1) [OF Pair [symmetric] FB_FRAME gs(2) c(2)] Pair FB_FRAME c(1)
        by (simp add: dispatch.simps [of others fb])
    qed
  qed
qed

lemma reads_dispatch:
  "read_some fb chunks = (fs, None, fb') \<Longrightarrow> on_frames others fs ctx = (True, ctx') \<Longrightarrow>
    net_reads others chunks (fb, ctx) = (True, fb', ctx')"
proof (induction chunks arbitrary: fb fs ctx)
  case (Cons c cs)
  obtain q where q: "oc_framebuf_push fb c = (True, q)" using Cons.prems(1) by (cases "oc_framebuf_push fb c") (auto split: if_splits)
  obtain gs e q' where gs: "fb_drain q = (gs, e, q')" by (metis prod.exhaust)
  have e: "e = None" using Cons.prems(1) q gs by (auto split: if_splits)
  obtain hs where hs: "read_some q' cs = (hs, None, fb')" "fs = gs @ hs"
    using Cons.prems(1) q gs e by (auto split: prod.splits)
  obtain ctx1 where c1: "on_frames others gs ctx = (True, ctx1)" "on_frames others hs ctx1 = (True, ctx')"
    using Cons.prems(2) hs(2) by (auto simp: on_frames_append split: prod.splits bool.splits)
  show ?case
    using dispatch_drains [OF gs [unfolded e] c1(1)] Cons.IH [OF hs(1) c1(2)] q by (simp add: oc_net_frames_push_def)
qed simp

lemma on_frames_sent:
  "list_all2 (sent v) ms frames \<Longrightarrow> dc_version ctx = v \<Longrightarrow> on_frames others frames ctx = (True, fold srv_step ms ctx)"
proof (induction ms frames arbitrary: ctx rule: list_all2_induct)
  case (Cons m ms f frames)
  then show ?case using sent_taken [OF Cons(1)] by (simp add: taken_as_def)
qed simp

lemma sent_frames_list:
  "list_all2 (sent v) ms frames \<Longrightarrow> \<exists>fs. frames = map sent_frame fs \<and> list_all frame_fits fs"
proof (induction ms frames rule: list_all2_induct)
  case (Cons m ms f frames)
  then obtain fs where fs: "frames = map sent_frame fs" "list_all frame_fits fs" by blast
  obtain t payload where "f = sent_frame (v, t, payload)" "frame_fits (v, t, payload)"
    using sent_taken [OF Cons(1)] by (auto simp: taken_as_def)
  then show ?case using fs by (intro exI [of _ "(v, t, payload) # fs"]) simp
qed simp

lemma messages_reach_ui:
  assumes "list_all2 (sent v) ms frames" "list_all (\<lambda>c. length c \<le> OC_READ_CHUNK) chunks" "concat chunks = concat frames"
  shows "\<exists>f. net_reads others chunks (oc_net_frames_new v) = (True, f) \<and> oc_net_frames_free f = hand_on ms"
proof -
  obtain fs where fs: "frames = map sent_frame fs" "list_all frame_fits fs" using sent_frames_list [OF assms(1)] by blast
  obtain fb where fb: "read_some oc_framebuf_init chunks = (frames, None, fb)"
    using reads_sent [OF fs(2) assms(2)] assms(3) fs(1) by auto
  let ?ctx = "snd (oc_net_frames_new v)"
  have ctx: "dc_version ?ctx = v" "\<not> dc_holding ?ctx" "dc_held ?ctx = []" "dc_to_ui ?ctx = []"
    by (simp_all add: oc_net_frames_new_def)
  have "net_reads others chunks (oc_framebuf_init, ?ctx) = (True, fb, fold srv_step ms ?ctx)"
    by (rule reads_dispatch [OF fb on_frames_sent [OF assms(1) ctx(1)]])
  moreover have "dc_to_ui (held_release (fold srv_step ms ?ctx)) = hand_on ms" using steps_hand_on [of ?ctx ms] ctx by simp
  ultimately show ?thesis by (simp add: oc_net_frames_free_def) (simp add: oc_net_frames_new_def)
qed


text \<open>
  C2: however the network cuts what the daemon writes, the client hands on exactly the events of the messages, in the
  order they were written, and keeps the connection. A message whose action is the next frame, its own forwards
  apart, is handed on with that action in it and the action is not handed on by itself; every other action is an
  event of its own, and nothing is lost, doubled or held back when the connection closes.\<close>

theorem server_messages_reach_ui:
  assumes "list_all2 (sent v) ms frames" "list_all (\<lambda>c. length c \<le> OC_READ_CHUNK) chunks" "concat chunks = concat frames"
  shows "\<exists>f. net_reads others chunks (oc_net_frames_new v) = (True, f) \<and> oc_net_frames_free f = hand_on ms"
  by (rule messages_reach_ui [OF assms])

section \<open>Into the transcript\<close>

text \<open>
  The conversation of a channel as the daemon's messages tell it: a new message goes to its place by id unless its id is
  there, an edit, a deletion or a restoration changes the message it names, and nothing else changes what
  is told.
\<close>

fun told :: "u64 \<Rightarrow> srv_msg \<Rightarrow> told_msg list \<Rightarrow> told_msg list" where
  "told cid (S_Broadcast b) xs = (if broadcast_channel_id b = cid then tell_new (ev_face (message_event b)) xs else xs)"
| "told cid (S_Edited me) xs =
     (if msg_edited_channel_id me = cid
      then map (tell_msg (msg_edited_message_id me) (retext (Some (c_text (msg_edited_body me))))) xs else xs)"
| "told cid (S_Deleted md) xs =
     (if msg_deleted_channel_id md = cid then map (tell_msg (msg_deleted_message_id md) untell) xs else xs)"
| "told cid (S_Restored b) xs =
     (if broadcast_channel_id b = cid
      then map (tell_msg (broadcast_message_id b)
        (tell_again (Some (c_text (broadcast_body b))) (broadcast_broadcast_stored b \<noteq> 0))) xs
      else xs)"
| "told cid _ xs = xs"

fun is_reaction :: "srv_msg \<Rightarrow> bool" where
  "is_reaction (S_Reaction ru) = True"
| "is_reaction _ = False"

fun nonzero_id :: "srv_msg \<Rightarrow> bool" where
  "nonzero_id (S_Broadcast b) \<longleftrightarrow> broadcast_message_id b \<noteq> 0"
| "nonzero_id _ \<longleftrightarrow> True"

text \<open>The three properties of events that the client's side rests on, and that actions do not change.\<close>

definition tells_all :: "u64 \<Rightarrow> chat_ev list \<Rightarrow> told_msg list \<Rightarrow> told_msg list" where
  "tells_all cid evs = fold (tells cid) evs"

lemma tells_all_simps [simp]:
  "tells_all cid [] xs = xs" "tells_all cid (ev # evs) xs = tells_all cid evs (tells cid ev xs)"
  "tells_all cid (evs @ evs') xs = tells_all cid evs' (tells_all cid evs xs)"
  by (simp_all add: tells_all_def)

lemma tells_action [simp]: "tells cid (ev_set_action ac ev) xs = tells cid ev xs"
  by (cases ev) (simp_all add: ev_face_def)

lemma ev_ok_action [simp]: "ev_ok False (ev_set_action ac ev) = ev_ok False ev"
  by (cases ev) simp_all

lemma reacts_action [simp]: "reacts (ev_set_action ac ev) = reacts ev"
  by (cases ev) simp_all

lemma with_action_told [simp]:
  "tells_all cid (with_action ac es) xs = tells_all cid es xs"
  "list_all (ev_ok False) (with_action ac es) = list_all (ev_ok False) es"
  "sum_list (map reacts (with_action ac es)) = sum_list (map reacts es)"
  by (auto simp: with_action_def split: option.split list.split)

lemma push_attachments_told:
  "tells_all cid (push_attachments mid att) xs = xs" "list_all (ev_ok False) (push_attachments mid att)"
  "sum_list (map reacts (push_attachments mid att)) = 0"
proof -
  have "tells_all cid (map (\<lambda>a. OC_EV_ATTACHMENT (f a)) as) xs = xs" for f and as :: "oc_attach_entry list"
    by (induction as) simp_all
  then show "tells_all cid (push_attachments mid att) xs = xs" by (simp add: push_attachments_def)
  show "list_all (ev_ok False) (push_attachments mid att)" by (simp add: push_attachments_def list_all_iff)
  show "sum_list (map reacts (push_attachments mid att)) = 0" by (simp add: push_attachments_def comp_def)
qed

lemma length_c_text: "length (c_text (take n bs)) < Suc n"
proof -
  have "length (c_text (take n bs)) \<le> length (map (\<lambda>b. char_of (unat b) :: char) (take n bs))"
    unfolding c_text_def by (rule length_takeWhile_le)
  then show ?thesis by simp
qed

lemma srv_events_told:
  "tells_all cid (srv_events m) xs = told cid m xs" "nonzero_id m \<Longrightarrow> list_all (ev_ok False) (srv_events m)"
  "sum_list (map reacts (srv_events m)) = of_bool (is_reaction m)"
  using length_c_text [of 39]
  by (cases m; simp add: push_attachments_told forward_event_def message_event_def)+

text \<open>So the events that are handed on tell what the messages tell.\<close>

lemma hand_on_told:
  "tells_all cid (hand_on ms) xs = fold (told cid) ms xs \<and>
   (list_all nonzero_id ms \<longrightarrow> list_all (ev_ok False) (hand_on ms)) \<and>
   sum_list (map reacts (hand_on ms)) = length (filter is_reaction ms)"
proof (induction ms arbitrary: xs rule: hand_on.induct)
  case 1
  then show ?case by (simp add: hand_on.simps)
next
  case (2 m ms)
  show ?case
  proof (cases "srv_bears m")
    case None
    then show ?thesis using 2(1) by (simp add: hand_on.simps(2) srv_events_told)
  next
    case (Some i)
    let ?fws = "takeWhile (forwards i) ms" and ?rest = "dropWhile (forwards i) ms"
    have fws: "tells_all cid (concat (map srv_events fs)) xs = xs \<and> list_all (ev_ok False) (concat (map srv_events fs)) \<and>
        sum_list (map reacts (concat (map srv_events fs))) = 0 \<and> fold (told cid) fs xs = xs \<and> filter is_reaction fs = []"
      if "list_all (forwards i) fs" for fs xs
      using that
    proof (induction fs)
      case (Cons f fs)
      then obtain fw where "f = S_Forward fw" by (cases f) auto
      then show ?case using Cons by (simp add: forward_event_def)
    qed simp
    have fwd: "list_all (forwards i) ?fws" by (auto simp: list_all_iff dest: set_takeWhileD)
    have rest: "tells_all cid (hand_on (if acts_on i ?rest = None then ?rest else tl ?rest)) xs = fold (told cid) ?rest xs \<and>
       (list_all nonzero_id ?rest \<longrightarrow> list_all (ev_ok False) (hand_on (if acts_on i ?rest = None then ?rest else tl ?rest))) \<and>
       sum_list (map reacts (hand_on (if acts_on i ?rest = None then ?rest else tl ?rest))) = length (filter is_reaction ?rest)" for xs
    proof (cases "acts_on i ?rest")
      case None
      then show ?thesis using 2(2) [OF Some refl refl] by simp
    next
      case (Some ac)
      then obtain ac' tail where "?rest = S_Action ac' # tail" by (cases ?rest; cases "hd ?rest") auto
      then show ?thesis using 2(2) [OF \<open>srv_bears m = Some i\<close> refl refl, of xs] Some by simp
    qed
    have ms: "fold (told cid) (?fws @ ?rest) xs = fold (told cid) ?rest xs" "filter is_reaction (?fws @ ?rest) = filter is_reaction ?rest"
      "list_all nonzero_id (?fws @ ?rest) \<Longrightarrow> list_all nonzero_id ?rest" for xs
      using fws [OF fwd] by (simp_all del: takeWhile_dropWhile_id)
    note ms = ms [unfolded takeWhile_dropWhile_id]
    show ?thesis using Some fws [OF fwd] rest ms srv_events_told
      by (simp add: hand_on.simps(2) Let_def)
  qed
qed

text \<open>
  C1: over the wire, the transcript of a client is the conversation the daemon told. For any sequence of the 13
  messages of conversations, to any channels, in any order and any number of times, with attachments or without, live
  or replayed, whose broadcasts have ids other than 0, written by the daemon's encoders (flags and counts as \<open>srv_wf\<close>
  asks) to a connection of a client that starts empty and cut into reads in any way: the client keeps the
  connection, every event is applied when there are at most 128 reactions, and whenever all are applied the messages of
  each channel are those of \<open>told\<close>: each broadcast once and as it first arrived, sorted by id, with the text of
  its last edit and its deletions and restorations. This is about the author, name, time, kind, stored flag, text, edited and
  deleted flags of a message; its action, reactions, attachments, links, forward and pin are not in it.\<close>

theorem transcript_is_what_was_told:
  assumes "list_all2 (sent v) ms frames" "list_all nonzero_id ms"
    and "list_all (\<lambda>c. length c \<le> OC_READ_CHUNK) chunks" "concat chunks = concat frames"
  shows "\<exists>f. net_reads others chunks (oc_net_frames_new v) = (True, f) \<and>
    (length (filter is_reaction ms) \<le> 128 \<longrightarrow> run_steps (oc_chat_apply flat) (oc_net_frames_free f) chat_init \<noteq> None) \<and>
    (\<forall>m. run_steps (oc_chat_apply flat) (oc_net_frames_free f) chat_init = Some m \<longrightarrow>
      map face (transcript m cid) = fold (told cid) ms [])"
proof -
  obtain f where f: "net_reads others chunks (oc_net_frames_new v) = (True, f)" "oc_net_frames_free f = hand_on ms"
    using messages_reach_ui [OF assms(1,3,4), of others] by blast
  note h = hand_on_told [of cid ms "[]"]
  then have ok: "list_all (ev_ok False) (hand_on ms)" using assms(2) by blast
  show ?thesis using f h run_told [OF ok] run_total [OF ok] by (auto simp: tells_all_def)
qed

section \<open>A live message\<close>

definition hello_msg :: oc_broadcast where
  "hello_msg = \<lparr>broadcast_message_id = 9, broadcast_channel_id = 3, broadcast_author_id = 2, broadcast_server_time = 5,
     broadcast_kind = 0, broadcast_body = [104, 105], broadcast_attach = [], broadcast_author_name = [97], broadcast_broadcast_stored = 0\<rparr>"

definition hello_action :: oc_action where
  "hello_action = \<lparr>action_message_id = 9, action_channel_id = 3, action_actor_id = 2, action_actor_name = [97],
     action_text_start = 0, action_text_len = 2\<rparr>"

definition hello_frames :: "u8 list list" where
  "hello_frames = [frame_bytes 1 OC_MSG_BROADCAST (payload_broadcast hello_msg), frame_bytes 1 OC_MSG_ACTION (payload_action hello_action)]"

lemma hello_lengths: "length (payload_broadcast hello_msg) = 45" "length (payload_action hello_action) = 35"
  by (simp_all add: payload_broadcast_def payload_action_def enc_lstr_def enc_str_def enc_broadcast_tail_def enc_attach_list_def
      hello_msg_def hello_action_def)

lemma hello_sent: "list_all2 (sent 1) [S_Broadcast hello_msg, S_Action hello_action] hello_frames"
proof -
  have wf: "wf_broadcast hello_msg" and fits: "fits_broadcast hello_msg" "fits_action hello_action"
    by (simp_all add: wf_broadcast_def fits_broadcast_def fits_action_def hello_msg_def hello_action_def)
  have body: "\<not> length (broadcast_body hello_msg) > OC_MAX_BODY_SIZE" by (simp add: hello_msg_def)
  have b: "oc_encode_broadcast (oc_wbuf_init 256) 1 hello_msg =
      (OC_OK, (oc_wbuf_init 256)\<lparr>w_data := frame_bytes 1 OC_MSG_BROADCAST (payload_broadcast hello_msg)\<rparr>)"
    using broadcast_codec.encode_emits [OF wf, of "oc_wbuf_init 256" 1] fits body
    by (simp add: oc_emit_def oc_wbuf_init_def hello_lengths)
  have a: "oc_encode_action (oc_wbuf_init 256) 1 hello_action =
      (OC_OK, (oc_wbuf_init 256)\<lparr>w_data := frame_bytes 1 OC_MSG_ACTION (payload_action hello_action)\<rparr>)"
    using action_codec.encode_emits [OF TrueI, of "oc_wbuf_init 256" 1 hello_action] fits
    by (simp add: oc_emit_def oc_wbuf_init_def hello_lengths)
  have "sent 1 (S_Broadcast hello_msg) (frame_bytes 1 OC_MSG_BROADCAST (payload_broadcast hello_msg))"
    by (rule sentI [where w = "oc_wbuf_init 256"]) (use wf b in \<open>auto simp: oc_wbuf_init_def\<close>)
  moreover have "sent 1 (S_Action hello_action) (frame_bytes 1 OC_MSG_ACTION (payload_action hello_action))"
    by (rule sentI [where w = "oc_wbuf_init 256"]) (use a in \<open>auto simp: oc_wbuf_init_def\<close>)
  ultimately show ?thesis by (simp add: hello_frames_def)
qed

lemma hello_chunks: "list_all (\<lambda>c. length c \<le> OC_READ_CHUNK) hello_frames"
  by (simp add: hello_frames_def hello_lengths)

theorem server_messages_reach_ui_witness:
  "\<exists>f. net_reads (\<lambda>_ _. None) hello_frames (oc_net_frames_new 1) = (True, f) \<and>
    oc_net_frames_free f = [OC_EV_MESSAGE ((message_event hello_msg)\<lparr>em_action := action_fields hello_action\<rparr>)]"
proof -
  have "hand_on [S_Broadcast hello_msg, S_Action hello_action] =
      [OC_EV_MESSAGE ((message_event hello_msg)\<lparr>em_action := action_fields hello_action\<rparr>)]"
    by (simp add: hand_on_Cons wait_for_Cons hand_on.simps(1) with_action_def push_attachments_def hello_msg_def hello_action_def)
  then show ?thesis using server_messages_reach_ui [OF hello_sent hello_chunks refl] by simp
qed

theorem transcript_is_what_was_told_witness:
  "\<exists>f m. net_reads (\<lambda>_ _. None) hello_frames (oc_net_frames_new 1) = (True, f) \<and>
    run_steps (oc_chat_apply snprintf_s) (oc_net_frames_free f) chat_init = Some m \<and>
    map face (transcript m 3) = [\<lparr>td_id = 9, td_author = 2, td_name = ''a'', td_time = 5, td_kind = 0, td_stored = False,
      td_body = Some ''hi'', td_edited = False, td_deleted = False\<rparr>]"
proof -
  have nz: "list_all nonzero_id [S_Broadcast hello_msg, S_Action hello_action]" by (simp add: hello_msg_def)
  have "fold (told 3) [S_Broadcast hello_msg, S_Action hello_action] [] = [\<lparr>td_id = 9, td_author = 2, td_name = ''a'',
      td_time = 5, td_kind = 0, td_stored = False, td_body = Some ''hi'', td_edited = False, td_deleted = False\<rparr>]"
    by code_simp
  then show ?thesis
    using transcript_is_what_was_told [OF hello_sent nz hello_chunks refl, of "\<lambda>_ _. None" snprintf_s 3] by auto
qed

end
