(* ===== verification/Web_Steps.thy ===== *)
theory Web_Steps
  imports Device_Codes
begin

text \<open>
  The second-step tickets of \<^verbatim>\<open>daemon/webstep.c\<close>: the page whose password was right hands the browser a ticket instead of a
  token, and the ticket answers for the password page until a code is right, five codes were wrong, or five minutes
  are over. The table keeps a hash of each ticket. Random bytes, times and the hash \<open>sha\<close> (\<^verbatim>\<open>oc_sha256\<close>, mbedTLS) are
  arguments, as in \<open>Device_Codes\<close>; a hash that fails leaves a free slot as it was, and nothing reads a free slot.
\<close>

section \<open>The table\<close>

abbreviation OC_STEP_TTL_MS :: u64 where "OC_STEP_TTL_MS \<equiv> 300000"
abbreviation OC_STEP_TRIES :: int where "OC_STEP_TRIES \<equiv> 5"
abbreviation OC_STEP_MAX :: nat where "OC_STEP_MAX \<equiv> 256"
abbreviation OC_STEP_PER_SOURCE :: nat where "OC_STEP_PER_SOURCE \<equiv> 32"
abbreviation OC_STEP_TICKET_LEN :: nat where "OC_STEP_TICKET_LEN \<equiv> 43"

record oc_step_ticket =
  tk_page :: int
  tk_uid :: u64
  tk_version :: u64
  tk_redirect_uri :: string
  tk_nonce :: string
  tk_user_code :: string
  tk_pw :: int
  tk_pw_mem :: u32
  tk_pw_salt :: "u8 list"
  tk_pw_hash :: "u8 list"
  tk_rp :: string
  tk_origin :: string
  tk_challenge :: string
  tk_user :: string
  tk_creds :: string
  tk_stage :: int

record sentry =
  se_used :: bool
  se_hash :: "u8 list"
  se_source :: string
  se_expires_ms :: u64
  se_tries :: int
  se_t :: oc_step_ticket

record oc_websteps =
  sp_e :: "sentry list"
  sp_ttl_ms :: u64

definition sentry_clear :: sentry where
  "sentry_clear = \<lparr>se_used = False, se_hash = replicate 32 0, se_source = '''', se_expires_ms = 0, se_tries = 0,
     se_t = \<lparr>tk_page = 0, tk_uid = 0, tk_version = 0, tk_redirect_uri = '''', tk_nonce = '''', tk_user_code = '''', tk_pw = 0,
       tk_pw_mem = 0, tk_pw_salt = replicate 16 0, tk_pw_hash = replicate 32 0, tk_rp = '''', tk_origin = '''',
       tk_challenge = '''', tk_user = '''', tk_creds = '''', tk_stage = 0\<rparr>\<rparr>"

definition oc_websteps_new :: oc_websteps where
  "oc_websteps_new = \<lparr>sp_e = replicate OC_STEP_MAX sentry_clear, sp_ttl_ms = OC_STEP_TTL_MS\<rparr>"

definition oc_websteps_set_ttl :: "u64 \<Rightarrow> oc_websteps \<Rightarrow> oc_websteps" where
  "oc_websteps_set_ttl ms s = s\<lparr>sp_ttl_ms := if ms \<noteq> 0 then ms else OC_STEP_TTL_MS\<rparr>"

definition step_sweep :: "u64 \<Rightarrow> oc_websteps \<Rightarrow> oc_websteps" where
  "step_sweep now s = s\<lparr>sp_e := sweep_slots (\<lambda>x. se_used x \<and> now \<ge> se_expires_ms x) sentry_clear (sp_e s)\<rparr>"

text \<open>The loop runs over all slots and keeps the last hit, so that its time does not depend on the place of the hit.\<close>

definition step_find :: "(string \<Rightarrow> u8 list option) \<Rightarrow> string option \<Rightarrow> u64 \<Rightarrow> oc_websteps \<Rightarrow> nat option \<times> oc_websteps" where
  "step_find sha ticket now s =
     (case ticket of
        None \<Rightarrow> (None, s)
      | Some tk \<Rightarrow>
          if length tk \<noteq> OC_STEP_TICKET_LEN then (None, s)
          else
            let s = step_sweep now s
            in (case sha tk of
                  None \<Rightarrow> None
                | Some h \<Rightarrow> last_index (\<lambda>x. se_used x \<and> se_hash x = h) (sp_e s), s))"

section \<open>The operations\<close>

definition oc_websteps_put ::
    "(string \<Rightarrow> u8 list option) \<Rightarrow> string option \<Rightarrow> oc_step_ticket \<Rightarrow> u64 \<Rightarrow> u8 list option \<Rightarrow> oc_websteps \<Rightarrow>
      (int + string) \<times> oc_websteps" where
  "oc_websteps_put sha source t now_ms raw s =
     (let s = step_sweep now_ms s
      in if held se_used se_source (text_or_empty source) (sp_e s) \<ge> OC_STEP_PER_SOURCE then (Inl (-2), s)
         else case (first_index (\<lambda>x. \<not> se_used x) (sp_e s), raw) of
             (Some i, Some bytes) \<Rightarrow>
               let enc = oc_base64url_encode bytes
               in if length enc \<noteq> OC_STEP_TICKET_LEN then (Inl (-1), s)
                  else (case sha enc of
                      None \<Rightarrow> (Inl (-1), s)
                    | Some h \<Rightarrow>
                        (Inr enc,
                         s\<lparr>sp_e := (sp_e s)[i := \<lparr>se_used = True, se_hash = h,
                            se_source = snprintf_s 46 (text_or_empty source), se_expires_ms = now_ms + sp_ttl_ms s,
                            se_tries = OC_STEP_TRIES, se_t = t\<rparr>]\<rparr>))
           | _ \<Rightarrow> (Inl (-1), s))"

definition oc_websteps_get ::
    "(string \<Rightarrow> u8 list option) \<Rightarrow> string option \<Rightarrow> u64 \<Rightarrow> oc_websteps \<Rightarrow> oc_step_ticket option \<times> oc_websteps" where
  "oc_websteps_get sha ticket now_ms s =
     (let (x, s) = step_find sha ticket now_ms s in (map_option (\<lambda>i. se_t (sp_e s ! i)) x, s))"

definition oc_websteps_fail ::
    "(string \<Rightarrow> u8 list option) \<Rightarrow> string option \<Rightarrow> u64 \<Rightarrow> oc_websteps \<Rightarrow> int \<times> oc_websteps" where
  "oc_websteps_fail sha ticket now_ms s =
     (let (x, s) = step_find sha ticket now_ms s
      in case x of
          None \<Rightarrow> (0, s)
        | Some i \<Rightarrow>
            let n = se_tries (sp_e s ! i) - 1
            in if n \<le> 0 then (0, s\<lparr>sp_e := (sp_e s)[i := sentry_clear]\<rparr>)
               else (n, s\<lparr>sp_e := (sp_e s)[i := (sp_e s ! i)\<lparr>se_tries := n\<rparr>]\<rparr>))"

definition oc_websteps_drop :: "(string \<Rightarrow> u8 list option) \<Rightarrow> string option \<Rightarrow> oc_websteps \<Rightarrow> oc_websteps" where
  "oc_websteps_drop sha ticket s =
     (let (x, s) = step_find sha ticket 0 s
      in case x of None \<Rightarrow> s | Some i \<Rightarrow> s\<lparr>sp_e := (sp_e s)[i := sentry_clear]\<rparr>)"

section \<open>A record of what was asked and answered\<close>

datatype step_op =
    SPut "string option" oc_step_ticket "u8 list option"
  | SGet "string option"
  | SFail "string option"
  | SDrop "string option"
  | SSet_Ttl u64

text \<open>A ticket issued, with its expiry; a refusal; what a ticket stands for; the tries left; nothing to say.\<close>

datatype step_answer = Issued string u64 | Refused int | Shown "oc_step_ticket option" | Left int | Quiet

type_synonym step_event = "step_op \<times> u64 \<times> step_answer"

fun steps_do :: "(string \<Rightarrow> u8 list option) \<Rightarrow> step_op \<times> u64 \<Rightarrow> oc_websteps \<Rightarrow> step_event \<times> oc_websteps" where
  "steps_do sha (SPut source t raw, now) s =
     (case oc_websteps_put sha source t now raw s of
        (Inr tk, s') \<Rightarrow> ((SPut source t raw, now, Issued tk (now + sp_ttl_ms s)), s')
      | (Inl n, s') \<Rightarrow> ((SPut source t raw, now, Refused n), s'))"
| "steps_do sha (SGet tk, now) s = (case oc_websteps_get sha tk now s of (t, s') \<Rightarrow> ((SGet tk, now, Shown t), s'))"
| "steps_do sha (SFail tk, now) s = (case oc_websteps_fail sha tk now s of (n, s') \<Rightarrow> ((SFail tk, now, Left n), s'))"
| "steps_do sha (SDrop tk, now) s = ((SDrop tk, now, Quiet), oc_websteps_drop sha tk s)"
| "steps_do sha (SSet_Ttl ms, now) s = ((SSet_Ttl ms, now, Quiet), oc_websteps_set_ttl ms s)"

definition ticket_shaped :: "string option \<Rightarrow> bool" where
  "ticket_shaped tk \<longleftrightarrow> (case tk of None \<Rightarrow> False | Some t \<Rightarrow> length t = OC_STEP_TICKET_LEN)"

definition ticket_hash :: "(string \<Rightarrow> u8 list option) \<Rightarrow> string option \<Rightarrow> u8 list option" where
  "ticket_hash sha tk = (if ticket_shaped tk then Option.bind tk sha else None)"

text \<open>When an operation sweeps the table; the last use of a ticket does so at time 0.\<close>

fun sweep_time :: "step_event \<Rightarrow> u64 option" where
  "sweep_time (SPut _ _ _, now, _) = Some now"
| "sweep_time (SGet tk, now, _) = (if ticket_shaped tk then Some now else None)"
| "sweep_time (SFail tk, now, _) = (if ticket_shaped tk then Some now else None)"
| "sweep_time (SDrop tk, _, _) = (if ticket_shaped tk then Some 0 else None)"
| "sweep_time (SSet_Ttl _, _, _) = None"

fun put_of :: "(string \<Rightarrow> u8 list option) \<Rightarrow> u8 list \<Rightarrow> step_event \<Rightarrow> bool" where
  "put_of sha h (SPut _ _ _, _, Issued tk _) \<longleftrightarrow> sha tk = Some h"
| "put_of sha h _ \<longleftrightarrow> False"

fun wrong_of :: "(string \<Rightarrow> u8 list option) \<Rightarrow> u8 list \<Rightarrow> step_event \<Rightarrow> bool" where
  "wrong_of sha h (SFail tk, _, _) \<longleftrightarrow> ticket_hash sha tk = Some h"
| "wrong_of sha h _ \<longleftrightarrow> False"

fun spent_of :: "(string \<Rightarrow> u8 list option) \<Rightarrow> u8 list \<Rightarrow> step_event \<Rightarrow> bool" where
  "spent_of sha h (SDrop tk, _, _) \<longleftrightarrow> ticket_hash sha tk = Some h"
| "spent_of sha h _ \<longleftrightarrow> False"

text \<open>The tickets of a record have different hashes: 32 random bytes do not come twice.\<close>

definition tickets_differ :: "(string \<Rightarrow> u8 list option) \<Rightarrow> step_event list \<Rightarrow> bool" where
  "tickets_differ sha log \<longleftrightarrow>
     (\<forall>j < length log. \<forall>i < j. \<forall>h. put_of sha h (log ! i) \<longrightarrow> \<not> put_of sha h (log ! j))"

text \<open>
  A ticket that expires at \<open>e\<close> and was issued before the events \<open>evs\<close> still stands after them: it was not spent, no sweep
  came as late as its expiry, and fewer than five codes were wrong.
\<close>

definition stands :: "(string \<Rightarrow> u8 list option) \<Rightarrow> u8 list \<Rightarrow> u64 \<Rightarrow> step_event list \<Rightarrow> bool" where
  "stands sha h e evs \<longleftrightarrow>
     (\<forall>ev \<in> set evs. \<not> spent_of sha h ev \<and> (case sweep_time ev of None \<Rightarrow> True | Some now \<Rightarrow> now < e)) \<and>
     length (filter (wrong_of sha h) evs) < nat OC_STEP_TRIES"

section \<open>One step\<close>

abbreviation seen :: "u8 list \<Rightarrow> oc_websteps \<Rightarrow> sentry option" where
  "seen h s \<equiv> lookup se_used se_hash h (sp_e s)"

abbreviation one_ticket :: "oc_websteps \<Rightarrow> bool" where
  "one_ticket s \<equiv> one_each se_used se_hash (sp_e s)"

text \<open>What a sweep at a time, if there is one, leaves of an entry; what an event leaves of it.\<close>

definition swept :: "u64 option \<Rightarrow> sentry option \<Rightarrow> sentry option" where
  "swept now x = (case (now, x) of (Some t, Some y) \<Rightarrow> if t \<ge> se_expires_ms y then None else x | _ \<Rightarrow> x)"

definition one_less :: "sentry \<Rightarrow> sentry option" where
  "one_less x = (if se_tries x - 1 \<le> 0 then None else Some (x\<lparr>se_tries := se_tries x - 1\<rparr>))"

definition after :: "(string \<Rightarrow> u8 list option) \<Rightarrow> u8 list \<Rightarrow> step_event \<Rightarrow> sentry option \<Rightarrow> sentry option" where
  "after sha h ev x =
     (let x = swept (sweep_time ev) x
      in if spent_of sha h ev then None else if wrong_of sha h ev then Option.bind x one_less else x)"

lemma sentry_clear_free [simp]: "\<not> se_used sentry_clear"
  by (simp add: sentry_clear_def)

lemma step_sweep_one: "one_ticket s \<Longrightarrow> one_ticket (step_sweep now s)"
  by (simp add: step_sweep_def one_each_sweep)

lemma step_sweep_seen: "one_ticket s \<Longrightarrow> seen h (step_sweep now s) = swept (Some now) (seen h s)"
  by (auto simp: step_sweep_def lookup_sweep swept_def dest: lookup_SomeD split: option.split)

lemma free_seen:
  assumes "one_ticket s" "i < length (sp_e s)" "se_used (sp_e s ! i)"
  shows "one_ticket (s\<lparr>sp_e := (sp_e s)[i := sentry_clear]\<rparr>)"
    "seen h (s\<lparr>sp_e := (sp_e s)[i := sentry_clear]\<rparr>) = (if h = se_hash (sp_e s ! i) then None else seen h s)"
  using assms one_each_free [OF assms(1) sentry_clear_free] by (auto simp: lookup_update)

lemma change_seen:
  assumes "one_ticket s" "i < length (sp_e s)" "se_used (sp_e s ! i)" "se_used y" "se_hash y = se_hash (sp_e s ! i)"
  shows "one_ticket (s\<lparr>sp_e := (sp_e s)[i := y]\<rparr>)"
    "seen h (s\<lparr>sp_e := (sp_e s)[i := y]\<rparr>) = (if h = se_hash (sp_e s ! i) then Some y else seen h s)"
proof -
  have "\<forall>j < length (sp_e s). j \<noteq> i \<longrightarrow> se_used (sp_e s ! j) \<longrightarrow> se_hash (sp_e s ! j) \<noteq> se_hash y"
    using one_eachD [OF assms(1,2)] assms(3,5) by metis
  then have "one_each se_used se_hash ((sp_e s)[i := y])" using one_each_update [OF assms(1)] by blast
  then show "one_ticket (s\<lparr>sp_e := (sp_e s)[i := y]\<rparr>)"
    "seen h (s\<lparr>sp_e := (sp_e s)[i := y]\<rparr>) = (if h = se_hash (sp_e s ! i) then Some y else seen h s)"
    using assms by (auto simp: lookup_update)
qed

lemma step_find_cases:
  assumes "one_ticket s" "step_find sha tk now s = (x, s')"
  obtains (missing) "x = None" "one_ticket s'"
      "\<And>h. seen h s' = swept (if ticket_shaped tk then Some now else None) (seen h s)"
      "\<And>h. ticket_hash sha tk = Some h \<Longrightarrow> seen h s' = None"
  | (hit) i where "x = Some i" "one_ticket s'" "ticket_shaped tk" "\<And>h. seen h s' = swept (Some now) (seen h s)"
      "i < length (sp_e s')" "se_used (sp_e s' ! i)" "ticket_hash sha tk = Some (se_hash (sp_e s' ! i))"
      "seen (se_hash (sp_e s' ! i)) s' = Some (sp_e s' ! i)"
proof (cases "ticket_shaped tk \<and> (\<exists>h. ticket_hash sha tk = Some h)")
  case False
  then show ?thesis using missing assms step_sweep_one [OF assms(1), of now]
    by (auto simp: step_find_def ticket_shaped_def ticket_hash_def swept_def step_sweep_seen split: option.split_asm if_split_asm)
next
  case True
  then obtain t h where t: "tk = Some t" "length t = 43" "sha t = Some h" "ticket_hash sha tk = Some h" "ticket_shaped tk"
    by (auto simp: ticket_shaped_def ticket_hash_def split: option.split_asm)
  have one: "one_ticket (step_sweep now s)" by (rule step_sweep_one [OF assms(1)])
  show ?thesis
    using one
  proof (cases rule: last_index_cases [where k = h])
    case missing
    show ?thesis by (rule that(1)) (use missing assms one t in \<open>auto simp: step_find_def step_sweep_seen\<close>)
  next
    case (hit i)
    show ?thesis by (rule that(2) [of i]) (use hit assms one t in \<open>auto simp: step_find_def step_sweep_seen\<close>)
  qed
qed

text \<open>Except for issuing a ticket, the table after a step is what the event leaves of each entry.\<close>

lemma get_after:
  assumes "one_ticket s" "steps_do sha (SGet tk, now) s = (ev, s')"
  shows "one_ticket s'" "seen h s' = after sha h ev (seen h s)"
    "ev = (SGet tk, now, Shown (Option.bind (ticket_hash sha tk) (\<lambda>h. map_option se_t (swept (Some now) (seen h s)))))"
proof -
  obtain x s1 where f: "step_find sha tk now s = (x, s1)" by fastforce
  have ev: "ev = (SGet tk, now, Shown (map_option (\<lambda>i. se_t (sp_e s1 ! i)) x))" "s' = s1"
    using assms(2) f by (auto simp: oc_websteps_get_def)
  show "one_ticket s'" "seen h s' = after sha h ev (seen h s)"
    "ev = (SGet tk, now, Shown (Option.bind (ticket_hash sha tk) (\<lambda>h. map_option se_t (swept (Some now) (seen h s)))))"
    using assms(1) f
    by (cases rule: step_find_cases; force simp: ev after_def ticket_hash_def split: if_split_asm Option.bind_split)+
qed

lemma fail_after:
  assumes "one_ticket s" "steps_do sha (SFail tk, now) s = (ev, s')"
  shows "one_ticket s'" "seen h s' = after sha h ev (seen h s)"
proof -
  obtain x s1 where f: "step_find sha tk now s = (x, s1)" by fastforce
  from assms(1) f have "one_ticket s' \<and> seen h s' = after sha h ev (seen h s)"
  proof (cases rule: step_find_cases)
    case missing
    then have "ev = (SFail tk, now, Left 0)" "s' = s1" using assms(2) f by (auto simp: oc_websteps_fail_def)
    with missing(2,3) missing(4) [of h] show ?thesis by (auto simp: after_def Let_def)
  next
    case (hit i)
    show ?thesis
    proof (cases "se_tries (sp_e s1 ! i) - 1 \<le> 0")
      case True
      then have ev: "ev = (SFail tk, now, Left 0)" "s' = s1\<lparr>sp_e := (sp_e s1)[i := sentry_clear]\<rparr>"
        using assms(2) f hit(1) by (auto simp: oc_websteps_fail_def)
      show ?thesis using free_seen [OF hit(2,5,6)] hit(3,4,7,8) True by (auto simp: ev after_def one_less_def)
    next
      case False
      let ?y = "(sp_e s1 ! i)\<lparr>se_tries := se_tries (sp_e s1 ! i) - 1\<rparr>"
      have ev: "ev = (SFail tk, now, Left (se_tries (sp_e s1 ! i) - 1))" "s' = s1\<lparr>sp_e := (sp_e s1)[i := ?y]\<rparr>"
        using assms(2) f hit(1) False by (auto simp: oc_websteps_fail_def Let_def)
      show ?thesis using change_seen [OF hit(2,5,6), where y = ?y] hit(3,4,6-8) False by (auto simp: ev after_def one_less_def)
    qed
  qed
  then show "one_ticket s'" "seen h s' = after sha h ev (seen h s)" by auto
qed

lemma drop_after:
  assumes "one_ticket s" "steps_do sha (SDrop tk, now) s = (ev, s')"
  shows "one_ticket s'" "seen h s' = after sha h ev (seen h s)"
proof -
  obtain x s1 where f: "step_find sha tk 0 s = (x, s1)" by fastforce
  from assms(1) f have "one_ticket s' \<and> seen h s' = after sha h ev (seen h s)"
  proof (cases rule: step_find_cases)
    case missing
    then have "ev = (SDrop tk, now, Quiet)" "s' = s1" using assms(2) f by (auto simp: oc_websteps_drop_def)
    with missing(2,3) missing(4) [of h] show ?thesis by (auto simp: after_def Let_def)
  next
    case (hit i)
    have ev: "ev = (SDrop tk, now, Quiet)" "s' = s1\<lparr>sp_e := (sp_e s1)[i := sentry_clear]\<rparr>"
      using assms(2) f hit(1) by (auto simp: oc_websteps_drop_def)
    show ?thesis using free_seen [OF hit(2,5,6)] hit(3,4,7,8) by (auto simp: ev after_def)
  qed
  then show "one_ticket s'" "seen h s' = after sha h ev (seen h s)" by auto
qed

section \<open>Issuing a ticket\<close>

definition new_sentry :: "u8 list \<Rightarrow> string option \<Rightarrow> u64 \<Rightarrow> oc_step_ticket \<Rightarrow> sentry" where
  "new_sentry h source e t = \<lparr>se_used = True, se_hash = h, se_source = snprintf_s 46 (text_or_empty source), se_expires_ms = e,
     se_tries = OC_STEP_TRIES, se_t = t\<rparr>"

lemma new_sentry_simps [simp]:
  "se_used (new_sentry h source e t)" "se_hash (new_sentry h source e t) = h" "se_expires_ms (new_sentry h source e t) = e"
  "se_tries (new_sentry h source e t) = 5" "se_t (new_sentry h source e t) = t"
  "se_source (new_sentry h source e t) = snprintf_s 46 (text_or_empty source)"
  by (simp_all add: new_sentry_def)

lemma put_cases:
  assumes "steps_do sha (SPut source t raw, now) s = (ev, s')"
  obtains (refused) n where "ev = (SPut source t raw, now, Refused n)" "s' = step_sweep now s"
  | (issued) i tk h where "ev = (SPut source t raw, now, Issued tk (now + sp_ttl_ms s))" "sha tk = Some h"
      "i < length (sp_e (step_sweep now s))" "\<not> se_used (sp_e (step_sweep now s) ! i)"
      "held se_used se_source (text_or_empty source) (sp_e (step_sweep now s)) < OC_STEP_PER_SOURCE"
      "s' = (step_sweep now s)\<lparr>sp_e := (sp_e (step_sweep now s))[i := new_sentry h source (now + sp_ttl_ms s) t]\<rparr>"
proof -
  define s1 where "s1 = step_sweep now s"
  have ttl: "sp_ttl_ms s1 = sp_ttl_ms s" by (simp add: s1_def step_sweep_def)
  note put = oc_websteps_put_def [of sha source t now raw s, folded s1_def, unfolded Let_def]
  show ?thesis
  proof (cases "\<exists>i bytes h. first_index (\<lambda>x. \<not> se_used x) (sp_e s1) = Some i \<and> raw = Some bytes \<and>
      sha (oc_base64url_encode bytes) = Some h \<and> length (oc_base64url_encode bytes) = 43 \<and>
      held se_used se_source (text_or_empty source) (sp_e s1) < OC_STEP_PER_SOURCE")
    case True
    then obtain i bytes h where i: "first_index (\<lambda>x. \<not> se_used x) (sp_e s1) = Some i" "raw = Some bytes"
      "sha (oc_base64url_encode bytes) = Some h" "length (oc_base64url_encode bytes) = 43"
      "held se_used se_source (text_or_empty source) (sp_e s1) < OC_STEP_PER_SOURCE" by blast
    then have "oc_websteps_put sha source t now raw s =
        (Inr (oc_base64url_encode bytes), s1\<lparr>sp_e := (sp_e s1)[i := new_sentry h source (now + sp_ttl_ms s) t]\<rparr>)"
      unfolding put by (simp add: new_sentry_def ttl)
    then show ?thesis
      using issued [of "oc_base64url_encode bytes" h i] i first_index_Some [OF i(1)] assms by (simp add: s1_def)
  next
    case False
    then have "\<exists>n. oc_websteps_put sha source t now raw s = (Inl n, s1)"
      by (auto simp: put not_less split: option.split)
    then show ?thesis using refused assms by (auto simp: s1_def)
  qed
qed

text \<open>The entry a ticket gets when an event issues it, and what a whole record leaves of the entry for a hash.\<close>

fun issue :: "(string \<Rightarrow> u8 list option) \<Rightarrow> u8 list \<Rightarrow> step_event \<Rightarrow> sentry option" where
  "issue sha h (SPut source t _, _, Issued tk e) = (if sha tk = Some h then Some (new_sentry h source e t) else None)"
| "issue sha h _ = None"

definition trace_on :: "(string \<Rightarrow> u8 list option) \<Rightarrow> u8 list \<Rightarrow> sentry option \<Rightarrow> step_event list \<Rightarrow> sentry option" where
  "trace_on sha h x log = foldl (\<lambda>x ev. case issue sha h ev of Some y \<Rightarrow> Some y | None \<Rightarrow> after sha h ev x) x log"

lemma trace_on_simps [simp]:
  "trace_on sha h x [] = x"
  "trace_on sha h x (ev # log) = trace_on sha h (case issue sha h ev of Some y \<Rightarrow> Some y | None \<Rightarrow> after sha h ev x) log"
  "trace_on sha h x (log @ log') = trace_on sha h (trace_on sha h x log) log'"
  by (simp_all add: trace_on_def)

lemma issue_None [simp]: "issue sha h ev = None \<longleftrightarrow> \<not> put_of sha h ev"
  by (induction sha h ev rule: issue.induct) auto

lemma issue_unput [simp]: "\<not> put_of sha h ev \<Longrightarrow> issue sha h ev = None"
  by simp

lemma after_None [simp]: "after sha h ev None = None"
  by (simp add: after_def swept_def split: option.split)

lemma trace_unissued: "\<forall>ev \<in> set log. \<not> put_of sha h ev \<Longrightarrow> trace_on sha h None log = None"
  by (induction log) simp_all

lemma put_after:
  assumes "one_ticket s" "steps_do sha (SPut source t raw, now) s = (ev, s')"
    "\<And>h. put_of sha h ev \<Longrightarrow> seen h s = None"
  shows "one_ticket s' \<and> seen h s' = trace_on sha h (seen h s) [ev]"
  using assms(2)
proof (cases rule: put_cases)
  case (refused n)
  then show ?thesis using assms(1) by (simp add: step_sweep_one step_sweep_seen after_def)
next
  case (issued i tk h')
  let ?s = "step_sweep now s" and ?y = "new_sentry h' source (now + sp_ttl_ms s) t"
  have none: "seen h' ?s = None" using assms(1,3) issued(1,2) by (simp add: step_sweep_seen swept_def)
  then have "\<forall>j < length (sp_e ?s). j \<noteq> i \<longrightarrow> se_used (sp_e ?s ! j) \<longrightarrow> se_hash (sp_e ?s ! j) \<noteq> se_hash ?y"
    by (simp add: lookup_None)
  then have one: "one_ticket s'" using one_each_update [OF step_sweep_one [OF assms(1)]] by (simp add: issued(6))
  have "seen h s' = (if h' = h then Some ?y else seen h ?s)"
    using lookup_update [OF step_sweep_one [OF assms(1)] one [unfolded issued(6), simplified] issued(3), of h] issued(4)
    by (simp add: issued(6))
  then show ?thesis using one assms(1) by (simp add: issued(1,2) step_sweep_seen after_def)
qed

lemma step_after:
  assumes "one_ticket s" "steps_do sha (op, now) s = (ev, s')" "\<And>h. put_of sha h ev \<Longrightarrow> seen h s = None"
  shows "one_ticket s' \<and> seen h s' = trace_on sha h (seen h s) [ev]"
proof (cases op)
  case (SPut source t raw)
  then show ?thesis using put_after [OF assms(1) assms(2) [unfolded SPut] assms(3)] by simp
next
  case (SGet tk)
  note get = get_after [OF assms(1) assms(2) [unfolded SGet]]
  show ?thesis using get(1,2) by (simp add: get(3))
next
  case (SFail tk)
  then show ?thesis using fail_after [OF assms(1) assms(2) [unfolded SFail]] assms(2) by (auto simp: split: prod.split_asm)
next
  case (SDrop tk)
  then show ?thesis using drop_after [OF assms(1) assms(2) [unfolded SDrop]] assms(2) by auto
next
  case (SSet_Ttl ms)
  then show ?thesis using assms(1,2) by (auto simp: oc_websteps_set_ttl_def after_def swept_def)
qed

section \<open>Any sequence of steps\<close>

lemma tickets_differ_snoc:
  "tickets_differ sha (log @ [ev]) \<longleftrightarrow>
     tickets_differ sha log \<and> (\<forall>h. put_of sha h ev \<longrightarrow> (\<forall>ev' \<in> set log. \<not> put_of sha h ev'))"
  unfolding tickets_differ_def by (auto simp: less_Suc_eq nth_append all_set_conv_all_nth all_conj_distrib)

text \<open>What a ticket is shown to stand for is what the record before it leaves of its entry.\<close>

definition shown_right :: "(string \<Rightarrow> u8 list option) \<Rightarrow> step_event list \<Rightarrow> nat \<Rightarrow> bool" where
  "shown_right sha log k \<longleftrightarrow>
     (\<forall>tk now a. log ! k = (SGet tk, now, a) \<longrightarrow>
        a = Shown (Option.bind (ticket_hash sha tk)
              (\<lambda>h. map_option se_t (swept (Some now) (trace_on sha h None (take k log))))))"

definition tickets_traced :: "(string \<Rightarrow> u8 list option) \<Rightarrow> step_event list \<Rightarrow> oc_websteps \<Rightarrow> bool" where
  "tickets_traced sha log s \<longleftrightarrow> (tickets_differ sha log \<longrightarrow>
     one_ticket s \<and> (\<forall>h. seen h s = trace_on sha h None log) \<and> (\<forall>k < length log. shown_right sha log k))"

lemma shown_right_snoc:
  "k < length log \<Longrightarrow> shown_right sha (log @ [ev]) k \<longleftrightarrow> shown_right sha log k"
  by (simp add: shown_right_def nth_append)

lemma step_traced:
  assumes "tickets_traced sha log s" "steps_do sha (op, now) s = (ev, s')"
  shows "tickets_traced sha (log @ [ev]) s'"
proof -
  {
    assume d: "tickets_differ sha (log @ [ev])"
    then have old: "one_ticket s" "\<And>h. seen h s = trace_on sha h None log" "\<forall>k < length log. shown_right sha log k"
      using assms(1) by (auto simp: tickets_traced_def tickets_differ_snoc)
    have "seen h s = None" if "put_of sha h ev" for h
      using d that by (simp add: old(2) trace_unissued tickets_differ_snoc)
    then have new: "one_ticket s'" "seen h s' = trace_on sha h None (log @ [ev])" for h
      using step_after [OF old(1) assms(2)] by (simp_all add: old(2))
    have "shown_right sha (log @ [ev]) (length log)"
    proof (cases op)
      case (SGet tk)
      show ?thesis using get_after(3) [OF old(1) assms(2) [unfolded SGet]] by (simp add: shown_right_def old(2))
    qed (use assms(2) in \<open>auto simp: shown_right_def split: prod.split_asm sum.split_asm\<close>)
    then have "one_ticket s' \<and> (\<forall>h. seen h s' = trace_on sha h None (log @ [ev])) \<and>
        (\<forall>k < length (log @ [ev]). shown_right sha (log @ [ev]) k)"
      using new old(3) by (auto simp: less_Suc_eq shown_right_snoc simp del: trace_on_simps)
  }
  then show ?thesis by (simp add: tickets_traced_def)
qed

interpretation second_step: recorder "steps_do sha" "\<lambda>_. True" "tickets_traced sha" for sha
  by unfold_locales (auto intro: step_traced)

lemma new_traced: "tickets_traced sha [] oc_websteps_new"
proof -
  have "one_ticket oc_websteps_new" by (rule one_each_blank) (simp add: oc_websteps_new_def)
  moreover have "seen h oc_websteps_new = None" for h by (simp add: lookup_None oc_websteps_new_def)
  ultimately show ?thesis by (simp add: tickets_traced_def)
qed

text \<open>An entry that the record left, in terms of \<open>stands\<close>.\<close>

lemma trace_from:
  assumes "\<forall>ev \<in> set evs. \<not> put_of sha h ev" "se_tries y = int (Suc n)"
  shows "trace_on sha h (Some y) evs =
    (let w = length (filter (wrong_of sha h) evs)
     in if (\<forall>ev \<in> set evs. \<not> spent_of sha h ev \<and> (case sweep_time ev of None \<Rightarrow> True | Some now \<Rightarrow> now < se_expires_ms y)) \<and> w \<le> n
        then Some (y\<lparr>se_tries := int (Suc n) - int w\<rparr>) else None)"
  using assms
proof (induction evs arbitrary: y n)
  case (Cons ev evs)
  show ?case
  proof (cases "after sha h ev (Some y)")
    case None
    then have "spent_of sha h ev \<or> (\<exists>now. sweep_time ev = Some now \<and> \<not> now < se_expires_ms y) \<or> wrong_of sha h ev \<and> n = 0"
      using Cons.prems(2)
      by (auto simp: after_def swept_def one_less_def Let_def not_less split: if_split_asm option.split_asm)
    then show ?thesis using Cons.prems None by (auto simp: trace_unissued)
  next
    case (Some z)
    then have ev: "\<not> spent_of sha h ev" "case sweep_time ev of None \<Rightarrow> True | Some now \<Rightarrow> now < se_expires_ms y"
      "wrong_of sha h ev \<Longrightarrow> 0 < n \<and> z = y\<lparr>se_tries := int n\<rparr>" "\<not> wrong_of sha h ev \<Longrightarrow> z = y"
      using Cons.prems(2)
      by (auto simp: after_def swept_def one_less_def Let_def not_less not_le split: if_split_asm option.split_asm)
    show ?thesis
    proof (cases "wrong_of sha h ev")
      case True
      then obtain m where m: "n = Suc m" and z: "z = y\<lparr>se_tries := int (Suc m)\<rparr>" using ev(3) gr0_implies_Suc by blast
      show ?thesis using Cons.IH [of z m] Cons.prems(1) ev(1,2) True Some unfolding z m
        by (simp add: Let_def cong: if_cong option.case_cong)
    next
      case False
      then have z: "z = y" by (rule ev(4))
      show ?thesis using Cons.IH [of y n] Cons.prems ev(1,2) False Some unfolding z by (simp add: Let_def)
    qed
  qed
qed simp

lemma put_ofE:
  assumes "put_of sha h ev"
  obtains source t raw now tk e where "ev = (SPut source t raw, now, Issued tk e)" "sha tk = Some h"
  using assms by (induction sha h ev rule: put_of.induct) auto

lemma trace_stands:
  assumes "tickets_differ sha log"
  shows "(\<exists>y. swept (Some now) (trace_on sha h None log) = Some y \<and> se_t y = t) \<longleftrightarrow>
    (\<exists>i source raw p tk e. i < length log \<and> log ! i = (SPut source t raw, p, Issued tk e) \<and> sha tk = Some h \<and>
       stands sha h e (drop (Suc i) log) \<and> now < e)"
proof (cases "\<exists>i < length log. put_of sha h (log ! i)")
  case False
  then have "trace_on sha h None log = None" by (intro trace_unissued) (simp add: all_set_conv_all_nth)
  with False show ?thesis by (force simp: swept_def)
next
  case True
  then obtain i where i: "i < length log" "put_of sha h (log ! i)" by blast
  then obtain source u raw p tk e where ev: "log ! i = (SPut source u raw, p, Issued tk e)" "sha tk = Some h"
    by (auto elim: put_ofE)
  have only: "j = i" if "j < length log" "put_of sha h (log ! j)" for j
    using that i assms by (metis linorder_neqE_nat tickets_differ_def)
  have "\<not> put_of sha h (log ! (Suc i + j))" if "Suc i + j < length log" for j using only [OF that] by auto
  then have rest: "\<forall>ev \<in> set (drop (Suc i) log). \<not> put_of sha h ev" by (simp add: all_set_conv_all_nth)
  have five: "n < 5 \<longleftrightarrow> n \<le> 4" for n :: nat by auto
  have "trace_on sha h None log = trace_on sha h (Some (new_sentry h source e u)) (drop (Suc i) log)"
    by (subst id_take_nth_drop [OF i(1)]) (simp add: ev)
  also have "\<dots> = (if stands sha h e (drop (Suc i) log)
      then Some ((new_sentry h source e u)\<lparr>se_tries := 5 - int (length (filter (wrong_of sha h) (drop (Suc i) log)))\<rparr>) else None)"
    using trace_from [OF rest, of "new_sentry h source e u" 4]
    by (simp add: stands_def Let_def five cong: if_cong option.case_cong)
  finally have tr: "trace_on sha h None log = \<dots>" .
  have "(\<exists>y. swept (Some now) (trace_on sha h None log) = Some y \<and> se_t y = t) \<longleftrightarrow>
      u = t \<and> stands sha h e (drop (Suc i) log) \<and> now < e"
    by (auto simp: tr swept_def not_less)
  also have "\<dots> \<longleftrightarrow> (\<exists>i source raw p tk e. i < length log \<and> log ! i = (SPut source t raw, p, Issued tk e) \<and> sha tk = Some h \<and>
       stands sha h e (drop (Suc i) log) \<and> now < e)" (is "_ \<longleftrightarrow> ?issued")
  proof
    assume ?issued
    then obtain j source' raw' p' tk' e' where j: "j < length log" "log ! j = (SPut source' t raw', p', Issued tk' e')"
      "sha tk' = Some h" "stands sha h e' (drop (Suc j) log)" "now < e'" by blast
    then have "j = i" using only [of j] by simp
    with j ev show "u = t \<and> stands sha h e (drop (Suc i) log) \<and> now < e" by simp
  qed (use i(1) ev in blast)
  finally show ?thesis .
qed

text \<open>
  C6: A ticket stands exactly as long as it should. In any sequence of operations whose tickets differ, asking for a ticket
  gives what the password page kept for it exactly when the ticket was issued before, and since then it was not spent, no
  operation looked at the table at or after its expiry, and fewer than five codes for it were wrong.
\<close>

theorem ticket_stands_exactly:
  assumes run: "run_log (steps_do sha) ops oc_websteps_new = (log, s)" and differ: "tickets_differ sha log"
    and k: "k < length log" "log ! k = (SGet (Some tk), now, a)" and h: "length tk = OC_STEP_TICKET_LEN" "sha tk = Some h"
  shows "a = Shown (Some t) \<longleftrightarrow>
    (\<exists>i source raw p tk' e. i < k \<and> log ! i = (SPut source t raw, p, Issued tk' e) \<and> sha tk' = Some h \<and>
       stands sha h e (drop (Suc i) (take k log)) \<and> now < e)"
proof -
  have "tickets_traced sha log s" using second_step.run_inv [OF new_traced _ run] by (simp add: list_all_iff)
  then have "shown_right sha log k" using differ k by (simp add: tickets_traced_def)
  then have "a = Shown (map_option se_t (swept (Some now) (trace_on sha h None (take k log))))"
    using k h by (simp add: shown_right_def ticket_hash_def ticket_shaped_def)
  moreover have "tickets_differ sha (take k log)" using differ k(1) by (simp add: tickets_differ_def)
  ultimately show ?thesis using trace_stands [of sha "take k log" now h t] k(1) by auto
qed

definition demo_step_sha :: "string \<Rightarrow> u8 list option" where
  "demo_step_sha s = Some [of_nat (length s)]"

definition demo_ticket :: string where
  "demo_ticket = replicate 43 CHR ''A''"

definition demo_step_ops :: "(step_op \<times> u64) list" where
  "demo_step_ops = [(SPut (Some ''10.0.0.1'') (se_t sentry_clear) (Some (replicate 32 0)), 1000),
     (SFail (Some demo_ticket), 2000), (SFail (Some demo_ticket), 3000), (SGet (Some demo_ticket), 4000)]"

lemma one_slot:
  "sweep_slots gone sentry_clear (replicate n sentry_clear) = replicate n sentry_clear"
  "sweep_slots gone sentry_clear (x # replicate n sentry_clear) = (if gone x then sentry_clear else x) # replicate n sentry_clear"
  "held se_used f k (replicate n sentry_clear) = 0"
  "first_index (\<lambda>x. \<not> se_used x) (replicate 256 sentry_clear) = Some 0"
  "(replicate 256 sentry_clear)[0 := x] = x # replicate 255 sentry_clear"
  by (simp_all add: sweep_slots_def held_def eval_nat_numeral)

lemma no_hit: "last_index (\<lambda>x. se_used x \<and> se_hash x = h) (replicate n sentry_clear) = None"
  by (simp add: last_index_None)

lemma demo_encode: "oc_base64url_encode (replicate 32 0) = demo_ticket"
  unfolding demo_ticket_def by code_simp

lemma demo_step_run: "fst (run_log (steps_do demo_step_sha) demo_step_ops oc_websteps_new) =
    [(SPut (Some ''10.0.0.1'') (se_t sentry_clear) (Some (replicate 32 0)), 1000, Issued demo_ticket 301000),
     (SFail (Some demo_ticket), 2000, Left 4), (SFail (Some demo_ticket), 3000, Left 3),
     (SGet (Some demo_ticket), 4000, Shown (Some (se_t sentry_clear)))]"
proof -
  have [simp]: "length demo_ticket = 43" by (simp add: demo_ticket_def)
  show ?thesis
    by (simp add: demo_step_ops_def oc_websteps_new_def oc_websteps_put_def oc_websteps_fail_def oc_websteps_get_def step_find_def
        step_sweep_def demo_encode one_slot no_hit demo_step_sha_def)
qed

theorem ticket_stands_exactly_witness:
  "\<exists>log. length log = 4 \<and> log ! 3 = (SGet (Some demo_ticket), 4000, Shown (Some (se_t sentry_clear))) \<and>
    (\<exists>i source raw p tk' e. i < 3 \<and> log ! i = (SPut source (se_t sentry_clear) raw, p, Issued tk' e) \<and>
       demo_step_sha tk' = Some [43] \<and> stands demo_step_sha [43] e (drop (Suc i) (take 3 log)) \<and> 4000 < e)"
proof -
  obtain log s where run: "run_log (steps_do demo_step_sha) demo_step_ops oc_websteps_new = (log, s)" by fastforce
  have log: "log = [(SPut (Some ''10.0.0.1'') (se_t sentry_clear) (Some (replicate 32 0)), 1000, Issued demo_ticket 301000),
     (SFail (Some demo_ticket), 2000, Left 4), (SFail (Some demo_ticket), 3000, Left 3),
     (SGet (Some demo_ticket), 4000, Shown (Some (se_t sentry_clear)))]"
    using demo_step_run by (simp only: run fst_conv)
  have "tickets_differ demo_step_sha log" by (auto simp: log tickets_differ_def less_Suc_eq nth_Cons' eval_nat_numeral)
  moreover have k: "3 < length log" "log ! 3 = (SGet (Some demo_ticket), 4000, Shown (Some (se_t sentry_clear)))"
    by (simp_all add: log)
  moreover have "length demo_ticket = OC_STEP_TICKET_LEN" "demo_step_sha demo_ticket = Some [43]"
    by (simp_all add: demo_ticket_def demo_step_sha_def)
  ultimately have "\<exists>i source raw p tk' e. i < 3 \<and> log ! i = (SPut source (se_t sentry_clear) raw, p, Issued tk' e) \<and>
       demo_step_sha tk' = Some [43] \<and> stands demo_step_sha [43] e (drop (Suc i) (take 3 log)) \<and> 4000 < e"
    using ticket_stands_exactly [OF run, of 3 demo_ticket 4000] by blast
  moreover have "length log = 4" by (simp add: log)
  ultimately show ?thesis using k by blast
qed

end
