(* ===== verification/Second_Factor.thy ===== *)
theory Second_Factor
  imports Ctext Machines
begin

text \<open>
  The one-time codes of a second step: \<^verbatim>\<open>daemon/totp.c\<close> (RFC 6238) and \<^verbatim>\<open>check_totp\<close> of \<^verbatim>\<open>daemon/dbwriter.c\<close>, which checks a code against
  the secret an account keeps sealed and takes the step of a code that was right. \<open>hmac\<close> is HMAC-SHA1 of a key and a
  message and \<open>gcm\<close> the authenticated decryption (key, nonce, associated data, ciphertext, tag), both mbedTLS; \<open>None\<close>
  is a call that failed. The table \<^verbatim>\<open>local_totp\<close> is a map from an account to its row, and \<open>saved\<close> is whether SQLite
  carried out the \<^verbatim>\<open>UPDATE\<close>.
\<close>

section \<open>Codes\<close>

abbreviation OC_TOTP_SECRET_LEN :: nat where "OC_TOTP_SECRET_LEN \<equiv> 20"
abbreviation OC_TOTP_STEP_S :: u64 where "OC_TOTP_STEP_S \<equiv> 30"
abbreviation OC_TOTP_DIGITS :: nat where "OC_TOTP_DIGITS \<equiv> 6"
abbreviation OC_TOTP_SEALED_LEN :: nat where "OC_TOTP_SEALED_LEN \<equiv> 48"

type_synonym hmac_sha1 = "u8 list \<Rightarrow> u8 list \<Rightarrow> u8 list option"
type_synonym aes_gcm = "u8 list \<Rightarrow> u8 list \<Rightarrow> u8 list \<Rightarrow> u8 list \<Rightarrow> u8 list \<Rightarrow> u8 list option"

definition oc_totp_code :: "hmac_sha1 \<Rightarrow> u8 list \<Rightarrow> u64 \<Rightarrow> u32" where
  "oc_totp_code hmac secret step =
     (case hmac secret (be64 step) of
        None \<Rightarrow> 1000000
      | Some mac \<Rightarrow>
          let off = unat (mac ! 19 AND 0x0f);
              bin = push_bit 24 (ucast (mac ! off AND 0x7f)) OR push_bit 16 (ucast (mac ! (off + 1))) OR
                    push_bit 8 (ucast (mac ! (off + 2))) OR ucast (mac ! (off + 3)) :: u32
          in bin mod 1000000)"

text \<open>The step the code is for, of the step of the time and its two neighbours and after the last step used.\<close>

definition oc_totp_verify :: "hmac_sha1 \<Rightarrow> u8 list \<Rightarrow> string option \<Rightarrow> u64 \<Rightarrow> u64 \<Rightarrow> u64 option" where
  "oc_totp_verify hmac secret code now_s last_step =
     (case code of
        None \<Rightarrow> None
      | Some c \<Rightarrow>
          if length c \<noteq> OC_TOTP_DIGITS \<or> \<not> list_all (char_between CHR ''0'' CHR ''9'') c then None
          else
            let want = foldl (\<lambda>want d. want * 10 + (of_nat (of_char d) - 48)) 0 c :: u32;
                step = now_s div OC_TOTP_STEP_S
            in find (\<lambda>s. oc_totp_code hmac secret s = want \<and> s > last_step)
                 ((if step = 0 then [] else [step - 1]) @ [step, step + 1]))"

definition oc_factor_open :: "aes_gcm \<Rightarrow> u8 list \<Rightarrow> u64 \<Rightarrow> u8 list \<Rightarrow> u8 list option" where
  "oc_factor_open gcm key uid sealed =
     (if length sealed \<noteq> OC_TOTP_SEALED_LEN then None
      else gcm key (take 12 sealed) (be64 uid) (take OC_TOTP_SECRET_LEN (drop 12 sealed)) (drop (12 + OC_TOTP_SECRET_LEN) sealed))"

section \<open>The table\<close>

record local_totp =
  lt_secret :: "u8 list"
  lt_confirmed :: bool
  lt_last_step :: int

type_synonym totp_table = "u64 \<Rightarrow> local_totp option"

definition check_totp ::
    "hmac_sha1 \<Rightarrow> aes_gcm \<Rightarrow> u8 list option \<Rightarrow> u64 \<Rightarrow> string \<Rightarrow> u64 \<Rightarrow> bool \<Rightarrow> totp_table \<Rightarrow> int \<times> totp_table" where
  "check_totp hmac gcm factor_key uid code now_ms saved db =
     (case db uid of
        None \<Rightarrow> (0, db)
      | Some row \<Rightarrow>
          if \<not> lt_confirmed row \<or> length (lt_secret row) \<noteq> OC_TOTP_SEALED_LEN then (0, db)
          else case Option.bind factor_key (\<lambda>k. oc_factor_open gcm k uid (lt_secret row)) of
              None \<Rightarrow> (-1, db)
            | Some secret \<Rightarrow>
                (case oc_totp_verify hmac secret (Some code) (now_ms div 1000) (word_of_int (lt_last_step row)) of
                   None \<Rightarrow> (0, db)
                 | Some matched \<Rightarrow>
                     if saved \<and> lt_last_step row < sint matched
                     then (1, db(uid \<mapsto> row\<lparr>lt_last_step := sint matched\<rparr>)) else (0, db)))"

section \<open>A code is good once\<close>

text \<open>One check: the account, the code, the time and whether the update is carried out; and its answer.\<close>

type_synonym totp_check = "u64 \<times> string \<times> u64 \<times> bool"

fun totp_do :: "hmac_sha1 \<Rightarrow> aes_gcm \<Rightarrow> u8 list option \<Rightarrow> totp_check \<Rightarrow> totp_table \<Rightarrow> (totp_check \<times> int) \<times> totp_table" where
  "totp_do hmac gcm key (uid, code, now, saved) db =
     (case check_totp hmac gcm key uid code now saved db of (r, db') \<Rightarrow> (((uid, code, now, saved), r), db'))"

text \<open>The code is the one of a step that is at most one away from the step of the time, in milliseconds.\<close>

definition code_of_step :: "hmac_sha1 \<Rightarrow> u8 list \<Rightarrow> string \<Rightarrow> u64 \<Rightarrow> u64 \<Rightarrow> bool" where
  "code_of_step hmac secret code now s \<longleftrightarrow>
     length code = OC_TOTP_DIGITS \<and> list_all (char_between CHR ''0'' CHR ''9'') code \<and>
     foldl (\<lambda>want d. want * 10 + (of_nat (of_char d) - 48)) 0 code = oc_totp_code hmac secret s \<and>
     (let step = now div 1000 div OC_TOTP_STEP_S in unat s \<le> unat step + 1 \<and> unat step \<le> unat s + 1)"

lemma step_bound: "unat ((now :: u64) div 1000 div 30) < 2 ^ 60"
proof -
  have "unat now < 2 ^ 64" using unsigned_less [of now] by simp
  then show ?thesis by (simp add: unat_div)
qed

lemma find_SomeD: "find P xs = Some x \<Longrightarrow> P x \<and> x \<in> set xs"
  by (induction xs) (auto split: if_split_asm)

lemma verify_Some:
  assumes "oc_totp_verify hmac secret (Some code) (now div 1000) used = Some m"
  shows "code_of_step hmac secret code now m"
proof -
  define step where "step = (now div 1000 div 30 :: u64)"
  define want where "want = (foldl (\<lambda>want d. want * 10 + (of_nat (of_char d) - 48)) 0 code :: u32)"
  define near where "near = (if step = 0 then [] else [step - 1]) @ [step, step + 1]"
  have v: "(if length code \<noteq> OC_TOTP_DIGITS \<or> \<not> list_all (char_between CHR ''0'' CHR ''9'') code then None
      else find (\<lambda>s. oc_totp_code hmac secret s = want \<and> s > used) near) = Some m"
    using assms by (simp only: oc_totp_verify_def Let_def option.case step_def want_def near_def)
  then have code: "length code = 6" "list_all (char_between CHR ''0'' CHR ''9'') code" by (metis option.distinct(1))+
  then have "find (\<lambda>s. oc_totp_code hmac secret s = want \<and> s > used) near = Some m" using v by simp
  then have m: "oc_totp_code hmac secret m = want" "m \<in> set near" by (auto dest: find_SomeD)
  have "unat (step + 1) = unat step + 1" using step_bound [of now] by (simp add: unat_word_ariths step_def)
  moreover have "step \<noteq> 0 \<Longrightarrow> unat (step - 1) + 1 = unat step" by (simp add: unat_minus_one unat_gt_0)
  ultimately have "unat m \<le> unat step + 1 \<and> unat step \<le> unat m + 1"
    using m(2) unfolding near_def by (cases "step = 0") auto
  then show ?thesis using code m(1) by (simp add: code_of_step_def Let_def step_def want_def)
qed

lemma code_of_step_sint:
  assumes "code_of_step hmac secret code now s"
  shows "sint s = int (unat s)"
proof -
  have "unat s < 2 ^ 63" using assms step_bound [of now] by (simp add: code_of_step_def Let_def)
  then have "int (unat s) < int (2 ^ 63)" by (simp only: of_nat_less_iff)
  then have s: "uint s < 2 ^ 63" "0 \<le> uint s" by simp_all
  then have "- (2 ^ 63) \<le> uint s" by linarith
  then have "signed_take_bit 63 (uint s) = uint s" using s(1) by (rule signed_take_bit_int_eq_self)
  then have "sint s = uint s" by (simp add: sint_uint)
  then show ?thesis by simp
qed

text \<open>Which secret an account has, and when a check passed it.\<close>

definition secret_of :: "aes_gcm \<Rightarrow> u8 list option \<Rightarrow> totp_table \<Rightarrow> u64 \<Rightarrow> u8 list option" where
  "secret_of gcm key db uid =
     Option.bind (db uid) (\<lambda>row. Option.bind key (\<lambda>k. oc_factor_open gcm k uid (lt_secret row)))"

definition passed :: "u64 \<Rightarrow> totp_check \<times> int \<Rightarrow> bool" where
  "passed uid ev \<longleftrightarrow> fst (fst ev) = uid \<and> snd ev = 1"

lemma check_totp_cases:
  assumes "totp_do hmac gcm key (uid, code, now, saved) db = (ev, db')"
  obtains (refused) "snd ev \<noteq> 1" "db' = db"
  | (passed) row secret m where "ev = ((uid, code, now, saved), 1)" "db uid = Some row" "secret_of gcm key db uid = Some secret"
      "code_of_step hmac secret code now m" "lt_last_step row < sint m" "db' = db(uid \<mapsto> row\<lparr>lt_last_step := sint m\<rparr>)"
proof (cases "\<exists>row secret m. db uid = Some row \<and> lt_confirmed row \<and> length (lt_secret row) = OC_TOTP_SEALED_LEN \<and>
    Option.bind key (\<lambda>k. oc_factor_open gcm k uid (lt_secret row)) = Some secret \<and>
    oc_totp_verify hmac secret (Some code) (now div 1000) (word_of_int (lt_last_step row)) = Some m \<and>
    saved \<and> lt_last_step row < sint m")
  case True
  then obtain row secret m where r: "db uid = Some row" "lt_confirmed row" "length (lt_secret row) = OC_TOTP_SEALED_LEN"
    "Option.bind key (\<lambda>k. oc_factor_open gcm k uid (lt_secret row)) = Some secret"
    "oc_totp_verify hmac secret (Some code) (now div 1000) (word_of_int (lt_last_step row)) = Some m"
    "saved" "lt_last_step row < sint m" by blast
  show ?thesis
    by (rule passed [of row secret m]) (use assms r verify_Some [OF r(5)] in \<open>auto simp: check_totp_def secret_of_def\<close>)
next
  case False
  then have "snd ev \<noteq> 1 \<and> db' = db"
    using assms by (auto simp: check_totp_def split: option.split_asm if_split_asm)
  then show ?thesis using refused by blast
qed

text \<open>
  Of the checks so far, \<open>f\<close> gives the step of each that passed: a step the code is for, not after the last step kept for the
  account, and later than the steps of the account's earlier checks.
\<close>

definition steps_taken ::
    "hmac_sha1 \<Rightarrow> aes_gcm \<Rightarrow> u8 list option \<Rightarrow> totp_table \<Rightarrow> (nat \<Rightarrow> u64) \<Rightarrow> (totp_check \<times> int) list \<Rightarrow> totp_table \<Rightarrow> bool" where
  "steps_taken hmac gcm key db0 f log db \<longleftrightarrow>
     (\<forall>uid. secret_of gcm key db uid = secret_of gcm key db0 uid) \<and>
     (\<forall>k < length log. \<forall>uid code now saved. log ! k = ((uid, code, now, saved), 1) \<longrightarrow>
        (\<exists>secret row. secret_of gcm key db0 uid = Some secret \<and> code_of_step hmac secret code now (f k) \<and>
           db uid = Some row \<and> int (unat (f k)) \<le> lt_last_step row)) \<and>
     (\<forall>j < length log. \<forall>i < j. \<forall>uid. passed uid (log ! i) \<and> passed uid (log ! j) \<longrightarrow> f i < f j)"

lemma passed_iff: "passed uid ev \<longleftrightarrow> (\<exists>code now saved. ev = ((uid, code, now, saved), 1))"
  by (cases ev) (auto simp: passed_def)

lemma steps_takenD:
  assumes "steps_taken hmac gcm key db0 f log db" "k < length log" "log ! k = ((uid, code, now, saved), 1)"
  obtains secret row where "secret_of gcm key db0 uid = Some secret" "code_of_step hmac secret code now (f k)" "db uid = Some row"
    "int (unat (f k)) \<le> lt_last_step row"
  using assms unfolding steps_taken_def by blast

lemma steps_taken_refused:
  assumes "steps_taken hmac gcm key db0 f log db" "snd ev \<noteq> 1"
  shows "steps_taken hmac gcm key db0 f (log @ [ev]) db"
  using assms unfolding steps_taken_def by (fastforce simp: less_Suc_eq nth_append passed_def)

lemma steps_taken_passed:
  fixes saved :: bool
  assumes st: "steps_taken hmac gcm key db0 f log db" and row: "db uid = Some row" and sec: "secret_of gcm key db uid = Some secret"
    and m: "code_of_step hmac secret code now m" "lt_last_step row < sint m"
  defines "db' \<equiv> db(uid \<mapsto> row\<lparr>lt_last_step := sint m\<rparr>)" and "ev \<equiv> ((uid, code, now, saved), 1)" and "g \<equiv> f(length log := m)"
  shows "steps_taken hmac gcm key db0 g (log @ [ev]) db'"
  unfolding steps_taken_def
proof (intro conjI allI impI)
  show "secret_of gcm key db' u = secret_of gcm key db0 u" for u
  proof -
    have "secret_of gcm key db' u = secret_of gcm key db u" using row by (simp add: secret_of_def db'_def)
    also have "\<dots> = secret_of gcm key db0 u" using st by (simp add: steps_taken_def)
    finally show ?thesis .
  qed
  note sint = code_of_step_sint [OF m(1)]
  fix k u c t sv assume k: "k < length (log @ [ev])" "(log @ [ev]) ! k = ((u, c, t, sv), 1)"
  show "\<exists>secret row. secret_of gcm key db0 u = Some secret \<and> code_of_step hmac secret c t (g k) \<and>
      db' u = Some row \<and> int (unat (g k)) \<le> lt_last_step row"
  proof (cases "k < length log")
    case True
    then have "log ! k = ((u, c, t, sv), 1)" using k(2) by (simp add: nth_append)
    from steps_takenD [OF st True this] obtain s r where "secret_of gcm key db0 u = Some s" "code_of_step hmac s c t (f k)"
      "db u = Some r" "int (unat (f k)) \<le> lt_last_step r" .
    then show ?thesis using True row m(2) by (auto simp: db'_def g_def)
  next
    case False
    then have "k = length log" using k(1) by simp
    moreover from this have "u = uid" "c = code" "t = now" using k(2) by (simp_all add: ev_def)
    moreover have "secret_of gcm key db0 uid = Some secret" using st sec by (simp add: steps_taken_def)
    ultimately show ?thesis using m(1) sint by (simp add: db'_def g_def)
  qed
next
  fix j i u assume j: "j < length (log @ [ev])" "i < j" "passed u ((log @ [ev]) ! i) \<and> passed u ((log @ [ev]) ! j)"
  show "g i < g j"
  proof (cases "j < length log")
    case True
    then have "passed u (log ! i)" "passed u (log ! j)" using j by (simp_all add: nth_append)
    then have "f i < f j" using st True j(2) unfolding steps_taken_def by blast
    then show ?thesis using True j(2) by (simp add: g_def)
  next
    case False
    then have i: "j = length log" "i < length log" "passed uid (log ! i)"
      using j by (auto simp: nth_append ev_def passed_def)
    then obtain c t sv where "log ! i = ((uid, c, t, sv), 1)" by (auto simp: passed_iff)
    from steps_takenD [OF st i(2) this] have "int (unat (f i)) < int (unat m)"
      using row m(2) code_of_step_sint [OF m(1)] by force
    then show ?thesis using i(1,2) by (simp add: g_def word_less_def)
  qed
qed

interpretation codes: recorder "totp_do hmac gcm key" "\<lambda>_. True" "\<lambda>log db. \<exists>f. steps_taken hmac gcm key db0 f log db"
  for hmac gcm key db0
proof
  fix log db and x :: totp_check and ev db'
  assume "\<exists>f. steps_taken hmac gcm key db0 f log db" and step: "totp_do hmac gcm key x db = (ev, db')"
  then obtain f where f: "steps_taken hmac gcm key db0 f log db" by blast
  obtain uid code now saved where x: "x = (uid, code, now, saved)" by (cases x)
  from step [unfolded x] show "\<exists>f. steps_taken hmac gcm key db0 f (log @ [ev]) db'"
  proof (cases rule: check_totp_cases)
    case refused
    then show ?thesis using steps_taken_refused [OF f] by blast
  next
    case (passed row secret m)
    then show ?thesis using steps_taken_passed [OF f passed(2-5)] by blast
  qed
qed

text \<open>
  C7: A code is good once. Whatever codes are checked for whatever accounts and times, each check that passes was given the
  code of a step at most one away from the step of its time, and of two checks of one account that pass the
  second is for a later step than the first.
\<close>

theorem totp_good_once:
  assumes run: "run_log (totp_do hmac gcm key) checks db = (log, db')"
  shows "\<exists>f. (\<forall>k < length log. \<forall>uid code now saved. log ! k = ((uid, code, now, saved), 1) \<longrightarrow>
        (\<exists>secret. secret_of gcm key db uid = Some secret \<and> code_of_step hmac secret code now (f k))) \<and>
     (\<forall>j < length log. \<forall>i < j. \<forall>uid. passed uid (log ! i) \<and> passed uid (log ! j) \<longrightarrow> f i < f j)"
proof -
  have "\<exists>f. steps_taken hmac gcm key db f [] db" by (simp add: steps_taken_def)
  from codes.run_inv [OF this _ run] obtain f where f: "steps_taken hmac gcm key db f log db'" by (auto simp: list_all_iff)
  have "\<exists>secret. secret_of gcm key db uid = Some secret \<and> code_of_step hmac secret code now (f k)"
    if "k < length log" "log ! k = ((uid, code, now, saved), 1)" for k uid code now saved
    using steps_takenD [OF f that] by metis
  moreover have "\<forall>j < length log. \<forall>i < j. \<forall>uid. passed uid (log ! i) \<and> passed uid (log ! j) \<longrightarrow> f i < f j"
    using f by (simp add: steps_taken_def)
  ultimately show ?thesis by blast
qed

text \<open>An account whose code is 000000 at every step: two checks half a minute apart pass, for two steps.\<close>

definition demo_table :: totp_table where
  "demo_table = [7 \<mapsto> \<lparr>lt_secret = replicate 48 0, lt_confirmed = True, lt_last_step = 0\<rparr>]"

abbreviation demo_codes :: "totp_check list" where
  "demo_codes \<equiv> [(7, ''000000'', 3000000, True), (7, ''000000'', 3030000, True)]"

theorem totp_good_once_witness:
  "\<exists>log :: (totp_check \<times> int) list. log ! 0 = ((7, ''000000'', 3000000, True), 1) \<and> log ! 1 = ((7, ''000000'', 3030000, True), 1) \<and>
    (\<exists>f :: nat \<Rightarrow> u64. code_of_step (\<lambda>_ _. Some (replicate 20 0)) [] ''000000'' 3000000 (f 0) \<and> f 0 < f 1)"
proof -
  let ?hmac = "\<lambda>_ _. Some (replicate 20 0)" and ?gcm = "\<lambda>_ _ _ _ _. Some []"
  obtain log db where run: "run_log (totp_do ?hmac ?gcm (Some [])) demo_codes demo_table = (log, db)" by fastforce
  have "fst (run_log (totp_do ?hmac ?gcm (Some [])) demo_codes demo_table) =
      [((7, ''000000'', 3000000, True), 1), ((7, ''000000'', 3030000, True), 1)]"
    by code_simp
  then have log: "log = [((7, ''000000'', 3000000, True), 1), ((7, ''000000'', 3030000, True), 1)]" by (simp only: run fst_conv)
  have secret: "secret_of ?gcm (Some []) demo_table 7 = Some []" by (simp add: secret_of_def demo_table_def oc_factor_open_def)
  obtain f where f: "\<forall>k < length log. \<forall>uid code now saved. log ! k = ((uid, code, now, saved), 1) \<longrightarrow>
        (\<exists>secret. secret_of ?gcm (Some []) demo_table uid = Some secret \<and> code_of_step ?hmac secret code now (f k))"
      "\<forall>j < length log. \<forall>i < j. \<forall>uid. passed uid (log ! i) \<and> passed uid (log ! j) \<longrightarrow> f i < f j"
    using totp_good_once [OF run] by blast
  have "code_of_step ?hmac [] ''000000'' 3000000 (f 0)" using f(1) [rule_format, of 0 7 "''000000''" 3000000 True] secret by (simp add: log)
  moreover have "f 0 < f 1" using f(2) [rule_format, of 1 0 7] by (simp add: log passed_def)
  moreover have "log ! 0 = ((7, ''000000'', 3000000, True), 1)" "log ! 1 = ((7, ''000000'', 3030000, True), 1)" by (simp_all add: log)
  ultimately show ?thesis by blast
qed

end
