(* ===== verification/Join_Rules.thy ===== *)
theory Join_Rules
  imports Ctext
begin

text \<open>
  Who may join through an identity provider: the rules of \<^verbatim>\<open>daemon/joinrules.c\<close>, given as one comma-separated text
  (\<^verbatim>\<open>OPENCHIME_JOIN\<close>) and asked about an identity the workspace has not seen. An error is the reason and the item it is
  about; the text of the message and running out of memory are left out.
\<close>

section \<open>Reading the rules\<close>

datatype oc_join_verdict = OC_JOIN_DENY | OC_JOIN_MEMBER | OC_JOIN_OWNER

datatype join_rule = RULE_OWNER string | RULE_SUBJECT string | RULE_TENANT string string | RULE_DOMAIN string

abbreviation join_blank :: "char \<Rightarrow> bool" where "join_blank c \<equiv> c = CHR '' '' \<or> c = CHR 0x09"

abbreviation trim_blanks :: "string \<Rightarrow> string" where
  "trim_blanks s \<equiv> rev (dropWhile (\<lambda>c. join_blank c) (rev (dropWhile (\<lambda>c. join_blank c) s)))"

text \<open>What is before and after the first occurrence of a character, which is there.\<close>

abbreviation before_char :: "char \<Rightarrow> string \<Rightarrow> string" where "before_char c s \<equiv> takeWhile (\<lambda>d. d \<noteq> c) s"
abbreviation after_char :: "char \<Rightarrow> string \<Rightarrow> string" where "after_char c s \<equiv> tl (dropWhile (\<lambda>d. d \<noteq> c) s)"

definition plausible_email :: "string \<Rightarrow> bool" where
  "plausible_email s \<longleftrightarrow>
     CHR ''@'' \<in> set s \<and> before_char CHR ''@'' s \<noteq> '''' \<and> after_char CHR ''@'' s \<noteq> '''' \<and>
     CHR ''@'' \<notin> set (after_char CHR ''@'' s) \<and> list_all (\<lambda>c. \<not> join_blank c) s"

definition plausible_domain :: "string \<Rightarrow> bool" where
  "plausible_domain s \<longleftrightarrow>
     s \<noteq> '''' \<and> CHR ''.'' \<in> set s \<and> hd s \<noteq> CHR ''.'' \<and> last s \<noteq> CHR ''.'' \<and>
     list_all (\<lambda>c. let c = ascii_lower c
                   in char_between CHR ''a'' CHR ''z'' c \<or> char_between CHR ''0'' CHR ''9'' c \<or> c = CHR ''-'' \<or> c = CHR ''.'') s"

definition parse_rule :: "string \<Rightarrow> (string \<times> string) + join_rule" where
  "parse_rule s =
     (if length s > 6 \<and> starts_with s ''owner:''
      then let v = drop 6 s
           in if plausible_email v then Inr (RULE_OWNER (map ascii_lower v)) else Inl (''not an address'', s)
      else if length s > 8 \<and> starts_with s ''subject:''
      then let v = drop 8 s
           in if CHR ''|'' \<notin> set v \<or> before_char CHR ''|'' v = '''' \<or> after_char CHR ''|'' v = '''' \<or> CHR '' '' \<in> set v
              then Inl (''a subject rule is subject:<issuer>|<subject>'', s) else Inr (RULE_SUBJECT v)
      else if length s > 7 \<and> starts_with s ''domain:''
      then let v = drop 7 s
           in if plausible_domain v then Inr (RULE_DOMAIN (map ascii_lower v)) else Inl (''not a domain'', s)
      else if length s > 7 \<and> starts_with s ''tenant:''
      then let idp = drop 7 s
           in if CHR '':'' \<notin> set idp \<or> before_char CHR '':'' idp = '''' \<or> after_char CHR '':'' idp = ''''
              then Inl (''a tenant rule is tenant:<provider>:<organization>'', s)
              else Inr (RULE_TENANT (map ascii_lower (before_char CHR '':'' idp)) (map ascii_lower (after_char CHR '':'' idp)))
      else Inl (''unknown join rule'', s))"

lemma after_char_shorter: "p \<noteq> '''' \<Longrightarrow> length (dropWhile (\<lambda>d. d \<noteq> c) p) - Suc 0 < length p"
  using length_dropWhile_le [of "\<lambda>d. d \<noteq> c" p] by (cases "length p") simp_all

function join_loop :: "string \<Rightarrow> join_rule list \<Rightarrow> (string \<times> string) + join_rule list" where
  "join_loop p rules =
     (if p = '''' then Inr rules
      else
        let s = trim_blanks (before_char CHR '','' p); p' = after_char CHR '','' p
        in if s = '''' then join_loop p' rules
           else case parse_rule s of Inl e \<Rightarrow> Inl e | Inr r \<Rightarrow> join_loop p' (rules @ [r]))"
  by pat_completeness auto

termination
  by (relation "measure (\<lambda>(p, rules). length p)") (simp_all add: after_char_shorter)

declare join_loop.simps [simp del]

definition oc_join_rules_parse :: "string option \<Rightarrow> (string \<times> string) + join_rule list" where
  "oc_join_rules_parse spec = (case spec of None \<Rightarrow> Inr [] | Some p \<Rightarrow> join_loop p [])"

section \<open>The verdict\<close>

fun eval_rules ::
    "string option \<Rightarrow> string option \<Rightarrow> string option \<Rightarrow> string option \<Rightarrow> string option \<Rightarrow> join_rule list \<Rightarrow> oc_join_verdict \<Rightarrow>
      oc_join_verdict" where
  "eval_rules addr domain sub idp tenant [] best = best"
| "eval_rules addr domain sub idp tenant (RULE_OWNER v # rs) best =
     (case addr of
        Some a \<Rightarrow> if ieq a v then OC_JOIN_OWNER else eval_rules addr domain sub idp tenant rs best
      | None \<Rightarrow> eval_rules addr domain sub idp tenant rs best)"
| "eval_rules addr domain sub idp tenant (RULE_SUBJECT v # rs) best =
     (if sub = Some v then OC_JOIN_OWNER else eval_rules addr domain sub idp tenant rs best)"
| "eval_rules addr domain sub idp tenant (RULE_DOMAIN v # rs) best =
     eval_rules addr domain sub idp tenant rs (case domain of Some d \<Rightarrow> if ieq d v then OC_JOIN_MEMBER else best | None \<Rightarrow> best)"
| "eval_rules addr domain sub idp tenant (RULE_TENANT p v # rs) best =
     eval_rules addr domain sub idp tenant rs
       (case (idp, tenant) of
          (Some i, Some t) \<Rightarrow> if i \<noteq> '''' \<and> t \<noteq> '''' \<and> ieq i p \<and> ieq t v then OC_JOIN_MEMBER else best
        | _ \<Rightarrow> best)"

text \<open>The address counts when it is verified; its domain is what follows the last \<open>@\<close>, where it has one.\<close>

abbreviation verified_address :: "string option \<Rightarrow> bool \<Rightarrow> string option" where
  "verified_address email verified \<equiv>
     (case email of Some e \<Rightarrow> if verified \<and> e \<noteq> '''' then Some e else None | None \<Rightarrow> None)"

abbreviation address_domain :: "string option \<Rightarrow> string option" where
  "address_domain addr \<equiv>
     (case addr of Some a \<Rightarrow> if CHR ''@'' \<in> set a then Some (rev (before_char CHR ''@'' (rev a))) else None | None \<Rightarrow> None)"

definition oc_join_rules_eval ::
    "join_rule list option \<Rightarrow> string option \<Rightarrow> string option \<Rightarrow> string option \<Rightarrow> string option \<Rightarrow> bool \<Rightarrow> oc_join_verdict" where
  "oc_join_rules_eval r sub idp tenant email email_verified =
     (case r of
        None \<Rightarrow> OC_JOIN_DENY
      | Some rules \<Rightarrow>
          let addr = verified_address email email_verified
          in eval_rules addr (address_domain addr) sub idp tenant rules OC_JOIN_DENY)"

section \<open>What the text grants\<close>

text \<open>The items of the text: what is between commas, without blanks around it, and not empty.\<close>

fun split_commas :: "string \<Rightarrow> string list" where
  "split_commas [] = ['''']"
| "split_commas (c # s) =
     (if c = CHR '','' then '''' # split_commas s else case split_commas s of [] \<Rightarrow> [[c]] | x # xs \<Rightarrow> (c # x) # xs)"

definition rule_items :: "string \<Rightarrow> string list" where
  "rule_items spec = filter (\<lambda>s. s \<noteq> '''') (map (\<lambda>s. trim_blanks s) (split_commas spec))"

definition grants_owner :: "string option \<Rightarrow> string option \<Rightarrow> string \<Rightarrow> bool" where
  "grants_owner addr sub s \<longleftrightarrow>
     (\<exists>a v. addr = Some a \<and> s = ''owner:'' @ v \<and> ieq a v) \<or> (\<exists>v. sub = Some v \<and> s = ''subject:'' @ v)"

definition grants_member :: "string option \<Rightarrow> string option \<Rightarrow> string option \<Rightarrow> string \<Rightarrow> bool" where
  "grants_member domain idp tenant s \<longleftrightarrow>
     (\<exists>d v. domain = Some d \<and> s = ''domain:'' @ v \<and> ieq d v) \<or>
     (\<exists>i t p v. idp = Some i \<and> tenant = Some t \<and> s = ''tenant:'' @ p @ '':'' @ v \<and> CHR '':'' \<notin> set p \<and> ieq i p \<and> ieq t v)"

text \<open>The same of a rule that was read.\<close>

fun rule_owner :: "string option \<Rightarrow> string option \<Rightarrow> join_rule \<Rightarrow> bool" where
  "rule_owner addr sub (RULE_OWNER v) \<longleftrightarrow> (\<exists>a. addr = Some a \<and> ieq a v)"
| "rule_owner addr sub (RULE_SUBJECT v) \<longleftrightarrow> sub = Some v"
| "rule_owner addr sub _ \<longleftrightarrow> False"

fun rule_member :: "string option \<Rightarrow> string option \<Rightarrow> string option \<Rightarrow> join_rule \<Rightarrow> bool" where
  "rule_member domain idp tenant (RULE_DOMAIN v) \<longleftrightarrow> (\<exists>d. domain = Some d \<and> ieq d v)"
| "rule_member domain idp tenant (RULE_TENANT p v) \<longleftrightarrow>
     (\<exists>i t. idp = Some i \<and> tenant = Some t \<and> i \<noteq> '''' \<and> t \<noteq> '''' \<and> ieq i p \<and> ieq t v)"
| "rule_member domain idp tenant _ \<longleftrightarrow> False"

lemma eval_rules_exact:
  "eval_rules addr domain sub idp tenant rules best =
     (if list_ex (rule_owner addr sub) rules then OC_JOIN_OWNER
      else if list_ex (rule_member domain idp tenant) rules then OC_JOIN_MEMBER else best)"
  by (induction addr domain sub idp tenant rules best rule: eval_rules.induct) (auto split: option.splits)

lemma starts_with_append: "starts_with s p \<longleftrightarrow> (\<exists>v. s = p @ v)"
  by (induction s p rule: starts_with.induct) auto

lemma ascii_lower_idem [simp]: "ascii_lower (ascii_lower c) = ascii_lower c"
proof (cases "char_between (CHR ''A'') (CHR ''Z'') c")
  case True
  then have "of_char (ascii_lower c) = (of_char c + 32 :: nat)" "(65 :: nat) \<le> of_char c"
    by (simp_all add: ascii_lower_def char_between_def)
  then have "\<not> char_between (CHR ''A'') (CHR ''Z'') (ascii_lower c)" by (simp add: char_between_def)
  then show ?thesis by (subst ascii_lower_def) simp
qed (simp add: ascii_lower_def)

lemma ieq_lower [simp]: "ieq a (map ascii_lower v) = ieq a v"
  by (simp add: ieq_map comp_def)

lemma ieq_empty: "ieq a b \<Longrightarrow> a = '''' \<longleftrightarrow> b = ''''"
  by (auto simp: ieq_map)

lemma split_char: "c \<in> set s \<Longrightarrow> s = before_char c s @ c # after_char c s"
  by (induction s) auto

lemma before_char_append: "c \<notin> set p \<Longrightarrow> before_char c (p @ c # v) = p \<and> after_char c (p @ c # v) = v"
  by (induction p) auto

text \<open>A rule grants what its text grants.\<close>

lemma parse_rule_owner:
  assumes "parse_rule s = Inr r"
  shows "rule_owner addr sub r \<longleftrightarrow> grants_owner addr sub s"
  using assms by (auto simp: parse_rule_def grants_owner_def Let_def starts_with_append split: if_split_asm)

lemma parse_rule_member:
  assumes "parse_rule s = Inr r"
  shows "rule_member domain idp tenant r \<longleftrightarrow> grants_member domain idp tenant s"
proof (cases "\<exists>v. s = ''tenant:'' @ v")
  case True
  then obtain v where v: "s = ''tenant:'' @ v" by blast
  let ?p = "before_char CHR '':'' v" and ?t = "after_char CHR '':'' v"
  have r: "r = RULE_TENANT (map ascii_lower ?p) (map ascii_lower ?t)" "?p \<noteq> ''''" "?t \<noteq> ''''" "CHR '':'' \<in> set v"
    using assms v by (auto simp: parse_rule_def Let_def starts_with_append split: if_split_asm)
  have "grants_member domain idp tenant s \<longleftrightarrow> (\<exists>i t. idp = Some i \<and> tenant = Some t \<and> ieq i ?p \<and> ieq t ?t)"
  proof
    assume "grants_member domain idp tenant s"
    then show "\<exists>i t. idp = Some i \<and> tenant = Some t \<and> ieq i ?p \<and> ieq t ?t"
      using before_char_append [of "CHR '':''"] unfolding grants_member_def v by auto
  next
    assume "\<exists>i t. idp = Some i \<and> tenant = Some t \<and> ieq i ?p \<and> ieq t ?t"
    moreover have "CHR '':'' \<notin> set ?p" by (auto dest: set_takeWhileD)
    moreover have "s = ''tenant:'' @ ?p @ '':'' @ ?t" using split_char [OF r(4)] v by simp
    ultimately show "grants_member domain idp tenant s" unfolding grants_member_def by blast
  qed
  then show ?thesis using r(2,3) ieq_empty by (auto simp: r(1))
next
  case False
  then show ?thesis
    using assms by (auto simp: parse_rule_def grants_member_def Let_def starts_with_append split: if_split_asm)
qed

text \<open>The loop reads the items in turn.\<close>

lemma split_commas_ne [simp]: "split_commas s \<noteq> []"
  by (cases s) (auto split: list.split)

lemma split_commas_before:
  "split_commas s = before_char CHR '','' s # (if CHR '','' \<in> set s then split_commas (after_char CHR '','' s) else [])"
  by (induction s) auto

lemma items_Cons:
  "filter (\<lambda>s. s \<noteq> '''') (map t (x # xs)) =
     (if t x = '''' then filter (\<lambda>s. s \<noteq> '''') (map t xs) else t x # filter (\<lambda>s. s \<noteq> '''') (map t xs))" for t :: "string \<Rightarrow> string"
  by simp

lemma rule_items_step:
  "rule_items p = (let s = trim_blanks (before_char CHR '','' p); rs = rule_items (after_char CHR '','' p)
     in if s = '''' then rs else s # rs)"
proof -
  let ?rest = "if CHR '','' \<in> set p then split_commas (after_char CHR '','' p) else []"
  have "rule_items (after_char CHR '','' p) = filter (\<lambda>s. s \<noteq> '''') (map (\<lambda>s. trim_blanks s) ?rest)"
  proof (cases "CHR '','' \<in> set p")
    case False
    then have "after_char CHR '','' p = ''''" by (induction p) auto
    then show ?thesis using False by (simp only: rule_items_def) simp
  qed (simp only: rule_items_def if_True)
  then show ?thesis by (simp only: rule_items_def split_commas_before [of p] items_Cons Let_def)
qed

lemma join_loop_items:
  "join_loop p rules = Inr rules' \<Longrightarrow> \<exists>rs. rules' = rules @ rs \<and> list_all2 (\<lambda>s r. parse_rule s = Inr r) (rule_items p) rs"
proof (induction p rules rule: join_loop.induct)
  case (1 p rules)
  define s where "s = trim_blanks (before_char CHR '','' p)"
  define p' where "p' = after_char CHR '','' p"
  note loop = join_loop.simps [of p rules, folded s_def p'_def, unfolded Let_def]
  note items = rule_items_step [of p, folded s_def p'_def, unfolded Let_def]
  note IH = 1(1,2) [folded s_def p'_def]
  consider (none) "p = ''''" | (blank) "p \<noteq> ''''" "s = ''''" | (item) "p \<noteq> ''''" "s \<noteq> ''''" by blast
  then show ?case
  proof cases
    case none
    then show ?thesis using 1(3) loop by (simp add: rule_items_def)
  next
    case blank
    then show ?thesis using 1(3) loop items IH(1) by simp
  next
    case item
    then obtain r where r: "parse_rule s = Inr r" "join_loop p' (rules @ [r]) = Inr rules'"
      using 1(3) loop by (auto split: sum.split_asm)
    then obtain rs where "rules' = (rules @ [r]) @ rs" "list_all2 (\<lambda>s r. parse_rule s = Inr r) (rule_items p') rs"
      using IH(2) [OF item(1) refl refl item(2)] by blast
    then show ?thesis using r(1) item items by (intro exI [of _ "r # rs"]) simp
  qed
qed

lemma list_ex_related:
  "list_all2 (\<lambda>s r. parse_rule s = Inr r) ss rs \<Longrightarrow> (\<And>s r. parse_rule s = Inr r \<Longrightarrow> P r \<longleftrightarrow> Q s) \<Longrightarrow> list_ex P rs \<longleftrightarrow> list_ex Q ss"
  by (induction ss rs rule: list_all2_induct) auto

text \<open>
  C17: The rules decide as their text says. Where the text of the rules is accepted, an identity becomes an owner exactly when
  an item of the text names its verified address or its exact subject, a member exactly when it does not and an item
  names the domain of its verified address or its organization at its provider, and is denied otherwise.
\<close>

theorem join_verdict_exact:
  assumes "oc_join_rules_parse (Some spec) = Inr rules"
  shows "oc_join_rules_eval (Some rules) sub idp tenant email verified =
    (let addr = verified_address email verified
     in if list_ex (grants_owner addr sub) (rule_items spec) then OC_JOIN_OWNER
        else if list_ex (grants_member (address_domain addr) idp tenant) (rule_items spec) then OC_JOIN_MEMBER
        else OC_JOIN_DENY)"
proof -
  have items: "list_all2 (\<lambda>s r. parse_rule s = Inr r) (rule_items spec) rules"
    using join_loop_items [of spec "[]"] assms by (auto simp: oc_join_rules_parse_def)
  have "list_ex (rule_owner addr sub) rules \<longleftrightarrow> list_ex (grants_owner addr sub) (rule_items spec)" for addr
    by (rule list_ex_related [OF items parse_rule_owner])
  moreover have "list_ex (rule_member domain idp tenant) rules \<longleftrightarrow> list_ex (grants_member domain idp tenant) (rule_items spec)" for domain
    by (rule list_ex_related [OF items parse_rule_member])
  ultimately show ?thesis by (simp only: oc_join_rules_eval_def option.case eval_rules_exact Let_def)
qed

theorem join_verdict_exact_witness:
  "\<exists>rules. oc_join_rules_parse (Some ''owner:a@b, domain:b.c'') = Inr rules \<and>
    oc_join_rules_eval (Some rules) None None None (Some ''x@B.c'') True = OC_JOIN_MEMBER"
proof -
  have "plausible_email ''a@b''" "plausible_domain ''b.c''" "map ascii_lower ''a@b.c'' = ''a@b.c''"
    by (simp_all add: plausible_email_def plausible_domain_def ascii_lower_def char_between_def)
  then have rules: "parse_rule ''owner:a@b'' = Inr (RULE_OWNER ''a@b'')" "parse_rule ''domain:b.c'' = Inr (RULE_DOMAIN ''b.c'')"
    by (simp_all add: parse_rule_def)
  have parse: "oc_join_rules_parse (Some ''owner:a@b, domain:b.c'') = Inr [RULE_OWNER ''a@b'', RULE_DOMAIN ''b.c'']"
    by (simp add: oc_join_rules_parse_def join_loop.simps rules)
  have "rule_items ''owner:a@b, domain:b.c'' = [''owner:a@b'', ''domain:b.c'']" by code_simp
  moreover have "ieq ''B.c'' ''b.c''" "\<not> ieq ''x@B.c'' ''a@b''" by code_simp+
  ultimately show ?thesis
    using join_verdict_exact [OF parse, of None None None "Some ''x@B.c''" True]
    by (intro exI [of _ "[RULE_OWNER ''a@b'', RULE_DOMAIN ''b.c'']"]) (simp add: parse grants_owner_def grants_member_def)
qed

end
