(* ===== verification/Search_Query.thy ===== *)
theory Search_Query
  imports Ctext
begin

text \<open>
  The search queries of \<^verbatim>\<open>shared/searchq.c\<close>: \<^verbatim>\<open>oc_searchq_parse\<close> splits what a person typed into filters and the words left for
  the full-text search. The C code writes the words into a buffer of \<open>OC_SQ_TEXT_MAX\<close> bytes at an offset \<open>tn\<close> that
  \<^verbatim>\<open>snprintf\<close> advances by what it would have written, so that the offset can leave the buffer; a write that starts
  outside it is \<open>Sq_Outside\<close>. The loop is a partial function, and \<open>None\<close> would be a loop that never ends.
\<close>

section \<open>Parsing\<close>

abbreviation OC_SQ_NAME_MAX :: nat where "OC_SQ_NAME_MAX \<equiv> 64"
abbreviation OC_SQ_TEXT_MAX :: nat where "OC_SQ_TEXT_MAX \<equiv> 512"
abbreviation SQ_DATE_MAX :: nat where "SQ_DATE_MAX \<equiv> 16"
abbreviation SQ_HAS_MAX :: nat where "SQ_HAS_MAX \<equiv> 24"
abbreviation OC_SQ_HAS_FILE :: u32 where "OC_SQ_HAS_FILE \<equiv> 1"
abbreviation OC_SQ_HAS_LINK :: u32 where "OC_SQ_HAS_LINK \<equiv> 2"
abbreviation OC_SQ_HAS_IMAGE :: u32 where "OC_SQ_HAS_IMAGE \<equiv> 4"
abbreviation OC_SQ_HAS_VIDEO :: u32 where "OC_SQ_HAS_VIDEO \<equiv> 8"

abbreviation sq_blank :: "char \<Rightarrow> bool" where "sq_blank c \<equiv> c = CHR '' '' \<or> c = CHR 0x09"
abbreviation sq_quote :: char where "sq_quote \<equiv> CHR 0x22"

record oc_searchq =
  sq_text :: string
  sq_from :: string
  sq_in :: string
  sq_has :: u32
  sq_before :: string
  sq_after :: string
  sq_n_filters :: u8

datatype sq_fault = Sq_Outside

text \<open>How many characters of the prefix were matched when all were, else 0; \<open>i\<close> counts them.\<close>

fun sq_prefix :: "string \<Rightarrow> string \<Rightarrow> nat \<Rightarrow> nat" where
  "sq_prefix s [] i = i"
| "sq_prefix [] (p # ps) i = 0"
| "sq_prefix (c # s) (p # ps) i = (if ascii_lower c \<noteq> ascii_lower p then 0 else sq_prefix s ps (Suc i))"

definition sq_take :: "nat \<Rightarrow> string \<Rightarrow> string \<times> string" where
  "sq_take cap p =
     (case p of
        c # p' \<Rightarrow>
          if c = sq_quote
          then let r = dropWhile (\<lambda>c. c \<noteq> sq_quote) p'
               in (take (cap - 1) (takeWhile (\<lambda>c. c \<noteq> sq_quote) p'), case r of [] \<Rightarrow> [] | _ # r' \<Rightarrow> r')
          else (take (cap - 1) (takeWhile (\<lambda>c. \<not> sq_blank c) p), dropWhile (\<lambda>c. \<not> sq_blank c) p)
      | [] \<Rightarrow> ('''', ''''))"

text \<open>A word for the text, after a space unless it is the first: the query so far and the offset.\<close>

definition sq_word :: "string \<Rightarrow> oc_searchq \<times> nat \<Rightarrow> (oc_searchq \<times> nat) option" where
  "sq_word w st =
     (case st of (sq, tn) \<Rightarrow>
        let (text, tn) = (if tn \<noteq> 0 \<and> tn + 1 < OC_SQ_TEXT_MAX then (sq_text sq @ '' '', tn + 1) else (sq_text sq, tn))
        in if tn > OC_SQ_TEXT_MAX then None
           else Some (sq\<lparr>sq_text := text @ take (OC_SQ_TEXT_MAX - tn - 1) w\<rparr>, tn + length w))"

definition has_bit :: "string \<Rightarrow> u32" where
  "has_bit v =
     (if v = ''file'' \<or> v = ''files'' then OC_SQ_HAS_FILE
      else if v = ''link'' \<or> v = ''links'' then OC_SQ_HAS_LINK
      else if v = ''image'' \<or> v = ''images'' \<or> v = ''pic'' \<or> v = ''pics'' then OC_SQ_HAS_IMAGE
      else if v = ''video'' \<or> v = ''videos'' then OC_SQ_HAS_VIDEO else 0)"

text \<open>A filter counts when it constrains something.\<close>

abbreviation sq_count :: "string \<Rightarrow> oc_searchq \<Rightarrow> oc_searchq" where
  "sq_count v sq \<equiv> (if v = '''' then sq else sq\<lparr>sq_n_filters := sq_n_filters sq + 1\<rparr>)"

text \<open>One round of the loop, at a character that is not blank: the rest of the query and the new state.\<close>

definition sq_token :: "string \<Rightarrow> oc_searchq \<times> nat \<Rightarrow> (string \<times> oc_searchq \<times> nat) option" where
  "sq_token p st =
     (case st of (sq, tn) \<Rightarrow>
        if sq_prefix p ''from:'' 0 \<noteq> 0
        then let (v, p) = sq_take OC_SQ_NAME_MAX (drop (sq_prefix p ''from:'' 0) p)
             in Some (p, sq_count v (sq\<lparr>sq_from := v\<rparr>), tn)
        else if sq_prefix p ''in:'' 0 \<noteq> 0
        then let (v, p) = sq_take OC_SQ_NAME_MAX (drop (sq_prefix p ''in:'' 0) p);
                 v = (case v of c # v' \<Rightarrow> if c = CHR ''#'' then v' else v | [] \<Rightarrow> v)
             in Some (p, sq_count v (sq\<lparr>sq_in := v\<rparr>), tn)
        else if sq_prefix p ''has:'' 0 \<noteq> 0
        then let (v, p) = sq_take SQ_HAS_MAX (drop (sq_prefix p ''has:'' 0) p)
             in if has_bit v \<noteq> 0
                then Some (p, sq\<lparr>sq_has := sq_has sq OR has_bit v, sq_n_filters := sq_n_filters sq + 1\<rparr>, tn)
                else map_option (Pair p) (sq_word (''has:'' @ v) (sq, tn))
        else if sq_prefix p ''before:'' 0 \<noteq> 0
        then let (v, p) = sq_take SQ_DATE_MAX (drop (sq_prefix p ''before:'' 0) p)
             in Some (p, sq_count v (sq\<lparr>sq_before := v\<rparr>), tn)
        else if sq_prefix p ''after:'' 0 \<noteq> 0
        then let (v, p) = sq_take SQ_DATE_MAX (drop (sq_prefix p ''after:'' 0) p)
             in Some (p, sq_count v (sq\<lparr>sq_after := v\<rparr>), tn)
        else if sq_prefix p ''on:'' 0 \<noteq> 0
        then let (v, p) = sq_take SQ_DATE_MAX (drop (sq_prefix p ''on:'' 0) p)
             in Some (p, if v = '''' then sq
                         else sq\<lparr>sq_before := v, sq_after := v, sq_n_filters := sq_n_filters sq + 1\<rparr>, tn)
        else
          let (word, p) = sq_take OC_SQ_TEXT_MAX p
          in if word = '''' then Some (p, sq, tn) else map_option (Pair p) (sq_word word (sq, tn)))"

partial_function (option) sq_loop :: "string \<Rightarrow> oc_searchq \<times> nat \<Rightarrow> (sq_fault + oc_searchq) option" where
  "sq_loop p st =
     (let p = dropWhile (\<lambda>c. sq_blank c) p
      in if p = '''' then Some (Inr (fst st))
         else (case sq_token p st of
                 None \<Rightarrow> Some (Inl Sq_Outside)
               | Some r \<Rightarrow> sq_loop (fst r) (snd r)))"

abbreviation searchq_empty :: oc_searchq where
  "searchq_empty \<equiv> \<lparr>sq_text = '''', sq_from = '''', sq_in = '''', sq_has = 0, sq_before = '''', sq_after = '''', sq_n_filters = 0\<rparr>"

definition oc_searchq_parse :: "string option \<Rightarrow> (sq_fault + oc_searchq) option" where
  "oc_searchq_parse q = (case q of None \<Rightarrow> Some (Inr searchq_empty) | Some q \<Rightarrow> sq_loop q (searchq_empty, 0))"

section \<open>What a round consumes\<close>

text \<open>Whether the next word follows without a blank before it, as after a closing quote.\<close>

definition abuts :: "string \<Rightarrow> bool" where
  "abuts p \<longleftrightarrow> p \<noteq> '''' \<and> \<not> sq_blank (hd p)"

lemma sq_prefix_length: "sq_prefix s pfx i \<noteq> 0 \<Longrightarrow> sq_prefix s pfx i = i + length pfx \<and> length pfx \<le> length s"
  by (induction s pfx i rule: sq_prefix.induct) (auto split: if_split_asm)

lemma length_takeWhile_dropWhile: "length (takeWhile P xs) + length (dropWhile P xs) = length xs"
  by (metis length_append takeWhile_dropWhile_id)

lemma sq_take_cases:
  obtains (none) "p = ''''" "sq_take cap p = ('''', '''')"
  | (quoted) s where "p = sq_quote # s"
      "sq_take cap p = (take (cap - 1) (takeWhile (\<lambda>c. c \<noteq> sq_quote) s), tl (dropWhile (\<lambda>c. c \<noteq> sq_quote) s))"
  | (plain) "p \<noteq> ''''"
      "sq_take cap p = (take (cap - 1) (takeWhile (\<lambda>c. \<not> sq_blank c) p), dropWhile (\<lambda>c. \<not> sq_blank c) p)"
proof (cases p)
  case (Cons c s)
  then show ?thesis using quoted [of s] plain
    by (cases "c = sq_quote"; cases "dropWhile (\<lambda>c. c \<noteq> sq_quote) s") (simp_all add: sq_take_def)
qed (use none in \<open>simp add: sq_take_def\<close>)

lemma abuts_dropWhile: "\<not> abuts (dropWhile (\<lambda>c. \<not> sq_blank c) p)"
  using hd_dropWhile [of "\<lambda>c. \<not> sq_blank c" p] unfolding abuts_def by blast

lemma sq_take_length:
  assumes "sq_take cap p = (v, p')"
  shows "length v + length p' + of_bool (abuts p') \<le> length p"
proof (cases rule: sq_take_cases [of p cap])
  case none
  then show ?thesis using assms by (simp add: abuts_def)
next
  case (quoted s)
  let ?w = "takeWhile (\<lambda>c. c \<noteq> sq_quote) s" and ?r = "dropWhile (\<lambda>c. c \<noteq> sq_quote) s"
  have v: "v = take (cap - 1) ?w" "p' = tl ?r" using assms quoted(2) by simp_all
  have "length v \<le> length ?w" "length ?w + length ?r = length s" "of_bool (abuts p') \<le> (1 :: nat)"
    by (simp_all add: v length_takeWhile_dropWhile)
  then show ?thesis unfolding quoted(1) v(2) by simp
next
  case plain
  have "length v \<le> length (takeWhile (\<lambda>c. \<not> sq_blank c) p)" "p' = dropWhile (\<lambda>c. \<not> sq_blank c) p"
    using assms plain(2) by auto
  moreover have "\<not> abuts (dropWhile (\<lambda>c. \<not> sq_blank c) p)" by (rule abuts_dropWhile)
  ultimately show ?thesis using length_takeWhile_dropWhile [of "\<lambda>c. \<not> sq_blank c" p] by simp
qed

lemma sq_take_cap:
  assumes "sq_take cap p = (v, p')" "0 < cap"
  shows "length v < cap"
  by (cases rule: sq_take_cases [of p cap]) (use assms in auto)

lemma sq_take_shrinks:
  assumes "abuts p" "sq_take cap p = (v, p')"
  shows "length p' < length p"
proof (cases rule: sq_take_cases [of p cap])
  case (quoted s)
  then show ?thesis using assms(2) length_takeWhile_dropWhile [of "\<lambda>c. c \<noteq> sq_quote" s] by auto
next
  case plain
  then obtain c s where "p = c # s" "\<not> sq_blank c" using assms(1) by (cases p) (auto simp: abuts_def)
  then show ?thesis using assms(2) plain(2) by (simp add: length_dropWhile_le less_Suc_eq_le)
qed (use assms in \<open>simp add: abuts_def\<close>)

text \<open>A round goes on to a shorter query.\<close>

lemma filter_shrinks:
  assumes "sq_prefix p pfx 0 \<noteq> 0" "sq_take cap (drop (sq_prefix p pfx 0) p) = (v, p')"
  shows "length v + length p' + of_bool (abuts p') + length pfx \<le> length p" "length p' < length p"
proof -
  have k: "sq_prefix p pfx 0 = length pfx" "length pfx \<le> length p" using sq_prefix_length [OF assms(1)] by simp_all
  have "length v + length p' + of_bool (abuts p') \<le> length p - length pfx"
    using sq_take_length [OF assms(2)] by (simp only: k length_drop)
  moreover have "0 < length pfx" using assms(1) k(1) by simp
  ultimately show "length v + length p' + of_bool (abuts p') + length pfx \<le> length p" "length p' < length p"
    using k(2) by linarith+
qed

lemma sq_token_shrinks:
  assumes "abuts p" "sq_token p st = Some (p', st')"
  shows "length p' < length p"
  using assms(2) filter_shrinks(2) sq_take_shrinks [OF assms(1)]
  by (auto simp: sq_token_def Let_def split: prod.split_asm if_split_asm)

lemma abuts_skip: "dropWhile (\<lambda>c. sq_blank c) p \<noteq> '''' \<Longrightarrow> abuts (dropWhile (\<lambda>c. sq_blank c) p)"
  using hd_dropWhile [of "\<lambda>c. sq_blank c" p] unfolding abuts_def by blast

lemma sq_loop_returns: "\<exists>r. sq_loop p st = Some r"
proof (induction p arbitrary: st rule: length_induct)
  case (1 p)
  let ?p = "dropWhile (\<lambda>c. sq_blank c) p"
  show ?case
  proof (cases "?p = '''' \<or> sq_token ?p st = None")
    case True
    then show ?thesis by (subst sq_loop.simps) (auto simp: Let_def)
  next
    case False
    then obtain p' st' where t: "sq_token ?p st = Some (p', st')" "?p \<noteq> ''''" by auto
    have "length p' < length p"
      using sq_token_shrinks [OF abuts_skip [OF t(2)] t(1)] length_dropWhile_le [of "\<lambda>c. sq_blank c" p] by simp
    then obtain r where "sq_loop p' st' = Some r" using 1 by blast
    then show ?thesis using t by (subst sq_loop.simps) (simp add: Let_def)
  qed
qed

section \<open>The buffers\<close>

definition searchq_ok :: "oc_searchq \<Rightarrow> bool" where
  "searchq_ok sq \<longleftrightarrow> length (sq_text sq) < OC_SQ_TEXT_MAX \<and> length (sq_from sq) < OC_SQ_NAME_MAX \<and> length (sq_in sq) < OC_SQ_NAME_MAX \<and>
     length (sq_before sq) < SQ_DATE_MAX \<and> length (sq_after sq) < SQ_DATE_MAX \<and> sq_has sq AND 15 = sq_has sq"

text \<open>
  With the query \<open>p\<close> ahead, of a query of \<open>n\<close> characters: what is ahead fits behind the text, with a space where one is due,
  and every filter took four characters at least.
\<close>

definition sq_inv :: "nat \<Rightarrow> string \<Rightarrow> oc_searchq \<times> nat \<Rightarrow> bool" where
  "sq_inv n p st \<longleftrightarrow>
     (case st of (sq, tn) \<Rightarrow> searchq_ok sq \<and> length (sq_text sq) = tn \<and> tn + length p + of_bool (tn \<noteq> 0 \<and> abuts p) \<le> n \<and>
        4 * unat (sq_n_filters sq) + length p \<le> n)"

lemma sq_inv_skip:
  assumes "sq_inv n p st"
  shows "sq_inv n (dropWhile (\<lambda>c. sq_blank c) p) st"
proof (cases "abuts p")
  case True
  then have "dropWhile (\<lambda>c. sq_blank c) p = p" by (cases p) (auto simp: abuts_def)
  then show ?thesis using assms by simp
next
  case False
  then have "p = '''' \<or> length (dropWhile (\<lambda>c. sq_blank c) p) < length p"
    by (cases p) (auto simp: abuts_def less_Suc_eq_le intro: length_dropWhile_le)
  then show ?thesis using assms False by (auto simp: sq_inv_def)
qed

lemma filters_bound: "n < 512 \<Longrightarrow> sq_inv n p (sq, tn) \<Longrightarrow> unat (sq_n_filters sq + 1) = unat (sq_n_filters sq) + 1"
  by (simp add: sq_inv_def unat_word_ariths)

lemma filter_keeps:
  assumes n: "n < 512" and inv: "sq_inv n p (sq, tn)"
    and p': "length v + length p' + of_bool (abuts p') + k \<le> length p" "3 \<le> k"
    and sq': "searchq_ok sq'" "sq_text sq' = sq_text sq"
      "sq_n_filters sq' = sq_n_filters sq \<or> (v \<noteq> '''' \<or> 4 \<le> k) \<and> sq_n_filters sq' = sq_n_filters sq + 1"
  shows "sq_inv n p' (sq', tn)"
proof -
  have "4 * unat (sq_n_filters sq') + length p' \<le> 4 * unat (sq_n_filters sq) + length p"
    using sq'(3) p' filters_bound [OF n inv] by (cases v) auto
  then show ?thesis using inv p'(1) sq'(1,2) by (auto simp: sq_inv_def)
qed

lemma word_keeps:
  assumes n: "n < 512" and inv: "sq_inv n p (sq, tn)" and p: "abuts p"
    and p': "length w + length p' + of_bool (abuts p') \<le> length p" "w \<noteq> ''''"
  obtains st where "sq_word w (sq, tn) = Some st" "sq_inv n p' st"
proof -
  define t where "t = tn + of_bool (tn \<noteq> 0)"
  have room: "t + length p \<le> n" "length (sq_text sq) = tn" "searchq_ok sq" "4 * unat (sq_n_filters sq) + length p \<le> n"
    using inv p by (auto simp: sq_inv_def t_def)
  have "0 < length w" using p'(2) by simp
  then have w: "t + length w + length p' + of_bool (abuts p') \<le> n" "t + 1 < 512" "length p' \<le> length p"
    using room(1) p'(1) n by linarith+
  let ?text = "sq_text sq @ (if tn \<noteq> 0 then '' '' else '''') @ w"
  have "sq_word w (sq, tn) = Some (sq\<lparr>sq_text := ?text\<rparr>, t + length w)"
    using w(1,2) n by (auto simp: sq_word_def t_def Let_def)
  moreover have "sq_inv n p' (sq\<lparr>sq_text := ?text\<rparr>, t + length w)"
    using w room n by (auto simp: sq_inv_def t_def searchq_ok_def)
  ultimately show ?thesis by (rule that)
qed

lemma has_bit_ok: "x AND 15 = x \<Longrightarrow> (x OR has_bit v) AND 15 = x OR has_bit v"
  by (simp add: has_bit_def word_ao_dist)

lemma sq_count_ok: "searchq_ok sq \<Longrightarrow> searchq_ok (sq_count v sq)"
  by (simp add: searchq_ok_def)

text \<open>What each kind of filter leaves.\<close>

lemma fields_ok:
  assumes "searchq_ok sq"
  shows "length v < 64 \<Longrightarrow> searchq_ok (sq\<lparr>sq_from := v\<rparr>)" "length v < 64 \<Longrightarrow> searchq_ok (sq\<lparr>sq_in := v\<rparr>)"
    "length v < 16 \<Longrightarrow> searchq_ok (sq\<lparr>sq_before := v\<rparr>)" "length v < 16 \<Longrightarrow> searchq_ok (sq\<lparr>sq_after := v\<rparr>)"
    "searchq_ok (sq\<lparr>sq_has := sq_has sq OR has_bit w\<rparr>)" "searchq_ok (sq\<lparr>sq_n_filters := f\<rparr>)"
  using assms has_bit_ok by (simp_all add: searchq_ok_def)

abbreviation token_keeps :: "nat \<Rightarrow> string \<Rightarrow> oc_searchq \<Rightarrow> nat \<Rightarrow> bool" where
  "token_keeps n p sq tn \<equiv> \<exists>p' st'. sq_token p (sq, tn) = Some (p', st') \<and> sq_inv n p' st'"

lemma filter_token:
  assumes "n < 512" "sq_inv n p (sq, tn)"
    and pfx: "sq_prefix p pfx 0 \<noteq> 0" "3 \<le> length pfx" and taken: "sq_take cap (drop (sq_prefix p pfx 0) p) = (v, p')"
    and tok: "sq_token p (sq, tn) = Some (p', sq', tn)" and sq': "searchq_ok sq'" "sq_text sq' = sq_text sq"
      "sq_n_filters sq' = sq_n_filters sq \<or> (v \<noteq> '''' \<or> 4 \<le> length pfx) \<and> sq_n_filters sq' = sq_n_filters sq + 1"
  shows "token_keeps n p sq tn"
  using filter_keeps [OF assms(1,2) filter_shrinks(1) [OF pfx(1) taken] pfx(2) sq'] tok by blast

lemma word_token:
  assumes "n < 512" "sq_inv n p (sq, tn)" "abuts p" "sq_token p (sq, tn) = map_option (Pair p') (sq_word w (sq, tn))" "w \<noteq> ''''"
      "length w + length p' + of_bool (abuts p') \<le> length p"
  shows "token_keeps n p sq tn"
  using word_keeps [OF assms(1-3,6,5)] assms(4) by (metis option.simps(9))

lemma name_keeps:
  assumes n: "n < 512" and inv: "sq_inv n p (sq, tn)" and pfx: "sq_prefix p ''from:'' 0 \<noteq> 0 \<or> sq_prefix p ''in:'' 0 \<noteq> 0"
  shows "token_keeps n p sq tn"
proof (cases "sq_prefix p ''from:'' 0 \<noteq> 0")
  case True
  have ok: "searchq_ok sq" using inv by (simp add: sq_inv_def)
  obtain v p' where t: "sq_take 64 (drop (sq_prefix p ''from:'' 0) p) = (v, p')" by fastforce
  show ?thesis
    by (rule filter_token [OF n inv True _ t, where sq' = "sq_count v (sq\<lparr>sq_from := v\<rparr>)"])
      (use True t ok sq_take_cap [OF t] in \<open>auto simp: sq_token_def fields_ok\<close>)
next
  case False
  have ok: "searchq_ok sq" using inv by (simp add: sq_inv_def)
  have in_pfx: "sq_prefix p ''in:'' 0 \<noteq> 0" using pfx False by simp
  obtain v p' where t: "sq_take 64 (drop (sq_prefix p ''in:'' 0) p) = (v, p')" by fastforce
  let ?v = "case v of c # v' \<Rightarrow> if c = CHR ''#'' then v' else v | [] \<Rightarrow> v"
  have v: "length ?v < 64" "?v \<noteq> '''' \<Longrightarrow> v \<noteq> ''''" using sq_take_cap [OF t] by (auto split: list.split)
  show ?thesis
    by (rule filter_token [OF n inv in_pfx _ t, where sq' = "sq_count ?v (sq\<lparr>sq_in := ?v\<rparr>)"])
      (use in_pfx False t ok v in \<open>auto simp: sq_token_def fields_ok Let_def\<close>)
qed

lemma date_keeps:
  assumes n: "n < 512" and inv: "sq_inv n p (sq, tn)"
    and none: "sq_prefix p ''from:'' 0 = 0" "sq_prefix p ''in:'' 0 = 0" "sq_prefix p ''has:'' 0 = 0"
    and pfx: "sq_prefix p ''before:'' 0 \<noteq> 0 \<or> sq_prefix p ''after:'' 0 \<noteq> 0 \<or> sq_prefix p ''on:'' 0 \<noteq> 0"
  shows "token_keeps n p sq tn"
proof -
  have ok: "searchq_ok sq" using inv by (simp add: sq_inv_def)
  consider (before) "sq_prefix p ''before:'' 0 \<noteq> 0" | (after) "sq_prefix p ''before:'' 0 = 0" "sq_prefix p ''after:'' 0 \<noteq> 0"
    | (on) "sq_prefix p ''before:'' 0 = 0" "sq_prefix p ''after:'' 0 = 0" "sq_prefix p ''on:'' 0 \<noteq> 0"
    using pfx by blast
  then show ?thesis
  proof cases
    case before
    obtain v p' where t: "sq_take 16 (drop (sq_prefix p ''before:'' 0) p) = (v, p')" by fastforce
    show ?thesis
      by (rule filter_token [OF n inv before _ t, where sq' = "sq_count v (sq\<lparr>sq_before := v\<rparr>)"])
        (use none before t ok sq_take_cap [OF t] in \<open>auto simp: sq_token_def fields_ok\<close>)
  next
    case after
    obtain v p' where t: "sq_take 16 (drop (sq_prefix p ''after:'' 0) p) = (v, p')" by fastforce
    show ?thesis
      by (rule filter_token [OF n inv after(2) _ t, where sq' = "sq_count v (sq\<lparr>sq_after := v\<rparr>)"])
        (use none after t ok sq_take_cap [OF t] in \<open>auto simp: sq_token_def fields_ok\<close>)
  next
    case on
    obtain v p' where t: "sq_take 16 (drop (sq_prefix p ''on:'' 0) p) = (v, p')" by fastforce
    show ?thesis
      by (rule filter_token [OF n inv on(3) _ t,
            where sq' = "if v = '''' then sq else sq\<lparr>sq_before := v, sq_after := v, sq_n_filters := sq_n_filters sq + 1\<rparr>"])
        (use none on t ok sq_take_cap [OF t] in \<open>auto simp: sq_token_def fields_ok\<close>)
  qed
qed

lemma has_keeps:
  assumes n: "n < 512" and inv: "sq_inv n p (sq, tn)" and p: "abuts p"
    and none: "sq_prefix p ''from:'' 0 = 0" "sq_prefix p ''in:'' 0 = 0" and pfx: "sq_prefix p ''has:'' 0 \<noteq> 0"
  shows "token_keeps n p sq tn"
proof -
  obtain v p' where t: "sq_take 24 (drop (sq_prefix p ''has:'' 0) p) = (v, p')" by fastforce
  have ok: "searchq_ok sq" using inv by (simp add: sq_inv_def)
  show ?thesis
  proof (cases "has_bit v = 0")
    case True
    show ?thesis
      by (rule word_token [OF n inv p, of p' "''has:'' @ v"])
        (use none pfx t True filter_shrinks(1) [OF pfx t] in \<open>auto simp: sq_token_def\<close>)
  next
    case False
    show ?thesis
      by (rule filter_token [OF n inv pfx _ t,
            where sq' = "sq\<lparr>sq_has := sq_has sq OR has_bit v, sq_n_filters := sq_n_filters sq + 1\<rparr>"])
        (use none pfx t ok False in \<open>auto simp: sq_token_def fields_ok\<close>)
  qed
qed

lemma plain_keeps:
  assumes n: "n < 512" and inv: "sq_inv n p (sq, tn)" and p: "abuts p"
    and none: "sq_prefix p ''from:'' 0 = 0" "sq_prefix p ''in:'' 0 = 0" "sq_prefix p ''has:'' 0 = 0" "sq_prefix p ''before:'' 0 = 0"
        "sq_prefix p ''after:'' 0 = 0" "sq_prefix p ''on:'' 0 = 0"
  shows "token_keeps n p sq tn"
proof -
  obtain v p' where t: "sq_take 512 p = (v, p')" by fastforce
  note len = sq_take_length [OF t]
  show ?thesis
  proof (cases "v = ''''")
    case True
    then have "sq_token p (sq, tn) = Some (p', sq, tn)" using none t by (simp add: sq_token_def)
    moreover have "sq_inv n p' (sq, tn)" using inv len p by (auto simp: sq_inv_def)
    ultimately show ?thesis by blast
  next
    case False
    show ?thesis by (rule word_token [OF n inv p, of p' v]) (use none t False len in \<open>simp_all add: sq_token_def\<close>)
  qed
qed

lemma sq_token_keeps:
  assumes "n < 512" "sq_inv n p (sq, tn)" "abuts p"
  shows "token_keeps n p sq tn"
  using name_keeps [OF assms(1,2)] has_keeps [OF assms] date_keeps [OF assms(1,2)] plain_keeps [OF assms] by argo

lemma sq_loop_within:
  assumes "n < 512"
  shows "sq_inv n p st \<Longrightarrow> \<exists>sq tn. sq_loop p st = Some (Inr sq) \<and> sq_inv n '''' (sq, tn)"
proof (induction p arbitrary: st rule: length_induct)
  case (1 p)
  let ?p = "dropWhile (\<lambda>c. sq_blank c) p"
  obtain sq tn where st: "st = (sq, tn)" by (cases st)
  have inv: "sq_inv n ?p (sq, tn)" using sq_inv_skip [OF 1(2)] st by simp
  show ?case
  proof (cases "?p = ''''")
    case True
    then have "sq_loop p st = Some (Inr sq)" by (subst sq_loop.simps) (simp add: st Let_def)
    then show ?thesis using inv True by (intro exI conjI) (simp_all add: st)
  next
    case False
    note p = abuts_skip [OF False]
    from sq_token_keeps [OF assms inv p] obtain p' st' where t: "sq_token ?p (sq, tn) = Some (p', st')" "sq_inv n p' st'" by blast
    have "length p' < length p"
      using sq_token_shrinks [OF p t(1)] length_dropWhile_le [of "\<lambda>c. sq_blank c" p] by simp
    then obtain sq' tn' where "sq_loop p' st' = Some (Inr sq')" "sq_inv n '''' (sq', tn')" using 1(1) t(2) by blast
    moreover have "sq_loop p st = sq_loop p' st'" using t(1) False
      by (subst sq_loop.simps) (simp add: st Let_def del: dropWhile_eq_Nil_conv)
    ultimately show ?thesis by (intro exI conjI) (simp_all add: st)
  qed
qed

section \<open>What a query says\<close>

text \<open>
  The items of a query, split off one after the other: an operator in any case with its value, up to a blank or, in
  quotes, up to the closing quote, or a word for the text.
\<close>

datatype (plugins only: size code) sq_item = From string | In string | Has string | Before string | After string | On string | Text string

definition sq_operators :: "(string \<times> nat \<times> (string \<Rightarrow> sq_item)) list" where
  "sq_operators = [(''from:'', OC_SQ_NAME_MAX, From), (''in:'', OC_SQ_NAME_MAX, In), (''has:'', SQ_HAS_MAX, Has),
     (''before:'', SQ_DATE_MAX, Before), (''after:'', SQ_DATE_MAX, After), (''on:'', SQ_DATE_MAX, On)]"

definition sq_split :: "string \<Rightarrow> sq_item \<times> string" where
  "sq_split p =
     (case find (\<lambda>(pfx, _). map ascii_lower (take (length pfx) p) = pfx) sq_operators of
        Some (pfx, cap, kind) \<Rightarrow> map_prod kind id (sq_take cap (drop (length pfx) p))
      | None \<Rightarrow> map_prod Text id (sq_take OC_SQ_TEXT_MAX p))"

lemma sq_split_shrinks:
  assumes "abuts p"
  shows "length (snd (sq_split p)) < length p"
proof -
  have op: "length (snd (sq_take cap (drop (length pfx) p))) < length p" if "(pfx, cap, kind) \<in> set sq_operators" for pfx cap kind
  proof -
    obtain v r where t: "sq_take cap (drop (length pfx) p) = (v, r)" by fastforce
    have "0 < length pfx" using that by (auto simp: sq_operators_def)
    moreover have "p \<noteq> ''''" using assms by (simp add: abuts_def)
    ultimately show ?thesis using sq_take_length [OF t] t by (cases p; cases "length pfx") auto
  qed
  have "length (snd (sq_take OC_SQ_TEXT_MAX p)) < length p"
    using sq_take_shrinks [OF assms] by (metis prod.collapse)
  moreover have "(pfx, cap, kind) \<in> set sq_operators" if "find P sq_operators = Some (pfx, cap, kind)" for P pfx cap kind
    using that by (auto simp: find_Some_iff)
  ultimately show ?thesis using op by (auto simp: sq_split_def split: option.split) blast
qed

function sq_items :: "string \<Rightarrow> sq_item list" where
  "sq_items p =
     (let p = dropWhile (\<lambda>c. sq_blank c) p
      in if p = '''' then [] else fst (sq_split p) # sq_items (snd (sq_split p)))"
  by pat_completeness auto
termination
proof (relation "measure length", goal_cases)
  case (2 p x)
  then show ?case
    using sq_split_shrinks [OF abuts_skip, of p] length_dropWhile_le [of "\<lambda>c. sq_blank c" p] by (simp del: dropWhile_eq_Nil_conv)
qed simp

declare sq_items.simps [simp del]

text \<open>
  What the items mean: the last value of each kind, the mask of the known \<^verbatim>\<open>has:\<close> values, how many operators constrain
  something, and the words with a space between them, an unknown \<^verbatim>\<open>has:\<close> value among them.
\<close>

definition sq_bare :: "string \<Rightarrow> string" where
  "sq_bare v = (case v of c # v' \<Rightarrow> if c = CHR ''#'' then v' else v | [] \<Rightarrow> v)"

fun sq_words :: "sq_item \<Rightarrow> string list" where
  "sq_words (Text w) = (if w = '''' then [] else [w])"
| "sq_words (Has v) = (if has_bit v = 0 then [''has:'' @ v] else [])"
| "sq_words _ = []"

fun sq_constrains :: "sq_item \<Rightarrow> bool" where
  "sq_constrains (From v) \<longleftrightarrow> v \<noteq> ''''"
| "sq_constrains (In v) \<longleftrightarrow> sq_bare v \<noteq> ''''"
| "sq_constrains (Has v) \<longleftrightarrow> has_bit v \<noteq> 0"
| "sq_constrains (Before v) \<longleftrightarrow> v \<noteq> ''''"
| "sq_constrains (After v) \<longleftrightarrow> v \<noteq> ''''"
| "sq_constrains (On v) \<longleftrightarrow> v \<noteq> ''''"
| "sq_constrains (Text w) \<longleftrightarrow> False"

fun sq_froms :: "sq_item \<Rightarrow> string list" where
  "sq_froms (From v) = [v]"
| "sq_froms _ = []"

fun sq_ins :: "sq_item \<Rightarrow> string list" where
  "sq_ins (In v) = [sq_bare v]"
| "sq_ins _ = []"

fun sq_befores :: "sq_item \<Rightarrow> string list" where
  "sq_befores (Before v) = [v]"
| "sq_befores (On v) = (if v = '''' then [] else [v])"
| "sq_befores _ = []"

fun sq_afters :: "sq_item \<Rightarrow> string list" where
  "sq_afters (After v) = [v]"
| "sq_afters (On v) = (if v = '''' then [] else [v])"
| "sq_afters _ = []"

fun sq_bits :: "sq_item \<Rightarrow> u32" where
  "sq_bits (Has v) = has_bit v"
| "sq_bits _ = 0"

definition spaced :: "string list \<Rightarrow> string" where
  "spaced ws = (case ws of [] \<Rightarrow> '''' | w # ws \<Rightarrow> w @ concat (map (\<lambda>w. '' '' @ w) ws))"

definition sq_meaning :: "sq_item list \<Rightarrow> oc_searchq" where
  "sq_meaning is = \<lparr>sq_text = spaced (concat (map sq_words is)), sq_from = last ('''' # concat (map sq_froms is)),
     sq_in = last ('''' # concat (map sq_ins is)), sq_has = fold (\<lambda>i b. b OR sq_bits i) is 0,
     sq_before = last ('''' # concat (map sq_befores is)), sq_after = last ('''' # concat (map sq_afters is)),
     sq_n_filters = of_nat (length (filter sq_constrains is))\<rparr>"

lemma sq_prefix_lower:
  "map ascii_lower pfx = pfx \<Longrightarrow> pfx \<noteq> '''' \<or> 0 < i \<Longrightarrow>
    sq_prefix p pfx i = (if map ascii_lower (take (length pfx) p) = pfx then i + length pfx else 0)"
  by (induction p pfx i rule: sq_prefix.induct) auto

text \<open>An operator that constrains something takes four characters at least.\<close>

lemma sq_split_consumes:
  assumes "abuts p"
  shows "4 * of_bool (sq_constrains (fst (sq_split p))) + length (snd (sq_split p)) \<le> length p"
proof (cases "find (\<lambda>(pfx, _). map ascii_lower (take (length pfx) p) = pfx) sq_operators")
  case None
  then show ?thesis using sq_split_shrinks [OF assms] by (auto simp: sq_split_def map_prod_def split: prod.split)
next
  case (Some op)
  obtain pfx cap kind where op: "op = (pfx, cap, kind)" by (cases op)
  have op_in: "(pfx, cap, kind) \<in> set sq_operators" and match: "map ascii_lower (take (length pfx) p) = pfx"
    using Some op by (auto simp: find_Some_iff) (metis nth_mem)
  from arg_cong [OF match, of length] have "length pfx \<le> length p" by simp
  obtain v r where t: "sq_take cap (drop (length pfx) p) = (v, r)" by fastforce
  have "length v + length r + length pfx \<le> length p" using sq_take_length [OF t] \<open>length pfx \<le> length p\<close> by simp
  moreover have "4 * of_bool (sq_constrains (kind v)) \<le> length v + length pfx"
    using op_in by (cases v) (auto simp: sq_operators_def sq_bare_def has_bit_def)
  ultimately show ?thesis using Some op t by (simp add: sq_split_def)
qed

lemma sq_items_length: "4 * length (filter sq_constrains (sq_items p)) \<le> length p"
proof (induction p rule: sq_items.induct)
  case (1 p)
  let ?p = "dropWhile (\<lambda>c. sq_blank c) p"
  show ?case
  proof (cases "?p = ''''")
    case False
    have "4 * length (filter sq_constrains (sq_items p)) =
        4 * of_bool (sq_constrains (fst (sq_split ?p))) + 4 * length (filter sq_constrains (sq_items (snd (sq_split ?p))))"
      using False by (subst sq_items.simps) (simp add: Let_def del: dropWhile_eq_Nil_conv)
    also have "\<dots> \<le> length ?p" using 1 [OF refl False] sq_split_consumes [OF abuts_skip [OF False]] by linarith
    also have "\<dots> \<le> length p" by (rule length_dropWhile_le)
    finally show ?thesis .
  qed (simp add: sq_items.simps [of p])
qed

text \<open>One item, as the round of the loop takes it.\<close>

definition sq_does :: "sq_item \<Rightarrow> oc_searchq \<times> nat \<Rightarrow> (oc_searchq \<times> nat) option" where
  "sq_does i st =
     (case st of (sq, tn) \<Rightarrow>
        case i of
          From v \<Rightarrow> Some (sq_count v (sq\<lparr>sq_from := v\<rparr>), tn)
        | In v \<Rightarrow> Some (sq_count (sq_bare v) (sq\<lparr>sq_in := sq_bare v\<rparr>), tn)
        | Has v \<Rightarrow>
            if has_bit v \<noteq> 0 then Some (sq\<lparr>sq_has := sq_has sq OR has_bit v, sq_n_filters := sq_n_filters sq + 1\<rparr>, tn)
            else sq_word (''has:'' @ v) (sq, tn)
        | Before v \<Rightarrow> Some (sq_count v (sq\<lparr>sq_before := v\<rparr>), tn)
        | After v \<Rightarrow> Some (sq_count v (sq\<lparr>sq_after := v\<rparr>), tn)
        | On v \<Rightarrow> Some (if v = '''' then sq else sq\<lparr>sq_before := v, sq_after := v, sq_n_filters := sq_n_filters sq + 1\<rparr>, tn)
        | Text w \<Rightarrow> if w = '''' then Some (sq, tn) else sq_word w (sq, tn))"

lemma token_does: "sq_token p st = map_option (Pair (snd (sq_split p))) (sq_does (fst (sq_split p)) st)"
proof -
  have "map ascii_lower ''from:inhasbeforeafteron'' = ''from:inhasbeforeafteron''" by code_simp
  then have low: "map ascii_lower ''from:'' = ''from:''" "map ascii_lower ''in:'' = ''in:''" "map ascii_lower ''has:'' = ''has:''"
    "map ascii_lower ''before:'' = ''before:''" "map ascii_lower ''after:'' = ''after:''" "map ascii_lower ''on:'' = ''on:''"
    by simp_all
  define hit where "hit pfx \<longleftrightarrow> map ascii_lower (take (length pfx) p) = pfx" for pfx
  have pre: "sq_prefix p pfx 0 = (if hit pfx then length pfx else 0)" if "map ascii_lower pfx = pfx" "pfx \<noteq> ''''" for pfx
    using that sq_prefix_lower [of pfx 0 p] by (simp add: hit_def)
  have split: "sq_split p =
      (if hit ''from:'' then map_prod From id (sq_take 64 (drop (length ''from:'') p))
       else if hit ''in:'' then map_prod In id (sq_take 64 (drop (length ''in:'') p))
       else if hit ''has:'' then map_prod Has id (sq_take 24 (drop (length ''has:'') p))
       else if hit ''before:'' then map_prod Before id (sq_take 16 (drop (length ''before:'') p))
       else if hit ''after:'' then map_prod After id (sq_take 16 (drop (length ''after:'') p))
       else if hit ''on:'' then map_prod On id (sq_take 16 (drop (length ''on:'') p))
       else map_prod Text id (sq_take 512 p))"
    unfolding sq_split_def sq_operators_def hit_def [symmetric] by simp
  obtain sq tn where st: "st = (sq, tn)" by (cases st)
  consider "hit ''from:''" | "\<not> hit ''from:''" "hit ''in:''" | "\<not> hit ''from:''" "\<not> hit ''in:''" "hit ''has:''"
    | "\<not> hit ''from:''" "\<not> hit ''in:''" "\<not> hit ''has:''" "hit ''before:''"
    | "\<not> hit ''from:''" "\<not> hit ''in:''" "\<not> hit ''has:''" "\<not> hit ''before:''" "hit ''after:''"
    | "\<not> hit ''from:''" "\<not> hit ''in:''" "\<not> hit ''has:''" "\<not> hit ''before:''" "\<not> hit ''after:''" "hit ''on:''"
    | "\<not> hit ''from:''" "\<not> hit ''in:''" "\<not> hit ''has:''" "\<not> hit ''before:''" "\<not> hit ''after:''" "\<not> hit ''on:''"
    by argo
  then show ?thesis
    by cases (simp_all add: st sq_token_def pre [OF low(1)] pre [OF low(2)] pre [OF low(3)] pre [OF low(4)] pre [OF low(5)] pre [OF low(6)]
        split sq_does_def sq_bare_def Let_def case_prod_beta)
qed

text \<open>A word that is written whole.\<close>

lemma sq_word_whole:
  assumes "sq_word w (sq, tn) = Some (sq', tn')" "w \<noteq> ''''" "length (sq_text sq) = tn" "length (sq_text sq') = tn'"
  shows "sq' = sq\<lparr>sq_text := sq_text sq @ (if tn = 0 then w else '' '' @ w)\<rparr>"
  using assms by (auto simp: sq_word_def Let_def split: if_splits)

lemma spaced_snoc: "spaced (ws @ [w]) = (if ws = [] then w else spaced ws @ '' '' @ w)"
  by (cases ws) (simp_all add: spaced_def)

lemma spaced_empty: "list_all (\<lambda>w. w \<noteq> '''') ws \<Longrightarrow> spaced ws = '''' \<longleftrightarrow> ws = []"
  by (cases ws) (simp_all add: spaced_def)

lemma sq_words_ne: "list_all (\<lambda>w. w \<noteq> '''') (concat (map sq_words is))"
proof (induction "is")
  case (Cons i "is")
  then show ?case by (cases i) auto
qed simp

lemma sq_does_meaning:
  assumes "sq_does i (sq_meaning is, length (sq_text (sq_meaning is))) = Some (sq', tn')" "length (sq_text sq') = tn'"
  shows "sq' = sq_meaning (is @ [i])"
proof -
  let ?sq = "sq_meaning is"
  have word: "sq' = ?sq\<lparr>sq_text := spaced (concat (map sq_words is) @ [w])\<rparr>"
    if "sq_word w (?sq, length (sq_text ?sq)) = Some (sq', tn')" "w \<noteq> ''''" for w
    using sq_word_whole [OF that refl assms(2)] spaced_empty [OF sq_words_ne, of "is"]
    by (simp add: spaced_snoc sq_meaning_def)
  show ?thesis
  proof (cases i)
    case (Text w)
    then show ?thesis using assms(1) word [of w] by (auto simp: sq_does_def sq_meaning_def split: if_splits)
  next
    case (Has v)
    then show ?thesis using assms(1) word [of "''has:'' @ v"] by (auto simp: sq_does_def sq_meaning_def split: if_splits)
  qed (use assms(1) in \<open>auto simp: sq_does_def sq_meaning_def\<close>)
qed

lemma sq_loop_meaning:
  assumes "n < 512"
  shows "sq_inv n p (sq_meaning is, length (sq_text (sq_meaning is))) \<Longrightarrow>
    sq_loop p (sq_meaning is, length (sq_text (sq_meaning is))) = Some (Inr (sq_meaning (is @ sq_items p)))"
proof (induction p arbitrary: "is" rule: length_induct)
  case (1 p)
  let ?p = "dropWhile (\<lambda>c. sq_blank c) p" and ?sq = "sq_meaning is" and ?tn = "length (sq_text (sq_meaning is))"
  show ?case
  proof (cases "?p = ''''")
    case True
    then show ?thesis by (subst sq_loop.simps, subst sq_items.simps) (simp add: Let_def)
  next
    case False
    note abut = abuts_skip [OF False]
    from sq_token_keeps [OF assms sq_inv_skip [OF 1(2)] abut] obtain p' sq' tn'
      where t: "sq_token ?p (?sq, ?tn) = Some (p', sq', tn')" "sq_inv n p' (sq', tn')" by auto
    then have d: "p' = snd (sq_split ?p)" "sq_does (fst (sq_split ?p)) (?sq, ?tn) = Some (sq', tn')"
      by (auto simp: token_does)
    have len: "length (sq_text sq') = tn'" using t(2) by (simp add: sq_inv_def)
    have st: "(sq', tn') = (sq_meaning (is @ [fst (sq_split ?p)]), length (sq_text (sq_meaning (is @ [fst (sq_split ?p)]))))"
      using sq_does_meaning [OF d(2) len] len by simp
    have "length p' < length p"
      using sq_split_shrinks [OF abut] d(1) length_dropWhile_le [of "\<lambda>c. sq_blank c" p] by simp
    then have "sq_loop p' (sq', tn') = Some (Inr (sq_meaning ((is @ [fst (sq_split ?p)]) @ sq_items p')))"
      using 1(1) t(2) unfolding st by blast
    moreover have "sq_loop p (?sq, ?tn) = sq_loop p' (sq', tn')" using t(1) False
      by (subst sq_loop.simps) (simp add: Let_def del: dropWhile_eq_Nil_conv)
    moreover have "sq_items p = fst (sq_split ?p) # sq_items p'"
      using False d(1) by (subst sq_items.simps) (simp add: Let_def del: dropWhile_eq_Nil_conv)
    ultimately show ?thesis by simp
  qed
qed

text \<open>
  C18: Parsing always ends, with a result or with a write outside the text buffer. A query shorter than that buffer,
  which is every query the clients' input fields can hold, is parsed into exactly what its items say: each field is
  the last value typed for it (a \<^verbatim>\<open>#\<close> before a channel dropped, \<^verbatim>\<open>on:\<close> as both dates), the mask is that of
  the known \<^verbatim>\<open>has:\<close> values, the count is that of the operators that constrain something, and the text is the
  other words with single spaces between them. Every field is a terminated string within its array; a value that is longer is cut.
\<close>

theorem searchq_parse_exact:
  "(\<exists>r. oc_searchq_parse (Some q) = Some r) \<and>
   (length q < OC_SQ_TEXT_MAX \<longrightarrow>
     oc_searchq_parse (Some q) = Some (Inr (sq_meaning (sq_items q))) \<and> searchq_ok (sq_meaning (sq_items q)) \<and>
     unat (sq_n_filters (sq_meaning (sq_items q))) = length (filter sq_constrains (sq_items q)))"
proof -
  have empty: "sq_meaning [] = searchq_empty" by (simp add: sq_meaning_def spaced_def)
  have "\<exists>r. oc_searchq_parse (Some q) = Some r" using sq_loop_returns by (simp add: oc_searchq_parse_def)
  moreover have "oc_searchq_parse (Some q) = Some (Inr (sq_meaning (sq_items q))) \<and> searchq_ok (sq_meaning (sq_items q)) \<and>
     unat (sq_n_filters (sq_meaning (sq_items q))) = length (filter sq_constrains (sq_items q))" if q: "length q < OC_SQ_TEXT_MAX"
  proof -
    have inv: "sq_inv (length q) q (sq_meaning [], length (sq_text (sq_meaning [])))"
      by (simp add: empty sq_inv_def searchq_ok_def)
    have parse: "sq_loop q (searchq_empty, 0) = Some (Inr (sq_meaning (sq_items q)))"
      using sq_loop_meaning [OF q inv] by (simp add: empty)
    obtain tn where "sq_inv (length q) '''' (sq_meaning (sq_items q), tn)"
      using sq_loop_within [OF q inv] parse by (auto simp: empty)
    then have ok: "searchq_ok (sq_meaning (sq_items q))" by (simp add: sq_inv_def)
    have "length (filter sq_constrains (sq_items q)) < 256" using sq_items_length [of q] q by linarith
    then have "unat (of_nat (length (filter sq_constrains (sq_items q))) :: u8) = length (filter sq_constrains (sq_items q))"
      by (simp add: unat_of_nat)
    then show ?thesis using parse ok by (simp add: oc_searchq_parse_def sq_meaning_def [of "sq_items q"])
  qed
  ultimately show ?thesis by blast
qed

theorem searchq_parse_exact_witness:
  "length ''from:ann has:file new  rollout'' < OC_SQ_TEXT_MAX \<and>
   oc_searchq_parse (Some ''from:ann has:file new  rollout'') =
     Some (Inr \<lparr>sq_text = ''new rollout'', sq_from = ''ann'', sq_in = '''', sq_has = 1, sq_before = '''', sq_after = '''', sq_n_filters = 2\<rparr>)"
proof -
  have len: "length ''from:ann has:file new  rollout'' < OC_SQ_TEXT_MAX" by simp
  moreover have "sq_meaning (sq_items ''from:ann has:file new  rollout'') =
      \<lparr>sq_text = ''new rollout'', sq_from = ''ann'', sq_in = '''', sq_has = 1, sq_before = '''', sq_after = '''', sq_n_filters = 2\<rparr>"
    by code_simp
  ultimately show ?thesis using searchq_parse_exact [of "''from:ann has:file new  rollout''"] by simp
qed

section \<open>A query that is too long\<close>

definition plain_word :: "string \<Rightarrow> bool" where
  "plain_word w \<longleftrightarrow> w \<noteq> '''' \<and> list_all (\<lambda>c. \<not> sq_blank c \<and> c \<noteq> CHR '':'') w \<and> hd w \<noteq> sq_quote"

text \<open>No operator begins in a word without a colon, with a blank or nothing after it.\<close>

lemma ascii_lower_colon: "ascii_lower c = CHR '':'' \<longleftrightarrow> c = CHR '':''"
proof (cases "char_between (CHR ''A'') (CHR ''Z'') c")
  case True
  then have "of_char (ascii_lower c) = (of_char c + 32 :: nat)" "(65 :: nat) \<le> of_char c"
    by (simp_all add: ascii_lower_def char_between_def)
  then have "of_char (ascii_lower c) \<noteq> (58 :: nat)" "of_char c \<noteq> (58 :: nat)" by linarith+
  then show ?thesis by auto
qed (simp add: ascii_lower_def)

lemma sq_prefix_word:
  assumes "list_all (\<lambda>c. c \<noteq> CHR '':'') w" "r = '''' \<or> (\<exists>c r'. r = c # r' \<and> sq_blank c)" "CHR '':'' \<in> set pfx"
    "\<forall>c \<in> set pfx. ascii_lower c \<noteq> CHR '' '' \<and> ascii_lower c \<noteq> CHR 0x09"
  shows "sq_prefix (w @ r) pfx i = 0"
  using assms
proof (induction w arbitrary: pfx i)
  case Nil
  have "ascii_lower CHR '' '' = CHR '' ''" "ascii_lower CHR 0x09 = CHR 0x09" by code_simp+
  with Nil show ?case by (cases pfx; cases r) auto
next
  case (Cons c w)
  have "ascii_lower CHR '':'' = CHR '':''" by code_simp
  then show ?case using Cons ascii_lower_colon [of c] by (cases pfx) auto
qed

lemma token_word:
  assumes "plain_word w" "length w < 512" "r = '''' \<or> (\<exists>r'. r = CHR '' '' # r')"
  shows "sq_token (w @ r) st = map_option (Pair r) (sq_word w st)"
proof -
  have w: "list_all (\<lambda>c. c \<noteq> CHR '':'') w" using assms(1) by (auto simp: plain_word_def list_all_iff)
  have r: "r = '''' \<or> (\<exists>c r'. r = c # r' \<and> sq_blank c)" using assms(3) by auto
  have "map ascii_lower ''from:inhasbeforeafteron'' = ''from:inhasbeforeafteron''" by code_simp
  then have pfx: "sq_prefix (w @ r) ''from:'' 0 = 0" "sq_prefix (w @ r) ''in:'' 0 = 0" "sq_prefix (w @ r) ''has:'' 0 = 0"
    "sq_prefix (w @ r) ''before:'' 0 = 0" "sq_prefix (w @ r) ''after:'' 0 = 0" "sq_prefix (w @ r) ''on:'' 0 = 0"
    by (simp_all add: sq_prefix_word [OF w r])
  have all: "\<forall>c \<in> set w. \<not> sq_blank c" using assms(1) by (simp add: plain_word_def list_all_iff)
  have "takeWhile (\<lambda>c. \<not> sq_blank c) (w @ r) = w" "dropWhile (\<lambda>c. \<not> sq_blank c) (w @ r) = r"
    by (rule disjE [OF assms(3)]; use all in \<open>force simp: dropWhile_append2 takeWhile_append2\<close>)+
  moreover obtain c w' where "w = c # w'" "c \<noteq> sq_quote" using assms(1) by (cases w) (auto simp: plain_word_def)
  ultimately have "sq_take 512 (w @ r) = (w, r)" using assms(2) by (simp add: sq_take_def)
  then show ?thesis using assms(1) by (cases st) (simp add: sq_token_def pfx plain_word_def)
qed

lemma loop_word:
  assumes "plain_word w" "length w < 512" "r = '''' \<or> (\<exists>r'. r = CHR '' '' # r')" "b = '''' \<or> b = '' ''"
  shows "sq_loop (b @ w @ r) st = (case sq_word w st of None \<Rightarrow> Some (Inl Sq_Outside) | Some st' \<Rightarrow> sq_loop r st')"
proof -
  obtain c w' where w: "w = c # w'" "\<not> sq_blank c" using assms(1) by (cases w) (auto simp: plain_word_def)
  have "dropWhile (\<lambda>c. sq_blank c) (b @ w @ r) = w @ r" using w assms(4) by auto
  then show ?thesis using token_word [OF assms(1-3), of st] w by (subst sq_loop.simps) (simp split: option.split)
qed

text \<open>
  C27: The offset leaves the buffer. Of three words of which the first two do not fit into the text buffer together, the
  third is written outside it, although the query is made of ordinary words shorter than the buffer.
\<close>

theorem searchq_overruns:
  assumes words: "plain_word a" "plain_word b" "plain_word c" and short: "length a < 512" "length b < 512" "length c < 512"
    and long: "length a + length b > OC_SQ_TEXT_MAX"
  shows "oc_searchq_parse (Some (a @ '' '' @ b @ '' '' @ c)) = Some (Inl Sq_Outside)"
proof -
  have a: "0 < length a" using words(1) by (simp add: plain_word_def)
  obtain sq where one: "sq_word a (searchq_empty, 0) = Some (sq, length a)" by (simp add: sq_word_def)
  have "\<exists>sq' tn. sq_word b (sq, length a) = Some (sq', tn) \<and> tn > 512"
    using short long a by (cases "length a < 511") (simp_all add: sq_word_def)
  then obtain sq' tn where two: "sq_word b (sq, length a) = Some (sq', tn)" "tn > 512" by blast
  have "sq_word c (sq', tn) = None" using two(2) by (simp add: sq_word_def)
  then show ?thesis
    using loop_word [OF words(1) short(1), of "'' '' @ b @ '' '' @ c" "''''"] loop_word [OF words(2) short(2), of "'' '' @ c" "'' ''"]
      loop_word [OF words(3) short(3), of "''''" "'' ''"] one two(1)
    by (simp add: oc_searchq_parse_def)
qed

theorem searchq_overruns_witness:
  "oc_searchq_parse (Some (replicate 300 CHR ''a'' @ '' '' @ replicate 300 CHR ''b'' @ '' '' @ ''c'')) = Some (Inl Sq_Outside)"
proof -
  have "plain_word (replicate 300 CHR ''a'')" "plain_word (replicate 300 CHR ''b'')" "plain_word ''c''"
    by (simp_all add: plain_word_def list_all_iff)
  then show ?thesis by (rule searchq_overruns) simp_all
qed

end
