(* ===== verification/Spec2Isabelle.thy ===== *)
theory Spec2Isabelle
  imports Codec_Session Codec_Messages Codec_Channels Codec_Content Framebuf Websocket Open_Addressing Idmap Srccount Client_Delivery Client_Lists Rate_Limit Webhook Device_Flow Fan_Out Web_Steps Second_Factor Join_Rules Search_Query
begin

text \<open>
  A verification development for openchime, a self-hosted chat: a daemon (\<^verbatim>\<open>src/daemon\<close>), the
  clients (\<^verbatim>\<open>src/client\<close>) and the code they share (\<^verbatim>\<open>src/shared\<close>). Paths below are relative to \<^verbatim>\<open>src\<close>.

  \<^bold>\<open>The program.\<close> The daemon's I/O threads read connections, over TLS or over WebSocket, and cut the bytes into frames
  (\<^verbatim>\<open>daemon/ioloop.c\<close>, \<^verbatim>\<open>shared/framebuf.c\<close>). The network loop (\<^verbatim>\<open>daemon/netloop.c\<close>) answers a frame itself or hands it to the
  thread that owns the database (\<^verbatim>\<open>daemon/dbwriter.c\<close>), and fans results out to connections, which it finds through id
  maps. Small tables guard its doors: connections per address, rate limits, device codes, second-step tickets,
  one-time codes and join rules. A client has a network thread (\<^verbatim>\<open>client/core/net.c\<close>) that turns frames into events,
  and a view-model (\<^verbatim>\<open>client/core/model.c\<close>) that folds the events into what the user interface draws. Both sides
  encode and decode messages with \<^verbatim>\<open>shared/protocol.c\<close>, and share the scanners of text and the notification rule.

  \<^bold>\<open>Library theories.\<close> \<open>OC_Prelude\<close> has words, byte strings and the rule collections; \<open>Ctext\<close> C text; \<open>Array_Lists\<close> the
  loops over counted arrays; \<open>Slot_Tables\<close> fixed arrays of slots; \<open>Open_Addressing\<close> linear probing with backward-shift
  deletion. \<open>Machines\<close> has the contracts \<open>machine\<close> and \<open>recorder\<close>, which lift what each step keeps to whole runs.

  \<^bold>\<open>Wire format.\<close> \<open>Protocol_Constants\<close> has the numbers of \<^verbatim>\<open>shared/protocol.h\<close>; \<open>Wire\<close> the cursors, the frame bracket, the
  frame parser and version negotiation of \<^verbatim>\<open>shared/protocol.c\<close>, and the interfaces \<open>wire_field\<close>, \<open>wire_entry\<close>, \<open>frame_codec\<close>
  and \<open>canonical_codec\<close>. \<open>Codec_Session\<close>, \<open>Codec_Messages\<close>, \<open>Codec_Channels\<close> and \<open>Codec_Content\<close> model 83 of its 242 encoders,
  with their decoders; a struct is a record, and each pair interprets one of the two codec interfaces. Shown: what
  an encoder accepts its decoder returns; for messages without an optional tail no two payloads decode to one message,
  and encoding it again gives the frame unless there is no room for it; every encoder writes a whole frame or nothing
  and stays in its buffer; error numbers are distinct and have their texts. The
  properties of canonical decoding and of all-or-nothing encoding span the four codec theories and are in this theory.

  \<^bold>\<open>Transport.\<close> \<open>Framebuf\<close> models \<^verbatim>\<open>shared/framebuf.c\<close> and the reading loop of \<^verbatim>\<open>read_some\<close>; \<open>Websocket\<close> models \<^verbatim>\<open>oc_ws_parse\<close> of
  \<^verbatim>\<open>daemon/http.c\<close> and \<^verbatim>\<open>ws_bytes\<close> of \<^verbatim>\<open>daemon/ioloop.c\<close>. Shown: reassembly does not depend on how the network or the browser cut
  the stream, as long as a WebSocket payload fits one read; a longer one can end a legal connection.

  \<^bold>\<open>Tables of the daemon.\<close> \<open>Idmap\<close> (\<^verbatim>\<open>daemon/idmap.c\<close>) refines a finite map, stated as \<open>bounded_map\<close>. \<open>Srccount\<close>
  (\<^verbatim>\<open>daemon/srccount.c\<close>) counts a history of connections, IPv6 by /64. \<open>Rate_Limit\<close> (\<^verbatim>\<open>daemon/ratelimit.c\<close>) refines a map from keys
  to windows, stated as \<open>window_limiter\<close>, and admits at most twice its limit in any span of one window while its clock does not go back, and everything
  while it does; \<open>Webhook\<close> is the
  admission of webhook posts of \<^verbatim>\<open>daemon/netloop.c\<close> on top of it. \<open>Device_Codes\<close> and \<open>Device_Flow\<close> (\<^verbatim>\<open>daemon/devicecodes.c\<close>): no token
  without an approval, the flow completes, and the invariant of the table. \<open>Web_Steps\<close> (\<^verbatim>\<open>daemon/webstep.c\<close>): a ticket
  stands exactly as long as it should. \<open>Second_Factor\<close> (\<^verbatim>\<open>daemon/totp.c\<close>, \<^verbatim>\<open>check_totp\<close> of \<^verbatim>\<open>daemon/dbwriter.c\<close>): a code is good once.
  \<open>Join_Rules\<close> (\<^verbatim>\<open>daemon/joinrules.c\<close>): the verdict on an identity is what the text of the rules says.

  \<^bold>\<open>Text and notification.\<close> \<open>Mention\<close> (\<^verbatim>\<open>shared/mention.c\<close>): the scans are complete and exact. \<open>Search_Query\<close>
  (\<^verbatim>\<open>shared/searchq.c\<close>): parsing always ends, gives exactly what the items of the query say when the query is shorter than
  the text buffer, and writes outside it for some longer ones. \<open>Notify\<close> (\<^verbatim>\<open>shared/notify.c\<close>): the quiet minutes are the ones outside a cyclic interval.

  \<^bold>\<open>Client.\<close> \<open>Client_Data\<close> has the records of \<^verbatim>\<open>client/core/model.h\<close> and the events of \<^verbatim>\<open>client/core/event.h\<close>; \<open>Client_Chat\<close> the reducers
  of \<^verbatim>\<open>client/core/model.c\<close> with 32 arms of \<^verbatim>\<open>oc_model_apply\<close>; \<open>Client_Transcript\<close> and \<open>Client_Invariant\<close> their invariant and that
  every run keeps it; \<open>Client_Delivery\<close> what transcripts are after any deliveries, which in all but the actions does not depend on their
  order, and when unread counts are exact; \<open>Conversation\<close> that all events together leave what they tell of each message; \<open>Client_Lists\<close> what a
  whole answer leaves in a list, stated as \<open>numbered_list\<close>. \<open>Client_Dispatch\<close> models \<^verbatim>\<open>dispatch\<close> of \<^verbatim>\<open>client/core/net.c\<close> with
  thirteen frame types. \<open>Fan_Out\<close> joins both ends: from the daemon's encoders over any cut of the stream to the
  client's transcript.

  \<^bold>\<open>Conventions.\<close> Unsigned integers are words of their width; a \<^verbatim>\<open>size_t\<close> that counts bytes of a buffer is a \<open>nat\<close>; a pointer
  that may be \<^verbatim>\<open>NULL\<close> is an \<open>option\<close>; an array with its count is a list. Times, random bytes, SHA-256, HMAC-SHA1, AES-GCM and
  the address conversions of the system are arguments. Two arguments stand for code of the repository that is left
  out: \<^verbatim>\<open>oc_rt_flatten_at\<close> (\<open>flat\<close>) and \<^verbatim>\<open>oc_http_webhook_text\<close>; a third, \<open>others\<close>, for the arms of \<^verbatim>\<open>dispatch\<close> that are not modelled.
  One-line constants are abbreviations.

  \<^bold>\<open>Bounds and termination.\<close> \<open>probe\<close> and \<open>shift_back\<close> have the number of slots as fuel; it is never used up in a table with a
  free slot, and the histories of the properties keep one free. The loop of \<^verbatim>\<open>oc_searchq_parse\<close> is a partial function
  that is proved to return on every query. All other recursions are total. Runs are lists of any length.

  \<^bold>\<open>Not modelled.\<close> Allocation that fails, apart from a \<^verbatim>\<open>realloc\<close> to zero bytes; the scheduling of threads. The jobs of
  \<^verbatim>\<open>daemon/dbwriter.c\<close> and \<^verbatim>\<open>daemon/migrate.c\<close>, except \<^verbatim>\<open>check_totp\<close>: they are SQL. The rest of \<^verbatim>\<open>daemon/netloop.c\<close> and \<^verbatim>\<open>daemon/ioloop.c\<close>: the
  first for size, the second being system calls. TLS, certificates, tokens, passkeys, passwords and end-to-end
  encryption: calls to cryptographic libraries, whose promises are not functional. Blobs, push, mail, previews, summaries,
  speech, calls and media: other services, models, devices and codecs. The graphical and the terminal client: drawing.
  Left out for size only: the other 159 encoders, the other arms of \<^verbatim>\<open>oc_model_apply\<close> and \<^verbatim>\<open>dispatch\<close>, the parser of message
  markup (\<^verbatim>\<open>shared/richtext.c\<close>), the routes of \<^verbatim>\<open>daemon/http.c\<close>, the policies of \<^verbatim>\<open>daemon/pwpolicy.c\<close>, \<^verbatim>\<open>daemon/roles.c\<close>,
  \<^verbatim>\<open>daemon/demolimits.c\<close>, \<^verbatim>\<open>daemon/storage.c\<close> and \<^verbatim>\<open>daemon/proxyproto.c\<close>, the JSON and CBOR readers, \<^verbatim>\<open>daemon/sum_core.c\<close>, and completion,
  tables and emoticons in \<^verbatim>\<open>client/core\<close>.
\<close>

section \<open>Properties of the whole message set\<close>

text \<open>
  C13: each of the 83 modelled encoders is all or nothing and stays inside its buffer, whatever message it is given and
  whatever the state of the buffer: the capacity is unchanged, a buffer that was within its capacity still is, and when
  the encoder does not return OC_OK (no room, an earlier overflow, a frame or a body above the limit, a string longer
  than its length prefix can say) the bytes already queued are exactly as they were. The other 159 encoders of
  protocol.c are not modelled.
\<close>

theorem encoders_atomic:
  "frame_atomic oc_encode_hello \<and>
   frame_atomic oc_encode_welcome \<and>
   frame_atomic oc_encode_reject \<and>
   frame_atomic (\<lambda>w. oc_encode_auth_challenge w version) \<and>
   frame_atomic (\<lambda>w. oc_encode_auth_begin w version) \<and>
   frame_atomic (\<lambda>w. oc_encode_auth_redirect w version) \<and>
   frame_atomic (\<lambda>w. oc_encode_auth_device_begin w version) \<and>
   frame_atomic (\<lambda>w. oc_encode_auth_device w version) \<and>
   frame_atomic (\<lambda>w. oc_encode_auth_device_poll w version) \<and>
   frame_atomic (\<lambda>w. oc_encode_auth_device_token w version) \<and>
   frame_atomic (\<lambda>w. oc_encode_auth w version) \<and>
   frame_atomic (\<lambda>w. oc_encode_auth_continue w version) \<and>
   frame_atomic (\<lambda>w. oc_encode_auth_ok w version) \<and>
   frame_atomic (\<lambda>w. oc_encode_workspace_info w version) \<and>
   frame_atomic (\<lambda>w. oc_encode_logout w version) \<and>
   frame_atomic (\<lambda>w. oc_encode_error w version) \<and>
   frame_atomic (\<lambda>w. oc_encode_send w version) \<and>
   frame_atomic (\<lambda>w. oc_encode_send_ack w version) \<and>
   frame_atomic (\<lambda>w. oc_encode_broadcast w version) \<and>
   frame_atomic (\<lambda>w. oc_encode_msg_restored w version) \<and>
   frame_atomic (\<lambda>w. oc_encode_client_ack w version) \<and>
   frame_atomic (\<lambda>w. oc_encode_read_cursor w version) \<and>
   frame_atomic (\<lambda>w. oc_encode_edit w version) \<and>
   frame_atomic (\<lambda>w. oc_encode_msg_edited w version) \<and>
   frame_atomic (\<lambda>w. oc_encode_delete w version) \<and>
   frame_atomic (\<lambda>w. oc_encode_msg_deleted w version) \<and>
   frame_atomic (\<lambda>w. oc_encode_react w version) \<and>
   frame_atomic (\<lambda>w. oc_encode_reaction_updated w version) \<and>
   frame_atomic (\<lambda>w. oc_encode_pin w version) \<and>
   frame_atomic (\<lambda>w. oc_encode_pin_updated w version) \<and>
   frame_atomic (\<lambda>w. oc_encode_unfurl w version) \<and>
   frame_atomic (\<lambda>w. oc_encode_forward w version) \<and>
   frame_atomic (\<lambda>w. oc_encode_action w version) \<and>
   frame_atomic (\<lambda>w. oc_encode_pinned_msg w version) \<and>
   frame_atomic (\<lambda>w. oc_encode_send_reply w version) \<and>
   frame_atomic (\<lambda>w. oc_encode_thread_reply w version) \<and>
   frame_atomic (\<lambda>w. oc_encode_thread_meta w version) \<and>
   frame_atomic (\<lambda>w. oc_encode_history_request w version) \<and>
   frame_atomic (\<lambda>w. oc_encode_backfill_done w version) \<and>
   frame_atomic (\<lambda>w. oc_encode_restore w version) \<and>
   frame_atomic (\<lambda>w. oc_encode_create_channel w version) \<and>
   frame_atomic (\<lambda>w. oc_encode_update_channel w version) \<and>
   frame_atomic (\<lambda>w. oc_encode_join_channel w version) \<and>
   frame_atomic (\<lambda>w. oc_encode_leave_channel w version) \<and>
   frame_atomic (\<lambda>w. oc_encode_invite_to_channel w version) \<and>
   frame_atomic (\<lambda>w. oc_encode_remove_from_channel w version) \<and>
   frame_atomic (\<lambda>w. oc_encode_open_dm w version) \<and>
   frame_atomic (\<lambda>w. oc_encode_channel_info w version) \<and>
   frame_atomic (\<lambda>w. oc_encode_channel_list w version) \<and>
   frame_atomic (\<lambda>w. oc_encode_list_members w version) \<and>
   frame_atomic (\<lambda>w. oc_encode_member_entry w version) \<and>
   frame_atomic (\<lambda>w. oc_encode_members w version) \<and>
   frame_atomic (\<lambda>w. oc_encode_set_read_cursor w version) \<and>
   frame_atomic (\<lambda>w. oc_encode_presence_update w version) \<and>
   frame_atomic (\<lambda>w. oc_encode_typing_update w version) \<and>
   frame_atomic (\<lambda>w. oc_encode_set_mute w version) \<and>
   frame_atomic (\<lambda>w. oc_encode_user_list w version) \<and>
   frame_atomic (\<lambda>w. oc_encode_set_role w version) \<and>
   frame_atomic (\<lambda>w. oc_encode_invite_user w version) \<and>
   frame_atomic (\<lambda>w. oc_encode_invite_created w version) \<and>
   frame_atomic (\<lambda>w. oc_encode_set_profile w version) \<and>
   frame_atomic (\<lambda>w. oc_encode_profile_info w version) \<and>
   frame_atomic (\<lambda>w. oc_encode_post_poll w version) \<and>
   frame_atomic (\<lambda>w. oc_encode_vote w version) \<and>
   frame_atomic (\<lambda>w. oc_encode_poll w version) \<and>
   frame_atomic (\<lambda>w. oc_encode_edit_poll w version) \<and>
   frame_atomic (\<lambda>w. oc_encode_list_poll_voters w version) \<and>
   frame_atomic (\<lambda>w. oc_encode_reactions w version) \<and>
   frame_atomic (\<lambda>w. oc_encode_backfill_request w version) \<and>
   frame_atomic (\<lambda>w. oc_encode_search w version) \<and>
   frame_atomic (\<lambda>w. oc_encode_search_results w version) \<and>
   frame_atomic (\<lambda>w. oc_encode_upload_begin w version) \<and>
   frame_atomic (\<lambda>w. oc_encode_upload_ready w version) \<and>
   frame_atomic (\<lambda>w. oc_encode_upload_chunk w version) \<and>
   frame_atomic (\<lambda>w. oc_encode_upload_ack w version) \<and>
   frame_atomic (\<lambda>w. oc_encode_upload_end w version) \<and>
   frame_atomic (\<lambda>w. oc_encode_upload_ok w version) \<and>
   frame_atomic (\<lambda>w. oc_encode_download_begin w version) \<and>
   frame_atomic (\<lambda>w. oc_encode_download_info w version) \<and>
   frame_atomic (\<lambda>w. oc_encode_download_chunk w version) \<and>
   frame_atomic (\<lambda>w. oc_encode_download_end w version) \<and>
   frame_atomic (\<lambda>w. oc_encode_transfer_cancel w version) \<and>
   frame_atomic (\<lambda>w. oc_encode_file_entry w version)"
  by (intro conjI TrueI session_atomic message_atomic channel_atomic content_atomic
      hello_codec.atomic welcome_codec.atomic reject_codec.atomic 
        auth_begin_codec.atomic auth_redirect_codec.atomic auth_device_begin_codec.atomic
        auth_device_codec.atomic auth_device_poll_codec.atomic auth_device_token_codec.atomic
        auth_codec.atomic auth_continue_codec.atomic auth_ok_codec.atomic
        workspace_info_codec.atomic logout_codec.atomic error_codec.atomic 
        
        client_ack_codec.atomic read_cursor_codec.atomic edit_codec.atomic
        msg_edited_codec.atomic delete_codec.atomic msg_deleted_codec.atomic react_codec.atomic
        reaction_updated_codec.atomic pin_codec.atomic pin_updated_codec.atomic
        unfurl_codec.atomic forward_codec.atomic action_codec.atomic pinned_msg_codec.atomic
        thread_meta_codec.atomic
        history_request_codec.atomic backfill_done_codec.atomic restore_codec.atomic
        create_channel_codec.atomic update_channel_codec.atomic join_channel_codec.atomic
        leave_channel_codec.atomic invite_to_channel_codec.atomic
        remove_from_channel_codec.atomic open_dm_codec.atomic 
        list_members_codec.atomic member_entry_codec.atomic
        members_codec.atomic set_read_cursor_codec.atomic presence_update_codec.atomic
        typing_update_codec.atomic set_mute_codec.atomic 
        set_role_codec.atomic invite_user_codec.atomic invite_created_codec.atomic
        set_profile_codec.atomic profile_info_codec.atomic 
        list_poll_voters_codec.atomic
        search_codec.atomic
        upload_ready_codec.atomic
        upload_chunk_codec.atomic upload_ack_codec.atomic upload_end_codec.atomic
        upload_ok_codec.atomic download_begin_codec.atomic download_info_codec.atomic
        download_chunk_codec.atomic download_end_codec.atomic transfer_cancel_codec.atomic
        file_entry_codec.atomic)

text \<open>
  C14: decoding is canonical for the 73 modelled messages that have no optional tail and no list read into an array of the
  caller's: a decoder accepts no two payloads for the same message, and encoding a message it returned appends exactly
  the frame around the payload it was read from. That encoding fails only when the buffer had overflowed before or has
  no room for this frame, the frame is above the size limit, or the body is above OC_MAX_BODY_SIZE, which encoders
  check and decoders do not.
\<close>

theorem decoders_canonical:
  "frame_canonical oc_encode_hello OC_HANDSHAKE_VERSION OC_MSG_HELLO
       oc_decode_hello \<and>
   frame_canonical oc_encode_welcome OC_HANDSHAKE_VERSION OC_MSG_WELCOME
       oc_decode_welcome \<and>
   frame_canonical oc_encode_reject OC_HANDSHAKE_VERSION OC_MSG_REJECT
       oc_decode_reject \<and>
   frame_canonical (\<lambda>w. oc_encode_auth_challenge w version) version OC_MSG_AUTH_CHALLENGE
       oc_decode_auth_challenge \<and>
   frame_canonical (\<lambda>w. oc_encode_auth_begin w version) version OC_MSG_AUTH_BEGIN
       oc_decode_auth_begin \<and>
   frame_canonical (\<lambda>w. oc_encode_auth_redirect w version) version OC_MSG_AUTH_REDIRECT
       oc_decode_auth_redirect \<and>
   frame_canonical (\<lambda>w. oc_encode_auth_device_begin w version) version OC_MSG_AUTH_DEVICE_BEGIN
       oc_decode_auth_device_begin \<and>
   frame_canonical (\<lambda>w. oc_encode_auth_device w version) version OC_MSG_AUTH_DEVICE
       oc_decode_auth_device \<and>
   frame_canonical (\<lambda>w. oc_encode_auth_device_poll w version) version OC_MSG_AUTH_DEVICE_POLL
       oc_decode_auth_device_poll \<and>
   frame_canonical (\<lambda>w. oc_encode_auth_device_token w version) version OC_MSG_AUTH_DEVICE_TOKEN
       oc_decode_auth_device_token \<and>
   frame_canonical (\<lambda>w. oc_encode_auth w version) version OC_MSG_AUTH
       oc_decode_auth \<and>
   frame_canonical (\<lambda>w. oc_encode_auth_continue w version) version OC_MSG_AUTH_CONTINUE
       oc_decode_auth_continue \<and>
   frame_canonical (\<lambda>w. oc_encode_auth_ok w version) version OC_MSG_AUTH_OK
       oc_decode_auth_ok \<and>
   frame_canonical (\<lambda>w. oc_encode_workspace_info w version) version OC_MSG_WORKSPACE_INFO
       oc_decode_workspace_info \<and>
   frame_canonical (\<lambda>w. oc_encode_logout w version) version OC_MSG_LOGOUT
       oc_decode_logout \<and>
   frame_canonical (\<lambda>w. oc_encode_error w version) version OC_MSG_ERROR
       oc_decode_error \<and>
   frame_canonical (\<lambda>w. oc_encode_send_ack w version) version OC_MSG_SEND_ACK
       oc_decode_send_ack \<and>
   frame_canonical (\<lambda>w. oc_encode_client_ack w version) version OC_MSG_CLIENT_ACK
       oc_decode_client_ack \<and>
   frame_canonical (\<lambda>w. oc_encode_read_cursor w version) version OC_MSG_READ_CURSOR
       oc_decode_read_cursor \<and>
   frame_canonical (\<lambda>w. oc_encode_edit w version) version OC_MSG_EDIT
       oc_decode_edit \<and>
   frame_canonical (\<lambda>w. oc_encode_msg_edited w version) version OC_MSG_MSG_EDITED
       oc_decode_msg_edited \<and>
   frame_canonical (\<lambda>w. oc_encode_delete w version) version OC_MSG_DELETE
       oc_decode_delete \<and>
   frame_canonical (\<lambda>w. oc_encode_msg_deleted w version) version OC_MSG_MSG_DELETED
       oc_decode_msg_deleted \<and>
   frame_canonical (\<lambda>w. oc_encode_react w version) version OC_MSG_REACT
       oc_decode_react \<and>
   frame_canonical (\<lambda>w. oc_encode_reaction_updated w version) version OC_MSG_REACTION_UPDATED
       oc_decode_reaction_updated \<and>
   frame_canonical (\<lambda>w. oc_encode_pin w version) version OC_MSG_PIN
       oc_decode_pin \<and>
   frame_canonical (\<lambda>w. oc_encode_pin_updated w version) version OC_MSG_PIN_UPDATED
       oc_decode_pin_updated \<and>
   frame_canonical (\<lambda>w. oc_encode_unfurl w version) version OC_MSG_UNFURL
       oc_decode_unfurl \<and>
   frame_canonical (\<lambda>w. oc_encode_forward w version) version OC_MSG_FORWARD
       oc_decode_forward \<and>
   frame_canonical (\<lambda>w. oc_encode_action w version) version OC_MSG_ACTION
       oc_decode_action \<and>
   frame_canonical (\<lambda>w. oc_encode_pinned_msg w version) version OC_MSG_PINNED_MSG
       oc_decode_pinned_msg \<and>
   frame_canonical (\<lambda>w. oc_encode_thread_meta w version) version OC_MSG_THREAD_META
       oc_decode_thread_meta \<and>
   frame_canonical (\<lambda>w. oc_encode_history_request w version) version OC_MSG_HISTORY_REQUEST
       oc_decode_history_request \<and>
   frame_canonical (\<lambda>w. oc_encode_backfill_done w version) version OC_MSG_BACKFILL_DONE
       oc_decode_backfill_done \<and>
   frame_canonical (\<lambda>w. oc_encode_restore w version) version OC_MSG_RESTORE
       oc_decode_restore \<and>
   frame_canonical (\<lambda>w. oc_encode_create_channel w version) version OC_MSG_CREATE_CHANNEL
       oc_decode_create_channel \<and>
   frame_canonical (\<lambda>w. oc_encode_update_channel w version) version OC_MSG_UPDATE_CHANNEL
       oc_decode_update_channel \<and>
   frame_canonical (\<lambda>w. oc_encode_join_channel w version) version OC_MSG_JOIN_CHANNEL
       oc_decode_join_channel \<and>
   frame_canonical (\<lambda>w. oc_encode_leave_channel w version) version OC_MSG_LEAVE_CHANNEL
       oc_decode_leave_channel \<and>
   frame_canonical (\<lambda>w. oc_encode_invite_to_channel w version) version OC_MSG_INVITE_TO_CHANNEL
       oc_decode_invite_to_channel \<and>
   frame_canonical (\<lambda>w. oc_encode_remove_from_channel w version) version OC_MSG_REMOVE_FROM_CHANNEL
       oc_decode_remove_from_channel \<and>
   frame_canonical (\<lambda>w. oc_encode_open_dm w version) version OC_MSG_OPEN_DM
       oc_decode_open_dm \<and>
   frame_canonical (\<lambda>w. oc_encode_channel_info w version) version OC_MSG_CHANNEL_INFO
       oc_decode_channel_info \<and>
   frame_canonical (\<lambda>w. oc_encode_list_members w version) version OC_MSG_LIST_MEMBERS
       oc_decode_list_members \<and>
   frame_canonical (\<lambda>w. oc_encode_member_entry w version) version OC_MSG_MEMBER_ENTRY
       oc_decode_member_entry \<and>
   frame_canonical (\<lambda>w. oc_encode_members w version) version OC_MSG_MEMBERS
       oc_decode_members \<and>
   frame_canonical (\<lambda>w. oc_encode_set_read_cursor w version) version OC_MSG_SET_READ_CURSOR
       oc_decode_set_read_cursor \<and>
   frame_canonical (\<lambda>w. oc_encode_presence_update w version) version OC_MSG_PRESENCE_UPDATE
       oc_decode_presence_update \<and>
   frame_canonical (\<lambda>w. oc_encode_typing_update w version) version OC_MSG_TYPING_UPDATE
       oc_decode_typing_update \<and>
   frame_canonical (\<lambda>w. oc_encode_set_mute w version) version OC_MSG_SET_MUTE
       oc_decode_set_mute \<and>
   frame_canonical (\<lambda>w. oc_encode_set_role w version) version OC_MSG_SET_ROLE
       oc_decode_set_role \<and>
   frame_canonical (\<lambda>w. oc_encode_invite_user w version) version OC_MSG_INVITE_USER
       oc_decode_invite_user \<and>
   frame_canonical (\<lambda>w. oc_encode_invite_created w version) version OC_MSG_INVITE_CREATED
       oc_decode_invite_created \<and>
   frame_canonical (\<lambda>w. oc_encode_set_profile w version) version OC_MSG_SET_PROFILE
       oc_decode_set_profile \<and>
   frame_canonical (\<lambda>w. oc_encode_profile_info w version) version OC_MSG_PROFILE_INFO
       oc_decode_profile_info \<and>
   frame_canonical (\<lambda>w. oc_encode_post_poll w version) version OC_MSG_POST_POLL
       oc_decode_post_poll \<and>
   frame_canonical (\<lambda>w. oc_encode_vote w version) version OC_MSG_VOTE
       oc_decode_vote \<and>
   frame_canonical (\<lambda>w. oc_encode_poll w version) version OC_MSG_POLL
       oc_decode_poll \<and>
   frame_canonical (\<lambda>w. oc_encode_edit_poll w version) version OC_MSG_EDIT_POLL
       oc_decode_edit_poll \<and>
   frame_canonical (\<lambda>w. oc_encode_list_poll_voters w version) version OC_MSG_LIST_POLL_VOTERS
       oc_decode_list_poll_voters \<and>
   frame_canonical (\<lambda>w. oc_encode_search w version) version OC_MSG_SEARCH
       oc_decode_search \<and>
   frame_canonical (\<lambda>w. oc_encode_upload_begin w version) version OC_MSG_UPLOAD_BEGIN
       oc_decode_upload_begin \<and>
   frame_canonical (\<lambda>w. oc_encode_upload_ready w version) version OC_MSG_UPLOAD_READY
       oc_decode_upload_ready \<and>
   frame_canonical (\<lambda>w. oc_encode_upload_chunk w version) version OC_MSG_UPLOAD_CHUNK
       oc_decode_upload_chunk \<and>
   frame_canonical (\<lambda>w. oc_encode_upload_ack w version) version OC_MSG_UPLOAD_ACK
       oc_decode_upload_ack \<and>
   frame_canonical (\<lambda>w. oc_encode_upload_end w version) version OC_MSG_UPLOAD_END
       oc_decode_upload_end \<and>
   frame_canonical (\<lambda>w. oc_encode_upload_ok w version) version OC_MSG_UPLOAD_OK
       oc_decode_upload_ok \<and>
   frame_canonical (\<lambda>w. oc_encode_download_begin w version) version OC_MSG_DOWNLOAD_BEGIN
       oc_decode_download_begin \<and>
   frame_canonical (\<lambda>w. oc_encode_download_info w version) version OC_MSG_DOWNLOAD_INFO
       oc_decode_download_info \<and>
   frame_canonical (\<lambda>w. oc_encode_download_chunk w version) version OC_MSG_DOWNLOAD_CHUNK
       oc_decode_download_chunk \<and>
   frame_canonical (\<lambda>w. oc_encode_download_end w version) version OC_MSG_DOWNLOAD_END
       oc_decode_download_end \<and>
   frame_canonical (\<lambda>w. oc_encode_transfer_cancel w version) version OC_MSG_TRANSFER_CANCEL
       oc_decode_transfer_cancel \<and>
   frame_canonical (\<lambda>w. oc_encode_file_entry w version) version OC_MSG_FILE_ENTRY
       oc_decode_file_entry"
  by (intro conjI
      hello_codec.canonical welcome_codec.canonical reject_codec.canonical
        auth_challenge_codec.canonical auth_begin_codec.canonical auth_redirect_codec.canonical
        auth_device_begin_codec.canonical auth_device_codec.canonical
        auth_device_poll_codec.canonical auth_device_token_codec.canonical auth_codec.canonical
        auth_continue_codec.canonical auth_ok_codec.canonical workspace_info_codec.canonical
        logout_codec.canonical error_codec.canonical send_ack_codec.canonical
        client_ack_codec.canonical read_cursor_codec.canonical edit_codec.canonical
        msg_edited_codec.canonical delete_codec.canonical msg_deleted_codec.canonical
        react_codec.canonical reaction_updated_codec.canonical pin_codec.canonical
        pin_updated_codec.canonical unfurl_codec.canonical forward_codec.canonical
        action_codec.canonical pinned_msg_codec.canonical thread_meta_codec.canonical
        history_request_codec.canonical backfill_done_codec.canonical restore_codec.canonical
        create_channel_codec.canonical update_channel_codec.canonical
        join_channel_codec.canonical leave_channel_codec.canonical
        invite_to_channel_codec.canonical remove_from_channel_codec.canonical
        open_dm_codec.canonical channel_info_codec.canonical list_members_codec.canonical
        member_entry_codec.canonical members_codec.canonical set_read_cursor_codec.canonical
        presence_update_codec.canonical typing_update_codec.canonical set_mute_codec.canonical
        set_role_codec.canonical invite_user_codec.canonical invite_created_codec.canonical
        set_profile_codec.canonical profile_info_codec.canonical post_poll_codec.canonical
        vote_codec.canonical poll_codec.canonical edit_poll_codec.canonical
        list_poll_voters_codec.canonical search_codec.canonical upload_begin_codec.canonical
        upload_ready_codec.canonical upload_chunk_codec.canonical upload_ack_codec.canonical
        upload_end_codec.canonical upload_ok_codec.canonical download_begin_codec.canonical
        download_info_codec.canonical download_chunk_codec.canonical
        download_end_codec.canonical transfer_cancel_codec.canonical file_entry_codec.canonical)

end
